(* ===== verification/Prelude.thy ===== *)
theory Prelude
  imports Main "HOL-Library.Word"
begin

text \<open>
  Shared vocabulary of the development: Go errors as values, the few functions of the Go
  standard library that the components use on strings (\<open>fmt\<close>, \<open>strings\<close>), sums as
  results, and the generic lemmas about them.
\<close>

named_theorems go_defs \<open>definitions of operations that proofs unfold\<close>

unbundle bit_operations_syntax

type_synonym u64 = "64 word"
type_synonym u8 = "8 word"

text \<open>
  Identifiers of the Filecoin world. In Go a \<open>cid.Cid\<close> and an \<open>address.Address\<close> are
  structs holding one string, a \<open>multihash.Multihash\<close> is a byte slice: equality is
  equality of that string.
\<close>

type_synonym cid = string
type_synonym multihash = string
type_synonym address = string

text \<open>
  \<open>time.Time\<close> is the number of nanoseconds since the zero \<open>time.Time\<close>: \<open>IsZero\<close>
  is \<open>t = 0\<close>, \<open>a.Before(b)\<close> is \<open>a < b\<close> and \<open>a.After(b)\<close> is \<open>b < a\<close>.
\<close>

type_synonym time = int

definition time_zero :: time where
  "time_zero = 0"

definition time_IsZero :: "time \<Rightarrow> bool" where
  "time_IsZero t \<longleftrightarrow> t = 0"

definition minute :: int where
  "minute = 60000000000"

section \<open>Errors\<close>

text \<open>
  A Go error carries the text of \<open>Error()\<close> and the chain of sentinel errors that
  \<open>errors.Is\<close> finds in it. \<open>fmt.Errorf\<close> with \<open>%w\<close> keeps the chain of the wrapped
  error, with \<open>%s\<close> it keeps the text only.
\<close>

datatype sentinel =
    DsErrNotFound
  | TypesErrNotFound
  | GocqlErrNotFound
  | ErrSealed
  | ErrValidation
  | ContextCanceled
  | IoEOF
  | IoErrUnexpectedEOF

datatype goerr = GoErr (emsg: string) (echain: "sentinel list")

definition errors_Is :: "goerr \<Rightarrow> sentinel \<Rightarrow> bool" where
  "errors_Is e s \<longleftrightarrow> s \<in> set (echain e)"

definition errorf :: "string \<Rightarrow> goerr" where
  "errorf p = GoErr p []"

definition errorf_w :: "string \<Rightarrow> goerr \<Rightarrow> goerr" where
  "errorf_w p e = GoErr (p @ emsg e) (echain e)"

definition errorf_s :: "string \<Rightarrow> goerr \<Rightarrow> goerr" where
  "errorf_s p e = GoErr (p @ emsg e) []"

lemma errors_Is_errorf [simp]: "\<not> errors_Is (errorf p) s"
  by (simp add: errors_Is_def errorf_def)

lemma errors_Is_errorf_w [simp]: "errors_Is (errorf_w p e) s \<longleftrightarrow> errors_Is e s"
  by (simp add: errors_Is_def errorf_w_def)

lemma errors_Is_errorf_s [simp]: "\<not> errors_Is (errorf_s p e) s"
  by (simp add: errors_Is_def errorf_s_def)

lemma emsg_errorf [simp]: "emsg (errorf p) = p"
  by (simp add: errorf_def)

lemma emsg_errorf_w [simp]: "emsg (errorf_w p e) = p @ emsg e"
  by (simp add: errorf_w_def)

lemma emsg_errorf_s [simp]: "emsg (errorf_s p e) = p @ emsg e"
  by (simp add: errorf_s_def)

text \<open>A computation that may also panic (an index out of range) has three outcomes.\<close>

datatype 'a outcome = Ret 'a | Fail goerr | Panic

section \<open>Strings\<close>

text \<open>\<open>strings.HasPrefix\<close> and \<open>strings.Contains\<close>.\<close>

fun hasPrefix :: "string \<Rightarrow> string \<Rightarrow> bool" where
  "hasPrefix s [] = True"
| "hasPrefix [] (p # ps) = False"
| "hasPrefix (c # s) (p # ps) = (c = p \<and> hasPrefix s ps)"

fun containsStr :: "string \<Rightarrow> string \<Rightarrow> bool" where
  "containsStr [] sub = hasPrefix [] sub"
| "containsStr (c # s) sub = (hasPrefix (c # s) sub \<or> containsStr s sub)"

lemma hasPrefix_append [simp]: "hasPrefix (p @ s) p"
  by (induction p) auto

lemma hasPrefix_iff: "hasPrefix s p \<longleftrightarrow> (\<exists>r. s = p @ r)"
  by (induction s p rule: hasPrefix.induct) auto

lemma containsStr_hasPrefix: "hasPrefix s sub \<Longrightarrow> containsStr s sub"
  by (cases s) auto

lemma containsStr_append_right: "containsStr s sub \<Longrightarrow> containsStr (p @ s) sub"
  by (induction p) auto

lemma containsStr_append_left: "containsStr s sub \<Longrightarrow> containsStr (s @ r) sub"
proof (induction s)
  case Nil
  then have "sub = []" by (cases sub) auto
  then show ?case by (cases r) auto
next
  case (Cons c s)
  have "hasPrefix (c # s) sub \<Longrightarrow> hasPrefix ((c # s) @ r) sub"
    by (metis append.assoc hasPrefix_iff)
  with Cons show ?case by auto
qed

lemma containsStr_self [simp]: "containsStr s s"
  by (rule containsStr_hasPrefix) (metis append_Nil2 hasPrefix_append)

lemma containsStr_mid: "containsStr (p @ sub @ r) sub"
  by (intro containsStr_append_right containsStr_append_left containsStr_self)

text \<open>\<open>fmt\<close>'s \<open>%d\<close> of an unsigned integer.\<close>

definition digit :: "nat \<Rightarrow> char" where
  "digit n = char_of (48 + n)"

fun show_nat :: "nat \<Rightarrow> string" where
  "show_nat n = (if n < 10 then [digit n] else show_nat (n div 10) @ [digit (n mod 10)])"

declare show_nat.simps [simp del]

definition show_u64 :: "u64 \<Rightarrow> string" where
  "show_u64 w = show_nat (unat w)"

definition show_int :: "int \<Rightarrow> string" where
  "show_int i = (if i < 0 then CHR ''-'' # show_nat (nat (- i)) else show_nat (nat i))"

definition is_digit :: "char \<Rightarrow> bool" where
  "is_digit c \<longleftrightarrow> (\<exists>n < 10. c = digit n)"

lemma digit_inj: "m < 10 \<Longrightarrow> n < 10 \<Longrightarrow> digit m = digit n \<Longrightarrow> m = n"
  by (simp add: digit_def char_of_eq_iff take_bit_eq_mod)

lemma show_nat_nonempty [simp]: "show_nat n \<noteq> []"
  by (subst show_nat.simps) simp

lemma show_nat_digits: "c \<in> set (show_nat n) \<Longrightarrow> is_digit c"
proof (induction n rule: show_nat.induct)
  case (1 n)
  show ?case
  proof (cases "n < 10")
    case True
    with "1.prems" show ?thesis by (auto simp: show_nat.simps [of n] is_digit_def)
  next
    case False
    with "1.prems" have "c \<in> set (show_nat (n div 10)) \<or> c = digit (n mod 10)"
      by (auto simp: show_nat.simps [of n])
    moreover have "is_digit (digit (n mod 10))"
      unfolding is_digit_def by (rule exI [of _ "n mod 10"]) simp
    ultimately show ?thesis using "1.IH" [OF False] by auto
  qed
qed

lemma show_nat_inj: "show_nat m = show_nat n \<Longrightarrow> m = n"
proof (induction m arbitrary: n rule: show_nat.induct)
  case (1 m)
  show ?case
  proof (cases "m < 10")
    case m: True
    show ?thesis
    proof (cases "n < 10")
      case True
      with m "1.prems" show ?thesis
        by (auto simp: show_nat.simps [of m] show_nat.simps [of n] dest: digit_inj)
    next
      case False
      have "show_nat (n div 10) \<noteq> []" by (rule show_nat_nonempty)
      with m False "1.prems" show ?thesis
        by (auto simp: show_nat.simps [of m] show_nat.simps [of n])
    qed
  next
    case m: False
    show ?thesis
    proof (cases "n < 10")
      case True
      have "show_nat (m div 10) \<noteq> []" by (rule show_nat_nonempty)
      with m True "1.prems" show ?thesis
        by (auto simp: show_nat.simps [of m] show_nat.simps [of n])
    next
      case False
      with m "1.prems" have "show_nat (m div 10) = show_nat (n div 10)"
        and "digit (m mod 10) = digit (n mod 10)"
        by (auto simp: show_nat.simps [of m] show_nat.simps [of n])
      then have "m div 10 = n div 10" and "m mod 10 = n mod 10"
        using "1.IH" [OF m] by (auto dest: digit_inj [rotated 2])
      then show ?thesis by (metis div_mult_mod_eq)
    qed
  qed
qed

lemma show_u64_inj: "show_u64 a = show_u64 b \<Longrightarrow> a = b"
  by (simp add: show_u64_def unsigned_word_eqI [OF show_nat_inj])

lemma is_digit_code: "is_digit c \<Longrightarrow> \<exists>n < 10. of_char c = (48 + n :: nat)"
  by (auto simp: is_digit_def digit_def take_bit_eq_mod)

lemma digit_not_slash: "is_digit c \<Longrightarrow> c \<noteq> CHR ''/''"
  by (auto dest: is_digit_code)

lemma digit_not_dot: "is_digit c \<Longrightarrow> c \<noteq> CHR ''.''"
  by (auto dest: is_digit_code)

section \<open>Results and lists\<close>

lemma list_take_drop_all: "length xs \<le> n \<Longrightarrow> take n xs = xs"
  by simp

lemma sum_case_Inr: "(case x of Inl e \<Rightarrow> Inl e | Inr a \<Rightarrow> Inr (f a)) = Inr b \<longleftrightarrow> (\<exists>a. x = Inr a \<and> b = f a)"
  by (cases x) auto

section \<open>Counting\<close>

text \<open>How many elements of a list satisfy \<open>P\<close>, and what an update does to it.\<close>

definition cnt :: "('a \<Rightarrow> bool) \<Rightarrow> 'a list \<Rightarrow> nat" where
  "cnt P xs = length (filter P xs)"

lemma cnt_simps [simp]: "cnt P [] = 0" "cnt P (x # xs) = (if P x then Suc (cnt P xs) else cnt P xs)"
  by (simp_all add: cnt_def)

lemma cnt_update:
  "i < length xs \<Longrightarrow>
    cnt P (xs[i := x]) + (if P (xs ! i) then 1 else 0) = cnt P xs + (if P x then 1 else 0)"
proof (induction xs arbitrary: i)
  case (Cons y xs)
  show ?case
  proof (cases i)
    case (Suc k)
    with Cons.prems Cons.IH [of k] show ?thesis by auto
  qed auto
qed simp

lemma cnt_update_same: "i < length xs \<Longrightarrow> P (xs ! i) = P x \<Longrightarrow> cnt P (xs[i := x]) = cnt P xs"
  using cnt_update [of i xs P x] by (auto split: if_splits)

lemma cnt_pos: "i < length xs \<Longrightarrow> P (xs ! i) \<Longrightarrow> 0 < cnt P xs"
  unfolding cnt_def by (metis filter_empty_conv length_greater_0_conv nth_mem)

lemma cnt_mono: "(\<And>x. P x \<Longrightarrow> Q x) \<Longrightarrow> cnt P xs \<le> cnt Q xs"
  by (induction xs) (auto intro: le_SucI)

lemma cnt_zero: "cnt P xs = 0 \<longleftrightarrow> (\<forall>x\<in>set xs. \<not> P x)"
  by (simp add: cnt_def filter_empty_conv)

end
