(* ===== verification/Varint.thy ===== *)
theory Varint
  imports Prelude
begin

text \<open>
  The unsigned varint encoding of Go's \<open>encoding/binary\<close>, which the LevelDB store uses for
  cursors and for the offset and size of a block: \<open>PutUvarint\<close>, \<open>Uvarint\<close> with its
  three results (value, short buffer, overflow) and the fixed buffer of \<open>MaxVarintLen64\<close>
  bytes that the code allocates.
\<close>

definition maxVarintLen64 :: nat where
  "maxVarintLen64 = 10"

lemma unat_drop_7: "unat (drop_bit 7 (x :: u64)) = unat x div 128"
  unfolding unat_drop_bit_eq by (simp add: drop_bit_eq_div)

function putUvarint :: "u64 \<Rightarrow> u8 list" where
  "putUvarint x = (if x < 128 then [ucast x] else (ucast x OR 128) # putUvarint (drop_bit 7 x))"
  by pat_completeness auto
termination
proof (relation "measure unat")
  fix x :: u64
  assume "\<not> x < 128"
  then have "128 \<le> unat x" by (simp add: word_less_nat_alt)
  moreover have "unat (drop_bit 7 x) = unat x div 128"
    by (rule unat_drop_7)
  ultimately show "(drop_bit 7 x, x) \<in> measure unat" by simp
qed simp

declare putUvarint.simps [simp del]

text \<open>
  \<open>make([]byte, binary.MaxVarintLen64)\<close> followed by \<open>PutUvarint(buf, x)\<close>: the
  encoding, padded with zero bytes.
\<close>

definition uvarintBuf :: "u64 \<Rightarrow> u8 list" where
  "uvarintBuf x = putUvarint x @ replicate (maxVarintLen64 - length (putUvarint x)) 0"

text \<open>
  The loop of \<open>Uvarint\<close>: \<open>i\<close> is the index, \<open>s\<close> the shift, \<open>x\<close> the value so far.
  The second component of the result is 0 for a short buffer and negative on overflow.
\<close>

fun uvarintLoop :: "nat \<Rightarrow> nat \<Rightarrow> u64 \<Rightarrow> u8 list \<Rightarrow> u64 \<times> int" where
  "uvarintLoop i s x [] = (0, 0)"
| "uvarintLoop i s x (b # bs) =
     (if i = maxVarintLen64 then (0, - int (i + 1))
      else if b < 128 then
        (if i = maxVarintLen64 - 1 \<and> b > 1 then (0, - int (i + 1))
         else (x OR push_bit s (ucast b), int (i + 1)))
      else uvarintLoop (i + 1) (s + 7) (x OR push_bit s (ucast (b AND 127))) bs)"

definition uvarint :: "u8 list \<Rightarrow> u64 \<times> int" where
  "uvarint buf = uvarintLoop 0 0 0 buf"

section \<open>Round trip\<close>

lemma ucast_small_u8: "x < 128 \<Longrightarrow> ucast (ucast (x :: u64) :: u8) = x"
proof -
  assume "x < 128"
  then have "unat x < 128" by (simp add: word_less_nat_alt)
  then have "unat (ucast (ucast x :: u8) :: u64) = unat x"
    by (simp only: unsigned_ucast_eq unsigned_take_bit_eq) (simp add: take_bit_nat_eq_self)
  then show ?thesis by (rule unsigned_word_eqI)
qed

lemma mask_u8: "(127 :: u8) = mask 7" and mask_u64: "(127 :: u64) = mask 7"
  and exp_u8: "(128 :: u8) = 2 ^ 7"
  by (simp_all add: mask_numeral)

lemma bit_128_u8: "bit (128 :: u8) n \<longleftrightarrow> n = 7"
  unfolding exp_u8 by (simp only: bit_exp_iff) auto

lemma low_bits_byte: "ucast ((ucast (x :: u64) OR 128 :: u8) AND 127) = x AND (127 :: u64)"
proof -
  have "(ucast x OR 128 :: u8) AND 127 = ucast x AND 127"
    by (simp add: bit.conj_disj_distrib2)
  moreover have "ucast (ucast x AND 127 :: u8) = x AND (127 :: u64)"
    unfolding mask_u8 mask_u64 by (rule bit_word_eqI) (auto simp: bit_simps)
  ultimately show ?thesis by simp
qed

lemma low_high_split:
  "(x OR push_bit s (y AND 127)) OR push_bit (s + 7) (drop_bit 7 y) = (x OR push_bit s (y :: u64))"
  unfolding mask_u64
proof (rule bit_word_eqI)
  fix n
  assume "n < LENGTH(64)"
  show "bit ((x OR push_bit s (y AND mask 7)) OR push_bit (s + 7) (drop_bit 7 y)) n
      = bit (x OR push_bit s y) n"
    by (cases "s + 7 \<le> n") (auto simp: bit_simps)
qed

lemma not_lt_128_byte: "\<not> (ucast x OR 128 :: u8) < 128"
proof
  let ?w = "ucast x OR 128 :: u8"
  assume "?w < 128"
  then have "unat ?w < 128" by (simp only: word_less_nat_alt) simp
  then have "unat ?w div 2 ^ 7 = 0" by simp
  then have "\<not> bit (unat ?w) 7" by (simp only: bit_iff_odd) simp
  then have "\<not> bit ?w 7" by (simp only: bit_unsigned_iff) simp
  moreover have "bit ?w 7" by (simp only: bit_or_iff bit_128_u8 simp_thms)
  ultimately show False by simp
qed

lemma drop_bit_bound:
  assumes "unat (y :: u64) < 2 ^ (64 - 7 * i)" and "\<not> y < 128" and "i < 10"
  shows "i < 9 \<and> unat (drop_bit 7 y) < 2 ^ (64 - 7 * (i + 1))"
proof -
  from assms(2) have y: "128 \<le> unat y" by (simp add: word_less_nat_alt)
  have i: "i < 9"
  proof (rule ccontr)
    assume "\<not> i < 9"
    with assms(3) have "i = 9" by simp
    with assms(1) y show False by simp
  qed
  have d: "unat (drop_bit 7 y) = unat y div 128"
    by (rule unat_drop_7)
  have "64 - 7 * i = (64 - 7 * (i + 1)) + 7" using i by simp
  then have "(2::nat) ^ (64 - 7 * i) = 2 ^ (64 - 7 * (i + 1)) * 2 ^ 7"
    by (simp only: power_add)
  with assms(1) have "unat y < 2 ^ (64 - 7 * (i + 1)) * 128" by simp
  then have "unat y div 128 < 2 ^ (64 - 7 * (i + 1))"
    by (rule less_mult_imp_div_less)
  with i d show ?thesis by simp
qed

lemma uvarintLoop_put:
  assumes "unat y < 2 ^ (64 - 7 * i)" and "i < 10"
  shows "uvarintLoop i (7 * i) x (putUvarint y @ rest) =
    (x OR push_bit (7 * i) y, int (i + length (putUvarint y)))"
  using assms
proof (induction y arbitrary: i x rule: putUvarint.induct)
  case (1 y)
  show ?case
  proof (cases "y < 128")
    case True
    have eq: "ucast (ucast y :: u8) = y" using True by (rule ucast_small_u8)
    have b: "(ucast y :: u8) < 128"
    proof -
      have "unat (ucast y :: u8) = unat y"
        using True by (simp add: unsigned_ucast_eq take_bit_eq_mod word_less_nat_alt)
      then show ?thesis using True by (simp add: word_less_nat_alt)
    qed
    have "\<not> (i = 9 \<and> (ucast y :: u8) > 1)"
    proof
      assume h: "i = 9 \<and> (ucast y :: u8) > 1"
      then have "unat y < 2" using "1.prems"(1) by simp
      then have "unat (ucast y :: u8) < 2"
        by (simp add: unsigned_ucast_eq take_bit_eq_mod)
      with h show False by (simp add: word_less_nat_alt)
    qed
    with True b eq "1.prems" show ?thesis
      by (auto simp: putUvarint.simps [of y] maxVarintLen64_def)
  next
    case False
    have bnd: "i < 9 \<and> unat (drop_bit 7 y) < 2 ^ (64 - 7 * (i + 1))"
      using drop_bit_bound [OF "1.prems"(1) False "1.prems"(2)] .
    have h: "unat (drop_bit 7 y) < 2 ^ (64 - 7 * (i + 1))" and "i + 1 < 10" using bnd by auto
    then have IH: "uvarintLoop (i + 1) (7 * (i + 1)) (x OR push_bit (7 * i) (y AND 127))
        (putUvarint (drop_bit 7 y) @ rest)
      = ((x OR push_bit (7 * i) (y AND 127)) OR push_bit (7 * (i + 1)) (drop_bit 7 y),
         int (i + 1 + length (putUvarint (drop_bit 7 y))))"
      by (rule "1.IH" [OF False])
    have step: "uvarintLoop i (7 * i) x (putUvarint y @ rest) =
        uvarintLoop (i + 1) (7 * i + 7) (x OR push_bit (7 * i) (ucast ((ucast y OR 128 :: u8) AND 127)))
          (putUvarint (drop_bit 7 y) @ rest)"
      using False bnd
      by (simp only: putUvarint.simps [of y] append_Cons uvarintLoop.simps not_lt_128_byte
          maxVarintLen64_def if_False) simp
    have s: "7 * i + 7 = 7 * (i + 1)" by simp
    have len: "length (putUvarint y) = 1 + length (putUvarint (drop_bit 7 y))"
      using False by (simp add: putUvarint.simps [of y])
    show ?thesis
      unfolding step low_bits_byte s IH len
      by (simp only: low_high_split [of x "7 * i" y, unfolded s]) simp
  qed
qed

lemma unat_u64_bound: "unat (x :: u64) < 2 ^ 64"
  by (rule order_less_le_trans [OF unsigned_less]) simp

lemma uvarint_put: "uvarint (putUvarint x @ rest) = (x, int (length (putUvarint x)))"
  using uvarintLoop_put [of x 0 0 rest] unat_u64_bound [of x] by (simp add: uvarint_def)

lemma uvarint_buf [simp]: "uvarint (uvarintBuf x) = (x, int (length (putUvarint x)))"
  by (simp add: uvarintBuf_def uvarint_put)

lemma putUvarint_length_aux:
  "unat y < 2 ^ (64 - 7 * i) \<Longrightarrow> i < 10 \<Longrightarrow> length (putUvarint y) \<le> 10 - i"
proof (induction y arbitrary: i rule: putUvarint.induct)
  case (1 y)
  show ?case
  proof (cases "y < 128")
    case True
    with "1.prems" show ?thesis by (simp add: putUvarint.simps [of y])
  next
    case False
    have bnd: "i < 9 \<and> unat (drop_bit 7 y) < 2 ^ (64 - 7 * (i + 1))"
      using drop_bit_bound [OF "1.prems"(1) False "1.prems"(2)] .
    with "1.IH" [OF False, of "i + 1"] have "length (putUvarint (drop_bit 7 y)) \<le> 9 - i" by simp
    moreover have "length (putUvarint y) = 1 + length (putUvarint (drop_bit 7 y))"
      using False by (simp add: putUvarint.simps [of y])
    ultimately show ?thesis using bnd by linarith
  qed
qed

lemma putUvarint_length: "length (putUvarint x) \<le> maxVarintLen64"
  using putUvarint_length_aux [of x 0] unat_u64_bound [of x] by (simp add: maxVarintLen64_def)

lemma putUvarint_nonempty: "putUvarint x \<noteq> []"
  by (subst putUvarint.simps) simp

end
