(* ===== verification/Model.thy ===== *)
theory Model
  imports Complex_Main Varint
begin

text \<open>
  The data model of the local index directory: \<open>boostd-data/model/model.go\<close>, the result and
  filter types of \<open>boostd-data/svc/types/types.go\<close>, and the two records that the LevelDB store
  keeps (\<open>ldb/service.go\<close>). Progress values (\<open>float64\<close>) are rationals.
\<close>

section \<open>model.go\<close>

record DealInfo =
  DealUuid :: string
  IsLegacy :: bool
  ChainDealID :: u64
  MinerAddr :: address
  SectorID :: u64
  PieceOffset :: u64
  PieceLength :: u64
  CarLength :: u64
  IsDirectDeal :: bool

record Metadata =
  Version :: string
  IndexedAt :: time
  CompleteIndex :: bool
  Deals :: "DealInfo list"

record OffsetSize =
  Offset :: u64
  Size :: u64

record IndexedBlock = OffsetSize +
  Cid :: cid

record FlaggedPiece =
  fpMinerAddr :: address
  fpPieceCid :: cid
  fpCreatedAt :: time
  fpUpdatedAt :: time
  fpHasUnsealedCopy :: bool

section \<open>svc/types\<close>

record AddIndexProgress =
  Progress :: rat
  Err :: string

definition sendProgress :: "rat \<Rightarrow> AddIndexProgress" where
  "sendProgress p = \<lparr>Progress = p, Err = []\<rparr>"

definition sendErr :: "goerr \<Rightarrow> AddIndexProgress" where
  "sendErr err = \<lparr>Progress = 0, Err = emsg err\<rparr>"

record ScanProgressResult =
  scProgress :: rat
  LastScan :: time

record FlaggedPiecesListFilter =
  flMinerAddr :: address
  flHasUnsealedCopy :: bool

definition typesErrNotFound :: goerr where
  "typesErrNotFound = GoErr ''not found'' [TypesErrNotFound]"

fun IsNotFound :: "goerr option \<Rightarrow> bool" where
  "IsNotFound None = False"
| "IsNotFound (Some err) = containsStr (emsg err) (emsg typesErrNotFound)"

lemma IsNotFound_wrapped:
  "IsNotFound (Some (errorf_w p (errorf_s q typesErrNotFound)))"
  by (simp add: typesErrNotFound_def containsStr_append_right)

section \<open>The records of the LevelDB store\<close>

record LeveldbFlaggedMetadata =
  fmCreatedAt :: time
  fmUpdatedAt :: time
  fmHasUnsealedCopy :: bool
  fmMinerAddr :: address

record LeveldbMetadata = Metadata +
  Cursor :: u64

definition pieceMetadataVersion :: string where
  "pieceMetadataVersion = ''1''"

definition newLeveldbMetadata :: LeveldbMetadata where
  "newLeveldbMetadata =
     \<lparr>Version = pieceMetadataVersion, IndexedAt = time_zero, CompleteIndex = False,
      Deals = [], Cursor = 0\<rparr>"

text \<open>
  What a round trip through \<open>encoding/json\<close> keeps of a \<open>LeveldbMetadata\<close>. The field \<open>Cursor\<close> and
  the embedded field \<open>CompleteIndex\<close> have the same tag \<open>json:"c"\<close>. Go takes the field that is
  nested less deeply, so \<open>"c"\<close> is the cursor, in both directions, and \<open>CompleteIndex\<close> is neither
  written nor read: it comes back as its zero value.
\<close>

definition jsonMd :: "LeveldbMetadata \<Rightarrow> LeveldbMetadata" where
  "jsonMd md = md\<lparr>CompleteIndex := False\<rparr>"

lemma jsonMd_fields [simp]:
  "CompleteIndex (jsonMd md) = False" "Deals (jsonMd md) = Deals md" "Cursor (jsonMd md) = Cursor md"
  "IndexedAt (jsonMd md) = IndexedAt md" "Version (jsonMd md) = Version md"
  by (simp_all add: jsonMd_def)

text \<open>Metadata that was read from the store is not changed by writing it again.\<close>

lemma jsonMd_stored [simp]: "\<not> CompleteIndex md \<Longrightarrow> jsonMd md = md"
  by (simp add: jsonMd_def)

text \<open>The zero value of \<open>LeveldbMetadata\<close>, which \<open>GetPieceCidToMetadata\<close> returns with an error.\<close>

definition zeroLeveldbMetadata :: LeveldbMetadata where
  "zeroLeveldbMetadata =
     \<lparr>Version = [], IndexedAt = time_zero, CompleteIndex = False, Deals = [], Cursor = 0\<rparr>"

end
