(* ===== verification/GoStd.thy ===== *)
theory GoStd
  imports Prelude
begin

text \<open>
  The functions of Go's standard library on text that the commands use: \<open>strings.Split\<close>,
  \<open>strings.TrimSpace\<close> (ASCII), \<open>strconv.Atoi\<close>, the lines of a \<open>bufio.Scanner\<close>, and the lexical
  functions of \<open>path/filepath\<close>.
\<close>

section \<open>strings and strconv\<close>

fun splitOn :: "char \<Rightarrow> string \<Rightarrow> string list" where
  "splitOn c [] = [[]]"
| "splitOn c (x # xs) =
     (if x = c then [] # splitOn c xs
      else case splitOn c xs of [] \<Rightarrow> [[x]] | w # ws \<Rightarrow> (x # w) # ws)"

fun joinOn :: "char \<Rightarrow> string list \<Rightarrow> string" where
  "joinOn c [] = []"
| "joinOn c [p] = p"
| "joinOn c (p # ps) = p @ c # joinOn c ps"

definition isSpace :: "char \<Rightarrow> bool" where
  "isSpace c \<longleftrightarrow> c = CHR '' '' \<or> c = CHR 0x09 \<or> c = CHR 0x0A \<or> c = CHR 0x0B \<or> c = CHR 0x0C \<or> c = CHR 0x0D"

definition trimSpace :: "string \<Rightarrow> string" where
  "trimSpace s = rev (dropWhile isSpace (rev (dropWhile isSpace s)))"

text \<open>\<open>strings.Trim\<close> with a set of characters, and \<open>strings.TrimPrefix\<close>.\<close>

definition trimSet :: "char set \<Rightarrow> string \<Rightarrow> string" where
  "trimSet A s = rev (dropWhile (\<lambda>c. c \<in> A) (rev (dropWhile (\<lambda>c. c \<in> A) s)))"

definition trimPrefix :: "string \<Rightarrow> string \<Rightarrow> string" where
  "trimPrefix s p = (if hasPrefix s p then drop (length p) s else s)"

lemma splitOn_nonempty [simp]: "splitOn c s \<noteq> []"
  by (cases s) (auto split: list.split)

lemma splitOn_plain: "c \<notin> set s \<Longrightarrow> splitOn c s = [s]"
  by (induction s) auto

lemma splitOn_append: "c \<notin> set p \<Longrightarrow> splitOn c (p @ c # s) = p # splitOn c s"
  by (induction p) auto

lemma splitOn_join:
  "ps \<noteq> [] \<Longrightarrow> \<forall>p\<in>set ps. c \<notin> set p \<Longrightarrow> splitOn c (joinOn c ps) = ps"
  by (induction c ps rule: joinOn.induct) (auto simp: splitOn_plain splitOn_append)

lemma joinOn_split: "joinOn c (splitOn c s) = s"
proof (induction s)
  case (Cons x s)
  then show ?case by (cases "splitOn c s"; cases "tl (splitOn c s)") (auto simp: neq_Nil_conv)
qed simp

lemma joinOn_snoc: "ps \<noteq> [] \<Longrightarrow> joinOn c (ps @ [p]) = joinOn c ps @ c # p"
  by (induction c ps rule: joinOn.induct) auto

lemma trimSpace_empty: "trimSpace s = [] \<longleftrightarrow> (\<forall>c\<in>set s. isSpace c)"
  by (induction s) (auto simp: trimSpace_def dropWhile_append dest: set_dropWhileD)

text \<open>\<open>strconv.Atoi\<close>: an optional sign and decimal digits, in the range of an \<open>int64\<close>.\<close>

fun atoiDigits :: "string \<Rightarrow> int \<Rightarrow> int option" where
  "atoiDigits [] acc = Some acc"
| "atoiDigits (c # cs) acc =
     (let d = int (of_char c) - 48 in
      if 0 \<le> d \<and> d < 10 then atoiDigits cs (acc * 10 + d) else None)"

definition atoi :: "string \<Rightarrow> goerr + int" where
  "atoi s =
     (let neg = (s \<noteq> [] \<and> hd s = CHR ''-'');
          ds = (if s \<noteq> [] \<and> (hd s = CHR ''-'' \<or> hd s = CHR ''+'') then tl s else s)
      in case (if ds = [] then None else atoiDigits ds 0) of
           None \<Rightarrow> Inl (errorf (''strconv.Atoi: parsing '' @ s @ '': invalid syntax''))
         | Some n \<Rightarrow>
             let v = (if neg then - n else n) in
             if v < - (2 ^ 63) \<or> 2 ^ 63 \<le> v
             then Inl (errorf (''strconv.Atoi: parsing '' @ s @ '': value out of range'')) else Inr v)"

lemma atoiDigits_append:
  "atoiDigits (s @ t) acc = (case atoiDigits s acc of None \<Rightarrow> None | Some a \<Rightarrow> atoiDigits t a)"
  by (induction s arbitrary: acc) (auto simp: Let_def)

lemma digit_code: "n < 10 \<Longrightarrow> int (of_char (digit n)) = 48 + int n"
  by (simp add: digit_def take_bit_eq_mod)

lemma atoiDigits_show: "atoiDigits (show_nat n) 0 = Some (int n)"
proof (induction n rule: show_nat.induct)
  case (1 n)
  show ?case
  proof (cases "n < 10")
    case True
    then show ?thesis by (simp add: show_nat.simps [of n] digit_code)
  next
    case False
    have "int (n div 10) * 10 + int (n mod 10) = int n" by presburger
    with False 1 show ?thesis by (simp add: show_nat.simps [of n] atoiDigits_append digit_code)
  qed
qed

lemma show_nat_head: "hd (show_nat n) \<noteq> CHR ''-'' \<and> hd (show_nat n) \<noteq> CHR ''+''"
proof -
  have "is_digit (hd (show_nat n))" by (rule show_nat_digits [of _ n]) simp
  then show ?thesis by (auto dest!: is_digit_code)
qed

lemma atoi_show: "n < 2 ^ 63 \<Longrightarrow> atoi (show_nat n) = Inr (int n)"
  using show_nat_head [of n] by (simp add: atoi_def atoiDigits_show Let_def)

section \<open>bufio.Scanner\<close>

definition dropCR :: "string \<Rightarrow> string" where
  "dropCR l = (if l \<noteq> [] \<and> last l = CHR 0x0D then butlast l else l)"

text \<open>
  The lines of a text: a final newline does not begin another line. A line that does not fit into
  64 KiB with its end ends the scan with an error.
\<close>

definition rawLines :: "string \<Rightarrow> string list" where
  "rawLines s =
     (let ls = splitOn (CHR 0x0A) s in if last ls = [] then butlast ls else ls)"

definition MaxScanTokenSize :: nat where
  "MaxScanTokenSize = 65536"

fun scanLines :: "string list \<Rightarrow> string list \<times> goerr option" where
  "scanLines [] = ([], None)"
| "scanLines (l # ls) =
     (if MaxScanTokenSize \<le> length l then ([], Some (errorf ''bufio.Scanner: token too long''))
      else (dropCR l # fst (scanLines ls), snd (scanLines ls)))"

section \<open>path/filepath\<close>

fun cleanParts :: "bool \<Rightarrow> string list \<Rightarrow> string list \<Rightarrow> string list" where
  "cleanParts rooted acc [] = rev acc"
| "cleanParts rooted acc (p # ps) =
     (if p = [] \<or> p = ''.'' then cleanParts rooted acc ps
      else if p = ''..'' then
        (if acc \<noteq> [] \<and> hd acc \<noteq> ''..'' then cleanParts rooted (tl acc) ps
         else if rooted then cleanParts rooted acc ps
         else cleanParts rooted (''..'' # acc) ps)
      else cleanParts rooted (p # acc) ps)"

definition filepathClean :: "string \<Rightarrow> string" where
  "filepathClean s =
     (let rooted = (s \<noteq> [] \<and> hd s = CHR ''/'');
          body = joinOn (CHR ''/'') (cleanParts rooted [] (splitOn (CHR ''/'') s))
      in if rooted then CHR ''/'' # body else if body = [] then ''.'' else body)"

definition filepathJoin :: "string list \<Rightarrow> string" where
  "filepathJoin es =
     (let es' = dropWhile (\<lambda>e. e = []) es in
      if es' = [] then [] else filepathClean (joinOn (CHR ''/'') es'))"

definition filepathBase :: "string \<Rightarrow> string" where
  "filepathBase s =
     (if s = [] then ''.''
      else let t = rev (dropWhile (\<lambda>c. c = CHR ''/'') (rev s)) in
        if t = [] then ''/'' else last (splitOn (CHR ''/'') t))"

definition filepathDir :: "string \<Rightarrow> string" where
  "filepathDir s = filepathClean (rev (dropWhile (\<lambda>c. c \<noteq> CHR ''/'') (rev s)))"

text \<open>A name that is one component of a path.\<close>

definition plainName :: "string \<Rightarrow> bool" where
  "plainName p \<longleftrightarrow> p \<noteq> [] \<and> p \<noteq> ''.'' \<and> p \<noteq> ''..'' \<and> CHR ''/'' \<notin> set p"

lemma cleanParts_append:
  "\<exists>acc'. cleanParts rooted acc (ps @ qs) = cleanParts rooted acc' qs"
  by (induction rooted acc ps rule: cleanParts.induct) auto

lemma cleanParts_snoc:
  assumes "plainName p"
  shows "\<exists>qs. cleanParts rooted acc (ps @ [p]) = qs @ [p]"
proof -
  obtain acc' where "cleanParts rooted acc (ps @ [p]) = cleanParts rooted acc' [p]"
    using cleanParts_append by blast
  with assms show ?thesis by (simp add: plainName_def)
qed

lemma splitOn_snoc: "c \<notin> set p \<Longrightarrow> splitOn c (s @ c # p) = splitOn c s @ [p]"
  by (induction s) (auto simp: splitOn_plain split: list.split)

lemma base_of_tail:
  assumes "plainName p"
  shows "filepathBase p = p" and "filepathBase (s @ CHR ''/'' # p) = p"
proof -
  have 1: "dropWhile (\<lambda>c. c = CHR ''/'') (rev p @ r) = rev p @ r" for r
  proof -
    have "rev p \<noteq> []" "hd (rev p) \<in> set p" using assms by (auto simp: plainName_def hd_rev)
    then show ?thesis using assms by (cases "rev p") (auto simp: plainName_def)
  qed
  have p: "p \<noteq> []" "CHR ''/'' \<notin> set p" using assms by (simp_all add: plainName_def)
  have "rev (dropWhile (\<lambda>c. c = CHR ''/'') (rev p)) = p" using 1 [of "[]"] by simp
  with p show "filepathBase p = p" by (simp add: filepathBase_def splitOn_plain)
  have s: "rev (dropWhile (\<lambda>c. c = CHR ''/'') (rev (s @ CHR ''/'' # p))) = s @ CHR ''/'' # p"
    using 1 [of "CHR ''/'' # rev s"] by simp
  show "filepathBase (s @ CHR ''/'' # p) = p"
    unfolding filepathBase_def Let_def s splitOn_snoc [OF p(2)] by simp
qed

text \<open>The base of a joined path is its last element.\<close>

lemma base_join:
  assumes "plainName p" and "es \<noteq> []" and "hd es \<noteq> []"
  shows "filepathBase (filepathJoin (es @ [p])) = p"
proof -
  have "dropWhile (\<lambda>e. e = []) (es @ [p]) = es @ [p]" using assms(2,3) by (cases es) auto
  then have j: "filepathJoin (es @ [p]) = filepathClean (joinOn (CHR ''/'') es @ CHR ''/'' # p)"
    using assms(2) by (simp add: filepathJoin_def joinOn_snoc)
  let ?s = "joinOn (CHR ''/'') es @ CHR ''/'' # p"
  have p: "CHR ''/'' \<notin> set p" using assms(1) by (simp add: plainName_def)
  have "\<exists>q. cleanParts r [] (splitOn (CHR ''/'') ?s) = q @ [p]" for r
    unfolding splitOn_snoc [OF p] by (rule cleanParts_snoc [OF assms(1)])
  then have "\<forall>r. \<exists>q. cleanParts r [] (splitOn (CHR ''/'') ?s) = q @ [p]" by blast
  from choice [OF this] obtain qs
    where "\<forall>r. cleanParts r [] (splitOn (CHR ''/'') ?s) = qs r @ [p]" by blast
  then have qs: "cleanParts r [] (splitOn (CHR ''/'') ?s) = qs r @ [p]" for r by blast
  have base: "filepathBase (x @ joinOn (CHR ''/'') (qs r @ [p])) = p" if "x = [] \<or> x = ''/''" for x r
  proof (cases "qs r = []")
    case True
    with that base_of_tail [OF assms(1)] show ?thesis by (metis append_Nil append_Cons joinOn.simps(2))
  next
    case False
    with base_of_tail(2) [OF assms(1), of "x @ joinOn (CHR ''/'') (qs r)"] show ?thesis
      by (simp add: joinOn_snoc)
  qed
  have "joinOn (CHR ''/'') (qs r @ [p]) \<noteq> []" for r
    using assms(1) by (cases "qs r = []") (auto simp: joinOn_snoc plainName_def)
  with base [of "[]"] base [of "''/''"] show ?thesis by (simp add: j filepathClean_def qs Let_def)
qed

end
