(* ===== verification/World.thy ===== *)
theory World
  imports Model GoStd
begin

text \<open>
  The code outside the repository that the LevelDB store calls, as one record of functions that
  every definition takes as its first argument: the go-datastore \<open>Batching\<close> interface over an
  opaque state, \<open>datastore.NewKey\<close>, and the string forms of CIDs, multihashes and addresses.
  \<open>world_ok\<close> collects what their documentation promises and the store relies on.

  A stored value is the bytes of varints or the JSON document of one of three Go values:
  \<open>json.Unmarshal\<close> gives back the value that \<open>json.Marshal\<close> was given and fails on a document
  of another type.
\<close>

datatype dsval =
    VBytes "u8 list"
  | VMd LeveldbMetadata
  | VFlagged LeveldbFlaggedMetadata
  | VCids "cid list"

definition jsonErr :: goerr where
  "jsonErr = errorf ''json: cannot unmarshal value''"

fun unmarshalMd :: "dsval \<Rightarrow> goerr + LeveldbMetadata" where
  "unmarshalMd (VMd md) = Inr md"
| "unmarshalMd _ = Inl jsonErr"

fun unmarshalFlagged :: "dsval \<Rightarrow> goerr + LeveldbFlaggedMetadata" where
  "unmarshalFlagged (VFlagged fm) = Inr fm"
| "unmarshalFlagged _ = Inl jsonErr"

fun unmarshalCids :: "dsval \<Rightarrow> goerr + cid list" where
  "unmarshalCids (VCids cs) = Inr cs"
| "unmarshalCids _ = Inl jsonErr"

fun valBytes :: "dsval \<Rightarrow> u8 list" where
  "valBytes (VBytes bs) = bs"
| "valBytes _ = []"

datatype batchop = BPut string dsval | BDel string

record query =
  qPrefix :: string
  qKeysOnly :: bool
  qLimit :: nat
  qOffset :: nat

definition dsErrNotFound :: goerr where
  "dsErrNotFound = GoErr ''datastore: key not found'' [DsErrNotFound]"

lemma errors_Is_dsErrNotFound [simp]: "errors_Is dsErrNotFound DsErrNotFound"
  by (simp add: errors_Is_def dsErrNotFound_def)

record 's world =
  dsGet :: "'s \<Rightarrow> string \<Rightarrow> goerr + dsval"
  dsPut :: "'s \<Rightarrow> string \<Rightarrow> dsval \<Rightarrow> goerr option \<times> 's"
  dsDelete :: "'s \<Rightarrow> string \<Rightarrow> goerr option \<times> 's"
  dsQuery :: "'s \<Rightarrow> query \<Rightarrow> goerr + (string \<times> dsval) list"
  dsNewBatch :: "'s \<Rightarrow> goerr option"
  dsBatchPut :: "'s \<Rightarrow> string \<Rightarrow> dsval \<Rightarrow> goerr option"
  dsBatchDelete :: "'s \<Rightarrow> string \<Rightarrow> goerr option"
  dsCommit :: "'s \<Rightarrow> batchop list \<Rightarrow> goerr option \<times> 's"
  dsSync :: "'s \<Rightarrow> string \<Rightarrow> goerr option \<times> 's"
  newKey :: "string \<Rightarrow> string"
  cidString :: "cid \<Rightarrow> string"
  cidParse :: "string \<Rightarrow> goerr + cid"
  cidHash :: "cid \<Rightarrow> multihash"
  cidNewV1Raw :: "multihash \<Rightarrow> cid"
  mhString :: "multihash \<Rightarrow> string"
  mhFromHex :: "string \<Rightarrow> goerr + multihash"
  addrString :: "address \<Rightarrow> string"
  addrEmpty :: "address \<Rightarrow> bool"

section \<open>Slash-separated keys\<close>

text \<open>The joined form of a list of key components.\<close>

fun joinSlash :: "string list \<Rightarrow> string" where
  "joinSlash [] = []"
| "joinSlash [s] = s"
| "joinSlash (s # ss) = s @ CHR ''/'' # joinSlash ss"

text \<open>A key component that \<open>path.Clean\<close> leaves alone.\<close>

definition seg :: "string \<Rightarrow> bool" where
  "seg s \<longleftrightarrow> s \<noteq> [] \<and> CHR ''/'' \<notin> set s \<and> s \<noteq> ''.'' \<and> s \<noteq> ''..''"

lemma splitOn_joinSlash:
  "ss \<noteq> [] \<Longrightarrow> (\<forall>s\<in>set ss. CHR ''/'' \<notin> set s) \<Longrightarrow> splitOn (CHR ''/'') (joinSlash ss) = ss"
  by (induction ss rule: joinSlash.induct) (auto simp: splitOn_plain splitOn_append)

lemma joinSlash_inj:
  "xs \<noteq> [] \<Longrightarrow> ys \<noteq> [] \<Longrightarrow> (\<forall>s\<in>set xs. seg s) \<Longrightarrow> (\<forall>s\<in>set ys. seg s) \<Longrightarrow>
    joinSlash xs = joinSlash ys \<longleftrightarrow> xs = ys"
  by (metis seg_def splitOn_joinSlash)

lemma joinSlash_Cons: "ss \<noteq> [] \<Longrightarrow> joinSlash (s # ss) = s @ CHR ''/'' # joinSlash ss"
  by (cases ss) auto

lemma noslash_append_eq:
  "c \<notin> set a \<Longrightarrow> c \<notin> set b \<Longrightarrow> a @ c # r = b @ c # t \<Longrightarrow> a = b \<and> r = t"
proof (induction a arbitrary: b)
  case Nil
  then show ?case by (cases b) auto
next
  case (Cons x a)
  then show ?case by (cases b) auto
qed

lemma joinSlash_prefix:
  assumes "ss \<noteq> []" and "\<forall>s\<in>set ss. seg s" and "seg p"
  shows "hasPrefix (joinSlash ss) (p @ ''/'') \<longleftrightarrow> (\<exists>rest. rest \<noteq> [] \<and> ss = p # rest)"
proof
  assume "hasPrefix (joinSlash ss) (p @ ''/'')"
  then obtain r where r: "joinSlash ss = p @ CHR ''/'' # r" by (auto simp: hasPrefix_iff)
  from assms(1) obtain s ss' where ss: "ss = s # ss'" by (cases ss) auto
  have np: "CHR ''/'' \<notin> set p" and ns: "CHR ''/'' \<notin> set s"
    using assms ss by (auto simp: seg_def)
  show "\<exists>rest. rest \<noteq> [] \<and> ss = p # rest"
  proof (cases "ss' = []")
    case True
    with r ss ns show ?thesis by simp
  next
    case False
    with r ss have "s @ CHR ''/'' # joinSlash ss' = p @ CHR ''/'' # r"
      by (simp add: joinSlash_Cons)
    with noslash_append_eq [OF ns np] have "s = p" by blast
    with False ss show ?thesis by simp
  qed
next
  assume "\<exists>rest. rest \<noteq> [] \<and> ss = p # rest"
  then show "hasPrefix (joinSlash ss) (p @ ''/'')"
    by (auto simp: joinSlash_Cons hasPrefix_iff)
qed

section \<open>What the store relies on\<close>

fun applyOp :: "batchop \<Rightarrow> (string \<Rightarrow> dsval option) \<Rightarrow> (string \<Rightarrow> dsval option)" where
  "applyOp (BPut k v) m = m(k \<mapsto> v)"
| "applyOp (BDel k) m = m(k := None)"

text \<open>Paging of a query: \<open>Offset\<close> entries are skipped, \<open>Limit\<close> 0 means no limit.\<close>

definition page :: "query \<Rightarrow> 'a list \<Rightarrow> 'a list" where
  "page q xs = (let ys = drop (qOffset q) xs in if qLimit q = 0 then ys else take (qLimit q) ys)"

definition queryEntry :: "query \<Rightarrow> string \<times> dsval \<Rightarrow> string \<times> dsval" where
  "queryEntry q kv = (fst kv, if qKeysOnly q then VBytes [] else snd kv)"

text \<open>
  A datastore that works as documented, seen through \<open>view\<close> (the value under a key) and
  \<open>listing\<close> (the entries below a key, in the store's order): \<open>Get\<close> finds what is stored and
  reports \<open>ErrNotFound\<close> otherwise, writes take effect and do not fail, \<open>Query\<close> lists each
  entry strictly below its prefix once, with or without a leading slash in the prefix.
\<close>

definition datastore_ok ::
  "'s world \<Rightarrow> ('s \<Rightarrow> string \<Rightarrow> dsval option) \<Rightarrow> ('s \<Rightarrow> string \<Rightarrow> (string \<times> dsval) list) \<Rightarrow> bool" where
  "datastore_ok W view listing \<longleftrightarrow>
     (\<forall>s k. dsGet W s k = (case view s k of None \<Rightarrow> Inl dsErrNotFound | Some v \<Rightarrow> Inr v)) \<and>
     (\<forall>s k v. fst (dsPut W s k v) = None \<and> view (snd (dsPut W s k v)) = (view s)(k \<mapsto> v)) \<and>
     (\<forall>s k. fst (dsDelete W s k) = None \<and> view (snd (dsDelete W s k)) = (view s)(k := None)) \<and>
     (\<forall>s. dsNewBatch W s = None) \<and>
     (\<forall>s k v. dsBatchPut W s k v = None) \<and>
     (\<forall>s k. dsBatchDelete W s k = None) \<and>
     (\<forall>s ops. fst (dsCommit W s ops) = None \<and>
        view (snd (dsCommit W s ops)) = fold applyOp ops (view s)) \<and>
     (\<forall>s k. fst (dsSync W s k) = None \<and> view (snd (dsSync W s k)) = view s) \<and>
     (\<forall>s p. distinct (map fst (listing s p)) \<and>
        (\<forall>k v. (k, v) \<in> set (listing s p) \<longleftrightarrow>
           view s k = Some v \<and> hasPrefix k (CHR ''/'' # p @ ''/''))) \<and>
     (\<forall>s p q. seg p \<and> (qPrefix q = p @ ''/'' \<or> qPrefix q = CHR ''/'' # p @ ''/'') \<longrightarrow>
        dsQuery W s q = Inr (map (queryEntry q) (page q (listing s p))))"

definition names_ok :: "'s world \<Rightarrow> bool" where
  "names_ok W \<longleftrightarrow>
     (\<forall>ss. ss \<noteq> [] \<and> (\<forall>s\<in>set ss. seg s) \<longrightarrow>
        newKey W (joinSlash ss) = CHR ''/'' # joinSlash ss \<and>
        newKey W (CHR ''/'' # joinSlash ss) = CHR ''/'' # joinSlash ss) \<and>
     (\<forall>c. seg (cidString W c) \<and> cidParse W (cidString W c) = Inr c) \<and>
     (\<forall>m. seg (mhString W m) \<and> mhFromHex W (mhString W m) = Inr m) \<and>
     (\<forall>a. seg (addrString W a)) \<and>
     (\<forall>a b. addrString W a = addrString W b \<longrightarrow> a = b) \<and>
     (\<forall>m. cidHash W (cidNewV1Raw W m) = m)"

definition world_ok ::
  "'s world \<Rightarrow> ('s \<Rightarrow> string \<Rightarrow> dsval option) \<Rightarrow> ('s \<Rightarrow> string \<Rightarrow> (string \<times> dsval) list) \<Rightarrow> bool" where
  "world_ok W view listing \<longleftrightarrow> datastore_ok W view listing \<and> names_ok W"

text \<open>The promises, one by one.\<close>

lemma ok_get: "world_ok W view listing \<Longrightarrow>
    dsGet W s k = (case view s k of None \<Rightarrow> Inl dsErrNotFound | Some v \<Rightarrow> Inr v)"
  by (simp add: world_ok_def datastore_ok_def)

lemma ok_put: "world_ok W view listing \<Longrightarrow> dsPut W s k v = (e, s') \<Longrightarrow>
    e = None \<and> view s' = (view s)(k \<mapsto> v)"
  unfolding world_ok_def datastore_ok_def by (metis fst_conv snd_conv)

lemma ok_delete: "world_ok W view listing \<Longrightarrow> dsDelete W s k = (e, s') \<Longrightarrow>
    e = None \<and> view s' = (view s)(k := None)"
  unfolding world_ok_def datastore_ok_def by (metis fst_conv snd_conv)

lemma ok_batch: "world_ok W view listing \<Longrightarrow>
    dsNewBatch W s = None \<and> dsBatchPut W s k v = None \<and> dsBatchDelete W s k = None"
  by (simp add: world_ok_def datastore_ok_def)

lemma ok_commit: "world_ok W view listing \<Longrightarrow> dsCommit W s ops = (e, s') \<Longrightarrow>
    e = None \<and> view s' = fold applyOp ops (view s)"
  unfolding world_ok_def datastore_ok_def by (metis fst_conv snd_conv)

lemma ok_sync: "world_ok W view listing \<Longrightarrow> dsSync W s k = (e, s') \<Longrightarrow> e = None \<and> view s' = view s"
  unfolding world_ok_def datastore_ok_def by (metis fst_conv snd_conv)

lemma ok_listing: "world_ok W view listing \<Longrightarrow> distinct (map fst (listing s p)) \<and>
    ((k, v) \<in> set (listing s p) \<longleftrightarrow> view s k = Some v \<and> hasPrefix k (CHR ''/'' # p @ ''/''))"
  by (simp add: world_ok_def datastore_ok_def)

lemma ok_query: "world_ok W view listing \<Longrightarrow> seg p \<Longrightarrow>
    qPrefix q = p @ ''/'' \<or> qPrefix q = CHR ''/'' # p @ ''/'' \<Longrightarrow>
    dsQuery W s q = Inr (map (queryEntry q) (page q (listing s p)))"
  by (simp add: world_ok_def datastore_ok_def)

lemma ok_query_all: "world_ok W view listing \<Longrightarrow> seg p \<Longrightarrow>
    qPrefix q = p @ ''/'' \<or> qPrefix q = CHR ''/'' # p @ ''/'' \<Longrightarrow>
    \<not> qKeysOnly q \<and> qLimit q = 0 \<and> qOffset q = 0 \<Longrightarrow> dsQuery W s q = Inr (listing s p)"
  by (simp add: ok_query page_def) (rule map_idI, simp add: queryEntry_def)

lemma ok_newKey: "names_ok W \<Longrightarrow> ss \<noteq> [] \<Longrightarrow> \<forall>s\<in>set ss. seg s \<Longrightarrow>
    newKey W (joinSlash ss) = CHR ''/'' # joinSlash ss \<and>
    newKey W (CHR ''/'' # joinSlash ss) = CHR ''/'' # joinSlash ss"
  by (simp add: names_ok_def)

lemma ok_names: "world_ok W view listing \<Longrightarrow> names_ok W"
  by (simp add: world_ok_def)

lemma names_seg [simp]:
  "names_ok W \<Longrightarrow> seg (cidString W c)" "names_ok W \<Longrightarrow> seg (mhString W m)"
  "names_ok W \<Longrightarrow> seg (addrString W a)"
  by (simp_all add: names_ok_def)

lemma names_parse [simp]:
  assumes "names_ok W"
  shows "cidParse W (cidString W c) = Inr c"
    and "mhFromHex W (mhString W m) = Inr m"
    and "cidHash W (cidNewV1Raw W m) = m"
  using assms unfolding names_ok_def by blast+

lemma cidString_inj [simp]:
  assumes "names_ok W"
  shows "cidString W c = cidString W d \<longleftrightarrow> c = d"
proof
  assume "cidString W c = cidString W d"
  then have "(Inr c :: goerr + cid) = Inr d" by (metis assms names_parse(1))
  then show "c = d" by (rule Inr_inject)
qed (rule arg_cong)

lemma mhString_inj [simp]:
  assumes "names_ok W"
  shows "mhString W m = mhString W n \<longleftrightarrow> m = n"
proof
  assume "mhString W m = mhString W n"
  then have "(Inr m :: goerr + multihash) = Inr n" by (metis assms names_parse(2))
  then show "m = n" by (rule Inr_inject)
qed (rule arg_cong)

lemma addrString_inj [simp]:
  assumes "names_ok W"
  shows "addrString W a = addrString W b \<longleftrightarrow> a = b"
proof
  have "\<forall>a b. addrString W a = addrString W b \<longrightarrow> a = b"
    using assms unfolding names_ok_def by (elim conjE)
  then show "addrString W a = addrString W b \<Longrightarrow> a = b" by (elim allE impE)
qed (rule arg_cong)

end
