(* ===== verification/LdbKeys.thy ===== *)
theory LdbKeys
  imports World
begin

text \<open>
  The key space of the LevelDB store (\<open>ldb/db.go\<close>): the binary prefixes of the four tables, the
  functions that build a key, and the proof that keys of different entries never collide. The
  typed keys \<open>tkey\<close> and the view \<open>tview\<close> of a store through them are what the refinement
  proofs of the operations speak about.
\<close>

definition byteChar :: "u8 \<Rightarrow> char" where
  "byteChar b = char_of (unat b)"

text \<open>\<open>init()\<close>: a prefix is the padded varint of its number, as a string.\<close>

definition sprefix :: "u64 \<Rightarrow> string" where
  "sprefix n = map byteChar (uvarintBuf n)"

definition sprefixPieceCidToCursor :: string where
  "sprefixPieceCidToCursor = sprefix 1"

definition sprefixMhtoPieceCids :: string where
  "sprefixMhtoPieceCids = sprefix 2"

definition sprefixPieceCidToFlagged :: string where
  "sprefixPieceCidToFlagged = sprefix 3"

definition dskeyNextCursor :: "'s world \<Rightarrow> string" where
  "dskeyNextCursor W = newKey W (sprefix 0)"

definition KeyCursorPrefix :: "u64 \<Rightarrow> string" where
  "KeyCursorPrefix cursor = show_u64 cursor @ ''/''"

definition pieceCidToCursorKey :: "'s world \<Rightarrow> cid \<Rightarrow> string" where
  "pieceCidToCursorKey W pieceCid =
     newKey W (sprefixPieceCidToCursor @ ''/'' @ cidString W pieceCid)"

definition mhToPieceCidsKey :: "'s world \<Rightarrow> string \<Rightarrow> string" where
  "mhToPieceCidsKey W mhStr = newKey W (sprefixMhtoPieceCids @ mhStr)"

definition pieceCidToFlaggedKey :: "'s world \<Rightarrow> address \<Rightarrow> cid \<Rightarrow> string" where
  "pieceCidToFlaggedKey W maddr pieceCid =
     newKey W (sprefixPieceCidToFlagged @ ''/'' @ addrString W maddr @ ''/'' @ cidString W pieceCid)"

definition recordKey :: "'s world \<Rightarrow> string \<Rightarrow> multihash \<Rightarrow> string" where
  "recordKey W cursorPrefix m = newKey W (cursorPrefix @ mhString W m)"

section \<open>Typed keys\<close>

datatype tkey =
    KCursor
  | KPiece cid
  | KMh multihash
  | KFlag address cid
  | KRec u64 multihash

fun key_segs :: "'s world \<Rightarrow> tkey \<Rightarrow> string list" where
  "key_segs W KCursor = [sprefix 0]"
| "key_segs W (KPiece c) = [sprefixPieceCidToCursor, cidString W c]"
| "key_segs W (KMh m) = [sprefixMhtoPieceCids @ mhString W m]"
| "key_segs W (KFlag a c) = [sprefixPieceCidToFlagged, addrString W a, cidString W c]"
| "key_segs W (KRec cur m) = [show_u64 cur, mhString W m]"

definition key_of :: "'s world \<Rightarrow> tkey \<Rightarrow> string" where
  "key_of W k = CHR ''/'' # joinSlash (key_segs W k)"

lemma byteChar_simps:
  "byteChar 0 = CHR 0x00" "byteChar 1 = CHR 0x01" "byteChar 2 = CHR 0x02" "byteChar 3 = CHR 0x03"
  by (simp_all add: byteChar_def char_of_def bit_iff_odd)

lemma sprefix_small: "n < 128 \<Longrightarrow> sprefix n = byteChar (ucast n) # replicate 9 (byteChar 0)"
  by (simp add: sprefix_def uvarintBuf_def putUvarint.simps [of n] maxVarintLen64_def)

lemma sprefix_simps:
  "sprefix 0 = CHR 0x00 # replicate 9 (CHR 0x00)"
  "sprefix 1 = CHR 0x01 # replicate 9 (CHR 0x00)"
  "sprefix 2 = CHR 0x02 # replicate 9 (CHR 0x00)"
  "sprefix 3 = CHR 0x03 # replicate 9 (CHR 0x00)"
  by (simp_all add: sprefix_small byteChar_simps word_less_nat_alt)

lemma seg_sprefix [simp]:
  "seg (sprefix 0)" "seg sprefixPieceCidToCursor" "seg sprefixPieceCidToFlagged"
  by (simp_all add: seg_def sprefixPieceCidToCursor_def sprefixPieceCidToFlagged_def sprefix_simps)

lemma seg_show_u64 [simp]: "seg (show_u64 n)"
proof -
  have d: "c \<in> set (show_u64 n) \<Longrightarrow> is_digit c" for c
    by (simp add: show_u64_def show_nat_digits)
  have "show_u64 n \<noteq> []" by (simp add: show_u64_def)
  with d show ?thesis
    by (auto simp: seg_def dest: digit_not_slash digit_not_dot)
qed

lemma seg_mhKey [simp]: "seg s \<Longrightarrow> seg (sprefixMhtoPieceCids @ s)"
  by (auto simp: seg_def sprefixMhtoPieceCids_def sprefix_simps)

lemma key_segs_ok [simp]:
  assumes "names_ok W"
  shows "key_segs W k \<noteq> []" and "\<forall>s\<in>set (key_segs W k). seg s"
  using assms by (cases k; simp)+

lemma newKey_key_of: "names_ok W \<Longrightarrow> newKey W (joinSlash (key_segs W k)) = key_of W k"
  by (simp add: key_of_def ok_newKey)

lemma newKey_idem [simp]: "names_ok W \<Longrightarrow> newKey W (key_of W k) = key_of W k"
  by (simp add: key_of_def ok_newKey)

text \<open>The keys that the code builds are those of the typed keys.\<close>

lemma built_keys [simp]:
  assumes "names_ok W"
  shows "dskeyNextCursor W = key_of W KCursor"
    and "pieceCidToCursorKey W c = key_of W (KPiece c)"
    and "mhToPieceCidsKey W (mhString W m) = key_of W (KMh m)"
    and "pieceCidToFlaggedKey W a c = key_of W (KFlag a c)"
    and "recordKey W (KeyCursorPrefix cur) m = key_of W (KRec cur m)"
  using newKey_key_of [OF assms, of KCursor] newKey_key_of [OF assms, of "KPiece c"]
    newKey_key_of [OF assms, of "KMh m"] newKey_key_of [OF assms, of "KFlag a c"]
    newKey_key_of [OF assms, of "KRec cur m"]
  by (simp_all add: dskeyNextCursor_def pieceCidToCursorKey_def mhToPieceCidsKey_def
      pieceCidToFlaggedKey_def recordKey_def KeyCursorPrefix_def)

section \<open>No collisions\<close>

lemma show_u64_first: "hd (show_u64 n) \<noteq> CHR 0x00" "hd (show_u64 n) \<noteq> CHR 0x01"
  "hd (show_u64 n) \<noteq> CHR 0x03"
proof -
  have "hd (show_u64 n) \<in> set (show_u64 n)"
    by (rule hd_in_set) (simp add: show_u64_def)
  then have "is_digit (hd (show_u64 n))"
    unfolding show_u64_def by (rule show_nat_digits)
  then show "hd (show_u64 n) \<noteq> CHR 0x00" "hd (show_u64 n) \<noteq> CHR 0x01"
    "hd (show_u64 n) \<noteq> CHR 0x03"
    by (auto dest: is_digit_code)
qed

lemma show_u64_not_sprefix [simp]:
  "show_u64 n \<noteq> sprefixPieceCidToCursor" "show_u64 n \<noteq> sprefixPieceCidToFlagged"
  "sprefixPieceCidToCursor \<noteq> show_u64 n" "sprefixPieceCidToFlagged \<noteq> show_u64 n"
  using show_u64_first [of n]
  by (auto simp: sprefixPieceCidToCursor_def sprefixPieceCidToFlagged_def sprefix_simps
      dest: arg_cong [of _ _ hd] arg_cong [of _ "show_u64 n" hd])

lemma sprefix_distinct [simp]:
  "sprefixPieceCidToCursor \<noteq> sprefixPieceCidToFlagged"
  "sprefixPieceCidToFlagged \<noteq> sprefixPieceCidToCursor"
  "sprefixMhtoPieceCids @ s \<noteq> sprefix 0" "sprefix 0 \<noteq> sprefixMhtoPieceCids @ s"
  by (simp_all add: sprefixPieceCidToCursor_def sprefixPieceCidToFlagged_def
      sprefixMhtoPieceCids_def sprefix_simps)

lemma show_u64_eq [simp]: "show_u64 a = show_u64 b \<longleftrightarrow> a = b"
  by (auto dest: show_u64_inj)

lemma key_segs_inj:
  assumes "names_ok W"
  shows "key_segs W j = key_segs W k \<longleftrightarrow> j = k"
  using assms by (cases j; cases k; simp)

lemma key_of_inj [simp]: "names_ok W \<Longrightarrow> key_of W j = key_of W k \<longleftrightarrow> j = k"
  by (simp add: key_of_def joinSlash_inj key_segs_inj)

text \<open>Which keys a query by table prefix or by cursor prefix sees.\<close>

lemma key_of_prefix:
  assumes "names_ok W" and "seg p"
  shows "hasPrefix (key_of W k) (CHR ''/'' # p @ ''/'')
     \<longleftrightarrow> (\<exists>rest. rest \<noteq> [] \<and> key_segs W k = p # rest)"
  using assms by (simp add: key_of_def joinSlash_prefix)

lemma key_of_prefix_cases:
  assumes "names_ok W"
  shows "hasPrefix (key_of W k) (CHR ''/'' # sprefixPieceCidToCursor @ ''/'') \<longleftrightarrow> (\<exists>c. k = KPiece c)"
    and "hasPrefix (key_of W k) (CHR ''/'' # sprefixPieceCidToFlagged @ ''/'') \<longleftrightarrow> (\<exists>a c. k = KFlag a c)"
    and "hasPrefix (key_of W k) (CHR ''/'' # show_u64 cur @ ''/'') \<longleftrightarrow> (\<exists>m. k = KRec cur m)"
proof -
  show "hasPrefix (key_of W k) (CHR ''/'' # sprefixPieceCidToCursor @ ''/'') \<longleftrightarrow> (\<exists>c. k = KPiece c)"
    using assms by (cases k) (simp_all add: key_of_prefix)
  show "hasPrefix (key_of W k) (CHR ''/'' # sprefixPieceCidToFlagged @ ''/'') \<longleftrightarrow> (\<exists>a c. k = KFlag a c)"
    using assms by (cases k) (simp_all add: key_of_prefix)
  show "hasPrefix (key_of W k) (CHR ''/'' # show_u64 cur @ ''/'') \<longleftrightarrow> (\<exists>m. k = KRec cur m)"
    using assms by (cases k) (auto simp: key_of_prefix)
qed

section \<open>The typed view of a store\<close>

definition tview ::
  "'s world \<Rightarrow> ('s \<Rightarrow> string \<Rightarrow> dsval option) \<Rightarrow> 's \<Rightarrow> tkey \<Rightarrow> dsval option" where
  "tview W view s k = view s (key_of W k)"

text \<open>
  Every entry of the store lies under one of the store's own keys and holds a document of the
  type of its table, the piece lists of the multihash table without duplicates and never empty:
  what \<open>wf_store\<close> says, and every operation preserves.
\<close>

fun typed :: "tkey \<Rightarrow> dsval \<Rightarrow> bool" where
  "typed KCursor v = (\<exists>c. v = VBytes (uvarintBuf c))"
| "typed (KPiece c) v = (\<exists>md. v = VMd md \<and> \<not> CompleteIndex md)"
| "typed (KMh m) v = (\<exists>cs. v = VCids cs \<and> distinct cs \<and> cs \<noteq> [])"
| "typed (KFlag a c) v = (\<exists>fm. v = VFlagged fm)"
| "typed (KRec cur m) v = (\<exists>ofs sz. v = VBytes (putUvarint ofs @ putUvarint sz))"

definition wf_store :: "'s world \<Rightarrow> ('s \<Rightarrow> string \<Rightarrow> dsval option) \<Rightarrow> 's \<Rightarrow> bool" where
  "wf_store W view s \<longleftrightarrow>
     (\<forall>k v. view s k = Some v \<longrightarrow> (\<exists>t. k = key_of W t \<and> typed t v))"

lemma wf_typed: "names_ok W \<Longrightarrow> wf_store W view s \<Longrightarrow> tview W view s t = Some v \<Longrightarrow> typed t v"
  unfolding wf_store_def tview_def by (metis key_of_inj)

lemma wf_store_update:
  "names_ok W \<Longrightarrow> wf_store W view s \<Longrightarrow> view s' = (view s)(key_of W t \<mapsto> v) \<Longrightarrow> typed t v \<Longrightarrow>
    wf_store W view s'"
  by (auto simp: wf_store_def)

lemma wf_store_delete:
  "wf_store W view s \<Longrightarrow> view s' = (view s)(key_of W t := None) \<Longrightarrow> wf_store W view s'"
  by (auto simp: wf_store_def split: if_splits)

lemma tview_update:
  "names_ok W \<Longrightarrow> view s' = (view s)(key_of W t := x) \<Longrightarrow> tview W view s' = (tview W view s)(t := x)"
  by (auto simp: tview_def fun_eq_iff)

text \<open>Reading a table by query: the listing below a prefix, through the typed keys.\<close>

lemma listing_pieces:
  assumes ok: "world_ok W view listing" and wf: "wf_store W view s"
  shows "(k, v) \<in> set (listing s sprefixPieceCidToCursor) \<longleftrightarrow>
    (\<exists>c md. k = key_of W (KPiece c) \<and> v = VMd md \<and> tview W view s (KPiece c) = Some (VMd md))"
proof -
  note nm = ok_names [OF ok]
  have "view s k = Some v \<Longrightarrow> \<exists>t. k = key_of W t \<and> typed t v"
    using wf by (auto simp: wf_store_def)
  then show ?thesis
    unfolding conjunct2 [OF ok_listing [OF ok]] tview_def
    using key_of_prefix_cases(1) [OF nm] by fastforce
qed

lemma listing_flags:
  assumes ok: "world_ok W view listing" and wf: "wf_store W view s"
  shows "(k, v) \<in> set (listing s sprefixPieceCidToFlagged) \<longleftrightarrow>
    (\<exists>a c fm. k = key_of W (KFlag a c) \<and> v = VFlagged fm \<and>
       tview W view s (KFlag a c) = Some (VFlagged fm))"
proof -
  note nm = ok_names [OF ok]
  have "view s k = Some v \<Longrightarrow> \<exists>t. k = key_of W t \<and> typed t v"
    using wf by (auto simp: wf_store_def)
  then show ?thesis
    unfolding conjunct2 [OF ok_listing [OF ok]] tview_def
    using key_of_prefix_cases(2) [OF nm] by fastforce
qed

lemma listing_records:
  assumes ok: "world_ok W view listing" and wf: "wf_store W view s"
  shows "(k, v) \<in> set (listing s (show_u64 cur)) \<longleftrightarrow>
    (\<exists>m ofs sz. k = key_of W (KRec cur m) \<and> v = VBytes (putUvarint ofs @ putUvarint sz) \<and>
       tview W view s (KRec cur m) = Some v)"
proof -
  note nm = ok_names [OF ok]
  have "view s k = Some v \<Longrightarrow> \<exists>t. k = key_of W t \<and> typed t v"
    using wf by (auto simp: wf_store_def)
  then show ?thesis
    unfolding conjunct2 [OF ok_listing [OF ok]] tview_def
    using key_of_prefix_cases(3) [OF nm] by fastforce
qed

end
