(* ===== verification/LdbSpec.thy ===== *)
theory LdbSpec
  imports LdbKeys
begin

text \<open>
  The local index directory as the rest of the system understands it: \<open>lid\<close> has one map per
  table, over CIDs, multihashes and cursors instead of key strings and byte values. \<open>lid_of\<close>
  reads it off a store; the lemmas say how the primitive accesses of \<open>DB\<close> look through it, and
  the operations' refinement lemmas are stated with it.
\<close>

record lid =
  lidNext :: "u64 option"
  lidPieces :: "cid \<Rightarrow> LeveldbMetadata option"
  lidMhs :: "multihash \<Rightarrow> cid list option"
  lidFlags :: "address \<Rightarrow> cid \<Rightarrow> LeveldbFlaggedMetadata option"
  lidRecs :: "u64 \<Rightarrow> multihash \<Rightarrow> OffsetSize option"

section \<open>Decoding a record\<close>

text \<open>
  \<open>offset, n := binary.Uvarint(b); size, _ := binary.Uvarint(b[n:])\<close>: a negative \<open>n\<close>
  (overflow) makes the slice expression panic.
\<close>

definition decodeOffsetSize :: "u8 list \<Rightarrow> OffsetSize outcome" where
  "decodeOffsetSize b =
     (let (ofs, n) = uvarint b in
      if n < 0 then Panic
      else let (sz, _) = uvarint (drop (nat n) b) in Ret \<lparr>Offset = ofs, Size = sz\<rparr>)"

lemma decodeOffsetSize_put [simp]:
  "decodeOffsetSize (putUvarint ofs @ putUvarint sz) = Ret \<lparr>Offset = ofs, Size = sz\<rparr>"
  using uvarint_put [of sz "[]"] by (simp add: decodeOffsetSize_def uvarint_put)

section \<open>The abstraction\<close>

fun asMd :: "dsval option \<Rightarrow> LeveldbMetadata option" where
  "asMd (Some (VMd md)) = Some md"
| "asMd _ = None"

fun asCids :: "dsval option \<Rightarrow> cid list option" where
  "asCids (Some (VCids cs)) = Some cs"
| "asCids _ = None"

fun asFlagged :: "dsval option \<Rightarrow> LeveldbFlaggedMetadata option" where
  "asFlagged (Some (VFlagged fm)) = Some fm"
| "asFlagged _ = None"

fun asCursor :: "dsval option \<Rightarrow> u64 option" where
  "asCursor (Some (VBytes b)) = Some (fst (uvarint b))"
| "asCursor _ = None"

fun asRec :: "dsval option \<Rightarrow> OffsetSize option" where
  "asRec (Some (VBytes b)) = (case decodeOffsetSize b of Ret r \<Rightarrow> Some r | _ \<Rightarrow> None)"
| "asRec _ = None"

definition lid_of :: "'s world \<Rightarrow> ('s \<Rightarrow> string \<Rightarrow> dsval option) \<Rightarrow> 's \<Rightarrow> lid" where
  "lid_of W view s =
     \<lparr>lidNext = asCursor (tview W view s KCursor),
      lidPieces = (\<lambda>c. asMd (tview W view s (KPiece c))),
      lidMhs = (\<lambda>m. asCids (tview W view s (KMh m))),
      lidFlags = (\<lambda>a c. asFlagged (tview W view s (KFlag a c))),
      lidRecs = (\<lambda>cur m. asRec (tview W view s (KRec cur m)))\<rparr>"

text \<open>Writing one entry changes one map at one place.\<close>

lemma lid_update:
  assumes "names_ok W"
  shows "view s' = (view s)(key_of W KCursor \<mapsto> VBytes (uvarintBuf n)) \<Longrightarrow>
      lid_of W view s' = lid_of W view s\<lparr>lidNext := Some n\<rparr>"
    and "view s' = (view s)(key_of W (KPiece c) \<mapsto> VMd md) \<Longrightarrow>
      lid_of W view s' = lid_of W view s\<lparr>lidPieces := (lidPieces (lid_of W view s))(c \<mapsto> md)\<rparr>"
    and "view s' = (view s)(key_of W (KPiece c) := None) \<Longrightarrow>
      lid_of W view s' = lid_of W view s\<lparr>lidPieces := (lidPieces (lid_of W view s))(c := None)\<rparr>"
    and "view s' = (view s)(key_of W (KFlag a c) \<mapsto> VFlagged fm) \<Longrightarrow>
      lid_of W view s' = lid_of W view s
        \<lparr>lidFlags := (lidFlags (lid_of W view s))(a := (lidFlags (lid_of W view s) a)(c \<mapsto> fm))\<rparr>"
    and "view s' = (view s)(key_of W (KFlag a c) := None) \<Longrightarrow>
      lid_of W view s' = lid_of W view s
        \<lparr>lidFlags := (lidFlags (lid_of W view s))(a := (lidFlags (lid_of W view s) a)(c := None))\<rparr>"
    and "view s' = (view s)(key_of W (KRec cur m) \<mapsto> VBytes (putUvarint ofs @ putUvarint sz)) \<Longrightarrow>
      lid_of W view s' = lid_of W view s
        \<lparr>lidRecs := (lidRecs (lid_of W view s))
           (cur := (lidRecs (lid_of W view s) cur)(m \<mapsto> \<lparr>Offset = ofs, Size = sz\<rparr>))\<rparr>"
  using assms by (auto simp: lid_of_def tview_def fun_eq_iff)

lemma lid_same: "view s' = view s \<Longrightarrow> lid_of W view s' = lid_of W view s"
  by (simp add: lid_of_def tview_def)

text \<open>Reading a typed entry of a well-formed store.\<close>

lemma tview_lid:
  assumes "names_ok W" and "wf_store W view s"
  shows "tview W view s (KPiece c) = map_option VMd (lidPieces (lid_of W view s) c)"
    and "tview W view s (KMh m) = map_option VCids (lidMhs (lid_of W view s) m)"
    and "tview W view s (KFlag a c) = map_option VFlagged (lidFlags (lid_of W view s) a c)"
    and "tview W view s KCursor = map_option (\<lambda>n. VBytes (uvarintBuf n)) (lidNext (lid_of W view s))"
    and "tview W view s (KRec cur m) =
      map_option (\<lambda>r. VBytes (putUvarint (Offset r) @ putUvarint (Size r)))
        (lidRecs (lid_of W view s) cur m)"
proof -
  note t = wf_typed [OF assms]
  show "tview W view s (KPiece c) = map_option VMd (lidPieces (lid_of W view s) c)"
    using t [of "KPiece c"] by (cases "tview W view s (KPiece c)") (auto simp: lid_of_def)
  show "tview W view s (KMh m) = map_option VCids (lidMhs (lid_of W view s) m)"
    using t [of "KMh m"] by (cases "tview W view s (KMh m)") (auto simp: lid_of_def)
  show "tview W view s (KFlag a c) = map_option VFlagged (lidFlags (lid_of W view s) a c)"
    using t [of "KFlag a c"] by (cases "tview W view s (KFlag a c)") (auto simp: lid_of_def)
  show "tview W view s KCursor = map_option (\<lambda>n. VBytes (uvarintBuf n)) (lidNext (lid_of W view s))"
    using t [of KCursor] by (cases "tview W view s KCursor") (auto simp: lid_of_def)
  show "tview W view s (KRec cur m) =
      map_option (\<lambda>r. VBytes (putUvarint (Offset r) @ putUvarint (Size r)))
        (lidRecs (lid_of W view s) cur m)"
    using t [of "KRec cur m"] by (cases "tview W view s (KRec cur m)") (auto simp: lid_of_def)
qed

lemma mhs_wf:
  assumes "names_ok W" and "wf_store W view s" and "lidMhs (lid_of W view s) m = Some cs"
  shows "distinct cs" and "cs \<noteq> []"
  using wf_typed [OF assms(1,2), of "KMh m"] tview_lid(2) [OF assms(1,2), of m] assms(3) by auto

lemma pieces_incomplete:
  assumes "names_ok W" and "wf_store W view s" and "lidPieces (lid_of W view s) p = Some md"
  shows "\<not> CompleteIndex md"
  using wf_typed [OF assms(1,2), of "KPiece p"] tview_lid(1) [OF assms(1,2), of p] assms(3) by auto

text \<open>\<open>Get\<close> on a key of each table.\<close>

lemma get_typed:
  assumes ok: "world_ok W view listing" and wf: "wf_store W view s"
  shows "dsGet W s (key_of W (KPiece c)) =
      (case lidPieces (lid_of W view s) c of None \<Rightarrow> Inl dsErrNotFound | Some md \<Rightarrow> Inr (VMd md))"
    and "dsGet W s (key_of W (KMh m)) =
      (case lidMhs (lid_of W view s) m of None \<Rightarrow> Inl dsErrNotFound | Some cs \<Rightarrow> Inr (VCids cs))"
    and "dsGet W s (key_of W (KFlag a c)) =
      (case lidFlags (lid_of W view s) a c of None \<Rightarrow> Inl dsErrNotFound | Some fm \<Rightarrow> Inr (VFlagged fm))"
    and "dsGet W s (key_of W KCursor) =
      (case lidNext (lid_of W view s) of None \<Rightarrow> Inl dsErrNotFound
       | Some n \<Rightarrow> Inr (VBytes (uvarintBuf n)))"
    and "dsGet W s (key_of W (KRec cur m)) =
      (case lidRecs (lid_of W view s) cur m of None \<Rightarrow> Inl dsErrNotFound
       | Some r \<Rightarrow> Inr (VBytes (putUvarint (Offset r) @ putUvarint (Size r))))"
  using tview_lid [OF ok_names [OF ok] wf]
  by (simp_all add: ok_get [OF ok] tview_def split: option.split)

section \<open>Batches\<close>

fun opKey :: "batchop \<Rightarrow> string" where
  "opKey (BPut k v) = k"
| "opKey (BDel k) = k"

fun opVal :: "batchop \<Rightarrow> dsval option" where
  "opVal (BPut k v) = Some v"
| "opVal (BDel k) = None"

lemma applyOp_eq: "applyOp op m = m(opKey op := opVal op)"
  by (cases op) auto

lemma fold_applyOp_untouched: "k \<notin> opKey ` set ops \<Longrightarrow> fold applyOp ops m k = m k"
  by (induction ops arbitrary: m) (auto simp: applyOp_eq)

lemma fold_applyOp_touched:
  assumes "k \<in> opKey ` set ops" and "\<forall>op\<in>set ops. opKey op = k \<longrightarrow> opVal op = x"
  shows "fold applyOp ops m k = x"
  using assms
proof (induction ops arbitrary: m)
  case (Cons a ops)
  show ?case
  proof (cases "k \<in> opKey ` set ops")
    case True
    with Cons show ?thesis by simp
  next
    case False
    with Cons.prems have "opKey a = k" and "opVal a = x" by auto
    moreover have "fold applyOp ops (applyOp a m) k = applyOp a m k"
      using False by (rule fold_applyOp_untouched)
    ultimately show ?thesis by (simp add: applyOp_eq [of a])
  qed
qed simp

text \<open>A store changed at typed keys only, by typed values, stays well formed.\<close>

lemma wf_store_batch:
  assumes wf: "wf_store W view s" and v: "view s' = fold applyOp ops (view s)"
    and ops: "\<forall>op\<in>set ops. \<exists>t. opKey op = key_of W t \<and> (\<forall>v. opVal op = Some v \<longrightarrow> typed t v)"
  shows "wf_store W view s'"
proof -
  have "fold applyOp ops m k = Some v \<Longrightarrow> (\<forall>k v. m k = Some v \<longrightarrow> (\<exists>t. k = key_of W t \<and> typed t v))
      \<Longrightarrow> \<exists>t. k = key_of W t \<and> typed t v" for m k v
    using ops
  proof (induction ops arbitrary: m)
    case (Cons op ops)
    then obtain t where t: "opKey op = key_of W t" "\<forall>v. opVal op = Some v \<longrightarrow> typed t v" by auto
    have "\<forall>k v. applyOp op m k = Some v \<longrightarrow> (\<exists>t. k = key_of W t \<and> typed t v)"
      using Cons.prems(2) t by (auto simp: applyOp_eq)
    with Cons show ?case by auto
  qed simp
  with wf v show ?thesis unfolding wf_store_def by metis
qed

text \<open>
  A batch whose writes agree with one function \<open>G\<close> of the typed key: every touched key holds
  its value of \<open>G\<close>, whatever the order and repetitions.
\<close>

lemma tview_batch:
  assumes nm: "names_ok W" and v: "view s' = fold applyOp ops (view s)"
    and G: "\<And>op. op \<in> set ops \<Longrightarrow> \<exists>t. opKey op = key_of W t \<and> opVal op = G t"
  shows "tview W view s' t = (if key_of W t \<in> opKey ` set ops then G t else tview W view s t)"
proof (cases "key_of W t \<in> opKey ` set ops")
  case True
  moreover have "\<forall>op\<in>set ops. opKey op = key_of W t \<longrightarrow> opVal op = G t"
    using G nm by (metis key_of_inj)
  ultimately show ?thesis by (simp add: tview_def v fold_applyOp_touched)
next
  case False
  then show ?thesis by (simp add: tview_def v fold_applyOp_untouched)
qed

lemma lid_ofI:
  assumes "\<And>t. \<forall>m. t \<noteq> KMh m \<Longrightarrow> \<forall>cur m. t \<noteq> KRec cur m \<Longrightarrow> tview W view s' t = tview W view s t"
    and "\<And>m. asCids (tview W view s' (KMh m)) = f m"
    and "\<And>cur m. asRec (tview W view s' (KRec cur m)) = g cur m"
  shows "lid_of W view s' = lid_of W view s\<lparr>lidMhs := f, lidRecs := g\<rparr>"
  using assms by (simp add: lid_of_def)

lemma lid_sel:
  "asCids (tview W view s (KMh m)) = lidMhs (lid_of W view s) m"
  "asRec (tview W view s (KRec cur m)) = lidRecs (lid_of W view s) cur m"
  by (simp_all add: lid_of_def)

section \<open>Tables as lists\<close>

text \<open>
  What a query returns for a table: a list with one element per entry of the table's map, in the
  order of the datastore.
\<close>

lemma listing_shape:
  assumes nm: "names_ok W" and d: "distinct (map fst xs)"
    and K: "inj K" and V: "inj V"
    and el: "\<And>k v. (k, v) \<in> set xs \<longleftrightarrow> (\<exists>x y. k = key_of W (K x) \<and> v = V y \<and> P x y)"
  shows "\<exists>ps. xs = map (\<lambda>(x, y). (key_of W (K x), V y)) ps \<and> distinct (map fst ps) \<and>
    (\<forall>x y. (x, y) \<in> set ps \<longleftrightarrow> P x y)"
proof -
  let ?f = "\<lambda>(x, y). (key_of W (K x), V y)"
  have "\<forall>e\<in>set xs. \<exists>p. e = ?f p" using el by fastforce
  then have "\<exists>ps. xs = map ?f ps" unfolding ex_map_conv .
  then obtain ps where ps: "xs = map ?f ps" by (elim exE)
  have "map fst xs = map (key_of W \<circ> K) (map fst ps)" by (simp add: ps split_def)
  with d have "distinct (map fst ps)" by (simp only: distinct_map)
  moreover have inj: "?f (x, y) = ?f (x', y') \<longleftrightarrow> x = x' \<and> y = y'" for x y x' y'
    using nm K V by (auto dest: injD)
  have injf: "inj ?f" using inj by (intro injI) (metis surj_pair)
  have "(x, y) \<in> set ps \<longleftrightarrow> P x y" for x y
  proof -
    have "(x, y) \<in> set ps \<longleftrightarrow> ?f (x, y) \<in> set xs"
      unfolding ps set_map by (rule inj_image_mem_iff [OF injf, symmetric])
    also have "\<dots> \<longleftrightarrow> P x y"
      using el [of "key_of W (K x)" "V y"] nm injD [OF K] injD [OF V] by auto
    finally show ?thesis .
  qed
  ultimately show ?thesis using ps by blast
qed

definition recVal :: "OffsetSize \<Rightarrow> dsval" where
  "recVal r = VBytes (putUvarint (Offset r) @ putUvarint (Size r))"

lemma recVal_inj: "inj recVal"
proof (rule injI)
  fix x y
  assume "recVal x = recVal y"
  then have "(Ret \<lparr>Offset = Offset x, Size = Size x\<rparr> :: OffsetSize outcome)
      = Ret \<lparr>Offset = Offset y, Size = Size y\<rparr>"
    unfolding recVal_def by (metis decodeOffsetSize_put dsval.inject(1))
  then show "x = y" by simp
qed

lemma listing_records_lid:
  assumes ok: "world_ok W view listing" and wf: "wf_store W view s"
  shows "\<exists>ms. listing s (show_u64 cur) = map (\<lambda>(m, r). (key_of W (KRec cur m), recVal r)) ms \<and>
    distinct (map fst ms) \<and> (\<forall>m r. (m, r) \<in> set ms \<longleftrightarrow> lidRecs (lid_of W view s) cur m = Some r)"
proof (rule listing_shape)
  note nm = ok_names [OF ok]
  show "names_ok W" by (fact nm)
  show "distinct (map fst (listing s (show_u64 cur)))" using ok_listing [OF ok] by blast
  show "inj (KRec cur)" by (simp add: inj_def)
  show "inj recVal" by (fact recVal_inj)
  show "(k, v) \<in> set (listing s (show_u64 cur)) \<longleftrightarrow>
      (\<exists>x y. k = key_of W (KRec cur x) \<and> v = recVal y \<and> lidRecs (lid_of W view s) cur x = Some y)"
    for k v
    unfolding listing_records [OF ok wf] tview_lid(5) [OF nm wf]
    by (auto simp: recVal_def)
qed

lemma listing_pieces_lid:
  assumes ok: "world_ok W view listing" and wf: "wf_store W view s"
  shows "\<exists>ps. listing s sprefixPieceCidToCursor = map (\<lambda>(c, md). (key_of W (KPiece c), VMd md)) ps \<and>
    distinct (map fst ps) \<and> (\<forall>c md. (c, md) \<in> set ps \<longleftrightarrow> lidPieces (lid_of W view s) c = Some md)"
proof (rule listing_shape)
  note nm = ok_names [OF ok]
  show "names_ok W" by (fact nm)
  show "distinct (map fst (listing s sprefixPieceCidToCursor))" using ok_listing [OF ok] by blast
  show "inj KPiece" and "inj VMd" by (simp_all add: inj_def)
  show "(k, v) \<in> set (listing s sprefixPieceCidToCursor) \<longleftrightarrow>
      (\<exists>x y. k = key_of W (KPiece x) \<and> v = VMd y \<and> lidPieces (lid_of W view s) x = Some y)" for k v
    unfolding listing_pieces [OF ok wf] tview_lid(1) [OF nm wf] by auto
qed

lemma listing_flags_lid:
  assumes ok: "world_ok W view listing" and wf: "wf_store W view s"
  shows "\<exists>fs. listing s sprefixPieceCidToFlagged =
      map (\<lambda>((a, c), fm). (key_of W (KFlag a c), VFlagged fm)) fs \<and>
    distinct (map fst fs) \<and>
    (\<forall>a c fm. ((a, c), fm) \<in> set fs \<longleftrightarrow> lidFlags (lid_of W view s) a c = Some fm)"
proof -
  note nm = ok_names [OF ok]
  have "\<exists>fs. listing s sprefixPieceCidToFlagged =
      map (\<lambda>(x, y). (key_of W (KFlag (fst x) (snd x)), VFlagged y)) fs \<and> distinct (map fst fs) \<and>
      (\<forall>x y. (x, y) \<in> set fs \<longleftrightarrow> lidFlags (lid_of W view s) (fst x) (snd x) = Some y)"
  proof (rule listing_shape [where K = "\<lambda>x. KFlag (fst x) (snd x)"])
    show "names_ok W" by (fact nm)
    show "distinct (map fst (listing s sprefixPieceCidToFlagged))" using ok_listing [OF ok] by blast
    show "inj (\<lambda>x. KFlag (fst x) (snd x))" and "inj VFlagged" by (auto simp: inj_def)
    show "(k, v) \<in> set (listing s sprefixPieceCidToFlagged) \<longleftrightarrow>
        (\<exists>x y. k = key_of W (KFlag (fst x) (snd x)) \<and> v = VFlagged y \<and>
           lidFlags (lid_of W view s) (fst x) (snd x) = Some y)" for k v
      unfolding listing_flags [OF ok wf] tview_lid(3) [OF nm wf] by auto
  qed
  then show ?thesis by (force simp: split_def)
qed

end
