(* ===== verification/LdbDb.thy ===== *)
theory LdbDb
  imports LdbSpec "HOL-Library.AList"
begin

text \<open>
  The methods of \<open>DB\<close> (\<open>lib/boostd-data/ldb/db.go\<close>). A method takes the world \<open>W\<close> and the
  state \<open>s\<close> of the datastore and returns its Go results with the new state when it writes.
  Tracing spans and logging are left out; \<open>time.Now()\<close> is the argument \<open>now\<close>. The
  package-level variables \<open>offset\<close> and \<open>checked\<close> of the doctor are the record \<open>checker\<close>.
\<close>

section \<open>Cursors\<close>

definition DB_SetNextCursor :: "'s world \<Rightarrow> 's \<Rightarrow> u64 \<Rightarrow> goerr option \<times> 's" where
  "DB_SetNextCursor W s cursor = dsPut W s (dskeyNextCursor W) (VBytes (uvarintBuf cursor))"

definition DB_InitCursor :: "'s world \<Rightarrow> 's \<Rightarrow> goerr option \<times> 's" where
  "DB_InitCursor W s =
     (let failed = (\<lambda>err. Some (errorf_w ''initializing database cursor: '' err)) in
      case dsGet W s (dskeyNextCursor W) of
        Inr _ \<Rightarrow> (None, s)
      | Inl err \<Rightarrow>
          if errors_Is err DsErrNotFound then
            (case DB_SetNextCursor W s 100 of
               (None, s') \<Rightarrow> (None, s')
             | (Some err', s') \<Rightarrow> (failed err', s'))
          else (failed err, s))"

definition DB_NextCursor :: "'s world \<Rightarrow> 's \<Rightarrow> goerr + u64 \<times> string" where
  "DB_NextCursor W s =
     (case dsGet W s (dskeyNextCursor W) of
        Inl err \<Rightarrow> Inl err
      | Inr b \<Rightarrow> let (cursor, _) = uvarint (valBytes b) in Inr (cursor, KeyCursorPrefix cursor))"

section \<open>Metadata\<close>

definition DB_SetPieceCidToMetadata ::
  "'s world \<Rightarrow> 's \<Rightarrow> cid \<Rightarrow> LeveldbMetadata \<Rightarrow> goerr option \<times> 's" where
  "DB_SetPieceCidToMetadata W s pieceCid md = dsPut W s (pieceCidToCursorKey W pieceCid) (VMd (jsonMd md))"

text \<open>On an error the Go function returns the zero metadata beside it; \<open>IndexedAt\<close> reads it.\<close>

definition DB_GetPieceCidToMetadata ::
  "'s world \<Rightarrow> 's \<Rightarrow> cid \<Rightarrow> LeveldbMetadata \<times> goerr option" where
  "DB_GetPieceCidToMetadata W s pieceCid =
     (case dsGet W s (pieceCidToCursorKey W pieceCid) of
        Inl err \<Rightarrow> (zeroLeveldbMetadata,
          Some (errorf_w (''getting piece metadata for piece '' @ cidString W pieceCid @ '': '') err))
      | Inr b \<Rightarrow>
          (case unmarshalMd b of
             Inl err \<Rightarrow> (zeroLeveldbMetadata,
               Some (errorf_w
                 (''unmarshaling piece metadata for piece '' @ cidString W pieceCid @ '': '') err))
           | Inr metadata \<Rightarrow> (metadata, None)))"

definition DB_SetPieceCidToFlagged ::
  "'s world \<Rightarrow> 's \<Rightarrow> cid \<Rightarrow> address \<Rightarrow> LeveldbFlaggedMetadata \<Rightarrow> goerr option \<times> 's" where
  "DB_SetPieceCidToFlagged W s pieceCid maddr fm =
     dsPut W s (pieceCidToFlaggedKey W maddr pieceCid) (VFlagged fm)"

definition DB_GetPieceCidToFlagged ::
  "'s world \<Rightarrow> 's \<Rightarrow> cid \<Rightarrow> address \<Rightarrow> goerr + LeveldbFlaggedMetadata" where
  "DB_GetPieceCidToFlagged W s pieceCid maddr =
     (case dsGet W s (pieceCidToFlaggedKey W maddr pieceCid) of
        Inl err \<Rightarrow>
          Inl (errorf_w (''getting flagged metadata for piece '' @ cidString W pieceCid @ '': '') err)
      | Inr b \<Rightarrow>
          (case unmarshalFlagged b of
             Inl err \<Rightarrow> Inl (errorf_w
               (''unmarshaling flagged metadata for piece '' @ cidString W pieceCid @ '': '') err)
           | Inr metadata \<Rightarrow> Inr metadata))"

definition DB_DeletePieceCidToFlagged ::
  "'s world \<Rightarrow> 's \<Rightarrow> cid \<Rightarrow> address \<Rightarrow> goerr option \<times> 's" where
  "DB_DeletePieceCidToFlagged W s pieceCid maddr = dsDelete W s (pieceCidToFlaggedKey W maddr pieceCid)"

section \<open>Multihashes\<close>

definition DB_GetPieceCidsByMultihash :: "'s world \<Rightarrow> 's \<Rightarrow> multihash \<Rightarrow> goerr + cid list" where
  "DB_GetPieceCidsByMultihash W s mh =
     (case dsGet W s (mhToPieceCidsKey W (mhString W mh)) of
        Inl err \<Rightarrow>
          Inl (errorf_w (''failed to get value for multihash '' @ mhString W mh @ '', err: '') err)
      | Inr val \<Rightarrow>
          (case unmarshalCids val of
             Inl err \<Rightarrow> Inl (errorf_w ''failed to unmarshal pieceCids slice: '' err)
           | Inr pcids \<Rightarrow> Inr pcids))"

fun has :: "cid list \<Rightarrow> cid \<Rightarrow> bool" where
  "has [] v = False"
| "has (l # list) v = (l = v \<or> has list v)"

text \<open>\<open>carindex.Record\<close>: the CID and the offset of a block.\<close>

record carindexRecord =
  crCid :: cid
  crOffset :: u64

text \<open>
  The body of the loop of \<open>SetMultihashesToPieceCid\<close>, for one record: it reads the database
  (never the pending batch) and appends at most one write to the batch.
\<close>

definition setMultihashStep ::
  "'s world \<Rightarrow> 's \<Rightarrow> cid \<Rightarrow> carindexRecord \<Rightarrow> batchop list \<Rightarrow> goerr + batchop list" where
  "setMultihashStep W s pieceCid r batch =
     (let mh = cidHash W (crCid r);
          key = mhToPieceCidsKey W (mhString W mh);
          putCids = (\<lambda>v. case dsBatchPut W s key (VCids v) of
              Some err \<Rightarrow> Inl (errorf_w (''failed to batch put mh='' @ mhString W mh @ '', err='') err)
            | None \<Rightarrow> Inr (batch @ [BPut key (VCids v)]))
      in case dsGet W s key of
           Inl err \<Rightarrow>
             if err = dsErrNotFound then putCids [pieceCid]
             else Inl (errorf_w
               (''failed to get value for multihash '' @ mhString W mh @ '', err: '') err)
         | Inr val \<Rightarrow>
             (case unmarshalCids val of
                Inl err \<Rightarrow> Inl (errorf_w ''failed to unmarshal pieceCids slice: '' err)
              | Inr pcids \<Rightarrow>
                  if has pcids pieceCid then Inr batch
                  else putCids (pcids @ [pieceCid])))"

fun setMultihashLoop ::
  "'s world \<Rightarrow> 's \<Rightarrow> cid \<Rightarrow> carindexRecord list \<Rightarrow> batchop list \<Rightarrow> goerr + batchop list" where
  "setMultihashLoop W s pieceCid [] batch = Inr batch"
| "setMultihashLoop W s pieceCid (r # recs) batch =
     (case setMultihashStep W s pieceCid r batch of
        Inl err \<Rightarrow> Inl err
      | Inr batch' \<Rightarrow> setMultihashLoop W s pieceCid recs batch')"

definition DB_SetMultihashesToPieceCid ::
  "'s world \<Rightarrow> 's \<Rightarrow> carindexRecord list \<Rightarrow> cid \<Rightarrow> goerr option \<times> 's" where
  "DB_SetMultihashesToPieceCid W s recs pieceCid =
     (case dsNewBatch W s of
        Some err \<Rightarrow> (Some (errorf_w ''failed to create ds batch: '' err), s)
      | None \<Rightarrow>
          (case setMultihashLoop W s pieceCid recs [] of
             Inl err \<Rightarrow> (Some err, s)
           | Inr batch \<Rightarrow>
               (case dsCommit W s batch of
                  (Some err, s') \<Rightarrow> (Some (errorf_w ''failed to commit batch: '' err), s')
                | (None, s') \<Rightarrow>
                    (case dsSync W s' (newKey W sprefixMhtoPieceCids) of
                       (Some err, s'') \<Rightarrow> (Some (errorf_w ''failed to sync puts: '' err), s'')
                     | (None, s'') \<Rightarrow> (None, s'')))))"

section \<open>Records\<close>

definition DB_AddIndexRecord ::
  "'s world \<Rightarrow> 's \<Rightarrow> string \<Rightarrow> IndexedBlock \<Rightarrow> goerr option \<times> 's" where
  "DB_AddIndexRecord W s cursorPrefix rec =
     dsPut W s (recordKey W cursorPrefix (cidHash W (Cid rec)))
       (VBytes (putUvarint (Offset rec) @ putUvarint (Size rec)))"

definition DB_GetOffsetSize :: "'s world \<Rightarrow> 's \<Rightarrow> string \<Rightarrow> multihash \<Rightarrow> OffsetSize outcome" where
  "DB_GetOffsetSize W s cursorPrefix m =
     (case dsGet W s (recordKey W cursorPrefix m) of
        Inl err \<Rightarrow> Fail err
      | Inr b \<Rightarrow> decodeOffsetSize (valBytes b))"

text \<open>The loop of \<open>AllRecords\<close>; \<open>plen\<close> is \<open>len(q.Prefix)\<close>.\<close>

fun allRecordsLoop ::
  "'s world \<Rightarrow> nat \<Rightarrow> (string \<times> dsval) list \<Rightarrow> IndexedBlock list \<Rightarrow> IndexedBlock list outcome" where
  "allRecordsLoop W plen [] records = Ret records"
| "allRecordsLoop W plen ((rKey, rValue) # results) records =
     (case mhFromHex W (drop (plen + 1) rKey) of
        Inl err \<Rightarrow> Fail err
      | Inr m \<Rightarrow>
          (case decodeOffsetSize (valBytes rValue) of
             Ret os \<Rightarrow> allRecordsLoop W plen results
               (records @ [\<lparr>Offset = Offset os, Size = Size os, Cid = cidNewV1Raw W m\<rparr>])
           | Fail err \<Rightarrow> Fail err
           | Panic \<Rightarrow> Panic))"

definition DB_AllRecords :: "'s world \<Rightarrow> 's \<Rightarrow> u64 \<Rightarrow> IndexedBlock list outcome" where
  "DB_AllRecords W s cursor =
     (let prefix = show_u64 cursor @ ''/'' in
      case dsQuery W s \<lparr>qPrefix = prefix, qKeysOnly = False, qLimit = 0, qOffset = 0\<rparr> of
        Inl err \<Rightarrow> Fail err
      | Inr results \<Rightarrow> allRecordsLoop W (length prefix) results [])"

section \<open>The accesses, through the abstraction\<close>

lemma DB_SetNextCursor_lid:
  assumes ok: "world_ok W view listing" and wf: "wf_store W view s"
    and r: "DB_SetNextCursor W s n = (e, s')"
  shows "e = None \<and> wf_store W view s' \<and> lid_of W view s' = lid_of W view s\<lparr>lidNext := Some n\<rparr>"
proof -
  note nm = ok_names [OF ok]
  from r nm have "dsPut W s (key_of W KCursor) (VBytes (uvarintBuf n)) = (e, s')"
    by (simp add: DB_SetNextCursor_def)
  from ok_put [OF ok this] show ?thesis
    using wf_store_update [OF nm wf, of s' KCursor] lid_update(1) [OF nm, of view s' s n] by auto
qed

lemma DB_NextCursor_lid:
  assumes ok: "world_ok W view listing" and wf: "wf_store W view s"
  shows "DB_NextCursor W s =
    (case lidNext (lid_of W view s) of None \<Rightarrow> Inl dsErrNotFound
     | Some n \<Rightarrow> Inr (n, KeyCursorPrefix n))"
  using ok_names [OF ok] by (simp add: DB_NextCursor_def get_typed [OF ok wf] split: option.split)

lemma DB_InitCursor_lid:
  assumes ok: "world_ok W view listing" and wf: "wf_store W view s"
    and r: "DB_InitCursor W s = (e, s')"
  shows "e = None \<and> wf_store W view s' \<and>
    lid_of W view s' = lid_of W view s
      \<lparr>lidNext := Some (case lidNext (lid_of W view s) of None \<Rightarrow> 100 | Some n \<Rightarrow> n)\<rparr>"
proof (cases "lidNext (lid_of W view s)")
  case None
  obtain e' s1 where p: "DB_SetNextCursor W s 100 = (e', s1)" by fastforce
  with DB_SetNextCursor_lid [OF ok wf p] r None ok_names [OF ok] show ?thesis
    by (simp add: DB_InitCursor_def get_typed [OF ok wf])
next
  case (Some n)
  then show ?thesis
    using r wf ok_names [OF ok] by (simp add: DB_InitCursor_def get_typed [OF ok wf])
qed

lemma DB_SetPieceCidToMetadata_lid:
  assumes ok: "world_ok W view listing" and wf: "wf_store W view s"
    and r: "DB_SetPieceCidToMetadata W s c md = (e, s')"
  shows "e = None \<and> wf_store W view s' \<and>
    lid_of W view s' = lid_of W view s\<lparr>lidPieces := (lidPieces (lid_of W view s))(c \<mapsto> jsonMd md)\<rparr>"
proof -
  note nm = ok_names [OF ok]
  from r nm have "dsPut W s (key_of W (KPiece c)) (VMd (jsonMd md)) = (e, s')"
    by (simp add: DB_SetPieceCidToMetadata_def)
  from ok_put [OF ok this] show ?thesis
    using wf_store_update [OF nm wf, of s' "KPiece c"] lid_update(2) [OF nm, of view s' s c "jsonMd md"]
    by auto
qed

lemma DB_GetPieceCidToMetadata_lid:
  assumes ok: "world_ok W view listing" and wf: "wf_store W view s"
  shows "DB_GetPieceCidToMetadata W s c =
    (case lidPieces (lid_of W view s) c of
       None \<Rightarrow> (zeroLeveldbMetadata,
         Some (errorf_w (''getting piece metadata for piece '' @ cidString W c @ '': '') dsErrNotFound))
     | Some md \<Rightarrow> (md, None))"
  using ok_names [OF ok]
  by (simp add: DB_GetPieceCidToMetadata_def get_typed [OF ok wf] split: option.split)

lemma DB_SetPieceCidToFlagged_lid:
  assumes ok: "world_ok W view listing" and wf: "wf_store W view s"
    and r: "DB_SetPieceCidToFlagged W s c a fm = (e, s')"
  shows "e = None \<and> wf_store W view s' \<and>
    lid_of W view s' = lid_of W view s
      \<lparr>lidFlags := (lidFlags (lid_of W view s))(a := (lidFlags (lid_of W view s) a)(c \<mapsto> fm))\<rparr>"
proof -
  note nm = ok_names [OF ok]
  from r nm have "dsPut W s (key_of W (KFlag a c)) (VFlagged fm) = (e, s')"
    by (simp add: DB_SetPieceCidToFlagged_def)
  from ok_put [OF ok this] show ?thesis
    using wf_store_update [OF nm wf, of s' "KFlag a c"] lid_update(4) [OF nm, of view s' s a c fm]
    by auto
qed

lemma DB_GetPieceCidToFlagged_lid:
  assumes ok: "world_ok W view listing" and wf: "wf_store W view s"
  shows "DB_GetPieceCidToFlagged W s c a =
    (case lidFlags (lid_of W view s) a c of
       None \<Rightarrow> Inl (errorf_w (''getting flagged metadata for piece '' @ cidString W c @ '': '')
         dsErrNotFound)
     | Some fm \<Rightarrow> Inr fm)"
  using ok_names [OF ok]
  by (simp add: DB_GetPieceCidToFlagged_def get_typed [OF ok wf] split: option.split)

lemma DB_DeletePieceCidToFlagged_lid:
  assumes ok: "world_ok W view listing" and wf: "wf_store W view s"
    and r: "DB_DeletePieceCidToFlagged W s c a = (e, s')"
  shows "e = None \<and> wf_store W view s' \<and>
    lid_of W view s' = lid_of W view s
      \<lparr>lidFlags := (lidFlags (lid_of W view s))(a := (lidFlags (lid_of W view s) a)(c := None))\<rparr>"
proof -
  note nm = ok_names [OF ok]
  from r nm have "dsDelete W s (key_of W (KFlag a c)) = (e, s')"
    by (simp add: DB_DeletePieceCidToFlagged_def)
  from ok_delete [OF ok this] show ?thesis
    using wf_store_delete [OF wf, of s' "KFlag a c"] lid_update(5) [OF nm, of view s' s a c]
    by auto
qed

lemma DB_GetPieceCidsByMultihash_lid:
  assumes ok: "world_ok W view listing" and wf: "wf_store W view s"
  shows "DB_GetPieceCidsByMultihash W s m =
    (case lidMhs (lid_of W view s) m of
       None \<Rightarrow> Inl (errorf_w (''failed to get value for multihash '' @ mhString W m @ '', err: '')
         dsErrNotFound)
     | Some cs \<Rightarrow> Inr cs)"
  using ok_names [OF ok]
  by (simp add: DB_GetPieceCidsByMultihash_def get_typed [OF ok wf] split: option.split)

lemma has_set [simp]: "has xs v \<longleftrightarrow> v \<in> set xs"
  by (induction xs) auto

lemma DB_AddIndexRecord_lid:
  assumes ok: "world_ok W view listing" and wf: "wf_store W view s"
    and r: "DB_AddIndexRecord W s (KeyCursorPrefix cur) rec = (e, s')"
  shows "e = None \<and> wf_store W view s' \<and>
    lid_of W view s' = lid_of W view s
      \<lparr>lidRecs := (lidRecs (lid_of W view s))(cur := (lidRecs (lid_of W view s) cur)
         (cidHash W (Cid rec) \<mapsto> \<lparr>Offset = Offset rec, Size = Size rec\<rparr>))\<rparr>"
proof -
  note nm = ok_names [OF ok]
  let ?k = "KRec cur (cidHash W (Cid rec))"
  from r nm have "dsPut W s (key_of W ?k) (VBytes (putUvarint (Offset rec) @ putUvarint (Size rec)))
      = (e, s')"
    by (simp add: DB_AddIndexRecord_def)
  from ok_put [OF ok this] show ?thesis
    using wf_store_update [OF nm wf, of s' ?k] lid_update(6) [OF nm, of view s' s] by auto
qed

lemma DB_GetOffsetSize_lid:
  assumes ok: "world_ok W view listing" and wf: "wf_store W view s"
  shows "DB_GetOffsetSize W s (KeyCursorPrefix cur) m =
    (case lidRecs (lid_of W view s) cur m of None \<Rightarrow> Fail dsErrNotFound | Some r \<Rightarrow> Ret r)"
  using ok_names [OF ok]
  by (simp add: DB_GetOffsetSize_def get_typed [OF ok wf] split: option.split)

section \<open>Adding a piece to the multihash table\<close>

text \<open>The piece list of a multihash after the piece was added to it.\<close>

definition addPiece :: "cid \<Rightarrow> cid list option \<Rightarrow> cid list" where
  "addPiece p x = (case x of None \<Rightarrow> [p] | Some cs \<Rightarrow> if p \<in> set cs then cs else cs @ [p])"

definition mhOps :: "'s world \<Rightarrow> lid \<Rightarrow> cid \<Rightarrow> carindexRecord \<Rightarrow> batchop list" where
  "mhOps W L p r =
     (let h = cidHash W (crCid r); x = lidMhs L h in
      if x = Some (addPiece p x) then [] else [BPut (key_of W (KMh h)) (VCids (addPiece p x))])"

lemma setMultihashStep_lid:
  assumes ok: "world_ok W view listing" and wf: "wf_store W view s"
  shows "setMultihashStep W s p r batch = Inr (batch @ mhOps W (lid_of W view s) p r)"
proof (cases "lidMhs (lid_of W view s) (cidHash W (crCid r))")
  case None
  then show ?thesis using ok_names [OF ok] ok_batch [OF ok]
    by (simp add: setMultihashStep_def Let_def get_typed [OF ok wf] mhOps_def addPiece_def)
next
  case (Some cs)
  then show ?thesis using ok_names [OF ok] ok_batch [OF ok]
    by (simp add: setMultihashStep_def Let_def get_typed [OF ok wf] mhOps_def addPiece_def)
qed

lemma setMultihashLoop_lid:
  assumes ok: "world_ok W view listing" and wf: "wf_store W view s"
  shows "setMultihashLoop W s p rs batch =
    Inr (batch @ concat (map (mhOps W (lid_of W view s) p) rs))"
  by (induction rs arbitrary: batch) (simp_all add: setMultihashStep_lid [OF ok wf])

lemma DB_SetMultihashesToPieceCid_lid:
  assumes ok: "world_ok W view listing" and wf: "wf_store W view s"
    and r: "DB_SetMultihashesToPieceCid W s rs p = (e, s')"
  shows "e = None \<and> wf_store W view s' \<and>
    lid_of W view s' = lid_of W view s
      \<lparr>lidMhs := (\<lambda>m. if m \<in> (\<lambda>r. cidHash W (crCid r)) ` set rs
         then Some (addPiece p (lidMhs (lid_of W view s) m)) else lidMhs (lid_of W view s) m)\<rparr>"
proof -
  note nm = ok_names [OF ok]
  let ?L = "lid_of W view s"
  let ?ops = "concat (map (mhOps W ?L p) rs)"
  let ?M = "{m \<in> (\<lambda>r. cidHash W (crCid r)) ` set rs. lidMhs ?L m \<noteq> Some (addPiece p (lidMhs ?L m))}"
  obtain e1 s1 where c: "dsCommit W s ?ops = (e1, s1)" by fastforce
  obtain e2 s2 where y: "dsSync W s1 (newKey W sprefixMhtoPieceCids) = (e2, s2)" by fastforce
  from ok_commit [OF ok c] have v1: "e1 = None" "view s1 = fold applyOp ?ops (view s)" by auto
  from ok_sync [OF ok y] v1 have v2: "e2 = None" "view s2 = fold applyOp ?ops (view s)" by auto
  from r c y v1 v2 have es: "e = None" "s' = s2"
    using ok_batch [OF ok] by (simp_all add: DB_SetMultihashesToPieceCid_def setMultihashLoop_lid [OF ok wf])
  have shape: "\<exists>m. m \<in> ?M \<and> op = BPut (key_of W (KMh m)) (VCids (addPiece p (lidMhs ?L m)))"
    if "op \<in> set ?ops" for op
    using that by (auto simp: mhOps_def Let_def split: if_splits)
  have "wf_store W view s2"
  proof (rule wf_store_batch [OF wf v2(2)], intro ballI)
    fix op
    assume "op \<in> set ?ops"
    with shape obtain m where m: "op = BPut (key_of W (KMh m)) (VCids (addPiece p (lidMhs ?L m)))"
      by blast
    have "distinct (addPiece p (lidMhs ?L m)) \<and> addPiece p (lidMhs ?L m) \<noteq> []"
      using mhs_wf [OF nm wf, of m] by (auto simp: addPiece_def split: option.splits)
    with m show "\<exists>t. opKey op = key_of W t \<and> (\<forall>v. opVal op = Some v \<longrightarrow> typed t v)"
      by (intro exI [of _ "KMh m"]) simp
  qed
  moreover have "lid_of W view s2 = ?L
      \<lparr>lidMhs := (\<lambda>m. if m \<in> ?M then Some (addPiece p (lidMhs ?L m)) else lidMhs ?L m)\<rparr>"
  proof -
    let ?G = "\<lambda>t. case t of KMh m \<Rightarrow> Some (VCids (addPiece p (lidMhs ?L m))) | _ \<Rightarrow> None"
    have tv: "tview W view s2 t =
        (if key_of W t \<in> opKey ` set ?ops then ?G t else tview W view s t)" for t
    proof (rule tview_batch [OF nm v2(2)])
      fix op
      assume "op \<in> set ?ops"
      with shape obtain m where "op = BPut (key_of W (KMh m)) (VCids (addPiece p (lidMhs ?L m)))"
        by blast
      then show "\<exists>t. opKey op = key_of W t \<and> opVal op = ?G t"
        by (intro exI [of _ "KMh m"]) simp
    qed
    have touched: "key_of W t \<in> opKey ` set ?ops \<longleftrightarrow> (\<exists>m \<in> ?M. t = KMh m)" for t
    proof
      assume "\<exists>m \<in> ?M. t = KMh m"
      then obtain m r where m: "t = KMh m" "r \<in> set rs" "cidHash W (crCid r) = m"
        "lidMhs ?L m \<noteq> Some (addPiece p (lidMhs ?L m))" by auto
      then have "BPut (key_of W t) (VCids (addPiece p (lidMhs ?L m))) \<in> set ?ops"
        by (auto simp: mhOps_def Let_def intro!: bexI [of _ r])
      then show "key_of W t \<in> opKey ` set ?ops" by (metis imageI opKey.simps(1))
    next
      assume "key_of W t \<in> opKey ` set ?ops"
      then obtain op where "op \<in> set ?ops" "key_of W t = opKey op" by blast
      with shape nm show "\<exists>m \<in> ?M. t = KMh m" by fastforce
    qed
    have tv2: "tview W view s2 t = (if \<exists>m\<in>?M. t = KMh m then ?G t else tview W view s t)" for t
      unfolding tv [of t] touched [of t] ..
    have "lid_of W view s2 = ?L\<lparr>lidMhs := (\<lambda>m. if m \<in> ?M then Some (addPiece p (lidMhs ?L m))
        else lidMhs ?L m), lidRecs := lidRecs ?L\<rparr>"
    proof (rule lid_ofI)
      show "tview W view s2 t = tview W view s t" if "\<forall>m. t \<noteq> KMh m" for t
        using that unfolding tv2 [of t] by auto
      show "asCids (tview W view s2 (KMh m)) =
          (if m \<in> ?M then Some (addPiece p (lidMhs ?L m)) else lidMhs ?L m)" for m
        unfolding tv2 [of "KMh m"] by (cases "m \<in> ?M") (auto simp: lid_sel)
      show "asRec (tview W view s2 (KRec cur m)) = lidRecs ?L cur m" for cur m
        unfolding tv2 [of "KRec cur m"] by (simp add: lid_sel)
    qed
    then show ?thesis by simp
  qed
  moreover have "(\<lambda>m. if m \<in> ?M then Some (addPiece p (lidMhs ?L m)) else lidMhs ?L m) =
      (\<lambda>m. if m \<in> (\<lambda>r. cidHash W (crCid r)) ` set rs then Some (addPiece p (lidMhs ?L m))
           else lidMhs ?L m)"
    by auto
  ultimately show ?thesis using es by simp
qed

section \<open>All records of a cursor\<close>

lemma record_key_drop:
  "drop (length (show_u64 cur @ ''/'') + 1) (key_of W (KRec cur m)) = mhString W m"
  by (simp add: key_of_def)

lemma allRecordsLoop_lid:
  assumes "names_ok W"
  shows "allRecordsLoop W (length (show_u64 cur @ ''/''))
      (map (\<lambda>(m, r). (key_of W (KRec cur m), recVal r)) ms) acc =
    Ret (acc @ map (\<lambda>(m, r). \<lparr>Offset = Offset r, Size = Size r, Cid = cidNewV1Raw W m\<rparr>) ms)"
proof (induction ms arbitrary: acc)
  case (Cons x ms)
  obtain m r where x: "x = (m, r)" by (cases x)
  from Cons show ?case
    using assms by (simp only: x list.map split allRecordsLoop.simps record_key_drop recVal_def
      valBytes.simps decodeOffsetSize_put names_parse sum.case outcome.case append_assoc append_Cons
      append_Nil OffsetSize.select_convs)
qed simp

lemma DB_AllRecords_lid:
  assumes ok: "world_ok W view listing" and wf: "wf_store W view s"
  shows "\<exists>ms. DB_AllRecords W s cur =
      Ret (map (\<lambda>(m, r). \<lparr>Offset = Offset r, Size = Size r, Cid = cidNewV1Raw W m\<rparr>) ms) \<and>
    distinct (map fst ms) \<and> (\<forall>m r. (m, r) \<in> set ms \<longleftrightarrow> lidRecs (lid_of W view s) cur m = Some r)"
proof -
  note nm = ok_names [OF ok]
  obtain ms where ms: "listing s (show_u64 cur) = map (\<lambda>(m, r). (key_of W (KRec cur m), recVal r)) ms"
    "distinct (map fst ms)" "\<forall>m r. (m, r) \<in> set ms \<longleftrightarrow> lidRecs (lid_of W view s) cur m = Some r"
    using listing_records_lid [OF ok wf, of cur] by auto
  let ?q = "\<lparr>qPrefix = show_u64 cur @ ''/'', qKeysOnly = False, qLimit = 0, qOffset = 0\<rparr>"
  have "dsQuery W s ?q = Inr (map (queryEntry ?q) (page ?q (listing s (show_u64 cur))))"
    by (rule ok_query [OF ok]) simp_all
  also have "\<dots> = Inr (listing s (show_u64 cur))"
    by (simp add: page_def) (rule map_idI, simp add: queryEntry_def)
  finally have "DB_AllRecords W s cur =
      allRecordsLoop W (length (show_u64 cur @ ''/'')) (listing s (show_u64 cur)) []"
    by (simp add: DB_AllRecords_def)
  then show ?thesis using ms(2,3) unfolding ms(1) allRecordsLoop_lid [OF nm] by auto
qed

end
