(* ===== verification/LdbRemove.thy ===== *)
theory LdbRemove
  imports LdbDb
begin

text \<open>
  \<open>DB.RemoveIndexes\<close> and \<open>DB.RemovePieceMetadata\<close>: taking a piece out of the multihash table
  and deleting its records. The removal of a piece from a list is the Go loop itself, which
  writes to the slice that it ranges over; an index out of range is the outcome \<open>Panic\<close>.
\<close>

section \<open>The removal loop\<close>

text \<open>
  \<open>for i, v := range pcids\<close> fixes the number of iterations at the start (the index list) and
  reads \<open>v\<close> from the shared array \<open>arr\<close>, while the slice \<open>pcids\<close> shrinks: \<open>len\<close> is its
  current length, which bounds the indices the body may write.
\<close>

fun swapRemoveLoop :: "cid \<Rightarrow> nat list \<Rightarrow> cid list \<Rightarrow> nat \<Rightarrow> cid list outcome" where
  "swapRemoveLoop p [] arr len = Ret (take len arr)"
| "swapRemoveLoop p (i # is) arr len =
     (if arr ! i = p then
        (if i < len then swapRemoveLoop p is (arr[i := arr ! (len - 1)]) (len - 1) else Panic)
      else swapRemoveLoop p is arr len)"

definition swapRemove :: "cid \<Rightarrow> cid list \<Rightarrow> cid list outcome" where
  "swapRemove p pcids = swapRemoveLoop p [0..<length pcids] pcids (length pcids)"

text \<open>The list that comes out: the last element takes the place of the removed one.\<close>

definition dropCid :: "cid \<Rightarrow> cid list \<Rightarrow> cid list" where
  "dropCid p cs =
     (let xs = takeWhile (\<lambda>c. c \<noteq> p) cs; ys = tl (dropWhile (\<lambda>c. c \<noteq> p) cs) in
      if ys = [] then xs else xs @ last ys # butlast ys)"

lemma swapRemoveLoop_skip:
  "\<forall>i\<in>set is. arr ! i \<noteq> p \<Longrightarrow> swapRemoveLoop p (is @ js) arr len = swapRemoveLoop p js arr len"
  by (induction "is") auto

lemma swapRemoveLoop_none:
  "\<forall>i\<in>set is. arr ! i \<noteq> p \<Longrightarrow> swapRemoveLoop p is arr len = Ret (take len arr)"
  by (induction "is") auto

lemma split_at:
  assumes "p \<in> set cs"
  shows "cs = takeWhile (\<lambda>c. c \<noteq> p) cs @ p # tl (dropWhile (\<lambda>c. c \<noteq> p) cs)"
proof -
  have "dropWhile (\<lambda>c. c \<noteq> p) cs \<noteq> []" using assms by (simp add: dropWhile_eq_Nil_conv)
  moreover from this have "hd (dropWhile (\<lambda>c. c \<noteq> p) cs) = p" using hd_dropWhile by blast
  ultimately have "dropWhile (\<lambda>c. c \<noteq> p) cs = p # tl (dropWhile (\<lambda>c. c \<noteq> p) cs)"
    by (cases "dropWhile (\<lambda>c. c \<noteq> p) cs") auto
  then show ?thesis by (metis takeWhile_dropWhile_id)
qed

lemma swapRemove_at:
  assumes d: "distinct (xs @ p # ys)"
  shows "swapRemove p (xs @ p # ys) = Ret (if ys = [] then xs else xs @ last ys # butlast ys)"
proof -
  let ?cs = "xs @ p # ys" and ?k = "length xs" and ?n = "length (xs @ p # ys)"
  have n: "?n = ?k + Suc (length ys)" by simp
  have "[0..<?n] = [0..<?k] @ [?k..<?k + Suc (length ys)]"
    unfolding n by (rule upt_add_eq_append) simp
  also have "[?k..<?k + Suc (length ys)] = ?k # [Suc ?k..<?n]"
    unfolding n by (rule upt_conv_Cons) simp
  finally have idx: "[0..<?n] = [0..<?k] @ ?k # [Suc ?k..<?n]" .
  have "\<forall>i\<in>set [0..<?k]. ?cs ! i \<noteq> p"
    using d by (auto simp: nth_append)
  then have "swapRemove p ?cs = swapRemoveLoop p (?k # [Suc ?k..<?n]) ?cs ?n"
    unfolding swapRemove_def idx by (rule swapRemoveLoop_skip)
  also have "\<dots> = swapRemoveLoop p [Suc ?k..<?n] (?cs[?k := ?cs ! (?n - 1)]) (?n - 1)"
    by simp
  also have "\<dots> = Ret (take (?n - 1) (?cs[?k := ?cs ! (?n - 1)]))"
  proof (rule swapRemoveLoop_none, intro ballI)
    fix i
    assume "i \<in> set [Suc ?k..<?n]"
    then have i: "Suc ?k \<le> i" "i < ?n" by auto
    then have "?cs[?k := ?cs ! (?n - 1)] ! i = ys ! (i - Suc ?k)"
      by (simp add: nth_append nth_Cons')
    moreover have "ys ! (i - Suc ?k) \<in> set ys" using i by (intro nth_mem) simp
    ultimately show "?cs[?k := ?cs ! (?n - 1)] ! i \<noteq> p" using d by auto
  qed
  also have "take (?n - 1) (?cs[?k := ?cs ! (?n - 1)]) =
      (if ys = [] then xs else xs @ last ys # butlast ys)"
    by (cases ys rule: rev_cases) (simp_all add: nth_append list_update_append)
  finally show ?thesis .
qed

lemma swapRemove_dropCid:
  assumes "distinct cs" and "p \<in> set cs"
  shows "swapRemove p cs = Ret (dropCid p cs)"
  using swapRemove_at [of "takeWhile (\<lambda>c. c \<noteq> p) cs" p "tl (dropWhile (\<lambda>c. c \<noteq> p) cs)"]
    assms split_at [OF assms(2)]
  by (simp add: dropCid_def Let_def)

lemma dropCid_set:
  assumes "distinct cs" and "p \<in> set cs"
  shows "set (dropCid p cs) = set cs - {p} \<and> distinct (dropCid p cs) \<and>
    length (dropCid p cs) = length cs - 1"
proof -
  obtain xs ys where s: "xs = takeWhile (\<lambda>c. c \<noteq> p) cs" "ys = tl (dropWhile (\<lambda>c. c \<noteq> p) cs)"
    and cs: "cs = xs @ p # ys"
    using split_at [OF assms(2)] by blast
  have dc: "dropCid p cs = (if ys = [] then xs else xs @ last ys # butlast ys)"
    by (simp add: dropCid_def Let_def s)
  show ?thesis
  proof (cases ys rule: rev_cases)
    case Nil
    with dc cs assms show ?thesis by auto
  next
    case (snoc ys' y)
    with dc have "dropCid p cs = xs @ y # ys'" by simp
    with cs assms snoc show ?thesis by auto
  qed
qed

lemmas dropCid_facts =
  dropCid_set [THEN conjunct1] dropCid_set [THEN conjunct2, THEN conjunct1]
  dropCid_set [THEN conjunct2, THEN conjunct2]

section \<open>RemoveIndexes\<close>

definition removeIndexStep ::
  "'s world \<Rightarrow> 's \<Rightarrow> cid \<Rightarrow> string \<Rightarrow> batchop list \<Rightarrow> batchop list outcome" where
  "removeIndexStep W s pieceCid m batch =
     (let key = mhToPieceCidsKey W m in
      case dsGet W s key of
        Inl err \<Rightarrow>
          if err \<noteq> dsErrNotFound then
            Fail (errorf_w (''failed to get value for multihash '' @ m @ '', err: '') err)
          else Ret batch
      | Inr val \<Rightarrow>
          (case unmarshalCids val of
             Inl err \<Rightarrow> Fail (errorf_w ''failed to unmarshal pieceCids slice: '' err)
           | Inr pcids \<Rightarrow>
               if \<not> has pcids pieceCid then Ret batch
               else if length pcids \<le> 1 then
                 (case dsBatchDelete W s key of
                    Some err \<Rightarrow> Fail (errorf_w
                      (''failed to batch delete multihash to pieceCid mh='' @ key @ '', pieceCid='' @
                       cidString W (hd pcids) @ '' err'') err)
                  | None \<Rightarrow> Ret (batch @ [BDel key]))
               else
                 (case swapRemove pieceCid pcids of
                    Panic \<Rightarrow> Panic
                  | Fail err \<Rightarrow> Fail err
                  | Ret pcids' \<Rightarrow>
                      (case dsBatchPut W s key (VCids pcids') of
                         Some err \<Rightarrow> Fail (errorf_w (''failed to batch put mh='' @ m @ '', err'') err)
                       | None \<Rightarrow> Ret (batch @ [BPut key (VCids pcids')])))))"

fun removeIndexLoop ::
  "'s world \<Rightarrow> 's \<Rightarrow> cid \<Rightarrow> nat \<Rightarrow> (string \<times> dsval) list \<Rightarrow> batchop list \<Rightarrow> batchop list outcome" where
  "removeIndexLoop W s pieceCid plen [] batch = Ret batch"
| "removeIndexLoop W s pieceCid plen ((rKey, rValue) # results) batch =
     (case removeIndexStep W s pieceCid (drop (plen + 1) rKey) batch of
        Panic \<Rightarrow> Panic
      | Fail err \<Rightarrow> Fail err
      | Ret batch' \<Rightarrow>
          (case dsBatchDelete W s (newKey W rKey) of
             Some err \<Rightarrow> Fail (errorf_w (''failed to batch delete mh='' @ rKey @ '', err'') err)
           | None \<Rightarrow> removeIndexLoop W s pieceCid plen results (batch' @ [BDel (newKey W rKey)])))"

definition DB_RemoveIndexes :: "'s world \<Rightarrow> 's \<Rightarrow> u64 \<Rightarrow> cid \<Rightarrow> unit outcome \<times> 's" where
  "DB_RemoveIndexes W s cursor pieceCid =
     (let prefix = show_u64 cursor @ ''/'' in
      case dsQuery W s \<lparr>qPrefix = prefix, qKeysOnly = False, qLimit = 0, qOffset = 0\<rparr> of
        Inl err \<Rightarrow> (Fail (errorf_w ''error querying the database:  '' err), s)
      | Inr results \<Rightarrow>
          (case dsNewBatch W s of
             Some err \<Rightarrow> (Fail (errorf_w ''error in creating batching:  '' err), s)
           | None \<Rightarrow>
               (case removeIndexLoop W s pieceCid (length prefix) results [] of
                  Panic \<Rightarrow> (Panic, s)
                | Fail err \<Rightarrow> (Fail err, s)
                | Ret batch \<Rightarrow>
                    (case dsCommit W s batch of
                       (Some err, s') \<Rightarrow> (Fail (errorf_w ''failed to commit batch: '' err), s')
                     | (None, s') \<Rightarrow> (Ret (), s')))))"

definition DB_RemovePieceMetadata :: "'s world \<Rightarrow> 's \<Rightarrow> cid \<Rightarrow> unit outcome \<times> 's" where
  "DB_RemovePieceMetadata W s pieceCid =
     (let key = pieceCidToCursorKey W pieceCid in
      case dsGet W s key of
        Inl err \<Rightarrow> (Fail err, s)
      | Inr piece \<Rightarrow>
          (case unmarshalMd piece of
             Inl err \<Rightarrow> (Fail (errorf_w ''error while reading metadata: '' err), s)
           | Inr metadata \<Rightarrow>
               (case DB_RemoveIndexes W s (Cursor metadata) pieceCid of
                  (Ret _, s') \<Rightarrow>
                    (case dsDelete W s' key of
                       (Some err, s'') \<Rightarrow> (Fail err, s'')
                     | (None, s'') \<Rightarrow> (Ret (), s''))
                | r \<Rightarrow> r)))"

section \<open>What removing an index does\<close>

text \<open>The piece list of an indexed multihash afterwards: no entry when it was the only piece.\<close>

definition removePiece :: "cid \<Rightarrow> cid list option \<Rightarrow> cid list option" where
  "removePiece p x =
     (case x of None \<Rightarrow> None
      | Some cs \<Rightarrow> if p \<notin> set cs then Some cs else if length cs \<le> 1 then None else Some (dropCid p cs))"

definition removeIndex :: "u64 \<Rightarrow> cid \<Rightarrow> lid \<Rightarrow> lid" where
  "removeIndex cur p L = L
     \<lparr>lidMhs := (\<lambda>m. if lidRecs L cur m = None then lidMhs L m else removePiece p (lidMhs L m)),
      lidRecs := (lidRecs L)(cur := Map.empty)\<rparr>"

lemma removePiece_wf:
  assumes "removePiece p x = Some cs" and "\<And>ds. x = Some ds \<Longrightarrow> distinct ds \<and> ds \<noteq> []"
  shows "distinct cs \<and> cs \<noteq> []"
proof -
  obtain ds where ds: "x = Some ds" "distinct ds" "ds \<noteq> []"
    using assms by (cases x) (auto simp: removePiece_def)
  show ?thesis
  proof (cases "p \<in> set ds")
    case True
    with assms(1) ds have "cs = dropCid p ds" "1 < length ds"
      by (auto simp: removePiece_def split: if_splits)
    then have "0 < length cs" and "distinct cs" by (simp_all add: dropCid_facts [OF ds(2) True])
    then show ?thesis by simp
  next
    case False
    with assms(1) ds show ?thesis by (simp add: removePiece_def)
  qed
qed

definition rmMhOps :: "'s world \<Rightarrow> lid \<Rightarrow> cid \<Rightarrow> multihash \<Rightarrow> batchop list" where
  "rmMhOps W L p m =
     (if removePiece p (lidMhs L m) = lidMhs L m then []
      else case removePiece p (lidMhs L m) of
        None \<Rightarrow> [BDel (key_of W (KMh m))] | Some cs \<Rightarrow> [BPut (key_of W (KMh m)) (VCids cs)])"

lemma removeIndexStep_lid:
  assumes ok: "world_ok W view listing" and wf: "wf_store W view s"
  shows "removeIndexStep W s p (mhString W m) batch = Ret (batch @ rmMhOps W (lid_of W view s) p m)"
proof (cases "lidMhs (lid_of W view s) m")
  case None
  then show ?thesis using ok_names [OF ok]
    by (simp add: removeIndexStep_def Let_def get_typed [OF ok wf] rmMhOps_def removePiece_def)
next
  case (Some cs)
  note cs = mhs_wf [OF ok_names [OF ok] wf Some]
  note nm = ok_names [OF ok]
  have del: "dsBatchDelete W s k = None" and put: "dsBatchPut W s k v = None" for k v
    using ok_batch [OF ok] by blast+
  show ?thesis
  proof (cases "p \<in> set cs")
    case False
    with Some nm show ?thesis
      by (simp add: removeIndexStep_def Let_def get_typed [OF ok wf] rmMhOps_def removePiece_def)
  next
    case True
    from dropCid_facts(1) [OF cs(1) True] True have d: "dropCid p cs \<noteq> cs"
      by (metis Diff_iff singletonI)
    from True Some nm d show ?thesis
      by (cases "length cs \<le> 1")
        (simp_all add: removeIndexStep_def Let_def get_typed [OF ok wf] rmMhOps_def
          removePiece_def swapRemove_dropCid [OF cs(1)] del put)
  qed
qed

lemma removeIndexLoop_lid:
  assumes ok: "world_ok W view listing" and wf: "wf_store W view s"
  shows "removeIndexLoop W s p (length (show_u64 cur @ ''/''))
      (map (\<lambda>(m, r). (key_of W (KRec cur m), recVal r)) ms) batch =
    Ret (batch @ concat (map (\<lambda>(m, r). rmMhOps W (lid_of W view s) p m @
      [BDel (key_of W (KRec cur m))]) ms))"
proof (induction ms arbitrary: batch)
  case (Cons x ms)
  obtain m r where x: "x = (m, r)" by (cases x)
  note nm = ok_names [OF ok]
  have db: "dsBatchDelete W s k = None" for k using ok_batch [OF ok] by blast
  show ?case
    unfolding x list.map split removeIndexLoop.simps record_key_drop removeIndexStep_lid [OF ok wf]
    using Cons.IH nm db by simp
qed simp

lemma DB_RemoveIndexes_lid:
  assumes ok: "world_ok W view listing" and wf: "wf_store W view s"
    and r: "DB_RemoveIndexes W s cur p = (e, s')"
  shows "e = Ret () \<and> wf_store W view s' \<and> lid_of W view s' = removeIndex cur p (lid_of W view s)"
proof -
  note nm = ok_names [OF ok]
  let ?L = "lid_of W view s"
  obtain ms where ms: "listing s (show_u64 cur) = map (\<lambda>(m, r). (key_of W (KRec cur m), recVal r)) ms"
    "distinct (map fst ms)" "\<forall>m r. (m, r) \<in> set ms \<longleftrightarrow> lidRecs ?L cur m = Some r"
    using listing_records_lid [OF ok wf, of cur] by auto
  let ?q = "\<lparr>qPrefix = show_u64 cur @ ''/'', qKeysOnly = False, qLimit = 0, qOffset = 0\<rparr>"
  let ?ops = "concat (map (\<lambda>(m, r). rmMhOps W ?L p m @ [BDel (key_of W (KRec cur m))]) ms)"
  have q: "dsQuery W s ?q = Inr (listing s (show_u64 cur))" by (rule ok_query_all [OF ok]) simp_all
  obtain e1 s1 where c: "dsCommit W s ?ops = (e1, s1)" by fastforce
  from ok_commit [OF ok c] have v: "e1 = None" "view s1 = fold applyOp ?ops (view s)" by auto
  have nb: "dsNewBatch W s = None" using ok_batch [OF ok] by blast
  have loop: "removeIndexLoop W s p (length (show_u64 cur @ ''/''))
      (map (\<lambda>(m, r). (key_of W (KRec cur m), recVal r)) ms) [] = Ret ?ops"
    by (simp only: removeIndexLoop_lid [OF ok wf] append_Nil)
  have "DB_RemoveIndexes W s cur p = (Ret (), s1)"
    unfolding DB_RemoveIndexes_def Let_def q sum.case nb option.case ms(1) loop outcome.case c v(1)
      prod.case ..
  with r have es: "e = Ret ()" "s' = s1" by simp_all
  let ?G = "\<lambda>t. case t of KMh m \<Rightarrow> map_option VCids (removePiece p (lidMhs ?L m)) | _ \<Rightarrow> None"
  have shape: "\<exists>m r. (m, r) \<in> set ms \<and>
      (op = BDel (key_of W (KRec cur m)) \<or> op \<in> set (rmMhOps W ?L p m))" if "op \<in> set ?ops" for op
    using that by auto
  have mhop: "opKey op = key_of W (KMh m) \<and> opVal op = ?G (KMh m) \<and>
      removePiece p (lidMhs ?L m) \<noteq> lidMhs ?L m" if "op \<in> set (rmMhOps W ?L p m)" for op m
    using that by (auto simp: rmMhOps_def split: if_splits option.splits)
  have G: "\<exists>t. opKey op = key_of W t \<and> opVal op = ?G t" if "op \<in> set ?ops" for op
  proof -
    from shape [OF that] obtain m where
      "op = BDel (key_of W (KRec cur m)) \<or> op \<in> set (rmMhOps W ?L p m)" by blast
    then show ?thesis
    proof
      assume "op = BDel (key_of W (KRec cur m))"
      then show ?thesis by (intro exI [of _ "KRec cur m"]) simp
    next
      assume "op \<in> set (rmMhOps W ?L p m)"
      from mhop [OF this] show ?thesis by blast
    qed
  qed
  have tv: "tview W view s1 t = (if key_of W t \<in> opKey ` set ?ops then ?G t else tview W view s t)"
    for t by (rule tview_batch [OF nm v(2) G])
  define D where "D = {m. lidRecs ?L cur m \<noteq> None}"
  define M where "M = {m \<in> D. removePiece p (lidMhs ?L m) \<noteq> lidMhs ?L m}"
  have D: "m \<in> D \<longleftrightarrow> (\<exists>r. (m, r) \<in> set ms)" for m using ms(3) by (auto simp: D_def)
  have touched: "key_of W t \<in> opKey ` set ?ops \<longleftrightarrow>
      (\<exists>m\<in>M. t = KMh m) \<or> (\<exists>m\<in>D. t = KRec cur m)" for t
  proof
    assume "key_of W t \<in> opKey ` set ?ops"
    then obtain op where op: "op \<in> set ?ops" "key_of W t = opKey op" by blast
    from shape [OF op(1)] obtain m r where m: "(m, r) \<in> set ms"
      "op = BDel (key_of W (KRec cur m)) \<or> op \<in> set (rmMhOps W ?L p m)" by blast
    from m(2) show "(\<exists>m\<in>M. t = KMh m) \<or> (\<exists>m\<in>D. t = KRec cur m)"
    proof
      assume "op = BDel (key_of W (KRec cur m))"
      with op(2) nm m(1) D show ?thesis by auto
    next
      assume "op \<in> set (rmMhOps W ?L p m)"
      from mhop [OF this] op(2) nm m(1) D show ?thesis by (auto simp: M_def)
    qed
  next
    assume "(\<exists>m\<in>M. t = KMh m) \<or> (\<exists>m\<in>D. t = KRec cur m)"
    then show "key_of W t \<in> opKey ` set ?ops"
    proof
      assume "\<exists>m\<in>M. t = KMh m"
      then obtain m r where m: "t = KMh m" "(m, r) \<in> set ms" "m \<in> M" using D by (auto simp: M_def)
      then obtain op where "op \<in> set (rmMhOps W ?L p m)"
        by (cases "removePiece p (lidMhs ?L m)") (auto simp: M_def rmMhOps_def)
      with m mhop [OF this] show ?thesis by (force simp: image_iff)
    next
      assume "\<exists>m\<in>D. t = KRec cur m"
      then obtain m r where "t = KRec cur m" "(m, r) \<in> set ms" using D by auto
      then have "opKey (BDel (key_of W t)) \<in> opKey ` set ?ops" by (intro imageI) force
      then show ?thesis by simp
    qed
  qed
  have tv2: "tview W view s1 t =
      (if (\<exists>m\<in>M. t = KMh m) \<or> (\<exists>m\<in>D. t = KRec cur m) then ?G t else tview W view s t)" for t
    unfolding tv [of t] touched [of t] ..
  have "lid_of W view s1 = ?L
     \<lparr>lidMhs := (\<lambda>m. if lidRecs ?L cur m = None then lidMhs ?L m else removePiece p (lidMhs ?L m)),
      lidRecs := (lidRecs ?L)(cur := Map.empty)\<rparr>"
  proof (rule lid_ofI)
    show "tview W view s1 t = tview W view s t" if "\<forall>m. t \<noteq> KMh m" "\<forall>c m. t \<noteq> KRec c m" for t
      using that unfolding tv2 [of t] by auto
    show "asCids (tview W view s1 (KMh m)) =
        (if lidRecs ?L cur m = None then lidMhs ?L m else removePiece p (lidMhs ?L m))" for m
      unfolding tv2 [of "KMh m"]
      by (cases "removePiece p (lidMhs ?L m)") (auto simp: lid_sel M_def D_def)
    show "asRec (tview W view s1 (KRec c m)) = ((lidRecs ?L)(cur := Map.empty)) c m" for c m
      unfolding tv2 [of "KRec c m"] by (auto simp: lid_sel D_def)
  qed
  moreover have "wf_store W view s1"
  proof (rule wf_store_batch [OF wf v(2)], intro ballI)
    fix op
    assume "op \<in> set ?ops"
    then obtain m where m: "op = BDel (key_of W (KRec cur m)) \<or> op \<in> set (rmMhOps W ?L p m)"
      using shape by blast
    then show "\<exists>t. opKey op = key_of W t \<and> (\<forall>v. opVal op = Some v \<longrightarrow> typed t v)"
    proof
      assume "op \<in> set (rmMhOps W ?L p m)"
      from mhop [OF this] have "opKey op = key_of W (KMh m)"
        "opVal op = map_option VCids (removePiece p (lidMhs ?L m))" by auto
      moreover have "distinct cs \<and> cs \<noteq> []" if "removePiece p (lidMhs ?L m) = Some cs" for cs
        using that removePiece_wf mhs_wf [OF nm wf] by metis
      ultimately show ?thesis by (intro exI [of _ "KMh m"]) auto
    qed (auto intro: exI [of _ "KRec cur m"])
  qed
  ultimately show ?thesis using es by (simp add: removeIndex_def)
qed

lemma DB_RemovePieceMetadata_lid:
  assumes ok: "world_ok W view listing" and wf: "wf_store W view s"
    and r: "DB_RemovePieceMetadata W s p = (e, s')"
  shows "case lidPieces (lid_of W view s) p of
      None \<Rightarrow> e = Fail dsErrNotFound \<and> s' = s
    | Some md \<Rightarrow> e = Ret () \<and> wf_store W view s' \<and>
        lid_of W view s' = (removeIndex (Cursor md) p (lid_of W view s))
          \<lparr>lidPieces := (lidPieces (lid_of W view s))(p := None)\<rparr>"
proof (cases "lidPieces (lid_of W view s) p")
  case None
  with r ok_names [OF ok] show ?thesis
    by (simp add: DB_RemovePieceMetadata_def get_typed [OF ok wf])
next
  case (Some md)
  note nm = ok_names [OF ok]
  obtain e1 s1 where i: "DB_RemoveIndexes W s (Cursor md) p = (e1, s1)" by fastforce
  from DB_RemoveIndexes_lid [OF ok wf i] have i1: "e1 = Ret ()" "wf_store W view s1"
    "lid_of W view s1 = removeIndex (Cursor md) p (lid_of W view s)" by auto
  obtain e2 s2 where d: "dsDelete W s1 (key_of W (KPiece p)) = (e2, s2)" by fastforce
  from ok_delete [OF ok d] have d1: "e2 = None" "view s2 = (view s1)(key_of W (KPiece p) := None)"
    by auto
  have "e = Ret ()" "s' = s2"
    using r i i1(1) d d1(1) Some nm
    by (simp_all add: DB_RemovePieceMetadata_def get_typed [OF ok wf])
  moreover have "wf_store W view s2" using i1(2) d1(2) by (rule wf_store_delete)
  moreover have "lid_of W view s2 = lid_of W view s1
      \<lparr>lidPieces := (lidPieces (lid_of W view s1))(p := None)\<rparr>"
    using nm d1(2) by (rule lid_update(3))
  ultimately show ?thesis using Some i1(3) by (simp add: removeIndex_def)
qed

end
