(* ===== verification/LdbScan.thy ===== *)
theory LdbScan
  imports LdbRemove
begin

text \<open>
  The methods of \<open>DB\<close> that walk a whole table: the doctor's \<open>NextPiecesToCheck\<close> with its
  in-memory position and check times, \<open>PiecesCount\<close>, \<open>ScanProgress\<close>, \<open>ListPieces\<close> and
  the two listings of the flagged pieces.
\<close>

definition MinPieceCheckPeriod :: time where
  "MinPieceCheckPeriod = 5 * minute"

definition PiecesToTrackerBatchSize :: nat where
  "PiecesToTrackerBatchSize = 1024"

text \<open>The query prefixes of the two tables: a table prefix between slashes.\<close>

definition piecesPrefix :: string where
  "piecesPrefix = ''/'' @ sprefixPieceCidToCursor @ ''/''"

definition flaggedPrefix :: string where
  "flaggedPrefix = ''/'' @ sprefixPieceCidToFlagged @ ''/''"

text \<open>The package variables \<open>offset\<close> and \<open>checked\<close>.\<close>

record checker =
  ckOffset :: nat
  ckChecked :: "(string \<times> time) list"

definition initChecker :: checker where
  "initChecker = \<lparr>ckOffset = 0, ckChecked = []\<rparr>"

section \<open>The doctor's scan\<close>

text \<open>\<open>for _, dl := range md.Deals { if dl.MinerAddr == maddr { ... break } }\<close>\<close>

fun hasDealWith :: "address \<Rightarrow> DealInfo list \<Rightarrow> bool" where
  "hasDealWith maddr [] = False"
| "hasDealWith maddr (dl # deals) = (MinerAddr dl = maddr \<or> hasDealWith maddr deals)"

definition alreadyChecked :: "(string \<times> time) list \<Rightarrow> string \<Rightarrow> time \<Rightarrow> bool" where
  "alreadyChecked checked minerPiece now =
     (case map_of checked minerPiece of None \<Rightarrow> False | Some t \<Rightarrow> now - MinPieceCheckPeriod < t)"

text \<open>
  The loop of \<open>NextPiecesToCheck\<close>: its result, the counter \<open>i\<close> and the \<open>checked\<close> map,
  which keeps its changes when the loop stops with an error.
\<close>

fun nextPiecesLoop ::
  "'s world \<Rightarrow> 's \<Rightarrow> address \<Rightarrow> time \<Rightarrow> nat \<Rightarrow> (string \<times> dsval) list \<Rightarrow> nat \<Rightarrow>
    (string \<times> time) list \<Rightarrow> cid list \<Rightarrow> (goerr + cid list) \<times> nat \<times> (string \<times> time) list" where
  "nextPiecesLoop W s maddr now plen [] i checked pieceCids = (Inr pieceCids, i, checked)"
| "nextPiecesLoop W s maddr now plen ((rKey, rValue) # results) i checked pieceCids =
     (let k = drop plen rKey; minerPiece = addrString W maddr @ k in
      if alreadyChecked checked minerPiece now then
        nextPiecesLoop W s maddr now plen results (i + 1) checked pieceCids
      else case cidParse W k of
          Inl err \<Rightarrow> (Inl (errorf_w (''parsing piece cid '' @ k @ '': '') err), i + 1, checked)
        | Inr pieceCid \<Rightarrow>
            (case DB_GetPieceCidToMetadata W s pieceCid of
               (_, Some err) \<Rightarrow> (Inl (errorf_w ''getting piece metadata: '' err), i + 1, checked)
             | (md, None) \<Rightarrow>
                 if hasDealWith maddr (Deals md) then
                   nextPiecesLoop W s maddr now plen results (i + 1)
                     (AList.update minerPiece now checked) (pieceCids @ [pieceCid])
                 else nextPiecesLoop W s maddr now plen results (i + 1) checked pieceCids))"

definition DB_NextPiecesToCheck ::
  "'s world \<Rightarrow> 's \<Rightarrow> checker \<Rightarrow> time \<Rightarrow> address \<Rightarrow> (goerr + cid list) \<times> checker" where
  "DB_NextPiecesToCheck W s ck now maddr =
     (let prefix = piecesPrefix in
      case dsQuery W s \<lparr>qPrefix = prefix, qKeysOnly = True, qLimit = PiecesToTrackerBatchSize,
                        qOffset = ckOffset ck\<rparr> of
        Inl err \<Rightarrow> (Inl (errorf_w ''listing pieces in database: '' err), ck)
      | Inr results \<Rightarrow>
          (case nextPiecesLoop W s maddr now (length prefix) results 0 (ckChecked ck) [] of
             (Inl err, i, checked) \<Rightarrow> (Inl err, ck\<lparr>ckChecked := checked\<rparr>)
           | (Inr pieceCids, i, checked) \<Rightarrow>
               (Inr pieceCids,
                \<lparr>ckOffset = (if i < PiecesToTrackerBatchSize - 1 then 0 else ckOffset ck + i),
                 ckChecked = checked\<rparr>)))"

section \<open>Counting and listing pieces\<close>

fun piecesCountLoop ::
  "'s world \<Rightarrow> 's \<Rightarrow> address \<Rightarrow> nat \<Rightarrow> (string \<times> dsval) list \<Rightarrow> nat \<Rightarrow> goerr + nat" where
  "piecesCountLoop W s maddr plen [] count = Inr count"
| "piecesCountLoop W s maddr plen ((rKey, rValue) # results) count =
     (let k = drop plen rKey in
      case cidParse W k of
        Inl err \<Rightarrow> Inl (errorf_w (''parsing piece cid '' @ k @ '': '') err)
      | Inr pieceCid \<Rightarrow>
          (case DB_GetPieceCidToMetadata W s pieceCid of
             (_, Some err) \<Rightarrow> Inl (errorf_w (''getting piece cid '' @ k @ '' metadata: '') err)
           | (md, None) \<Rightarrow> piecesCountLoop W s maddr plen results
               (if hasDealWith maddr (Deals md) then count + 1 else count)))"

definition DB_PiecesCount :: "'s world \<Rightarrow> 's \<Rightarrow> address \<Rightarrow> goerr + nat" where
  "DB_PiecesCount W s maddr =
     (let prefix = piecesPrefix in
      case dsQuery W s \<lparr>qPrefix = prefix, qKeysOnly = False, qLimit = 0, qOffset = 0\<rparr> of
        Inl err \<Rightarrow> Inl (errorf_w ''listing pieces in database: '' err)
      | Inr results \<Rightarrow> piecesCountLoop W s maddr (length prefix) results 0)"

definition DB_ScanProgress ::
  "'s world \<Rightarrow> 's \<Rightarrow> checker \<Rightarrow> address \<Rightarrow> goerr + ScanProgressResult" where
  "DB_ScanProgress W s ck maddr =
     (case DB_PiecesCount W s maddr of
        Inl err \<Rightarrow> Inl err
      | Inr count \<Rightarrow>
          let checkedCount = length (ckChecked ck);
              lastScan = fold (\<lambda>(_, t) lastScan. if lastScan < t then t else lastScan)
                (ckChecked ck) time_zero
          in Inr \<lparr>scProgress = (if count \<noteq> 0 then rat_of_nat checkedCount / rat_of_nat count else 1),
                  LastScan = lastScan\<rparr>)"

fun listPiecesLoop ::
  "'s world \<Rightarrow> nat \<Rightarrow> (string \<times> dsval) list \<Rightarrow> cid list \<Rightarrow> goerr + cid list" where
  "listPiecesLoop W plen [] pieceCids = Inr pieceCids"
| "listPiecesLoop W plen ((rKey, rValue) # results) pieceCids =
     (let k = drop plen rKey in
      case cidParse W k of
        Inl err \<Rightarrow> Inl (errorf_w (''parsing piece cid '' @ k @ '': '') err)
      | Inr pieceCid \<Rightarrow> listPiecesLoop W plen results (pieceCids @ [pieceCid]))"

definition DB_ListPieces :: "'s world \<Rightarrow> 's \<Rightarrow> goerr + cid list" where
  "DB_ListPieces W s =
     (let prefix = piecesPrefix in
      case dsQuery W s \<lparr>qPrefix = prefix, qKeysOnly = True, qLimit = 0, qOffset = 0\<rparr> of
        Inl err \<Rightarrow> Inl (errorf_w ''listing pieces in database: '' err)
      | Inr results \<Rightarrow> listPiecesLoop W (length prefix) results [])"

section \<open>Flagged pieces\<close>

text \<open>The two filter conditions, written in both loops.\<close>

definition filteredOut ::
  "'s world \<Rightarrow> FlaggedPiecesListFilter option \<Rightarrow> LeveldbFlaggedMetadata \<Rightarrow> bool" where
  "filteredOut W flt v =
     (case flt of
        None \<Rightarrow> False
      | Some f \<Rightarrow>
          flHasUnsealedCopy f \<noteq> fmHasUnsealedCopy v \<or>
          (\<not> addrEmpty W (flMinerAddr f) \<and> flMinerAddr f \<noteq> fmMinerAddr v))"

fun listFlaggedLoop ::
  "'s world \<Rightarrow> FlaggedPiecesListFilter option \<Rightarrow> time option \<Rightarrow> (string \<times> dsval) list \<Rightarrow>
    FlaggedPiece list \<Rightarrow> goerr + FlaggedPiece list" where
  "listFlaggedLoop W flt cursor [] records = Inr records"
| "listFlaggedLoop W flt cursor ((rKey, rValue) # results) records =
     (let k = last (splitOn (CHR ''/'') rKey) in
      case cidParse W k of
        Inl err \<Rightarrow> Inl (errorf_w (''parsing piece cid '' @ k @ '': '') err)
      | Inr pieceCid \<Rightarrow>
          (case unmarshalFlagged rValue of
             Inl err \<Rightarrow> Inl (errorf_w ''failed to unmarshal LeveldbFlaggedMetadata: '' err)
           | Inr v \<Rightarrow>
               if filteredOut W flt v then listFlaggedLoop W flt cursor results records
               else if (case cursor of None \<Rightarrow> False | Some c \<Rightarrow> fmCreatedAt v < c) then
                 listFlaggedLoop W flt cursor results records
               else listFlaggedLoop W flt cursor results
                 (records @ [\<lparr>fpMinerAddr = [], fpPieceCid = pieceCid, fpCreatedAt = fmCreatedAt v,
                              fpUpdatedAt = fmUpdatedAt v,
                              fpHasUnsealedCopy = fmHasUnsealedCopy v\<rparr>])))"

text \<open>
  \<open>sort.Slice\<close> by creation time. Go leaves the order of equal elements open; the model takes
  the stable one, and no lemma depends on it. The parameter \<open>o\<close> is not used: the paging is by
  the package variable \<open>offset\<close>, as in the source.
\<close>

definition DB_ListFlaggedPieces ::
  "'s world \<Rightarrow> 's \<Rightarrow> checker \<Rightarrow> FlaggedPiecesListFilter option \<Rightarrow> time option \<Rightarrow> int \<Rightarrow> int \<Rightarrow>
    goerr + FlaggedPiece list" where
  "DB_ListFlaggedPieces W s ck flt cursor o' limit =
     (let prefix = flaggedPrefix in
      case dsQuery W s \<lparr>qPrefix = prefix, qKeysOnly = False, qLimit = 0, qOffset = 0\<rparr> of
        Inl err \<Rightarrow> Inl (errorf_w ''listing flagged pieces in database: '' err)
      | Inr results \<Rightarrow>
          (case listFlaggedLoop W flt cursor results [] of
             Inl err \<Rightarrow> Inl err
           | Inr records \<Rightarrow>
               let sorted = sort_key fpCreatedAt records;
                   paged = (if 0 < ckOffset ck then
                              (if length sorted \<le> ckOffset ck then [] else drop (ckOffset ck) sorted)
                            else sorted);
                   limited = (if 0 < limit \<and> nat limit < length paged then take (nat limit) paged
                              else paged)
               in Inr limited))"

fun flaggedCountLoop ::
  "'s world \<Rightarrow> FlaggedPiecesListFilter option \<Rightarrow> (string \<times> dsval) list \<Rightarrow> nat \<Rightarrow> goerr + nat" where
  "flaggedCountLoop W flt [] i = Inr i"
| "flaggedCountLoop W flt ((rKey, rValue) # results) i =
     (case flt of
        None \<Rightarrow> flaggedCountLoop W flt results (i + 1)
      | Some f \<Rightarrow>
          (case unmarshalFlagged rValue of
             Inl err \<Rightarrow> Inl (errorf_w ''failed to unmarshal LeveldbFlaggedMetadata: '' err)
           | Inr v \<Rightarrow>
               if filteredOut W flt v then flaggedCountLoop W flt results i
               else flaggedCountLoop W flt results (i + 1)))"

definition DB_FlaggedPiecesCount ::
  "'s world \<Rightarrow> 's \<Rightarrow> FlaggedPiecesListFilter option \<Rightarrow> goerr + nat" where
  "DB_FlaggedPiecesCount W s flt =
     (case dsQuery W s \<lparr>qPrefix = flaggedPrefix,
                        qKeysOnly = (flt = None), qLimit = 0, qOffset = 0\<rparr> of
        Inl err \<Rightarrow> Inl (errorf_w ''listing flagged pieces in database: '' err)
      | Inr results \<Rightarrow> flaggedCountLoop W flt results 0)"

section \<open>The scans, through the abstraction\<close>

lemma hasDealWith_iff [simp]: "hasDealWith a deals \<longleftrightarrow> (\<exists>dl\<in>set deals. MinerAddr dl = a)"
  by (induction deals) auto

lemma piece_key_drop [simp]:
  "drop (length piecesPrefix) (key_of W (KPiece c)) = cidString W c"
  by (simp add: key_of_def piecesPrefix_def)

text \<open>The pieces in the order of the datastore, each with its metadata.\<close>

definition piecesIn ::
  "'s world \<Rightarrow> ('s \<Rightarrow> string \<Rightarrow> dsval option) \<Rightarrow> ('s \<Rightarrow> string \<Rightarrow> (string \<times> dsval) list) \<Rightarrow> 's \<Rightarrow>
    (cid \<times> LeveldbMetadata) list \<Rightarrow> bool" where
  "piecesIn W view listing s ps \<longleftrightarrow>
     listing s sprefixPieceCidToCursor = map (\<lambda>(c, md). (key_of W (KPiece c), VMd md)) ps \<and>
     distinct (map fst ps) \<and> (\<forall>c md. (c, md) \<in> set ps \<longleftrightarrow> lidPieces (lid_of W view s) c = Some md)"

lemma piecesIn_ex:
  "world_ok W view listing \<Longrightarrow> wf_store W view s \<Longrightarrow> \<exists>ps. piecesIn W view listing s ps"
  unfolding piecesIn_def by (rule listing_pieces_lid)

lemma piecesIn_map_of: "piecesIn W view listing s ps \<Longrightarrow> map_of ps = lidPieces (lid_of W view s)"
  unfolding piecesIn_def by (intro ext) (metis map_of_eq_Some_iff not_None_eq)

lemma query_pieces:
  assumes ok: "world_ok W view listing" and ps: "piecesIn W view listing s ps"
  shows "dsQuery W s \<lparr>qPrefix = piecesPrefix, qKeysOnly = ko,
      qLimit = lmt, qOffset = ofs\<rparr> =
    Inr (map (\<lambda>(c, md). (key_of W (KPiece c), if ko then VBytes [] else VMd md))
      (if lmt = 0 then drop ofs ps else take lmt (drop ofs ps)))"
proof -
  let ?q = "\<lparr>qPrefix = piecesPrefix, qKeysOnly = ko, qLimit = lmt, qOffset = ofs\<rparr>"
  have "dsQuery W s ?q = Inr (map (queryEntry ?q) (page ?q (listing s sprefixPieceCidToCursor)))"
    by (rule ok_query [OF ok]) (simp_all add: piecesPrefix_def)
  moreover have "map (queryEntry ?q) (page ?q (map f ps)) =
      map (queryEntry ?q \<circ> f) (if lmt = 0 then drop ofs ps else take lmt (drop ofs ps))"
    for f :: "cid \<times> LeveldbMetadata \<Rightarrow> string \<times> dsval"
    by (simp add: page_def Let_def drop_map take_map)
  ultimately show ?thesis
    using ps by (simp add: piecesIn_def o_def queryEntry_def split_def)
qed

lemma listPiecesLoop_lid:
  assumes "names_ok W"
  shows "listPiecesLoop W (length piecesPrefix)
      (map (\<lambda>(c, md). (key_of W (KPiece c), v md)) ps) acc = Inr (acc @ map fst ps)"
  by (induction ps arbitrary: acc) (auto simp: assms)

lemma DB_ListPieces_lid:
  assumes ok: "world_ok W view listing" and ps: "piecesIn W view listing s ps"
  shows "DB_ListPieces W s = Inr (map fst ps)"
  unfolding DB_ListPieces_def Let_def query_pieces [OF ok ps] sum.case
  using listPiecesLoop_lid [OF ok_names [OF ok], of "\<lambda>_. VBytes []" ps "[]"]
  by simp

lemma piecesCountLoop_lid:
  assumes ok: "world_ok W view listing" and wf: "wf_store W view s"
    and "\<forall>(c, md)\<in>set ps. lidPieces (lid_of W view s) c = Some md"
  shows "piecesCountLoop W s a (length piecesPrefix)
      (map (\<lambda>(c, md). (key_of W (KPiece c), v md)) ps) n =
    Inr (n + length (filter (\<lambda>(c, md). hasDealWith a (Deals md)) ps))"
  using assms(3)
  by (induction ps arbitrary: n)
    (auto simp: ok_names [OF ok] DB_GetPieceCidToMetadata_lid [OF ok wf]
      simp del: hasDealWith_iff)

lemma DB_PiecesCount_lid:
  assumes ok: "world_ok W view listing" and wf: "wf_store W view s"
    and ps: "piecesIn W view listing s ps"
  shows "DB_PiecesCount W s a = Inr (length (filter (\<lambda>(c, md). hasDealWith a (Deals md)) ps))"
proof -
  have "\<forall>(c, md)\<in>set ps. lidPieces (lid_of W view s) c = Some md"
    using ps by (auto simp: piecesIn_def)
  from piecesCountLoop_lid [OF ok wf this, of a VMd 0] show ?thesis
    unfolding DB_PiecesCount_def Let_def query_pieces [OF ok ps] sum.case by simp
qed

text \<open>A piece that the doctor has to look at: a deal with the miner, and not checked lately.\<close>

definition due ::
  "'s world \<Rightarrow> (string \<times> time) list \<Rightarrow> address \<Rightarrow> time \<Rightarrow> cid \<times> LeveldbMetadata \<Rightarrow> bool" where
  "due W checked a now = (\<lambda>(c, md).
     \<not> alreadyChecked checked (addrString W a @ cidString W c) now \<and> hasDealWith a (Deals md))"

definition markChecked ::
  "'s world \<Rightarrow> address \<Rightarrow> time \<Rightarrow> cid list \<Rightarrow> (string \<times> time) list \<Rightarrow> (string \<times> time) list" where
  "markChecked W a now cs checked =
     fold (\<lambda>c. AList.update (addrString W a @ cidString W c) now) cs checked"

lemma markChecked_simps [simp]:
  "markChecked W a now [] checked = checked"
  "markChecked W a now (c # cs) checked =
    markChecked W a now cs (AList.update (addrString W a @ cidString W c) now checked)"
  by (simp_all add: markChecked_def)

lemma map_of_markChecked:
  "map_of (markChecked W a now cs checked) k =
    (if \<exists>c\<in>set cs. k = addrString W a @ cidString W c then Some now else map_of checked k)"
  by (induction cs arbitrary: checked) (auto simp: update_conv')

lemma due_update_other:
  assumes "names_ok W" and "fst p \<noteq> c"
  shows "due W (AList.update (addrString W a @ cidString W c) t checked) a now p =
    due W checked a now p"
  using assms by (auto simp: due_def alreadyChecked_def update_conv' split: prod.split)

lemma nextPiecesLoop_lid:
  assumes ok: "world_ok W view listing" and wf: "wf_store W view s"
    and "\<forall>(c, md)\<in>set ps. lidPieces (lid_of W view s) c = Some md" and "distinct (map fst ps)"
  shows "nextPiecesLoop W s a now (length piecesPrefix)
      (map (\<lambda>(c, md). (key_of W (KPiece c), v md)) ps) i checked acc =
    (Inr (acc @ map fst (filter (due W checked a now) ps)), i + length ps,
     markChecked W a now (map fst (filter (due W checked a now) ps)) checked)"
  using assms(3,4)
proof (induction ps arbitrary: i checked acc)
  case (Cons p ps)
  note nm = ok_names [OF ok]
  obtain c md where p: "p = (c, md)" by (cases p)
  with Cons.prems have md: "lidPieces (lid_of W view s) c = Some md" by simp
  let ?checked' = "AList.update (addrString W a @ cidString W c) now checked"
  have filt: "filter (due W ?checked' a now) ps = filter (due W checked a now) ps"
  proof (rule filter_cong [OF refl])
    fix q
    assume "q \<in> set ps"
    with Cons.prems(2) p have "fst q \<noteq> c" by auto
    then show "due W ?checked' a now q = due W checked a now q" by (rule due_update_other [OF nm])
  qed
  have IH: "nextPiecesLoop W s a now (length piecesPrefix)
      (map (\<lambda>(c, md). (key_of W (KPiece c), v md)) ps) i checked acc =
    (Inr (acc @ map fst (filter (due W checked a now) ps)), i + length ps,
     markChecked W a now (map fst (filter (due W checked a now) ps)) checked)" for i checked acc
    using Cons.IH Cons.prems by simp
  have duec: "due W checked a now (c, md) \<longleftrightarrow>
      \<not> alreadyChecked checked (addrString W a @ cidString W c) now \<and> hasDealWith a (Deals md)"
    by (simp add: due_def)
  show ?case
    unfolding p
    by (cases "alreadyChecked checked (addrString W a @ cidString W c) now";
        cases "hasDealWith a (Deals md)")
      (simp_all add: IH filt nm md Let_def DB_GetPieceCidToMetadata_lid [OF ok wf] duec
        del: hasDealWith_iff)
qed simp

lemma DB_NextPiecesToCheck_lid:
  fixes ck :: checker and a :: address and now :: time
  assumes ok: "world_ok W view listing" and wf: "wf_store W view s"
    and ps: "piecesIn W view listing s ps"
  defines "pg \<equiv> take PiecesToTrackerBatchSize (drop (ckOffset ck) ps)"
  defines "found \<equiv> map fst (filter (due W (ckChecked ck) a now) pg)"
  shows "DB_NextPiecesToCheck W s ck now a =
    (Inr found,
     \<lparr>ckOffset = (if length pg < PiecesToTrackerBatchSize - 1 then 0
                  else ckOffset ck + length pg),
      ckChecked = markChecked W a now found (ckChecked ck)\<rparr>)"
proof -
  have sub: "set pg \<subseteq> set ps" unfolding pg_def by (meson order_trans set_drop_subset set_take_subset)
  then have "\<forall>(c, md)\<in>set pg. lidPieces (lid_of W view s) c = Some md"
    using ps by (auto simp: piecesIn_def)
  moreover have "distinct (map fst pg)"
    using ps by (simp add: pg_def piecesIn_def take_map [symmetric] drop_map [symmetric] distinct_take distinct_drop)
  ultimately have loop: "nextPiecesLoop W s a now (length piecesPrefix)
      (map (\<lambda>(c, md). (key_of W (KPiece c), VBytes [])) pg) 0 (ckChecked ck) [] =
    (Inr found, length pg, markChecked W a now found (ckChecked ck))"
    using nextPiecesLoop_lid [OF ok wf, of pg a now "\<lambda>_. VBytes []" 0 "ckChecked ck" "[]"]
    by (simp add: found_def)
  have "PiecesToTrackerBatchSize \<noteq> 0" by (simp add: PiecesToTrackerBatchSize_def)
  then have q: "dsQuery W s \<lparr>qPrefix = piecesPrefix, qKeysOnly = True, qLimit = PiecesToTrackerBatchSize,
      qOffset = ckOffset ck\<rparr> = Inr (map (\<lambda>(c, md). (key_of W (KPiece c), VBytes [])) pg)"
    by (simp add: query_pieces [OF ok ps] pg_def)
  show ?thesis
    unfolding DB_NextPiecesToCheck_def Let_def q sum.case loop prod.case by simp
qed

section \<open>The flagged pieces, through the abstraction\<close>

definition flagsIn ::
  "'s world \<Rightarrow> ('s \<Rightarrow> string \<Rightarrow> dsval option) \<Rightarrow> ('s \<Rightarrow> string \<Rightarrow> (string \<times> dsval) list) \<Rightarrow> 's \<Rightarrow>
    ((address \<times> cid) \<times> LeveldbFlaggedMetadata) list \<Rightarrow> bool" where
  "flagsIn W view listing s fs \<longleftrightarrow>
     listing s sprefixPieceCidToFlagged = map (\<lambda>((a, c), fm). (key_of W (KFlag a c), VFlagged fm)) fs \<and>
     distinct (map fst fs) \<and>
     (\<forall>a c fm. ((a, c), fm) \<in> set fs \<longleftrightarrow> lidFlags (lid_of W view s) a c = Some fm)"

lemma flagsIn_ex:
  "world_ok W view listing \<Longrightarrow> wf_store W view s \<Longrightarrow> \<exists>fs. flagsIn W view listing s fs"
  unfolding flagsIn_def by (rule listing_flags_lid)

lemma query_flags:
  assumes ok: "world_ok W view listing" and fs: "flagsIn W view listing s fs"
  shows "dsQuery W s \<lparr>qPrefix = flaggedPrefix, qKeysOnly = ko, qLimit = 0, qOffset = 0\<rparr> =
    Inr (map (\<lambda>((a, c), fm). (key_of W (KFlag a c), if ko then VBytes [] else VFlagged fm)) fs)"
proof -
  let ?q = "\<lparr>qPrefix = flaggedPrefix, qKeysOnly = ko, qLimit = 0, qOffset = 0\<rparr>"
  have "dsQuery W s ?q = Inr (map (queryEntry ?q) (page ?q (listing s sprefixPieceCidToFlagged)))"
    by (rule ok_query [OF ok]) (simp_all add: flaggedPrefix_def)
  then show ?thesis
    using fs by (simp add: flagsIn_def page_def o_def queryEntry_def split_def)
qed

lemma flag_key_last [simp]:
  assumes nm: "names_ok W"
  shows "last (splitOn (CHR ''/'') (key_of W (KFlag a c))) = cidString W c"
proof -
  have "\<forall>s\<in>set (key_segs W (KFlag a c)). CHR ''/'' \<notin> set s"
    using key_segs_ok(2) [OF nm, of "KFlag a c"] unfolding seg_def by blast
  from splitOn_joinSlash [OF key_segs_ok(1) [OF nm] this] show ?thesis
    by (simp add: key_of_def)
qed

definition flaggedMatch ::
  "'s world \<Rightarrow> FlaggedPiecesListFilter option \<Rightarrow> time option \<Rightarrow>
    (address \<times> cid) \<times> LeveldbFlaggedMetadata \<Rightarrow> bool" where
  "flaggedMatch W flt cursor = (\<lambda>(ac, fm). \<not> filteredOut W flt fm \<and>
     (case cursor of None \<Rightarrow> True | Some c \<Rightarrow> c \<le> fmCreatedAt fm))"

definition flaggedRow :: "(address \<times> cid) \<times> LeveldbFlaggedMetadata \<Rightarrow> FlaggedPiece" where
  "flaggedRow = (\<lambda>((a, c), fm).
     \<lparr>fpMinerAddr = [], fpPieceCid = c, fpCreatedAt = fmCreatedAt fm, fpUpdatedAt = fmUpdatedAt fm,
      fpHasUnsealedCopy = fmHasUnsealedCopy fm\<rparr>)"

lemma listFlaggedLoop_lid:
  assumes "names_ok W"
  shows "listFlaggedLoop W flt cursor
      (map (\<lambda>((a, c), fm). (key_of W (KFlag a c), VFlagged fm)) fs) acc =
    Inr (acc @ map flaggedRow (filter (flaggedMatch W flt cursor) fs))"
proof (induction fs arbitrary: acc)
  case (Cons x fs)
  obtain a c fm where "x = ((a, c), fm)" by (metis surj_pair)
  with Cons assms show ?case
    by (cases cursor) (auto simp: flaggedMatch_def flaggedRow_def Let_def)
qed simp

lemma DB_ListFlaggedPieces_lid:
  assumes ok: "world_ok W view listing" and fs: "flagsIn W view listing s fs"
  shows "DB_ListFlaggedPieces W s ck flt cursor o' limit =
    Inr (let rows = drop (ckOffset ck)
           (sort_key fpCreatedAt (map flaggedRow (filter (flaggedMatch W flt cursor) fs)))
         in if 0 < limit then take (nat limit) rows else rows)"
  unfolding DB_ListFlaggedPieces_def Let_def query_flags [OF ok fs] if_False sum.case
    listFlaggedLoop_lid [OF ok_names [OF ok]] append_Nil
  by auto

lemma flaggedCountLoop_lid:
  shows "flaggedCountLoop W flt (map (\<lambda>((a, c), fm). (key_of W (KFlag a c),
      if flt = None then VBytes [] else VFlagged fm)) fs) n =
    Inr (n + length (filter (\<lambda>(ac, fm). \<not> filteredOut W flt fm) fs))"
proof (induction fs arbitrary: n)
  case (Cons x fs)
  obtain a c fm where x: "x = ((a, c), fm)" by (metis surj_pair)
  have "filteredOut W None fm = False" by (simp add: filteredOut_def)
  with Cons x show ?case by (cases flt) auto
qed simp

lemma DB_FlaggedPiecesCount_lid:
  assumes ok: "world_ok W view listing" and fs: "flagsIn W view listing s fs"
  shows "DB_FlaggedPiecesCount W s flt =
    Inr (length (filter (\<lambda>(ac, fm). \<not> filteredOut W flt fm) fs))"
  unfolding DB_FlaggedPiecesCount_def query_flags [OF ok fs] sum.case flaggedCountLoop_lid by simp

end
