(* ===== verification/LdbStore.thy ===== *)
theory LdbStore
  imports LdbScan
begin

text \<open>
  The methods of the LevelDB \<open>Store\<close> (\<open>lib/boostd-data/ldb/service.go\<close>), which implement the
  service interface of the local index directory on top of \<open>DB\<close>. The store's mutex makes each
  method one step; metrics, tracing and logging are left out; \<open>now\<close> is \<open>time.Now()\<close>. A channel
  of results is the list of the values sent before it is closed.
\<close>

section \<open>Errors\<close>

fun normalizePieceCidError :: "'s world \<Rightarrow> cid \<Rightarrow> goerr option \<Rightarrow> goerr option" where
  "normalizePieceCidError W pieceCid None = None"
| "normalizePieceCidError W pieceCid (Some err) =
     (if errors_Is err DsErrNotFound then
        Some (errorf_s (''piece '' @ cidString W pieceCid @ '': '') typesErrNotFound)
      else Some err)"

fun normalizeMultihashError :: "'s world \<Rightarrow> multihash \<Rightarrow> goerr option \<Rightarrow> goerr option" where
  "normalizeMultihashError W m None = None"
| "normalizeMultihashError W m (Some err) =
     (if errors_Is err DsErrNotFound then
        Some (errorf_s (''multihash '' @ mhString W m @ '': '') typesErrNotFound)
      else Some err)"

section \<open>Start and deals\<close>

text \<open>\<open>Start\<close>, given what \<open>newDB\<close> returned.\<close>

definition Store_Start :: "'s world \<Rightarrow> goerr + 's \<Rightarrow> goerr + 's" where
  "Store_Start W opened =
     (case opened of
        Inl err \<Rightarrow> Inl err
      | Inr s \<Rightarrow> (case DB_InitCursor W s of (Some err, _) \<Rightarrow> Inl err | (None, s') \<Rightarrow> Inr s'))"

fun hasDeal :: "DealInfo list \<Rightarrow> DealInfo \<Rightarrow> bool" where
  "hasDeal [] dealInfo = False"
| "hasDeal (dl # deals) dealInfo = (dl = dealInfo \<or> hasDeal deals dealInfo)"

definition Store_AddDealForPiece :: "'s world \<Rightarrow> 's \<Rightarrow> cid \<Rightarrow> DealInfo \<Rightarrow> goerr option \<times> 's" where
  "Store_AddDealForPiece W s pieceCid dealInfo =
     (let addTo = (\<lambda>md.
          if hasDeal (Deals md) dealInfo then (None, s)
          else DB_SetPieceCidToMetadata W s pieceCid (md\<lparr>Deals := Deals md @ [dealInfo]\<rparr>))
      in case DB_GetPieceCidToMetadata W s pieceCid of
           (md, None) \<Rightarrow> addTo md
         | (_, Some err) \<Rightarrow>
             if \<not> errors_Is err DsErrNotFound then
               (Some (errorf_w
                 (''getting piece cid metadata for piece '' @ cidString W pieceCid @ '': '') err), s)
             else addTo newLeveldbMetadata)"

section \<open>Reading\<close>

definition Store_GetOffsetSize :: "'s world \<Rightarrow> 's \<Rightarrow> cid \<Rightarrow> multihash \<Rightarrow> OffsetSize outcome" where
  "Store_GetOffsetSize W s pieceCid h =
     (case DB_GetPieceCidToMetadata W s pieceCid of
        (md, None) \<Rightarrow> DB_GetOffsetSize W s (show_u64 (Cursor md) @ ''/'') h
      | (_, Some err) \<Rightarrow> Fail (the (normalizePieceCidError W pieceCid (Some err))))"

definition Store_GetPieceMetadata :: "'s world \<Rightarrow> 's \<Rightarrow> cid \<Rightarrow> goerr + Metadata" where
  "Store_GetPieceMetadata W s pieceCid =
     (case DB_GetPieceCidToMetadata W s pieceCid of
        (md, None) \<Rightarrow> Inr (Metadata.truncate md)
      | (_, Some err) \<Rightarrow>
          Inl (errorf_w (''getting piece metadata for piece '' @ cidString W pieceCid @ '': '')
            (the (normalizePieceCidError W pieceCid (Some err)))))"

definition Store_GetPieceDeals :: "'s world \<Rightarrow> 's \<Rightarrow> cid \<Rightarrow> goerr + DealInfo list" where
  "Store_GetPieceDeals W s pieceCid =
     (case DB_GetPieceCidToMetadata W s pieceCid of
        (md, None) \<Rightarrow> Inr (Deals md)
      | (_, Some err) \<Rightarrow>
          Inl (errorf_w (''getting piece deals for piece '' @ cidString W pieceCid @ '': '')
            (the (normalizePieceCidError W pieceCid (Some err)))))"

definition Store_PiecesContainingMultihash :: "'s world \<Rightarrow> 's \<Rightarrow> multihash \<Rightarrow> goerr + cid list" where
  "Store_PiecesContainingMultihash W s m =
     (case DB_GetPieceCidsByMultihash W s m of
        Inr pcs \<Rightarrow> Inr pcs
      | Inl err \<Rightarrow> Inl (the (normalizeMultihashError W m (Some err))))"

definition Store_GetIndex :: "'s world \<Rightarrow> 's \<Rightarrow> cid \<Rightarrow> IndexedBlock list outcome" where
  "Store_GetIndex W s pieceCid =
     (case DB_GetPieceCidToMetadata W s pieceCid of
        (_, Some err) \<Rightarrow> Fail (the (normalizePieceCidError W pieceCid (Some err)))
      | (md, None) \<Rightarrow>
          (case DB_AllRecords W s (Cursor md) of
             Ret records \<Rightarrow> Ret records
           | Fail err \<Rightarrow> Fail (errorf_w
               (''getting all records for cursor '' @ show_u64 (Cursor md) @ '': '')
               (the (normalizePieceCidError W pieceCid (Some err))))
           | Panic \<Rightarrow> Panic))"

text \<open>\<open>IndexedAt\<close> reads the zero metadata when the piece is unknown.\<close>

definition Store_IndexedAt :: "'s world \<Rightarrow> 's \<Rightarrow> cid \<Rightarrow> goerr + time" where
  "Store_IndexedAt W s pieceCid =
     (case DB_GetPieceCidToMetadata W s pieceCid of
        (md, Some err) \<Rightarrow> if \<not> errors_Is err DsErrNotFound then Inl err else Inr (IndexedAt md)
      | (md, None) \<Rightarrow> Inr (IndexedAt md))"

definition Store_IsIndexed :: "'s world \<Rightarrow> 's \<Rightarrow> cid \<Rightarrow> goerr + bool" where
  "Store_IsIndexed W s pieceCid =
     (case Store_IndexedAt W s pieceCid of
        Inl err \<Rightarrow> Inl err | Inr t \<Rightarrow> Inr (\<not> time_IsZero t))"

definition Store_IsCompleteIndex :: "'s world \<Rightarrow> 's \<Rightarrow> cid \<Rightarrow> goerr + bool" where
  "Store_IsCompleteIndex W s pieceCid =
     (case DB_GetPieceCidToMetadata W s pieceCid of
        (_, Some err) \<Rightarrow> Inl (the (normalizePieceCidError W pieceCid (Some err)))
      | (md, None) \<Rightarrow> Inr (CompleteIndex md))"

section \<open>AddIndex\<close>

text \<open>
  The metadata, cursor and key prefix to index under: those of the piece when it has metadata,
  otherwise new metadata with the next cursor, which is taken at once.
\<close>

definition addIndexCursor ::
  "'s world \<Rightarrow> 's \<Rightarrow> cid \<Rightarrow> bool \<Rightarrow> (goerr + LeveldbMetadata \<times> u64 \<times> string) \<times> 's" where
  "addIndexCursor W s pieceCid isCompleteIndex =
     (case DB_GetPieceCidToMetadata W s pieceCid of
        (md, None) \<Rightarrow> (Inr (md, Cursor md, KeyCursorPrefix (Cursor md)), s)
      | (_, Some err) \<Rightarrow>
          if \<not> errors_Is err DsErrNotFound then (Inl err, s)
          else
            (case DB_NextCursor W s of
               Inl err' \<Rightarrow> (Inl err', s)
             | Inr (cursor, keyCursorPrefix) \<Rightarrow>
                 (case DB_SetNextCursor W s (cursor + 1) of
                    (Some err', s') \<Rightarrow> (Inl err', s')
                  | (None, s') \<Rightarrow>
                      (Inr (newLeveldbMetadata\<lparr>Cursor := cursor, CompleteIndex := isCompleteIndex\<rparr>,
                            cursor, keyCursorPrefix), s'))))"

fun addRecordsLoop :: "'s world \<Rightarrow> 's \<Rightarrow> string \<Rightarrow> IndexedBlock list \<Rightarrow> goerr option \<times> 's" where
  "addRecordsLoop W s keyCursorPrefix [] = (None, s)"
| "addRecordsLoop W s keyCursorPrefix (rec # records) =
     (case DB_AddIndexRecord W s keyCursorPrefix rec of
        (Some err, s') \<Rightarrow> (Some err, s')
      | (None, s') \<Rightarrow> addRecordsLoop W s' keyCursorPrefix records)"

definition Store_AddIndex ::
  "'s world \<Rightarrow> 's \<Rightarrow> time \<Rightarrow> cid \<Rightarrow> IndexedBlock list \<Rightarrow> bool \<Rightarrow> AddIndexProgress list \<times> 's" where
  "Store_AddIndex W s now pieceCid records isCompleteIndex =
     (let rs = map (\<lambda>r. \<lparr>crCid = Cid r, crOffset = Offset r\<rparr>) records;
          p1 = sendProgress (45 / 100); p2 = sendProgress (9 / 10);
          p3 = sendProgress (95 / 100); p4 = sendProgress 1
      in case DB_SetMultihashesToPieceCid W s rs pieceCid of
        (Some err, s1) \<Rightarrow> ([sendErr err], s1)
      | (None, s1) \<Rightarrow>
        (case addIndexCursor W s1 pieceCid isCompleteIndex of
           (Inl err, s2) \<Rightarrow> ([p1, sendErr err], s2)
         | (Inr (md, cursor, keyCursorPrefix), s2) \<Rightarrow>
           (case addRecordsLoop W s2 keyCursorPrefix records of
              (Some err, s3) \<Rightarrow> ([p1, sendErr err], s3)
            | (None, s3) \<Rightarrow>
              (case DB_SetPieceCidToMetadata W s3 pieceCid (md\<lparr>IndexedAt := now\<rparr>) of
                 (Some err, s4) \<Rightarrow> ([p1, p2, sendErr err], s4)
               | (None, s4) \<Rightarrow>
                 (case dsSync W s4 (newKey W (show_u64 cursor)) of
                    (Some err, s5) \<Rightarrow> ([p1, p2, p3, sendErr err], s5)
                  | (None, s5) \<Rightarrow> ([p1, p2, p3, p4], s5))))))"

section \<open>Scans and flags\<close>

definition Store_PiecesCount :: "'s world \<Rightarrow> 's \<Rightarrow> address \<Rightarrow> goerr + nat" where
  "Store_PiecesCount W s maddr = DB_PiecesCount W s maddr"

definition Store_ScanProgress ::
  "'s world \<Rightarrow> 's \<Rightarrow> checker \<Rightarrow> address \<Rightarrow> goerr + ScanProgressResult" where
  "Store_ScanProgress W s ck maddr = DB_ScanProgress W s ck maddr"

definition Store_ListPieces :: "'s world \<Rightarrow> 's \<Rightarrow> goerr + cid list" where
  "Store_ListPieces W s = DB_ListPieces W s"

definition Store_NextPiecesToCheck ::
  "'s world \<Rightarrow> 's \<Rightarrow> checker \<Rightarrow> time \<Rightarrow> address \<Rightarrow> (goerr + cid list) \<times> checker" where
  "Store_NextPiecesToCheck W s ck now maddr = DB_NextPiecesToCheck W s ck now maddr"

definition Store_FlagPiece ::
  "'s world \<Rightarrow> 's \<Rightarrow> time \<Rightarrow> cid \<Rightarrow> bool \<Rightarrow> address \<Rightarrow> goerr option \<times> 's" where
  "Store_FlagPiece W s now pieceCid hasUnsealedCopy maddr =
     (let write = (\<lambda>fm. DB_SetPieceCidToFlagged W s pieceCid maddr
          (fm\<lparr>fmUpdatedAt := now, fmHasUnsealedCopy := hasUnsealedCopy\<rparr>))
      in case DB_GetPieceCidToFlagged W s pieceCid maddr of
           Inr fm \<Rightarrow> write fm
         | Inl err \<Rightarrow>
             if \<not> errors_Is err DsErrNotFound then
               (Some (errorf_w (''getting piece cid flagged metadata for piece '' @
                  cidString W pieceCid @ '': '') err), s)
             else write \<lparr>fmCreatedAt = now, fmUpdatedAt = time_zero, fmHasUnsealedCopy = False,
                         fmMinerAddr = maddr\<rparr>)"

definition Store_UnflagPiece :: "'s world \<Rightarrow> 's \<Rightarrow> cid \<Rightarrow> address \<Rightarrow> goerr option \<times> 's" where
  "Store_UnflagPiece W s pieceCid maddr =
     (case DB_DeletePieceCidToFlagged W s pieceCid maddr of
        (Some err, s') \<Rightarrow> (Some (errorf_w
          (''deleting piece cid flagged metadata for piece '' @ cidString W pieceCid @ '': '') err), s')
      | (None, s') \<Rightarrow> (None, s'))"

definition Store_FlaggedPiecesList ::
  "'s world \<Rightarrow> 's \<Rightarrow> checker \<Rightarrow> FlaggedPiecesListFilter option \<Rightarrow> time option \<Rightarrow> int \<Rightarrow> int \<Rightarrow>
    goerr + FlaggedPiece list" where
  "Store_FlaggedPiecesList W s ck flt cursor ofs limit =
     DB_ListFlaggedPieces W s ck flt cursor ofs limit"

definition Store_FlaggedPiecesCount ::
  "'s world \<Rightarrow> 's \<Rightarrow> FlaggedPiecesListFilter option \<Rightarrow> goerr + nat" where
  "Store_FlaggedPiecesCount W s flt = DB_FlaggedPiecesCount W s flt"

section \<open>Removal\<close>

text \<open>
  The loop over \<open>md.Deals\<close>: the first deal with the UUID is overwritten by the last one, the
  list is cut by one, and the loop breaks.
\<close>

fun removeDealLoop :: "string \<Rightarrow> nat list \<Rightarrow> DealInfo list \<Rightarrow> DealInfo list" where
  "removeDealLoop dealUuid [] deals = deals"
| "removeDealLoop dealUuid (i # is) deals =
     (if DealUuid (deals ! i) = dealUuid then
        take (length deals - 1) (deals[i := deals ! (length deals - 1)])
      else removeDealLoop dealUuid is deals)"

definition removeDeal :: "string \<Rightarrow> DealInfo list \<Rightarrow> DealInfo list" where
  "removeDeal dealUuid deals = removeDealLoop dealUuid [0..<length deals] deals"

definition Store_RemoveDealForPiece :: "'s world \<Rightarrow> 's \<Rightarrow> cid \<Rightarrow> string \<Rightarrow> unit outcome \<times> 's" where
  "Store_RemoveDealForPiece W s pieceCid dealUuid =
     (case DB_GetPieceCidToMetadata W s pieceCid of
        (_, Some err) \<Rightarrow> if errors_Is err DsErrNotFound then (Ret (), s) else (Fail err, s)
      | (md, None) \<Rightarrow>
          let deals = removeDeal dealUuid (Deals md) in
          if deals = [] then
            (case DB_RemovePieceMetadata W s pieceCid of
               (Fail err, s') \<Rightarrow> (Fail (errorf_w
                 ''failed to remove the Metadata after removing the last deal: '' err), s')
             | r \<Rightarrow> r)
          else
            (case DB_SetPieceCidToMetadata W s pieceCid (md\<lparr>Deals := deals\<rparr>) of
               (Some err, s') \<Rightarrow> (Fail err, s')
             | (None, s') \<Rightarrow> (Ret (), s')))"

definition Store_RemovePieceMetadata :: "'s world \<Rightarrow> 's \<Rightarrow> cid \<Rightarrow> unit outcome \<times> 's" where
  "Store_RemovePieceMetadata W s pieceCid = DB_RemovePieceMetadata W s pieceCid"

definition Store_RemoveIndexes :: "'s world \<Rightarrow> 's \<Rightarrow> cid \<Rightarrow> unit outcome \<times> 's" where
  "Store_RemoveIndexes W s pieceCid =
     (case DB_GetPieceCidToMetadata W s pieceCid of
        (_, Some err) \<Rightarrow> (Fail err, s)
      | (md, None) \<Rightarrow>
          (case DB_RemoveIndexes W s (Cursor md) pieceCid of
             (Ret _, s') \<Rightarrow>
               (case DB_SetPieceCidToMetadata W s' pieceCid (md\<lparr>IndexedAt := time_zero\<rparr>) of
                  (Some err, s'') \<Rightarrow> (Fail err, s'')
                | (None, s'') \<Rightarrow> (Ret (), s''))
           | r \<Rightarrow> r))"

definition Store_UntrackPiece :: "'s \<Rightarrow> cid \<Rightarrow> address \<Rightarrow> goerr option \<times> 's" where
  "Store_UntrackPiece s pieceCid maddr = (None, s)"

end
