(* ===== verification/LdbRefine.thy ===== *)
theory LdbRefine
  imports LdbStore
begin

text \<open>
  What each method of the LevelDB \<open>Store\<close> does to the abstract index \<open>lid\<close>: one function per
  writing method, and the refinement lemma that the method on the datastore computes it.
\<close>

section \<open>The abstract operations\<close>

definition lidAddDeal :: "cid \<Rightarrow> DealInfo \<Rightarrow> lid \<Rightarrow> lid" where
  "lidAddDeal p dl L =
     (let md = (case lidPieces L p of None \<Rightarrow> newLeveldbMetadata | Some md \<Rightarrow> md) in
      if dl \<in> set (Deals md) then L
      else L\<lparr>lidPieces := (lidPieces L)(p \<mapsto> md\<lparr>Deals := Deals md @ [dl]\<rparr>)\<rparr>)"

text \<open>
  The metadata that \<open>AddIndex\<close> works with, before \<open>IndexedAt\<close> is set; \<open>n\<close> is the next cursor. What
  is stored of it is \<open>jsonMd\<close>: the completeness of the index is lost.
\<close>

definition indexMd :: "lid \<Rightarrow> cid \<Rightarrow> bool \<Rightarrow> u64 \<Rightarrow> LeveldbMetadata" where
  "indexMd L p full n =
     (case lidPieces L p of
        None \<Rightarrow> newLeveldbMetadata\<lparr>Cursor := n, CompleteIndex := full\<rparr>
      | Some md \<Rightarrow> md)"

definition blockAt :: "IndexedBlock \<Rightarrow> OffsetSize" where
  "blockAt r = \<lparr>Offset = Offset r, Size = Size r\<rparr>"

definition lidAddIndex ::
  "'s world \<Rightarrow> time \<Rightarrow> cid \<Rightarrow> IndexedBlock list \<Rightarrow> bool \<Rightarrow> u64 \<Rightarrow> lid \<Rightarrow> lid" where
  "lidAddIndex W now p records full n L =
     (let md = indexMd L p full n; cur = Cursor md in
      L\<lparr>lidNext := Some (if lidPieces L p = None then n + 1 else n),
        lidPieces := (lidPieces L)(p \<mapsto> jsonMd (md\<lparr>IndexedAt := now\<rparr>)),
        lidMhs := (\<lambda>m. if m \<in> (\<lambda>r. cidHash W (Cid r)) ` set records
                       then Some (addPiece p (lidMhs L m)) else lidMhs L m),
        lidRecs := (lidRecs L)(cur := fold (\<lambda>r t. t(cidHash W (Cid r) \<mapsto> blockAt r)) records
                     (lidRecs L cur))\<rparr>)"

definition lidRemovePiece :: "cid \<Rightarrow> LeveldbMetadata \<Rightarrow> lid \<Rightarrow> lid" where
  "lidRemovePiece p md L = (removeIndex (Cursor md) p L)\<lparr>lidPieces := (lidPieces L)(p := None)\<rparr>"

definition lidFlagPiece :: "time \<Rightarrow> cid \<Rightarrow> bool \<Rightarrow> address \<Rightarrow> lid \<Rightarrow> lid" where
  "lidFlagPiece now p huc a L =
     (let created = (case lidFlags L a p of None \<Rightarrow> now | Some fm \<Rightarrow> fmCreatedAt fm);
          owner = (case lidFlags L a p of None \<Rightarrow> a | Some fm \<Rightarrow> fmMinerAddr fm) in
      L\<lparr>lidFlags := (lidFlags L)(a := (lidFlags L a)(p \<mapsto>
         \<lparr>fmCreatedAt = created, fmUpdatedAt = now, fmHasUnsealedCopy = huc, fmMinerAddr = owner\<rparr>))\<rparr>)"

definition lidUnflagPiece :: "cid \<Rightarrow> address \<Rightarrow> lid \<Rightarrow> lid" where
  "lidUnflagPiece p a L = L\<lparr>lidFlags := (lidFlags L)(a := (lidFlags L a)(p := None))\<rparr>"

section \<open>The writing methods refine them\<close>

lemma Store_Start_refines:
  assumes ok: "world_ok W view listing" and wf: "wf_store W view s"
  shows "\<exists>s'. Store_Start W (Inr s) = Inr s' \<and> wf_store W view s' \<and>
    lid_of W view s' = lid_of W view s
      \<lparr>lidNext := Some (case lidNext (lid_of W view s) of None \<Rightarrow> 100 | Some n \<Rightarrow> n)\<rparr>"
proof -
  obtain e s' where i: "DB_InitCursor W s = (e, s')" by fastforce
  from DB_InitCursor_lid [OF ok wf i] i show ?thesis by (simp add: Store_Start_def)
qed

lemma hasDeal_set [simp]: "hasDeal deals dl \<longleftrightarrow> dl \<in> set deals"
  by (induction deals) auto

lemma Store_AddDealForPiece_refines:
  assumes ok: "world_ok W view listing" and wf: "wf_store W view s"
    and r: "Store_AddDealForPiece W s p dl = (e, s')"
  shows "e = None \<and> wf_store W view s' \<and> lid_of W view s' = lidAddDeal p dl (lid_of W view s)"
proof -
  let ?md = "case lidPieces (lid_of W view s) p of None \<Rightarrow> newLeveldbMetadata | Some md \<Rightarrow> md"
  have inc: "\<not> CompleteIndex ?md"
    using pieces_incomplete [OF ok_names [OF ok] wf] by (simp add: newLeveldbMetadata_def split: option.split)
  have eq: "Store_AddDealForPiece W s p dl =
      (if dl \<in> set (Deals ?md) then (None, s)
       else DB_SetPieceCidToMetadata W s p (?md\<lparr>Deals := Deals ?md @ [dl]\<rparr>))"
    by (simp add: Store_AddDealForPiece_def Let_def DB_GetPieceCidToMetadata_lid [OF ok wf]
        split: option.split)
  show ?thesis
  proof (cases "dl \<in> set (Deals ?md)")
    case True
    with eq r wf show ?thesis by (simp add: lidAddDeal_def Let_def)
  next
    case False
    with eq r have "DB_SetPieceCidToMetadata W s p (?md\<lparr>Deals := Deals ?md @ [dl]\<rparr>) = (e, s')"
      by simp
    from DB_SetPieceCidToMetadata_lid [OF ok wf this] False inc show ?thesis
      by (simp add: lidAddDeal_def Let_def)
  qed
qed

lemma addRecordsLoop_lid:
  assumes ok: "world_ok W view listing"
  shows "wf_store W view s \<Longrightarrow> addRecordsLoop W s (KeyCursorPrefix cur) records = (e, s') \<Longrightarrow>
    e = None \<and> wf_store W view s' \<and> lid_of W view s' = lid_of W view s
      \<lparr>lidRecs := (lidRecs (lid_of W view s))
        (cur := fold (\<lambda>r t. t(cidHash W (Cid r) \<mapsto> blockAt r)) records
          (lidRecs (lid_of W view s) cur))\<rparr>"
proof (induction records arbitrary: s)
  case (Cons r records)
  obtain e1 s1 where a: "DB_AddIndexRecord W s (KeyCursorPrefix cur) r = (e1, s1)" by fastforce
  from DB_AddIndexRecord_lid [OF ok Cons.prems(1) a] have s1: "e1 = None" "wf_store W view s1"
    "lid_of W view s1 = lid_of W view s
      \<lparr>lidRecs := (lidRecs (lid_of W view s))(cur := (lidRecs (lid_of W view s) cur)
         (cidHash W (Cid r) \<mapsto> blockAt r))\<rparr>"
    by (auto simp: blockAt_def)
  with a Cons.prems(2) have "addRecordsLoop W s1 (KeyCursorPrefix cur) records = (e, s')" by simp
  from Cons.IH [OF s1(2) this] s1(3) show ?case by (simp cong: if_cong)
qed simp

lemma addIndexCursor_lid:
  assumes ok: "world_ok W view listing" and wf: "wf_store W view s"
    and n: "lidNext (lid_of W view s) = Some n"
    and r: "addIndexCursor W s p full = (x, s')"
  defines "md \<equiv> indexMd (lid_of W view s) p full n"
  shows "x = Inr (md, Cursor md, KeyCursorPrefix (Cursor md)) \<and> wf_store W view s' \<and>
    lid_of W view s' = lid_of W view s
      \<lparr>lidNext := Some (if lidPieces (lid_of W view s) p = None then n + 1 else n)\<rparr>"
proof (cases "lidPieces (lid_of W view s) p")
  case None
  obtain e1 s1 where c: "DB_SetNextCursor W s (n + 1) = (e1, s1)" by fastforce
  from DB_SetNextCursor_lid [OF ok wf c] c r None n show ?thesis
    by (simp add: addIndexCursor_def DB_GetPieceCidToMetadata_lid [OF ok wf]
        DB_NextCursor_lid [OF ok wf] md_def indexMd_def)
next
  case (Some m)
  with r n wf show ?thesis
    by (simp add: addIndexCursor_def DB_GetPieceCidToMetadata_lid [OF ok wf] md_def indexMd_def)
qed

lemma Store_AddIndex_refines:
  assumes ok: "world_ok W view listing" and wf: "wf_store W view s"
    and n: "lidNext (lid_of W view s) = Some n"
    and r: "Store_AddIndex W s now p records full = (sent, s')"
  shows "sent = map sendProgress [45/100, 9/10, 95/100, 1] \<and> wf_store W view s' \<and>
    lid_of W view s' = lidAddIndex W now p records full n (lid_of W view s)"
proof -
  let ?L = "lid_of W view s"
  let ?rs = "map (\<lambda>r. \<lparr>crCid = Cid r, crOffset = Offset r\<rparr>) records"
  have h: "(\<lambda>r. cidHash W (crCid r)) ` set ?rs = (\<lambda>r. cidHash W (Cid r)) ` set records"
    by (simp add: image_image)
  obtain e1 s1 where a1: "DB_SetMultihashesToPieceCid W s ?rs p = (e1, s1)" by fastforce
  from DB_SetMultihashesToPieceCid_lid [OF ok wf a1] have s1: "e1 = None" "wf_store W view s1"
    and L1: "lid_of W view s1 = ?L\<lparr>lidMhs := (\<lambda>m. if m \<in> (\<lambda>r. cidHash W (Cid r)) ` set records
         then Some (addPiece p (lidMhs ?L m)) else lidMhs ?L m)\<rparr>"
    unfolding h by auto
  have n1: "lidNext (lid_of W view s1) = Some n" using n L1 by simp
  define md where "md = indexMd (lid_of W view s1) p full n"
  obtain x s2 where a2: "addIndexCursor W s1 p full = (x, s2)" by fastforce
  from addIndexCursor_lid [OF ok s1(2) n1 a2] have s2:
    "x = Inr (md, Cursor md, KeyCursorPrefix (Cursor md))" "wf_store W view s2"
    and L2: "lid_of W view s2 = lid_of W view s1
      \<lparr>lidNext := Some (if lidPieces (lid_of W view s1) p = None then n + 1 else n)\<rparr>"
    by (auto simp: md_def)
  obtain e3 s3 where a3: "addRecordsLoop W s2 (KeyCursorPrefix (Cursor md)) records = (e3, s3)"
    by fastforce
  note s3 = addRecordsLoop_lid [OF ok s2(2) a3]
  then have wf3: "wf_store W view s3" by blast
  obtain e4 s4 where a4: "DB_SetPieceCidToMetadata W s3 p (md\<lparr>IndexedAt := now\<rparr>) = (e4, s4)"
    by fastforce
  note s4 = DB_SetPieceCidToMetadata_lid [OF ok wf3 a4]
  obtain e5 s5 where a5: "dsSync W s4 (newKey W (show_u64 (Cursor md))) = (e5, s5)" by fastforce
  note s5 = ok_sync [OF ok a5]
  have "Store_AddIndex W s now p records full = (map sendProgress [45/100, 9/10, 95/100, 1], s5)"
    using a1 a2 a3 a4 a5 s1 s2 s3 s4 s5 by (simp add: Store_AddIndex_def Let_def)
  with r have rs: "sent = map sendProgress [45/100, 9/10, 95/100, 1]" "s' = s5" by simp_all
  have mdL: "md = indexMd ?L p full n" by (simp add: md_def indexMd_def L1)
  have v5: "view s5 = view s4" using s5 by simp
  have wf5: "wf_store W view s5" using s4 v5 by (simp add: wf_store_def)
  have "lid_of W view s5 = lid_of W view s4" by (rule lid_same [OF v5])
  also have "\<dots> = lidAddIndex W now p records full n ?L"
    using s3 s4 L1 L2 by (simp add: lidAddIndex_def Let_def mdL)
  finally show ?thesis using rs wf5 by simp
qed

lemma Store_FlagPiece_refines:
  assumes ok: "world_ok W view listing" and wf: "wf_store W view s"
    and r: "Store_FlagPiece W s now p huc a = (e, s')"
  shows "e = None \<and> wf_store W view s' \<and> lid_of W view s' = lidFlagPiece now p huc a (lid_of W view s)"
proof (cases "lidFlags (lid_of W view s) a p")
  case None
  with r have "DB_SetPieceCidToFlagged W s p a \<lparr>fmCreatedAt = now, fmUpdatedAt = now,
      fmHasUnsealedCopy = huc, fmMinerAddr = a\<rparr> = (e, s')"
    by (simp add: Store_FlagPiece_def Let_def DB_GetPieceCidToFlagged_lid [OF ok wf])
  from DB_SetPieceCidToFlagged_lid [OF ok wf this] None show ?thesis
    by (simp add: lidFlagPiece_def Let_def)
next
  case (Some fm)
  have fm: "fm\<lparr>fmUpdatedAt := now, fmHasUnsealedCopy := huc\<rparr> = \<lparr>fmCreatedAt = fmCreatedAt fm,
      fmUpdatedAt = now, fmHasUnsealedCopy = huc, fmMinerAddr = fmMinerAddr fm\<rparr>" by simp
  from r Some have "DB_SetPieceCidToFlagged W s p a
      (fm\<lparr>fmUpdatedAt := now, fmHasUnsealedCopy := huc\<rparr>) = (e, s')"
    by (simp add: Store_FlagPiece_def Let_def DB_GetPieceCidToFlagged_lid [OF ok wf])
  from DB_SetPieceCidToFlagged_lid [OF ok wf this] Some show ?thesis
    by (simp add: lidFlagPiece_def Let_def fm)
qed

lemma Store_UnflagPiece_refines:
  assumes ok: "world_ok W view listing" and wf: "wf_store W view s"
    and r: "Store_UnflagPiece W s p a = (e, s')"
  shows "e = None \<and> wf_store W view s' \<and> lid_of W view s' = lidUnflagPiece p a (lid_of W view s)"
proof -
  obtain e1 s1 where d: "DB_DeletePieceCidToFlagged W s p a = (e1, s1)" by fastforce
  from DB_DeletePieceCidToFlagged_lid [OF ok wf d] d r show ?thesis
    by (simp add: Store_UnflagPiece_def lidUnflagPiece_def)
qed

lemma Store_RemovePieceMetadata_refines:
  assumes ok: "world_ok W view listing" and wf: "wf_store W view s"
    and r: "Store_RemovePieceMetadata W s p = (e, s')"
  shows "case lidPieces (lid_of W view s) p of
      None \<Rightarrow> e = Fail dsErrNotFound \<and> s' = s
    | Some md \<Rightarrow> e = Ret () \<and> wf_store W view s' \<and>
        lid_of W view s' = lidRemovePiece p md (lid_of W view s)"
  using DB_RemovePieceMetadata_lid [OF ok wf r [unfolded Store_RemovePieceMetadata_def]]
  by (simp add: lidRemovePiece_def split: option.splits)

lemma Store_RemoveDealForPiece_refines:
  assumes ok: "world_ok W view listing" and wf: "wf_store W view s"
    and r: "Store_RemoveDealForPiece W s p uuid = (e, s')"
  shows "e = Ret () \<and> wf_store W view s' \<and>
    lid_of W view s' = (case lidPieces (lid_of W view s) p of
       None \<Rightarrow> lid_of W view s
     | Some md \<Rightarrow>
         let deals = removeDeal uuid (Deals md) in
         if deals = [] then lidRemovePiece p md (lid_of W view s)
         else lid_of W view s\<lparr>lidPieces := (lidPieces (lid_of W view s))
                (p \<mapsto> md\<lparr>Deals := deals\<rparr>)\<rparr>)"
proof (cases "lidPieces (lid_of W view s) p")
  case None
  with r wf show ?thesis
    by (simp add: Store_RemoveDealForPiece_def DB_GetPieceCidToMetadata_lid [OF ok wf])
next
  case (Some md)
  let ?deals = "removeDeal uuid (Deals md)"
  note inc = pieces_incomplete [OF ok_names [OF ok] wf Some]
  obtain e1 s1 where rm: "DB_RemovePieceMetadata W s p = (e1, s1)" by fastforce
  obtain e2 s2 where st: "DB_SetPieceCidToMetadata W s p (md\<lparr>Deals := ?deals\<rparr>) = (e2, s2)" by fastforce
  from DB_RemovePieceMetadata_lid [OF ok wf rm] DB_SetPieceCidToMetadata_lid [OF ok wf st] rm st r Some inc
  show ?thesis
    by (cases "?deals = []")
      (simp_all add: Store_RemoveDealForPiece_def DB_GetPieceCidToMetadata_lid [OF ok wf] Let_def
        lidRemovePiece_def)
qed

lemma Store_RemoveIndexes_refines:
  assumes ok: "world_ok W view listing" and wf: "wf_store W view s"
    and r: "Store_RemoveIndexes W s p = (e, s')"
  shows "case lidPieces (lid_of W view s) p of
      None \<Rightarrow> (\<exists>err. e = Fail err \<and> errors_Is err DsErrNotFound) \<and> s' = s
    | Some md \<Rightarrow> e = Ret () \<and> wf_store W view s' \<and>
        lid_of W view s' = (removeIndex (Cursor md) p (lid_of W view s))
          \<lparr>lidPieces := (lidPieces (lid_of W view s))(p \<mapsto> md\<lparr>IndexedAt := time_zero\<rparr>)\<rparr>"
proof (cases "lidPieces (lid_of W view s) p")
  case None
  with r show ?thesis
    by (auto simp: Store_RemoveIndexes_def DB_GetPieceCidToMetadata_lid [OF ok wf])
next
  case (Some md)
  obtain e1 s1 where i: "DB_RemoveIndexes W s (Cursor md) p = (e1, s1)" by fastforce
  from DB_RemoveIndexes_lid [OF ok wf i] have i1: "e1 = Ret ()" "wf_store W view s1"
    "lid_of W view s1 = removeIndex (Cursor md) p (lid_of W view s)" by auto
  obtain e2 s2 where st: "DB_SetPieceCidToMetadata W s1 p (md\<lparr>IndexedAt := time_zero\<rparr>) = (e2, s2)"
    by fastforce
  note inc = pieces_incomplete [OF ok_names [OF ok] wf Some]
  from DB_SetPieceCidToMetadata_lid [OF ok i1(2) st] i i1 st r Some inc show ?thesis
    by (simp add: Store_RemoveIndexes_def DB_GetPieceCidToMetadata_lid [OF ok wf] removeIndex_def)
qed

end
