(* ===== verification/Demo.thy ===== *)
theory Demo
  imports LdbSpec "HOL-Library.AList"
begin

text \<open>
  A concrete world: an in-memory datastore (an association list) and escaped string forms of the
  identifiers. It satisfies \<open>world_ok\<close>, so the theorems about the LevelDB store can be applied
  to it and their hypotheses are met on concrete runs.
\<close>

fun enc :: "string \<Rightarrow> string" where
  "enc [] = []"
| "enc (c # cs) =
     (if c = CHR ''/'' then ''_s'' else if c = CHR ''.'' then ''_d''
      else if c = CHR ''_'' then ''__'' else [c]) @ enc cs"

fun dec :: "string \<Rightarrow> string" where
  "dec [] = []"
| "dec [c] = [c]"
| "dec (c # d # r) =
     (if c = CHR ''_'' then
        (if d = CHR ''s'' then CHR ''/'' else if d = CHR ''d'' then CHR ''.'' else CHR ''_'') # dec r
      else c # dec (d # r))"

lemma dec_plain: "c \<noteq> CHR ''_'' \<Longrightarrow> dec (c # r) = c # dec r"
  by (cases r) auto

lemma dec_enc [simp]: "dec (enc s) = s"
  by (induction s) (auto simp: dec_plain)

lemma enc_chars: "CHR ''/'' \<notin> set (enc s) \<and> CHR ''.'' \<notin> set (enc s)"
  by (induction s) auto

fun demoApply :: "batchop \<Rightarrow> (string \<times> dsval) list \<Rightarrow> (string \<times> dsval) list" where
  "demoApply (BPut k v) s = AList.update k v s"
| "demoApply (BDel k) s = AList.delete k s"

definition demoNewKey :: "string \<Rightarrow> string" where
  "demoNewKey s = (case s of [] \<Rightarrow> ''/'' | c # r \<Rightarrow> if c = CHR ''/'' then s else CHR ''/'' # s)"

definition demoListing :: "(string \<times> dsval) list \<Rightarrow> string \<Rightarrow> (string \<times> dsval) list" where
  "demoListing s p = filter (\<lambda>kv. hasPrefix (fst kv) (CHR ''/'' # p @ ''/'')) (AList.clearjunk s)"

definition demoWorld :: "(string \<times> dsval) list world" where
  "demoWorld =
     \<lparr>dsGet = (\<lambda>s k. case map_of s k of None \<Rightarrow> Inl dsErrNotFound | Some v \<Rightarrow> Inr v),
      dsPut = (\<lambda>s k v. (None, AList.update k v s)),
      dsDelete = (\<lambda>s k. (None, AList.delete k s)),
      dsQuery = (\<lambda>s q. Inr (map (queryEntry q) (page q
        (filter (\<lambda>kv. hasPrefix (fst kv) (demoNewKey (qPrefix q))) (AList.clearjunk s))))),
      dsNewBatch = (\<lambda>s. None),
      dsBatchPut = (\<lambda>s k v. None),
      dsBatchDelete = (\<lambda>s k. None),
      dsCommit = (\<lambda>s ops. (None, fold demoApply ops s)),
      dsSync = (\<lambda>s k. (None, s)),
      newKey = demoNewKey,
      cidString = (\<lambda>c. CHR ''b'' # enc c),
      cidParse = (\<lambda>s. Inr (dec (tl s))),
      cidHash = (\<lambda>c. c),
      cidNewV1Raw = (\<lambda>m. m),
      mhString = (\<lambda>m. CHR ''1'' # enc m),
      mhFromHex = (\<lambda>s. Inr (dec (tl s))),
      addrString = (\<lambda>a. CHR ''f'' # enc a),
      addrEmpty = (\<lambda>a. a = [])\<rparr>"

lemma seg_enc: "c \<noteq> CHR ''/'' \<Longrightarrow> c \<noteq> CHR ''.'' \<Longrightarrow> seg (c # enc s)"
  using enc_chars [of s] by (auto simp: seg_def)

lemma seg_hd: "seg s \<Longrightarrow> \<exists>c r. s = c # r \<and> c \<noteq> CHR ''/''"
  by (cases s) (auto simp: seg_def)

lemma joinSlash_hd:
  assumes "ss \<noteq> []" and "\<forall>s\<in>set ss. seg s"
  shows "\<exists>c r. joinSlash ss = c # r \<and> c \<noteq> CHR ''/''"
proof -
  from assms obtain s ss' where ss: "ss = s # ss'" and s: "seg s" by (cases ss) auto
  from seg_hd [OF s] ss show ?thesis by (cases ss') auto
qed

lemma demo_names: "names_ok demoWorld"
  unfolding names_ok_def
proof (intro conjI allI impI)
  fix ss :: "string list"
  assume ss: "ss \<noteq> [] \<and> (\<forall>s\<in>set ss. seg s)"
  then show "newKey demoWorld (joinSlash ss) = CHR ''/'' # joinSlash ss"
    using joinSlash_hd [of ss] by (auto simp: demoWorld_def demoNewKey_def)
  show "newKey demoWorld (CHR ''/'' # joinSlash ss) = CHR ''/'' # joinSlash ss"
    by (simp add: demoWorld_def demoNewKey_def)
next
  fix a b
  assume "addrString demoWorld a = addrString demoWorld b"
  then have "dec (enc a) = dec (enc b)" by (simp add: demoWorld_def)
  then show "a = b" by simp
qed (simp_all add: demoWorld_def seg_enc)

lemma demoApply_map: "map_of (fold demoApply ops s) = fold applyOp ops (map_of s)"
proof (induction ops arbitrary: s)
  case (Cons op ops)
  have "map_of (demoApply op s) = applyOp op (map_of s)"
    by (cases op) (simp_all add: update_conv' delete_conv')
  with Cons show ?case by simp
qed simp

lemma demo_listing_set: "(k, v) \<in> set (demoListing s p) \<longleftrightarrow>
    map_of s k = Some v \<and> hasPrefix k (CHR ''/'' # p @ ''/'')"
proof -
  have "(k, v) \<in> set (AList.clearjunk s) \<longleftrightarrow> map_of s k = Some v"
    using map_of_eq_Some_iff [OF distinct_clearjunk, of s k v] by (simp add: map_of_clearjunk)
  then show ?thesis by (auto simp: demoListing_def)
qed

lemma demo_datastore: "datastore_ok demoWorld map_of demoListing"
  unfolding datastore_ok_def
proof (intro conjI allI impI)
  fix s :: "(string \<times> dsval) list" and p
  show "distinct (map fst (demoListing s p))"
    unfolding demoListing_def by (rule distinct_map_filter) (rule distinct_clearjunk)
next
  fix s :: "(string \<times> dsval) list" and p and q :: query
  assume a: "seg p \<and> (qPrefix q = p @ ''/'' \<or> qPrefix q = CHR ''/'' # p @ ''/'')"
  have "demoNewKey (qPrefix q) = CHR ''/'' # p @ ''/''"
    using a seg_hd [of p] by (auto simp: demoNewKey_def)
  then show "dsQuery demoWorld s q = Inr (map (queryEntry q) (page q (demoListing s p)))"
    by (simp add: demoWorld_def demoListing_def)
qed (simp_all add: demoWorld_def update_conv' delete_conv' demoApply_map demo_listing_set)

lemma demo_ok: "world_ok demoWorld map_of demoListing"
  by (simp add: world_ok_def demo_names demo_datastore)

lemma demo_wf_empty: "wf_store demoWorld map_of []"
  by (simp add: wf_store_def)

lemma demo_lid_empty:
  "lid_of demoWorld map_of [] = \<lparr>lidNext = None, lidPieces = Map.empty, lidMhs = Map.empty,
     lidFlags = (\<lambda>a. Map.empty), lidRecs = (\<lambda>cur. Map.empty)\<rparr>"
  by (simp add: lid_of_def tview_def)

end
