(* ===== verification/LdbInvariant.thy ===== *)
theory LdbInvariant
  imports LdbRefine Demo
begin

text \<open>
  The consistency of the index across its tables: the next cursor lies above every cursor in use,
  no two pieces share a cursor, records exist only under the cursor of a piece, and a multihash
  lists a piece exactly when the piece has a record for it. Every method keeps it, with one
  proviso: a deal is added to a piece only after the
  piece was indexed.
\<close>

definition lid_inv :: "lid \<Rightarrow> bool" where
  "lid_inv L \<longleftrightarrow>
     (\<exists>n. lidNext L = Some n \<and> (\<forall>c md. lidPieces L c = Some md \<longrightarrow> Cursor md < n)) \<and>
     (\<forall>c d m1 m2. lidPieces L c = Some m1 \<and> lidPieces L d = Some m2 \<and> Cursor m1 = Cursor m2 \<longrightarrow> c = d) \<and>
     (\<forall>cur m. lidRecs L cur m \<noteq> None \<longrightarrow> (\<exists>c md. lidPieces L c = Some md \<and> Cursor md = cur)) \<and>
     (\<forall>p m. (\<exists>cs. lidMhs L m = Some cs \<and> p \<in> set cs) \<longleftrightarrow>
        (\<exists>md. lidPieces L p = Some md \<and> lidRecs L (Cursor md) m \<noteq> None)) \<and>
     (\<forall>m cs. lidMhs L m = Some cs \<longrightarrow> distinct cs \<and> cs \<noteq> [])"

lemma lid_invD:
  assumes "lid_inv L"
  shows "\<exists>n. lidNext L = Some n \<and> (\<forall>c md. lidPieces L c = Some md \<longrightarrow> Cursor md < n)"
    and "lidPieces L c = Some m1 \<Longrightarrow> lidPieces L d = Some m2 \<Longrightarrow> Cursor m1 = Cursor m2 \<Longrightarrow> c = d"
    and "lidRecs L cur m \<noteq> None \<Longrightarrow> \<exists>c md. lidPieces L c = Some md \<and> Cursor md = cur"
    and "(\<exists>cs. lidMhs L m = Some cs \<and> p \<in> set cs) \<longleftrightarrow>
        (\<exists>md. lidPieces L p = Some md \<and> lidRecs L (Cursor md) m \<noteq> None)"
    and "lidMhs L m = Some cs \<Longrightarrow> distinct cs \<and> cs \<noteq> []"
  using assms unfolding lid_inv_def by blast+

section \<open>The abstract operations keep it\<close>

lemma fold_recs_dom:
  "fold (\<lambda>r t. t(f r \<mapsto> g r)) rs t m \<noteq> None \<longleftrightarrow> t m \<noteq> None \<or> m \<in> f ` set rs"
  by (induction rs arbitrary: t) auto

lemma addPiece_set: "q \<in> set (addPiece p x) \<longleftrightarrow> q = p \<or> (\<exists>cs. x = Some cs \<and> q \<in> set cs)"
  by (auto simp: addPiece_def split: option.splits)

lemma addPiece_wf:
  "(\<And>cs. x = Some cs \<Longrightarrow> distinct cs \<and> cs \<noteq> []) \<Longrightarrow> distinct (addPiece p x) \<and> addPiece p x \<noteq> []"
  by (cases x) (auto simp: addPiece_def)

text \<open>Changing the metadata of a known piece, cursor kept, keeps the invariant.\<close>

lemma lid_inv_md:
  assumes inv: "lid_inv L" and p: "lidPieces L p = Some md" and c: "Cursor md' = Cursor md"
  shows "lid_inv (L\<lparr>lidPieces := (lidPieces L)(p \<mapsto> md')\<rparr>)"
proof -
  have cur: "(\<exists>m'. ((lidPieces L)(p \<mapsto> md')) q = Some m' \<and> Cursor m' = k) \<longleftrightarrow>
      (\<exists>m'. lidPieces L q = Some m' \<and> Cursor m' = k)" for q k
    using p c by auto
  obtain n where n: "lidNext L = Some n" "\<forall>c md. lidPieces L c = Some md \<longrightarrow> Cursor md < n"
    using lid_invD(1) [OF inv] by blast
  have 1: "\<forall>q m'. ((lidPieces L)(p \<mapsto> md')) q = Some m' \<longrightarrow> Cursor m' < n"
    using n(2) cur by metis
  have 2: "\<forall>q r m1 m2. ((lidPieces L)(p \<mapsto> md')) q = Some m1 \<and> ((lidPieces L)(p \<mapsto> md')) r = Some m2 \<and>
      Cursor m1 = Cursor m2 \<longrightarrow> q = r"
    using lid_invD(2) [OF inv] cur by metis
  have 3: "(\<exists>m'. ((lidPieces L)(p \<mapsto> md')) q = Some m' \<and> lidRecs L (Cursor m') m \<noteq> None) \<longleftrightarrow>
      (\<exists>m'. lidPieces L q = Some m' \<and> lidRecs L (Cursor m') m \<noteq> None)" for q m
    using cur by metis
  have 4: "\<exists>q m'. ((lidPieces L)(p \<mapsto> md')) q = Some m' \<and> Cursor m' = k" if "lidRecs L k m \<noteq> None" for k m
    using lid_invD(3) [OF inv that] cur by metis
  show ?thesis
    unfolding lid_inv_def
  proof (intro conjI allI impI)
    show "\<exists>n. lidNext (L\<lparr>lidPieces := (lidPieces L)(p \<mapsto> md')\<rparr>) = Some n \<and>
        (\<forall>c md. lidPieces (L\<lparr>lidPieces := (lidPieces L)(p \<mapsto> md')\<rparr>) c = Some md \<longrightarrow> Cursor md < n)"
      using n(1) 1 by simp
  next
    fix q m
    show "(\<exists>cs. lidMhs (L\<lparr>lidPieces := (lidPieces L)(p \<mapsto> md')\<rparr>) m = Some cs \<and> q \<in> set cs) \<longleftrightarrow>
        (\<exists>md. lidPieces (L\<lparr>lidPieces := (lidPieces L)(p \<mapsto> md')\<rparr>) q = Some md \<and>
           lidRecs (L\<lparr>lidPieces := (lidPieces L)(p \<mapsto> md')\<rparr>) (Cursor md) m \<noteq> None)"
      using lid_invD(4) [OF inv, of m q] 3 [of q m] by simp
  qed (use 2 4 lid_invD(5) [OF inv] in \<open>auto simp del: fun_upd_apply\<close>)
qed

text \<open>The introduction rule that the cases below use, with the parts named.\<close>

lemma lid_invI:
  assumes "lidNext L = Some n" and "\<And>c md. lidPieces L c = Some md \<Longrightarrow> Cursor md < n"
    and "\<And>c d m1 m2. lidPieces L c = Some m1 \<Longrightarrow> lidPieces L d = Some m2 \<Longrightarrow> Cursor m1 = Cursor m2 \<Longrightarrow> c = d"
    and "\<And>cur m. lidRecs L cur m \<noteq> None \<Longrightarrow> \<exists>c md. lidPieces L c = Some md \<and> Cursor md = cur"
    and "\<And>p m. (\<exists>cs. lidMhs L m = Some cs \<and> p \<in> set cs) \<longleftrightarrow>
        (\<exists>md. lidPieces L p = Some md \<and> lidRecs L (Cursor md) m \<noteq> None)"
    and "\<And>m cs. lidMhs L m = Some cs \<Longrightarrow> distinct cs \<and> cs \<noteq> []"
  shows "lid_inv L"
  using assms unfolding lid_inv_def by (intro conjI allI impI) blast+

lemma lid_inv_new:
  assumes inv: "lid_inv L" and n: "lidNext L = Some n" "n < n + 1"
    and p: "lidPieces L p = None" and md: "Cursor md = n"
  shows "lid_inv (L\<lparr>lidNext := Some (n + 1), lidPieces := (lidPieces L)(p \<mapsto> md)\<rparr>)"
proof (rule lid_invI [of _ "n + 1"])
  let ?L' = "L\<lparr>lidNext := Some (n + 1), lidPieces := (lidPieces L)(p \<mapsto> md)\<rparr>"
  have lt: "lidPieces L c = Some m1 \<Longrightarrow> Cursor m1 < n" for c m1
    using lid_invD(1) [OF inv] n(1) by auto
  have none: "lidRecs L n m = None" for m
    using lid_invD(3) [OF inv, of n m] lt by fastforce
  show "lidNext ?L' = Some (n + 1)" by simp
  show "Cursor m1 < n + 1" if "lidPieces ?L' c = Some m1" for c m1
    using that lt [of c m1] md n(2) by (auto split: if_splits)
  show "c = d" if "lidPieces ?L' c = Some m1" "lidPieces ?L' d = Some m2" "Cursor m1 = Cursor m2"
    for c d m1 m2
    using that lt md lid_invD(2) [OF inv, of c m1 d m2] by (fastforce split: if_splits)
  show "\<exists>c md. lidPieces ?L' c = Some md \<and> Cursor md = cur" if "lidRecs ?L' cur m \<noteq> None" for cur m
  proof -
    from that lid_invD(3) [OF inv, of cur m] obtain c m1
      where "lidPieces L c = Some m1" "Cursor m1 = cur" by auto
    with p show ?thesis by (intro exI [of _ c] exI [of _ m1]) auto
  qed
  show "(\<exists>cs. lidMhs ?L' m = Some cs \<and> q \<in> set cs) \<longleftrightarrow>
      (\<exists>md. lidPieces ?L' q = Some md \<and> lidRecs ?L' (Cursor md) m \<noteq> None)" for q m
    using lid_invD(4) [OF inv, of m q] none [of m] p md by (cases "q = p") auto
  show "distinct cs \<and> cs \<noteq> []" if "lidMhs ?L' m = Some cs" for m cs
    using that lid_invD(5) [OF inv] by simp
qed

lemma lid_inv_recs:
  assumes inv: "lid_inv L" and p: "lidPieces L p = Some md"
    and t: "\<And>m. t m \<noteq> None \<longleftrightarrow> lidRecs L (Cursor md) m \<noteq> None \<or> m \<in> H"
  shows "lid_inv (L\<lparr>lidMhs := (\<lambda>m. if m \<in> H then Some (addPiece p (lidMhs L m)) else lidMhs L m),
    lidRecs := (lidRecs L)(Cursor md := t)\<rparr>)"
proof -
  let ?L' = "L\<lparr>lidMhs := (\<lambda>m. if m \<in> H then Some (addPiece p (lidMhs L m)) else lidMhs L m),
    lidRecs := (lidRecs L)(Cursor md := t)\<rparr>"
  obtain n where n: "lidNext L = Some n" "\<And>c md. lidPieces L c = Some md \<Longrightarrow> Cursor md < n"
    using lid_invD(1) [OF inv] by blast
  have mem: "(\<exists>cs. lidMhs ?L' m = Some cs \<and> q \<in> set cs) \<longleftrightarrow>
      (\<exists>cs. lidMhs L m = Some cs \<and> q \<in> set cs) \<or> (q = p \<and> m \<in> H)" for q m
    by (auto simp: addPiece_set)
  have rec: "(\<exists>m1. lidPieces ?L' q = Some m1 \<and> lidRecs ?L' (Cursor m1) m \<noteq> None) \<longleftrightarrow>
      (\<exists>m1. lidPieces L q = Some m1 \<and> lidRecs L (Cursor m1) m \<noteq> None) \<or> (q = p \<and> m \<in> H)" for q m
    using p t [of m] lid_invD(2) [OF inv, of q _ p md] by (cases "q = p") fastforce+
  show ?thesis
  proof (rule lid_invI [of _ n])
    show "(\<exists>cs. lidMhs ?L' m = Some cs \<and> q \<in> set cs) \<longleftrightarrow>
        (\<exists>m1. lidPieces ?L' q = Some m1 \<and> lidRecs ?L' (Cursor m1) m \<noteq> None)" for q m
      unfolding mem rec lid_invD(4) [OF inv, of m q] ..
    show "\<exists>c m1. lidPieces ?L' c = Some m1 \<and> Cursor m1 = cur" if "lidRecs ?L' cur m \<noteq> None" for cur m
    proof (cases "cur = Cursor md")
      case True
      with p show ?thesis by auto
    next
      case False
      with that lid_invD(3) [OF inv, of cur m] show ?thesis by simp
    qed
    show "distinct cs \<and> cs \<noteq> []" if "lidMhs ?L' m = Some cs" for m cs
      using that addPiece_wf [of "lidMhs L m" p] lid_invD(5) [OF inv, of m] by (auto split: if_splits)
  qed (use n lid_invD(2) [OF inv] in auto)
qed

lemma lid_inv_AddIndex:
  assumes inv: "lid_inv L" and n: "lidNext L = Some n" "n < n + 1"
  shows "lid_inv (lidAddIndex W now p records full n L)"
proof -
  define md where "md = indexMd L p full n"
  define L1 where "L1 = (if lidPieces L p = None
    then L\<lparr>lidNext := Some (n + 1), lidPieces := (lidPieces L)(p \<mapsto> md)\<rparr> else L)"
  have inv1: "lid_inv L1" and p1: "lidPieces L1 p = Some md"
    using lid_inv_new [OF inv n, of p md] inv
    by (auto simp: L1_def md_def indexMd_def newLeveldbMetadata_def split: option.splits)
  define H where "H = (\<lambda>r. cidHash W (Cid r)) ` set records"
  define t where "t = fold (\<lambda>r t. t(cidHash W (Cid r) \<mapsto> blockAt r)) records (lidRecs L1 (Cursor md))"
  have t: "t m \<noteq> None \<longleftrightarrow> lidRecs L1 (Cursor md) m \<noteq> None \<or> m \<in> H" for m
    unfolding t_def H_def by (rule fold_recs_dom)
  let ?L2 = "L1\<lparr>lidMhs := (\<lambda>m. if m \<in> H then Some (addPiece p (lidMhs L1 m)) else lidMhs L1 m),
    lidRecs := (lidRecs L1)(Cursor md := t)\<rparr>"
  have inv2: "lid_inv ?L2" by (rule lid_inv_recs [OF inv1 p1 t])
  have p2: "lidPieces ?L2 p = Some md" using p1 by simp
  have "lid_inv (?L2\<lparr>lidPieces := (lidPieces ?L2)(p \<mapsto> jsonMd (md\<lparr>IndexedAt := now\<rparr>))\<rparr>)"
    by (rule lid_inv_md [OF inv2 p2]) simp
  also have "?L2\<lparr>lidPieces := (lidPieces ?L2)(p \<mapsto> jsonMd (md\<lparr>IndexedAt := now\<rparr>))\<rparr> =
      lidAddIndex W now p records full n L"
  proof (rule lid.equality)
    have sel: "lidMhs L1 = lidMhs L" "lidRecs L1 = lidRecs L" "lidFlags L1 = lidFlags L"
      by (simp_all add: L1_def)
    show "lidMhs (?L2\<lparr>lidPieces := (lidPieces ?L2)(p \<mapsto> jsonMd (md\<lparr>IndexedAt := now\<rparr>))\<rparr>) =
        lidMhs (lidAddIndex W now p records full n L)"
      by (simp add: lidAddIndex_def Let_def sel H_def cong: if_cong)
  qed (use n(1) in \<open>auto simp: lidAddIndex_def Let_def md_def [symmetric] L1_def t_def\<close>)
  finally show ?thesis .
qed

lemma removePiece_mem:
  assumes "\<And>cs. x = Some cs \<Longrightarrow> distinct cs \<and> cs \<noteq> []"
  shows "(\<exists>cs. removePiece p x = Some cs \<and> q \<in> set cs) \<longleftrightarrow> q \<noteq> p \<and> (\<exists>cs. x = Some cs \<and> q \<in> set cs)"
proof (cases x)
  case None
  then show ?thesis by (simp add: removePiece_def)
next
  case (Some cs)
  with assms have cs: "distinct cs" "cs \<noteq> []" by auto
  show ?thesis
  proof (cases "p \<in> set cs")
    case False
    with Some show ?thesis by (auto simp: removePiece_def)
  next
    case True
    show ?thesis
    proof (cases "length cs \<le> 1")
      case True
      with \<open>p \<in> set cs\<close> have "cs = [p]" by (cases cs) auto
      with Some show ?thesis by (auto simp: removePiece_def)
    next
      case False
      with Some True have "removePiece p x = Some (dropCid p cs)" by (simp add: removePiece_def)
      moreover have "q \<in> set (dropCid p cs) \<longleftrightarrow> q \<in> set cs \<and> q \<noteq> p"
        unfolding dropCid_facts(1) [OF cs(1) True] by auto
      ultimately show ?thesis using Some by auto
    qed
  qed
qed

lemma removeIndex_sel [simp]:
  "lidNext (removeIndex cur p L) = lidNext L" "lidPieces (removeIndex cur p L) = lidPieces L"
  "lidFlags (removeIndex cur p L) = lidFlags L"
  "lidRecs (removeIndex cur p L) = (lidRecs L)(cur := Map.empty)"
  "lidMhs (removeIndex cur p L) m =
    (if lidRecs L cur m = None then lidMhs L m else removePiece p (lidMhs L m))"
  by (simp_all add: removeIndex_def)

lemma removeIndex_mem:
  assumes inv: "lid_inv L" and p: "lidPieces L p = Some md"
  shows "(\<exists>cs. lidMhs (removeIndex (Cursor md) p L) m = Some cs \<and> q \<in> set cs) \<longleftrightarrow>
    q \<noteq> p \<and> (\<exists>cs. lidMhs L m = Some cs \<and> q \<in> set cs)"
proof (cases "lidRecs L (Cursor md) m = None")
  case True
  with p have "\<not> (\<exists>cs. lidMhs L m = Some cs \<and> p \<in> set cs)"
    using lid_invD(4) [OF inv, of m p] by simp
  with True show ?thesis by auto
next
  case False
  then have "lidMhs (removeIndex (Cursor md) p L) m = removePiece p (lidMhs L m)" by auto
  then show ?thesis using removePiece_mem [of "lidMhs L m" p q] lid_invD(5) [OF inv] by simp
qed

lemma lid_inv_removeIndex:
  assumes inv: "lid_inv L" and p: "lidPieces L p = Some md"
  shows "lid_inv (removeIndex (Cursor md) p L)"
proof -
  obtain n where n: "lidNext L = Some n" "\<And>c md. lidPieces L c = Some md \<Longrightarrow> Cursor md < n"
    using lid_invD(1) [OF inv] by blast
  show ?thesis
  proof (rule lid_invI [of _ n])
    show "(\<exists>cs. lidMhs (removeIndex (Cursor md) p L) m = Some cs \<and> q \<in> set cs) \<longleftrightarrow>
        (\<exists>m1. lidPieces (removeIndex (Cursor md) p L) q = Some m1 \<and>
          lidRecs (removeIndex (Cursor md) p L) (Cursor m1) m \<noteq> None)" for q m
      unfolding removeIndex_mem [OF inv p] lid_invD(4) [OF inv, of m q]
      using p lid_invD(2) [OF inv, of q _ p md] by (cases "q = p") auto
    show "\<exists>c m1. lidPieces (removeIndex (Cursor md) p L) c = Some m1 \<and> Cursor m1 = cur"
      if "lidRecs (removeIndex (Cursor md) p L) cur m \<noteq> None" for cur m
      using that lid_invD(3) [OF inv, of cur m] by (auto split: if_splits)
    show "distinct cs \<and> cs \<noteq> []" if "lidMhs (removeIndex (Cursor md) p L) m = Some cs" for m cs
    proof (cases "lidRecs L (Cursor md) m = None")
      case True
      with that lid_invD(5) [OF inv] show ?thesis by simp
    next
      case False
      with that have "removePiece p (lidMhs L m) = Some cs" by simp
      then show ?thesis by (rule removePiece_wf) (rule lid_invD(5) [OF inv])
    qed
  qed (use n lid_invD(2) [OF inv] in auto)
qed

lemma lid_inv_removePiece:
  assumes inv: "lid_inv L" and p: "lidPieces L p = Some md"
  shows "lid_inv (lidRemovePiece p md L)"
proof -
  let ?L' = "lidRemovePiece p md L"
  note inv' = lid_inv_removeIndex [OF inv p]
  obtain n where n: "lidNext L = Some n" "\<And>c md. lidPieces L c = Some md \<Longrightarrow> Cursor md < n"
    using lid_invD(1) [OF inv] by blast
  have sel: "lidNext ?L' = lidNext L" "lidPieces ?L' = (lidPieces L)(p := None)"
    "lidMhs ?L' = lidMhs (removeIndex (Cursor md) p L)"
    "lidRecs ?L' = (lidRecs L)(Cursor md := Map.empty)"
    by (simp_all add: lidRemovePiece_def)
  show ?thesis
  proof (rule lid_invI [of _ n])
    show "(\<exists>cs. lidMhs ?L' m = Some cs \<and> q \<in> set cs) \<longleftrightarrow>
        (\<exists>m1. lidPieces ?L' q = Some m1 \<and> lidRecs ?L' (Cursor m1) m \<noteq> None)" for q m
      unfolding sel removeIndex_mem [OF inv p] lid_invD(4) [OF inv, of m q]
      using p lid_invD(2) [OF inv, of q _ p md] by (cases "q = p") auto
    show "\<exists>c m1. lidPieces ?L' c = Some m1 \<and> Cursor m1 = cur" if "lidRecs ?L' cur m \<noteq> None" for cur m
    proof -
      from that have "cur \<noteq> Cursor md" "lidRecs L cur m \<noteq> None"
        by (auto simp: sel split: if_splits)
      moreover from this obtain c m1 where c: "lidPieces L c = Some m1" "Cursor m1 = cur"
        using lid_invD(3) [OF inv, of cur m] by blast
      ultimately have "c \<noteq> p" using p by auto
      with c show ?thesis by (intro exI [of _ c] exI [of _ m1]) (simp add: sel)
    qed
    show "distinct cs \<and> cs \<noteq> []" if "lidMhs ?L' m = Some cs" for m cs
      using that unfolding sel by (rule lid_invD(5) [OF inv'])
  qed (use n lid_invD(2) [OF inv] sel in \<open>auto split: if_splits\<close>)
qed

end
