(* ===== verification/LdbProps.thy ===== *)
theory LdbProps
  imports LdbInvariant
begin

text \<open>
  The LevelDB store as a state machine: a step is one call of a method (the mutex makes it one),
  \<open>ldb_reachable\<close> are the states after \<open>Start\<close> on an empty datastore. The properties say what a
  caller sees after a sequence of calls, in terms of the methods' own results.
\<close>

inductive ldb_step ::
  "'s world \<Rightarrow> ('s \<Rightarrow> string \<Rightarrow> dsval option) \<Rightarrow> 's \<Rightarrow> 's \<Rightarrow> bool" for W view where
  add_index: "lidNext (lid_of W view s) = Some n \<Longrightarrow> n < n + 1 \<Longrightarrow>
    Store_AddIndex W s now p records full = (sent, s') \<Longrightarrow> ldb_step W view s s'"
| add_deal: "Store_GetPieceMetadata W s p = Inr md \<Longrightarrow>
    Store_AddDealForPiece W s p dl = (e, s') \<Longrightarrow> ldb_step W view s s'"
| remove_deal: "Store_RemoveDealForPiece W s p uuid = (r, s') \<Longrightarrow> ldb_step W view s s'"
| remove_metadata: "Store_RemovePieceMetadata W s p = (r, s') \<Longrightarrow> ldb_step W view s s'"
| remove_indexes: "Store_RemoveIndexes W s p = (r, s') \<Longrightarrow> ldb_step W view s s'"
| flag: "Store_FlagPiece W s now p huc a = (e, s') \<Longrightarrow> ldb_step W view s s'"
| unflag: "Store_UnflagPiece W s p a = (e, s') \<Longrightarrow> ldb_step W view s s'"

inductive ldb_reachable ::
  "'s world \<Rightarrow> ('s \<Rightarrow> string \<Rightarrow> dsval option) \<Rightarrow> 's \<Rightarrow> bool" for W view where
  start: "view s0 = Map.empty \<Longrightarrow> Store_Start W (Inr s0) = Inr s \<Longrightarrow> ldb_reachable W view s"
| step: "ldb_reachable W view s \<Longrightarrow> ldb_step W view s s' \<Longrightarrow> ldb_reachable W view s'"

inductive_cases ldb_stepE: "ldb_step W view s s'"

section \<open>What the reading methods return\<close>

lemma GetPieceMetadata_lid:
  assumes ok: "world_ok W view listing" and wf: "wf_store W view s"
  shows "Store_GetPieceMetadata W s p =
    (case lidPieces (lid_of W view s) p of
       None \<Rightarrow> Inl (errorf_w (''getting piece metadata for piece '' @ cidString W p @ '': '')
         (errorf_s (''piece '' @ cidString W p @ '': '') typesErrNotFound))
     | Some md \<Rightarrow> Inr (Metadata.truncate md))"
  by (simp add: Store_GetPieceMetadata_def DB_GetPieceCidToMetadata_lid [OF ok wf] split: option.split)

lemma GetOffsetSize_lid:
  assumes ok: "world_ok W view listing" and wf: "wf_store W view s"
  shows "Store_GetOffsetSize W s p m =
    (case lidPieces (lid_of W view s) p of
       None \<Rightarrow> Fail (errorf_s (''piece '' @ cidString W p @ '': '') typesErrNotFound)
     | Some md \<Rightarrow>
         (case lidRecs (lid_of W view s) (Cursor md) m of
            None \<Rightarrow> Fail dsErrNotFound | Some r \<Rightarrow> Ret r))"
  using DB_GetOffsetSize_lid [OF ok wf, unfolded KeyCursorPrefix_def]
  by (simp add: Store_GetOffsetSize_def DB_GetPieceCidToMetadata_lid [OF ok wf] split: option.split)

lemma PiecesContaining_lid:
  assumes ok: "world_ok W view listing" and wf: "wf_store W view s"
  shows "Store_PiecesContainingMultihash W s m =
    (case lidMhs (lid_of W view s) m of
       None \<Rightarrow> Inl (errorf_s (''multihash '' @ mhString W m @ '': '') typesErrNotFound)
     | Some cs \<Rightarrow> Inr cs)"
  by (simp add: Store_PiecesContainingMultihash_def DB_GetPieceCidsByMultihash_lid [OF ok wf]
      split: option.split)

section \<open>The invariant\<close>

lemma ldb_step_inv:
  assumes ok: "world_ok W view listing" and wf: "wf_store W view s" and inv: "lid_inv (lid_of W view s)"
    and st: "ldb_step W view s s'"
  shows "wf_store W view s' \<and> lid_inv (lid_of W view s')"
  using st
proof (cases rule: ldb_step.cases)
  case (add_index n now p records full sent)
  from Store_AddIndex_refines [OF ok wf add_index(1,3)] lid_inv_AddIndex [OF inv add_index(1,2)]
  show ?thesis by simp
next
  case (add_deal p md dl e)
  then obtain m where m: "lidPieces (lid_of W view s) p = Some m"
    by (auto simp: GetPieceMetadata_lid [OF ok wf] split: option.splits)
  have "lid_inv (lidAddDeal p dl (lid_of W view s))"
    using inv lid_inv_md [OF inv m] m by (simp add: lidAddDeal_def)
  with Store_AddDealForPiece_refines [OF ok wf add_deal(2)] show ?thesis by simp
next
  case (remove_deal p uuid r)
  from Store_RemoveDealForPiece_refines [OF ok wf remove_deal] show ?thesis
    using inv lid_inv_removePiece [OF inv, of p] lid_inv_md [OF inv, of p]
    by (simp add: Let_def split: option.splits if_splits)
next
  case (remove_metadata p r)
  from Store_RemovePieceMetadata_refines [OF ok wf remove_metadata] show ?thesis
    using inv wf lid_inv_removePiece [OF inv, of p] by (simp split: option.splits)
next
  case (remove_indexes p r)
  show ?thesis
  proof (cases "lidPieces (lid_of W view s) p")
    case None
    with Store_RemoveIndexes_refines [OF ok wf remove_indexes] inv wf show ?thesis by simp
  next
    case (Some md)
    have "lid_inv (removeIndex (Cursor md) p (lid_of W view s))"
      by (rule lid_inv_removeIndex [OF inv Some])
    from lid_inv_md [OF this, of p md "md\<lparr>IndexedAt := time_zero\<rparr>"] Some
      Store_RemoveIndexes_refines [OF ok wf remove_indexes]
    show ?thesis by simp
  qed
next
  case (flag now p huc a e)
  from Store_FlagPiece_refines [OF ok wf flag] inv show ?thesis
    by (simp add: lidFlagPiece_def Let_def lid_inv_def)
next
  case (unflag p a e)
  from Store_UnflagPiece_refines [OF ok wf unflag] inv show ?thesis
    by (simp add: lidUnflagPiece_def lid_inv_def)
qed

lemma start_lid:
  assumes ok: "world_ok W view listing" and v: "view s0 = Map.empty"
    and st: "Store_Start W (Inr s0) = Inr s"
  shows "wf_store W view s \<and> lid_of W view s =
    \<lparr>lidNext = Some 100, lidPieces = Map.empty, lidMhs = Map.empty, lidFlags = (\<lambda>a. Map.empty),
     lidRecs = (\<lambda>cur. Map.empty)\<rparr>"
proof -
  have wf: "wf_store W view s0" by (simp add: wf_store_def v)
  have L: "lid_of W view s0 = \<lparr>lidNext = None, lidPieces = Map.empty, lidMhs = Map.empty,
      lidFlags = (\<lambda>a. Map.empty), lidRecs = (\<lambda>cur. Map.empty)\<rparr>"
    by (simp add: lid_of_def tview_def v)
  from Store_Start_refines [OF ok wf] st L show ?thesis by auto
qed

lemma ldb_reachable_inv:
  assumes ok: "world_ok W view listing" and "ldb_reachable W view s"
  shows "wf_store W view s \<and> lid_inv (lid_of W view s)"
  using assms(2)
proof (induction rule: ldb_reachable.induct)
  case (start s0 s)
  from start_lid [OF ok start] show ?case by (simp add: lid_inv_def)
next
  case (step s s')
  then show ?case using ldb_step_inv [OF ok] by blast
qed

section \<open>A concrete run\<close>

definition demoBlock :: IndexedBlock where
  "demoBlock = \<lparr>Offset = 7, Size = 300, Cid = ''blk''\<rparr>"

definition demo0 :: "(string \<times> dsval) list" where
  "demo0 = snd (DB_InitCursor demoWorld [])"

definition demo1 :: "(string \<times> dsval) list" where
  "demo1 = snd (Store_AddIndex demoWorld demo0 5 ''p'' [demoBlock] True)"

lemma demo0_start: "Store_Start demoWorld (Inr []) = Inr demo0"
proof -
  obtain e s where i: "DB_InitCursor demoWorld [] = (e, s)" by fastforce
  from DB_InitCursor_lid [OF demo_ok demo_wf_empty i] i show ?thesis
    by (simp add: Store_Start_def demo0_def)
qed

lemma demo0_lid: "wf_store demoWorld map_of demo0 \<and> lid_of demoWorld map_of demo0 =
    \<lparr>lidNext = Some 100, lidPieces = Map.empty, lidMhs = Map.empty, lidFlags = (\<lambda>a. Map.empty),
     lidRecs = (\<lambda>cur. Map.empty)\<rparr>"
  by (rule start_lid [OF demo_ok _ demo0_start]) simp

lemma demo0_reachable: "ldb_reachable demoWorld map_of demo0"
  using demo0_start by (intro ldb_reachable.start [of _ "[]"]) simp_all

lemma demo1_step:
  "\<exists>sent. Store_AddIndex demoWorld demo0 5 ''p'' [demoBlock] True = (sent, demo1)"
  by (metis demo1_def prod.collapse)

lemma demo1_reachable: "ldb_reachable demoWorld map_of demo1"
proof -
  obtain sent where "Store_AddIndex demoWorld demo0 5 ''p'' [demoBlock] True = (sent, demo1)"
    using demo1_step by blast
  moreover have "lidNext (lid_of demoWorld map_of demo0) = Some 100" by (simp add: demo0_lid)
  ultimately have "ldb_step demoWorld map_of demo0 demo1"
    by (intro ldb_step.add_index [where n = 100]) simp_all
  then show ?thesis using demo0_reachable by (rule ldb_reachable.step [rotated])
qed

lemma demo1_wf: "wf_store demoWorld map_of demo1"
  using ldb_reachable_inv [OF demo_ok demo1_reachable] by blast

lemma demo1_lid:
  "lidNext (lid_of demoWorld map_of demo1) = Some 101"
  "lidPieces (lid_of demoWorld map_of demo1) ''p'' =
    Some \<lparr>Version = ''1'', IndexedAt = 5, CompleteIndex = False, Deals = [], Cursor = 100\<rparr>"
  "c \<noteq> ''p'' \<Longrightarrow> lidPieces (lid_of demoWorld map_of demo1) c = None"
  "lidRecs (lid_of demoWorld map_of demo1) 100 ''blk'' = Some \<lparr>Offset = 7, Size = 300\<rparr>"
  "lidMhs (lid_of demoWorld map_of demo1) ''blk'' = Some [''p'']"
proof -
  obtain sent where a: "Store_AddIndex demoWorld demo0 5 ''p'' [demoBlock] True = (sent, demo1)"
    using demo1_step by blast
  have L: "lid_of demoWorld map_of demo1 =
      lidAddIndex demoWorld 5 ''p'' [demoBlock] True 100 (lid_of demoWorld map_of demo0)"
    using Store_AddIndex_refines [OF demo_ok _ _ a, of 100] demo0_lid by simp
  have h: "cidHash demoWorld c = c" for c by (simp add: demoWorld_def)
  show "lidNext (lid_of demoWorld map_of demo1) = Some 101"
    "lidPieces (lid_of demoWorld map_of demo1) ''p'' =
      Some \<lparr>Version = ''1'', IndexedAt = 5, CompleteIndex = False, Deals = [], Cursor = 100\<rparr>"
    "c \<noteq> ''p'' \<Longrightarrow> lidPieces (lid_of demoWorld map_of demo1) c = None"
    "lidRecs (lid_of demoWorld map_of demo1) 100 ''blk'' = Some \<lparr>Offset = 7, Size = 300\<rparr>"
    "lidMhs (lid_of demoWorld map_of demo1) ''blk'' = Some [''p'']"
    unfolding L by (simp_all add: lidAddIndex_def indexMd_def newLeveldbMetadata_def demo0_lid
        demoBlock_def blockAt_def h pieceMetadataVersion_def addPiece_def)
qed

definition demoDeal :: DealInfo where
  "demoDeal = \<lparr>DealUuid = ''u'', IsLegacy = False, ChainDealID = 1, MinerAddr = ''m'', SectorID = 1,
    PieceOffset = 0, PieceLength = 0, CarLength = 0, IsDirectDeal = False\<rparr>"

definition demo2 :: "(string \<times> dsval) list" where
  "demo2 = snd (Store_AddDealForPiece demoWorld demo1 ''p'' demoDeal)"

lemma demo2_lid:
  "wf_store demoWorld map_of demo2"
  "lidPieces (lid_of demoWorld map_of demo2) = [''p'' \<mapsto>
    \<lparr>Version = ''1'', IndexedAt = 5, CompleteIndex = False, Deals = [demoDeal], Cursor = 100\<rparr>]"
  "lidRecs (lid_of demoWorld map_of demo2) 100 ''blk'' = Some \<lparr>Offset = 7, Size = 300\<rparr>"
  "lidMhs (lid_of demoWorld map_of demo2) ''blk'' = Some [''p'']"
proof -
  obtain e where a: "Store_AddDealForPiece demoWorld demo1 ''p'' demoDeal = (e, demo2)"
    by (metis demo2_def prod.collapse)
  from Store_AddDealForPiece_refines [OF demo_ok demo1_wf a]
  show "wf_store demoWorld map_of demo2"
    "lidPieces (lid_of demoWorld map_of demo2) = [''p'' \<mapsto>
      \<lparr>Version = ''1'', IndexedAt = 5, CompleteIndex = False, Deals = [demoDeal], Cursor = 100\<rparr>]"
    "lidRecs (lid_of demoWorld map_of demo2) 100 ''blk'' = Some \<lparr>Offset = 7, Size = 300\<rparr>"
    "lidMhs (lid_of demoWorld map_of demo2) ''blk'' = Some [''p'']"
    by (auto simp: lidAddDeal_def demo1_lid)
qed

section \<open>Properties\<close>

text \<open>
  C1: After any sequence of calls in which deals are added to indexed pieces only, the tables of
  the LevelDB index are consistent: every entry is well formed, cursors are allocated below the next
  cursor and never shared, and multihash lists and records agree.
\<close>

theorem ldb_reachable_consistent:
  assumes "world_ok W view listing" and "ldb_reachable W view s"
  shows "wf_store W view s \<and> lid_inv (lid_of W view s)"
  using assms by (rule ldb_reachable_inv)

theorem ldb_reachable_consistent_witness:
  "wf_store demoWorld map_of demo1 \<and> lid_inv (lid_of demoWorld map_of demo1)"
  by (rule ldb_reachable_consistent [OF demo_ok demo1_reachable])

text \<open>
  Retrieval is coherent: a multihash query returns a piece exactly when the block's offset and
  size can be looked up in that piece.
\<close>

theorem ldb_lookup_coherent:
  assumes "world_ok W view listing" and "ldb_reachable W view s"
  shows "(\<exists>cs. Store_PiecesContainingMultihash W s m = Inr cs \<and> p \<in> set cs) \<longleftrightarrow>
    (\<exists>os. Store_GetOffsetSize W s p m = Ret os)"
proof -
  from ldb_reachable_inv [OF assms] have wf: "wf_store W view s" and inv: "lid_inv (lid_of W view s)"
    by auto
  have "(\<exists>os. Store_GetOffsetSize W s p m = Ret os) \<longleftrightarrow>
      (\<exists>md. lidPieces (lid_of W view s) p = Some md \<and> lidRecs (lid_of W view s) (Cursor md) m \<noteq> None)"
    by (simp add: GetOffsetSize_lid [OF assms(1) wf] split: option.split)
  moreover have "(\<exists>cs. Store_PiecesContainingMultihash W s m = Inr cs \<and> p \<in> set cs) \<longleftrightarrow>
      (\<exists>cs. lidMhs (lid_of W view s) m = Some cs \<and> p \<in> set cs)"
    by (simp add: PiecesContaining_lid [OF assms(1) wf] split: option.split)
  ultimately show ?thesis using lid_invD(4) [OF inv, of m p] by simp
qed

theorem ldb_lookup_coherent_witness:
  "\<exists>cs. Store_PiecesContainingMultihash demoWorld demo1 ''blk'' = Inr cs \<and> ''p'' \<in> set cs"
proof -
  have "Store_GetOffsetSize demoWorld demo1 ''p'' ''blk'' = Ret \<lparr>Offset = 7, Size = 300\<rparr>"
    by (simp add: GetOffsetSize_lid [OF demo_ok demo1_wf] demo1_lid)
  then show ?thesis
    using ldb_lookup_coherent [OF demo_ok demo1_reachable, of "''blk''" "''p''"] by blast
qed

lemma fold_recs_last:
  assumes "\<forall>x\<in>set rs2. f x \<noteq> f r"
  shows "fold (\<lambda>r t. t(f r \<mapsto> g r)) (rs1 @ r # rs2) t (f r) = Some (g r)"
proof -
  have "fold (\<lambda>r t. t(f r \<mapsto> g r)) rs2 t (f r) = t (f r)" for t
    using assms by (induction rs2 arbitrary: t) auto
  then show ?thesis by simp
qed

text \<open>
  C10: \<open>AddIndex\<close> makes every block findable: it reports the progress steps up to 1, and afterwards
  the offset and size of the last record given for a multihash are what \<open>GetOffsetSize\<close> returns, the
  piece is listed for the multihash, and its index time is the time of the call. The completeness of
  the index is not kept: whatever \<open>isCompleteIndex\<close> was, the stored piece reads as incomplete.
\<close>

theorem ldb_add_index_lookup:
  assumes ok: "world_ok W view listing" and wf: "wf_store W view s"
    and n: "lidNext (lid_of W view s) = Some n"
    and a: "Store_AddIndex W s now p (rs1 @ r # rs2) full = (sent, s')"
    and last: "\<forall>x\<in>set rs2. cidHash W (Cid x) \<noteq> cidHash W (Cid r)"
  shows "map Progress sent = [45/100, 9/10, 95/100, 1] \<and> (\<forall>x\<in>set sent. Err x = []) \<and>
    Store_GetOffsetSize W s' p (cidHash W (Cid r)) = Ret (blockAt r) \<and>
    (\<exists>cs. Store_PiecesContainingMultihash W s' (cidHash W (Cid r)) = Inr cs \<and> p \<in> set cs) \<and>
    Store_IndexedAt W s' p = Inr now \<and> Store_IsCompleteIndex W s' p = Inr False"
proof -
  let ?h = "cidHash W (Cid r)"
  from Store_AddIndex_refines [OF ok wf n a] have s': "sent = map sendProgress [45/100, 9/10, 95/100, 1]"
    "wf_store W view s'" and L: "lid_of W view s' = lidAddIndex W now p (rs1 @ r # rs2) full n (lid_of W view s)"
    by auto
  let ?md = "indexMd (lid_of W view s) p full n"
  have md: "lidPieces (lid_of W view s') p = Some (jsonMd (?md\<lparr>IndexedAt := now\<rparr>))"
    by (simp add: L lidAddIndex_def Let_def)
  have rec: "lidRecs (lid_of W view s') (Cursor ?md) ?h = Some (blockAt r)"
    using fold_recs_last [of rs2 "\<lambda>r. cidHash W (Cid r)" r blockAt rs1 "lidRecs (lid_of W view s) (Cursor ?md)"]
      last by (simp add: L lidAddIndex_def Let_def del: fold_append fold.simps)
  have mh: "lidMhs (lid_of W view s') ?h = Some (addPiece p (lidMhs (lid_of W view s) ?h))"
    by (simp add: L lidAddIndex_def Let_def)
  have "Store_GetOffsetSize W s' p ?h = Ret (blockAt r)"
    by (simp add: GetOffsetSize_lid [OF ok s'(2)] md rec)
  moreover have "\<exists>cs. Store_PiecesContainingMultihash W s' ?h = Inr cs \<and> p \<in> set cs"
    by (simp add: PiecesContaining_lid [OF ok s'(2)] mh addPiece_set)
  moreover have "Store_IndexedAt W s' p = Inr now"
    by (simp add: Store_IndexedAt_def DB_GetPieceCidToMetadata_lid [OF ok s'(2)] md)
  moreover have "Store_IsCompleteIndex W s' p = Inr False"
    by (simp add: Store_IsCompleteIndex_def DB_GetPieceCidToMetadata_lid [OF ok s'(2)] md)
  ultimately show ?thesis by (simp add: s'(1) sendProgress_def)
qed

theorem ldb_add_index_lookup_witness:
  "Store_GetOffsetSize demoWorld demo1 ''p'' ''blk'' = Ret \<lparr>Offset = 7, Size = 300\<rparr> \<and>
    Store_IsCompleteIndex demoWorld demo1 ''p'' = Inr False"
proof -
  obtain sent where a: "Store_AddIndex demoWorld demo0 5 ''p'' ([] @ demoBlock # []) True = (sent, demo1)"
    using demo1_step by auto
  from ldb_add_index_lookup [OF demo_ok _ _ a, of 100] demo0_lid
  show ?thesis by (simp add: demoBlock_def blockAt_def demoWorld_def)
qed

end
