(* ===== verification/LdbMore.thy ===== *)
theory LdbMore
  imports LdbProps
begin

text \<open>
  Further properties of the LevelDB store: reading a whole index back, removal, the isolation of
  pieces from each other and where it ends, deals, flags and the doctor's scan.
\<close>

section \<open>Reading an index back\<close>

lemma fold_recs_map_of:
  "fold (\<lambda>r t. t(f r \<mapsto> g r)) rs t x = Some y \<Longrightarrow> distinct (map f rs) \<Longrightarrow>
    (t x = Some y \<and> x \<notin> f ` set rs) \<or> (\<exists>r\<in>set rs. f r = x \<and> g r = y)"
  by (induction rs arbitrary: t) (force split: if_splits)+

lemma fold_recs_in:
  "distinct (map f rs) \<Longrightarrow> r \<in> set rs \<Longrightarrow> fold (\<lambda>r t. t(f r \<mapsto> g r)) rs t (f r) = Some (g r)"
proof -
  assume d: "distinct (map f rs)" and "r \<in> set rs"
  then obtain rs1 rs2 where rs: "rs = rs1 @ r # rs2" by (meson split_list)
  with d have "\<forall>x\<in>set rs2. f x \<noteq> f r" by (auto simp: rev_image_eqI)
  then show ?thesis unfolding rs by (rule fold_recs_last)
qed

text \<open>What a listing of the records holds, when the records were written into an empty cursor.\<close>

lemma listed_records:
  fixes h :: "IndexedBlock \<Rightarrow> 'm"
  assumes d: "distinct (map h records)" and ms: "distinct (map fst ms)"
    and mem: "\<forall>m b. (m, b) \<in> set ms \<longleftrightarrow> fold (\<lambda>r t. t(h r \<mapsto> blockAt r)) records Map.empty m = Some b"
  shows "set ms = (\<lambda>r. (h r, blockAt r)) ` set records \<and> length ms = length records"
proof -
  have set_ms: "set ms = (\<lambda>r. (h r, blockAt r)) ` set records"
  proof (intro set_eqI)
    fix x :: "'m \<times> OffsetSize"
    obtain m b where x: "x = (m, b)" by (cases x)
    have "(m, b) \<in> set ms \<longleftrightarrow> (\<exists>r\<in>set records. h r = m \<and> blockAt r = b)"
      using mem fold_recs_map_of [of h blockAt records Map.empty m b] d fold_recs_in [OF d] by fastforce
    then show "x \<in> set ms \<longleftrightarrow> x \<in> (\<lambda>r. (h r, blockAt r)) ` set records" unfolding x by auto
  qed
  have "length ms = card (set (map fst ms))" unfolding distinct_card [OF ms] by simp
  also have "set (map fst ms) = set (map h records)" by (simp add: set_ms image_image)
  also have "card (set (map h records)) = length records" unfolding distinct_card [OF d] by simp
  finally show ?thesis using set_ms by simp
qed

lemma GetIndex_after_add:
  assumes ok: "world_ok W view listing" and reach: "ldb_reachable W view s"
    and new: "lidPieces (lid_of W view s) p = None"
    and n: "lidNext (lid_of W view s) = Some n"
    and a: "Store_AddIndex W s now p records full = (sent, s')"
    and d: "distinct (map (\<lambda>r. cidHash W (Cid r)) records)"
  shows "\<exists>out. Store_GetIndex W s' p = Ret out \<and> length out = length records \<and>
    set out = (\<lambda>r. r\<lparr>Cid := cidNewV1Raw W (cidHash W (Cid r))\<rparr>) ` set records"
proof -
  let ?h = "\<lambda>r. cidHash W (Cid r)" and ?f = "\<lambda>(m, r). \<lparr>Offset = Offset r, Size = Size r, Cid = cidNewV1Raw W m\<rparr>"
  from ldb_reachable_inv [OF ok reach] have wf: "wf_store W view s" and inv: "lid_inv (lid_of W view s)"
    by auto
  from Store_AddIndex_refines [OF ok wf n a] have wf': "wf_store W view s'"
    and L: "lid_of W view s' = lidAddIndex W now p records full n (lid_of W view s)" by auto
  have cur: "Cursor (indexMd (lid_of W view s) p full n) = n" by (simp add: indexMd_def new)
  have none: "lidRecs (lid_of W view s) n = Map.empty"
    using lid_invD(1,3) [OF inv] n by (fastforce simp: fun_eq_iff)
  have recs: "lidRecs (lid_of W view s') n = fold (\<lambda>r t. t(?h r \<mapsto> blockAt r)) records Map.empty"
    by (simp add: L lidAddIndex_def Let_def cur none)
  have md: "\<exists>md. lidPieces (lid_of W view s') p = Some md \<and> Cursor md = n"
    by (simp add: L lidAddIndex_def Let_def cur)
  obtain ms where ms: "DB_AllRecords W s' n = Ret (map ?f ms)" "distinct (map fst ms)"
    "\<forall>m r. (m, r) \<in> set ms \<longleftrightarrow> lidRecs (lid_of W view s') n m = Some r"
    using DB_AllRecords_lid [OF ok wf', of n] by auto
  from listed_records [OF d ms(2)] ms(3) recs have
    set_ms: "set ms = (\<lambda>r. (?h r, blockAt r)) ` set records" and len: "length ms = length records" by simp_all
  have "?f ` set ms = (\<lambda>r. r\<lparr>Cid := cidNewV1Raw W (?h r)\<rparr>) ` set records"
    unfolding set_ms image_image by (rule image_cong) (simp_all add: blockAt_def)
  then have "set (map ?f ms) = (\<lambda>r. r\<lparr>Cid := cidNewV1Raw W (?h r)\<rparr>) ` set records" by simp
  moreover have "Store_GetIndex W s' p = Ret (map ?f ms)"
    using md ms(1) by (auto simp: Store_GetIndex_def DB_GetPieceCidToMetadata_lid [OF ok wf'])
  ultimately show ?thesis using len by (intro exI [of _ "map ?f ms"]) simp
qed

text \<open>
  The index of a newly indexed piece reads back whole: \<open>GetIndex\<close> returns one record per block,
  with the block's multihash as a raw CID and its offset and size, and nothing else.
\<close>

theorem ldb_get_index_after_add:
  assumes "world_ok W view listing" and "ldb_reachable W view s"
    and "lidPieces (lid_of W view s) p = None"
    and "lidNext (lid_of W view s) = Some n"
    and "Store_AddIndex W s now p records full = (sent, s')"
    and "distinct (map (\<lambda>r. cidHash W (Cid r)) records)"
  shows "\<exists>out. Store_GetIndex W s' p = Ret out \<and> length out = length records \<and>
    set out = (\<lambda>r. r\<lparr>Cid := cidNewV1Raw W (cidHash W (Cid r))\<rparr>) ` set records"
  using assms by (rule GetIndex_after_add)

theorem ldb_get_index_after_add_witness:
  "\<exists>out. Store_GetIndex demoWorld demo1 ''p'' = Ret out \<and> length out = 1"
proof -
  obtain sent where a: "Store_AddIndex demoWorld demo0 5 ''p'' [demoBlock] True = (sent, demo1)"
    using demo1_step by auto
  from ldb_get_index_after_add [OF demo_ok demo0_reachable _ _ a, of 100] show ?thesis
    by (auto simp: demo0_lid)
qed

section \<open>Isolation\<close>

lemma AllRecords_empty:
  assumes ok: "world_ok W view listing" and wf: "wf_store W view s"
    and none: "lidRecs (lid_of W view s) cur = Map.empty"
  shows "DB_AllRecords W s cur = Ret []"
proof -
  let ?f = "\<lambda>(m, r). \<lparr>Offset = Offset r, Size = Size r, Cid = cidNewV1Raw W m\<rparr>"
  obtain ms where ms: "DB_AllRecords W s cur = Ret (map ?f ms)"
      "\<forall>m r. (m, r) \<in> set ms \<longleftrightarrow> lidRecs (lid_of W view s) cur m = Some r"
    using DB_AllRecords_lid [OF ok wf, of cur] by auto
  from ms(2) none have "ms = []" by (cases ms) fastforce+
  with ms(1) show ?thesis by simp
qed

text \<open>
  C3: In a state where deals were added to indexed pieces only, removing the metadata of a known piece
  removes the piece and nothing else: afterwards it has no metadata, no record is left under its cursor
  and no multihash lists it, while all other records, the block lookups, the multihash listings and the
  metadata of every other piece are as before. Without the proviso pieces share cursor 0, and a removal
  deletes the records of them all (\<open>ldb_deal_before_index_shares_cursor\<close>).
\<close>

theorem ldb_remove_piece:
  assumes ok: "world_ok W view listing" and reach: "ldb_reachable W view s"
    and r: "Store_RemovePieceMetadata W s p = (x, s')" and known: "Store_GetPieceMetadata W s p = Inr md0"
  shows "x = Ret () \<and> (\<exists>err. Store_GetPieceMetadata W s' p = Inl err \<and> IsNotFound (Some err)) \<and>
    (let cur = Cursor (fst (DB_GetPieceCidToMetadata W s p)) in DB_AllRecords W s' cur = Ret [] \<and>
       lidRecs (lid_of W view s') = (lidRecs (lid_of W view s))(cur := Map.empty)) \<and>
    (\<forall>m cs. Store_PiecesContainingMultihash W s' m = Inr cs \<longrightarrow> p \<notin> set cs) \<and>
    (\<forall>q m. q \<noteq> p \<longrightarrow> Store_GetOffsetSize W s' q m = Store_GetOffsetSize W s q m \<and>
       Store_GetPieceMetadata W s' q = Store_GetPieceMetadata W s q \<and>
       ((\<exists>cs. Store_PiecesContainingMultihash W s' m = Inr cs \<and> q \<in> set cs) \<longleftrightarrow>
        (\<exists>cs. Store_PiecesContainingMultihash W s m = Inr cs \<and> q \<in> set cs)))"
proof -
  from ldb_reachable_inv [OF ok reach] have wf: "wf_store W view s" and inv: "lid_inv (lid_of W view s)"
    by auto
  from known obtain md where md: "lidPieces (lid_of W view s) p = Some md"
    by (auto simp: GetPieceMetadata_lid [OF ok wf] split: option.splits)
  from Store_RemovePieceMetadata_refines [OF ok wf r] md have x: "x = Ret ()"
    and wf': "wf_store W view s'" and L: "lid_of W view s' = lidRemovePiece p md (lid_of W view s)"
    by simp_all
  have pieces: "lidPieces (lid_of W view s') = (lidPieces (lid_of W view s))(p := None)"
    and recs: "lidRecs (lid_of W view s') = (lidRecs (lid_of W view s))(Cursor md := Map.empty)"
    by (simp_all add: L lidRemovePiece_def)
  have mem: "(\<exists>cs. lidMhs (lid_of W view s') m = Some cs \<and> q \<in> set cs) \<longleftrightarrow>
      q \<noteq> p \<and> (\<exists>cs. lidMhs (lid_of W view s) m = Some cs \<and> q \<in> set cs)" for q m
    using removeIndex_mem [OF inv md, of m q] by (simp add: L lidRemovePiece_def)
  have pc: "(\<exists>cs. Store_PiecesContainingMultihash W t m = Inr cs \<and> q \<in> set cs) \<longleftrightarrow>
      (\<exists>cs. lidMhs (lid_of W view t) m = Some cs \<and> q \<in> set cs)" if "wf_store W view t" for t m q
    by (simp add: PiecesContaining_lid [OF ok that] split: option.split)
  have cur: "Cursor m2 \<noteq> Cursor md" if "lidPieces (lid_of W view s) q = Some m2" "q \<noteq> p" for q m2
    using lid_invD(2) [OF inv that(1) md] that(2) by blast
  have "\<exists>err. Store_GetPieceMetadata W s' p = Inl err \<and> IsNotFound (Some err)"
    using IsNotFound_wrapped by (simp add: GetPieceMetadata_lid [OF ok wf'] pieces del: IsNotFound.simps)
  moreover have "p \<notin> set cs" if "Store_PiecesContainingMultihash W s' m = Inr cs" for m cs
    using that pc [OF wf', of m p] mem [of m p] by blast
  moreover have "Store_GetOffsetSize W s' q m = Store_GetOffsetSize W s q m \<and>
      Store_GetPieceMetadata W s' q = Store_GetPieceMetadata W s q" if "q \<noteq> p" for q m
    using that cur [of q] by (simp add: GetOffsetSize_lid [OF ok wf] GetOffsetSize_lid [OF ok wf']
        GetPieceMetadata_lid [OF ok wf] GetPieceMetadata_lid [OF ok wf'] pieces recs split: option.split)
  moreover have "fst (DB_GetPieceCidToMetadata W s p) = md"
    by (simp add: DB_GetPieceCidToMetadata_lid [OF ok wf] md)
  moreover have "DB_AllRecords W s' (Cursor md) = Ret []"
    by (rule AllRecords_empty [OF ok wf']) (simp add: recs)
  ultimately show ?thesis using x pc [OF wf'] pc [OF wf] mem recs by simp
qed

theorem ldb_remove_piece_witness:
  "(\<exists>err. Store_GetPieceMetadata demoWorld
      (snd (Store_RemovePieceMetadata demoWorld demo1 ''p'')) ''p'' = Inl err \<and> IsNotFound (Some err)) \<and>
    DB_AllRecords demoWorld (snd (Store_RemovePieceMetadata demoWorld demo1 ''p'')) 100 = Ret []"
proof -
  obtain x s' where r: "Store_RemovePieceMetadata demoWorld demo1 ''p'' = (x, s')" by fastforce
  have "\<exists>md. Store_GetPieceMetadata demoWorld demo1 ''p'' = Inr md"
    by (simp add: GetPieceMetadata_lid [OF demo_ok demo1_wf] demo1_lid)
  then obtain md where "Store_GetPieceMetadata demoWorld demo1 ''p'' = Inr md" by blast
  from ldb_remove_piece [OF demo_ok demo1_reachable r this] r show ?thesis
    by (simp add: DB_GetPieceCidToMetadata_lid [OF demo_ok demo1_wf] demo1_lid)
qed

text \<open>
  The proviso of the consistency property is needed. \<open>AddDealForPiece\<close> creates metadata with
  cursor 0 for an unknown piece, and \<open>AddIndex\<close> then indexes under that cursor without taking a new
  one: two such pieces share their records, and a block of the first is returned for the second,
  whose own index is empty.
\<close>

theorem ldb_deal_before_index_shares_cursor:
  assumes ok: "world_ok W view listing" and wf: "wf_store W view s"
    and new: "lidPieces (lid_of W view s) p = None" "lidPieces (lid_of W view s) q = None" "p \<noteq> q"
    and n: "lidNext (lid_of W view s) = Some n"
    and calls: "Store_AddDealForPiece W s p d1 = (e1, s1)" "Store_AddDealForPiece W s1 q d2 = (e2, s2)"
      "Store_AddIndex W s2 t1 p [r] full = (o1, s3)" "Store_AddIndex W s3 t2 q [] full = (o2, s4)"
  shows "Store_GetOffsetSize W s4 q (cidHash W (Cid r)) = Ret (blockAt r)"
proof -
  from Store_AddDealForPiece_refines [OF ok wf calls(1)] have wf1: "wf_store W view s1"
    and L1: "lid_of W view s1 = lidAddDeal p d1 (lid_of W view s)" by auto
  from Store_AddDealForPiece_refines [OF ok wf1 calls(2)] have wf2: "wf_store W view s2"
    and L2: "lid_of W view s2 = lidAddDeal q d2 (lid_of W view s1)" by auto
  have n2: "lidNext (lid_of W view s2) = Some n"
    and p2: "\<exists>md. lidPieces (lid_of W view s2) p = Some md \<and> Cursor md = 0"
    and q2: "\<exists>md. lidPieces (lid_of W view s2) q = Some md \<and> Cursor md = 0"
    using new n by (auto simp: L2 L1 lidAddDeal_def Let_def newLeveldbMetadata_def)
  from Store_AddIndex_refines [OF ok wf2 n2 calls(3)] have wf3: "wf_store W view s3"
    and L3: "lid_of W view s3 = lidAddIndex W t1 p [r] full n (lid_of W view s2)" by auto
  have n3: "lidNext (lid_of W view s3) = Some n"
    and q3: "\<exists>md. lidPieces (lid_of W view s3) q = Some md \<and> Cursor md = 0"
    and r3: "lidRecs (lid_of W view s3) 0 (cidHash W (Cid r)) = Some (blockAt r)"
    using p2 q2 new(3) by (auto simp: L3 lidAddIndex_def Let_def indexMd_def)
  from Store_AddIndex_refines [OF ok wf3 n3 calls(4)] have wf4: "wf_store W view s4"
    and L4: "lid_of W view s4 = lidAddIndex W t2 q [] full n (lid_of W view s3)" by auto
  have "\<exists>md. lidPieces (lid_of W view s4) q = Some md \<and> Cursor md = 0"
    and "lidRecs (lid_of W view s4) 0 (cidHash W (Cid r)) = Some (blockAt r)"
    using q3 r3 by (auto simp: L4 lidAddIndex_def Let_def indexMd_def)
  then show ?thesis by (auto simp: GetOffsetSize_lid [OF ok wf4])
qed

theorem ldb_deal_before_index_shares_cursor_witness:
  "\<exists>s4. Store_GetOffsetSize demoWorld s4 ''q'' ''blk'' = Ret \<lparr>Offset = 7, Size = 300\<rparr>"
proof -
  let ?d = "\<lparr>DealUuid = ''u'', IsLegacy = False, ChainDealID = 1, MinerAddr = ''m'', SectorID = 1,
    PieceOffset = 0, PieceLength = 0, CarLength = 0, IsDirectDeal = False\<rparr>"
  obtain e1 s1 where 1: "Store_AddDealForPiece demoWorld demo0 ''p'' ?d = (e1, s1)" by fastforce
  obtain e2 s2 where 2: "Store_AddDealForPiece demoWorld s1 ''q'' ?d = (e2, s2)" by fastforce
  obtain o1 s3 where 3: "Store_AddIndex demoWorld s2 5 ''p'' [demoBlock] True = (o1, s3)" by fastforce
  obtain o2 s4 where 4: "Store_AddIndex demoWorld s3 5 ''q'' [] True = (o2, s4)" by fastforce
  have "Store_GetOffsetSize demoWorld s4 ''q'' (cidHash demoWorld (Cid demoBlock)) = Ret (blockAt demoBlock)"
    by (rule ldb_deal_before_index_shares_cursor [OF demo_ok _ _ _ _ _ 1 2 3 4, of 100])
      (simp_all add: demo0_lid)
  then have "Store_GetOffsetSize demoWorld s4 ''q'' ''blk'' = Ret \<lparr>Offset = 7, Size = 300\<rparr>"
    by (simp add: demoBlock_def blockAt_def demoWorld_def)
  then show ?thesis by blast
qed

end
