(* ===== verification/LdbDoctor.thy ===== *)
theory LdbDoctor
  imports LdbProps "HOL-Library.Multiset"
begin

text \<open>
  Properties of the LevelDB store that the piece doctor and its users rely on: which pieces a scan
  returns and that a sequence of scans reaches every piece, the flagged-piece listing and count,
  and the removal of a single deal.
\<close>

section \<open>The scan\<close>

lemma GetPieceDeals_lid:
  assumes ok: "world_ok W view listing" and wf: "wf_store W view s"
  shows "Store_GetPieceDeals W s p =
    (case lidPieces (lid_of W view s) p of
       None \<Rightarrow> Inl (errorf_w (''getting piece deals for piece '' @ cidString W p @ '': '')
         (errorf_s (''piece '' @ cidString W p @ '': '') typesErrNotFound))
     | Some md \<Rightarrow> Inr (Deals md))"
  by (simp add: Store_GetPieceDeals_def DB_GetPieceCidToMetadata_lid [OF ok wf] split: option.split)

lemma filter_due_mem:
  "c \<in> set (map fst (filter (due W checked a now) pg)) \<longleftrightarrow>
    (\<exists>md. (c, md) \<in> set pg \<and> \<not> alreadyChecked checked (addrString W a @ cidString W c) now \<and>
      hasDealWith a (Deals md))"
  by (auto simp: due_def simp del: hasDealWith_iff split: prod.splits) (force simp del: hasDealWith_iff)

text \<open>
  \<open>NextPiecesToCheck\<close> returns each piece at most once, only pieces that have a deal with the
  miner and were not returned in the last five minutes, and remembers the time of the call for
  each; a call less than five minutes later returns none of them again.
\<close>

theorem ldb_next_pieces_to_check:
  assumes ok: "world_ok W view listing" and wf: "wf_store W view s"
    and r: "Store_NextPiecesToCheck W s ck now a = (res, ck')"
    and r2: "Store_NextPiecesToCheck W s ck' now2 a = (res2, ck2)" and soon: "now2 < now + 5 * minute"
  shows "\<exists>cs cs2. res = Inr cs \<and> distinct cs \<and> res2 = Inr cs2 \<and> set cs \<inter> set cs2 = {} \<and>
    (\<forall>c\<in>set cs. (\<exists>deals dl. Store_GetPieceDeals W s c = Inr deals \<and> dl \<in> set deals \<and> MinerAddr dl = a) \<and>
       \<not> alreadyChecked (ckChecked ck) (addrString W a @ cidString W c) now \<and>
       map_of (ckChecked ck') (addrString W a @ cidString W c) = Some now)"
proof -
  obtain ps where ps: "piecesIn W view listing s ps" using piecesIn_ex [OF ok wf] by blast
  let ?pg = "take PiecesToTrackerBatchSize (drop (ckOffset ck) ps)"
  let ?cs = "map fst (filter (due W (ckChecked ck) a now) ?pg)"
  let ?cs2 = "map fst (filter (due W (ckChecked ck') a now2)
    (take PiecesToTrackerBatchSize (drop (ckOffset ck') ps)))"
  from DB_NextPiecesToCheck_lid [OF ok wf ps, of ck now a] r
  have res: "res = Inr ?cs" and chk: "ckChecked ck' = markChecked W a now ?cs (ckChecked ck)"
    by (auto simp: Store_NextPiecesToCheck_def)
  from DB_NextPiecesToCheck_lid [OF ok wf ps, of ck' now2 a] r2
  have res2: "res2 = Inr ?cs2" by (auto simp: Store_NextPiecesToCheck_def)
  have dist: "distinct ?cs"
    using ps by (intro distinct_map_filter)
      (simp add: piecesIn_def take_map [symmetric] drop_map [symmetric])
  have mark: "map_of (ckChecked ck') (addrString W a @ cidString W c) = Some now" if "c \<in> set ?cs" for c
  proof -
    have "\<exists>d\<in>set ?cs. addrString W a @ cidString W c = addrString W a @ cidString W d"
      using that by blast
    then show ?thesis unfolding chk map_of_markChecked by (rule if_P)
  qed
  have disj: "set ?cs \<inter> set ?cs2 = {}"
  proof (rule ccontr)
    assume "set ?cs \<inter> set ?cs2 \<noteq> {}"
    then obtain c where c: "c \<in> set ?cs" "c \<in> set ?cs2" by blast
    from c(2) have "\<not> alreadyChecked (ckChecked ck') (addrString W a @ cidString W c) now2"
      unfolding filter_due_mem by blast
    with mark [OF c(1)] soon show False
      by (simp add: alreadyChecked_def MinPieceCheckPeriod_def)
  qed
  have deal: "(\<exists>deals dl. Store_GetPieceDeals W s c = Inr deals \<and> dl \<in> set deals \<and> MinerAddr dl = a) \<and>
      \<not> alreadyChecked (ckChecked ck) (addrString W a @ cidString W c) now" if "c \<in> set ?cs" for c
  proof -
    from that obtain md where md: "(c, md) \<in> set ?pg" "hasDealWith a (Deals md)"
      "\<not> alreadyChecked (ckChecked ck) (addrString W a @ cidString W c) now"
      unfolding filter_due_mem by blast
    from md(1) have "(c, md) \<in> set ps" by (meson in_set_dropD in_set_takeD)
    with ps have "lidPieces (lid_of W view s) c = Some md" by (simp add: piecesIn_def)
    with md(2,3) show ?thesis by (auto simp: GetPieceDeals_lid [OF ok wf])
  qed
  show ?thesis
  proof (rule exI [of _ ?cs], rule exI [of _ ?cs2], intro conjI ballI)
    show "res = Inr ?cs" "distinct ?cs" "res2 = Inr ?cs2" "set ?cs \<inter> set ?cs2 = {}"
      by (fact res dist res2 disj)+
    fix c
    assume c: "c \<in> set ?cs"
    then show "map_of (ckChecked ck') (addrString W a @ cidString W c) = Some now" by (rule mark)
    show "\<not> alreadyChecked (ckChecked ck) (addrString W a @ cidString W c) now"
      using deal [OF c] by blast
    from deal [OF c] obtain deals dl
      where "Store_GetPieceDeals W s c = Inr deals" "dl \<in> set deals" "MinerAddr dl = a" by blast
    then show "\<exists>deals dl. Store_GetPieceDeals W s c = Inr deals \<and> dl \<in> set deals \<and> MinerAddr dl = a"
      by blast
  qed
qed

theorem ldb_next_pieces_to_check_witness:
  "\<exists>cs. fst (Store_NextPiecesToCheck demoWorld demo1 initChecker 0 ''m'') = Inr cs \<and> distinct cs"
proof -
  obtain res ck' where r: "Store_NextPiecesToCheck demoWorld demo1 initChecker 0 ''m'' = (res, ck')"
    by fastforce
  obtain res2 ck2 where r2: "Store_NextPiecesToCheck demoWorld demo1 ck' 7 ''m'' = (res2, ck2)"
    by fastforce
  have "(7 :: int) < 0 + 5 * minute" by (simp add: minute_def)
  from ldb_next_pieces_to_check [OF demo_ok demo1_wf r r2 this] obtain cs
    where "res = Inr cs" "distinct cs" by blast
  with r show ?thesis by simp
qed

text \<open>A sequence of scans at the given times, stopping at an error.\<close>

fun scanCalls ::
  "'s world \<Rightarrow> 's \<Rightarrow> address \<Rightarrow> checker \<Rightarrow> time list \<Rightarrow> cid list" where
  "scanCalls W s a ck [] = []"
| "scanCalls W s a ck (t # ts) =
     (case Store_NextPiecesToCheck W s ck t a of
        (Inl err, ck') \<Rightarrow> []
      | (Inr cs, ck') \<Rightarrow> cs @ scanCalls W s a ck' ts)"

lemma scanCalls_cover:
  assumes ok: "world_ok W view listing" and wf: "wf_store W view s"
    and ps: "piecesIn W view listing s ps"
    and "length ps \<le> ckOffset ck + PiecesToTrackerBatchSize * length ts"
    and "\<forall>c\<in>set (map fst (drop (ckOffset ck) ps)).
      map_of (ckChecked ck) (addrString W a @ cidString W c) = None"
    and "(c, md) \<in> set (drop (ckOffset ck) ps)" and "hasDealWith a (Deals md)"
  shows "c \<in> set (scanCalls W s a ck ts)"
  using assms(4-7)
proof (induction ts arbitrary: ck)
  case Nil
  then show ?case by simp
next
  case (Cons t ts)
  let ?B = PiecesToTrackerBatchSize
  let ?rest = "drop (ckOffset ck) ps"
  let ?pg = "take ?B ?rest"
  let ?cs = "map fst (filter (due W (ckChecked ck) a t) ?pg)"
  define ck' where "ck' = \<lparr>ckOffset = (if length ?pg < ?B - 1 then 0 else ckOffset ck + length ?pg),
    ckChecked = markChecked W a t ?cs (ckChecked ck)\<rparr>"
  have call: "Store_NextPiecesToCheck W s ck t a = (Inr ?cs, ck')"
    unfolding Store_NextPiecesToCheck_def ck'_def by (rule DB_NextPiecesToCheck_lid [OF ok wf ps])
  have ofs: "ckOffset ck' = (if length ?pg < ?B - 1 then 0 else ckOffset ck + length ?pg)"
    and chk: "ckChecked ck' = markChecked W a t ?cs (ckChecked ck)"
    by (simp_all add: ck'_def)
  have nm: "names_ok W" by (rule ok_names [OF ok])
  show ?case
  proof (cases "(c, md) \<in> set ?pg")
    case True
    moreover have "\<not> alreadyChecked (ckChecked ck) (addrString W a @ cidString W c) t"
      using Cons.prems(2,3) by (force simp: alreadyChecked_def)
    ultimately have "c \<in> set ?cs" unfolding filter_due_mem using Cons.prems(4) by blast
    then show ?thesis by (simp add: call)
  next
    case False
    with Cons.prems(3) have "?pg \<noteq> ?rest" by metis
    then have len: "length ?pg = ?B" by auto
    then have o': "ckOffset ck' = ckOffset ck + ?B"
      using ofs by (simp add: PiecesToTrackerBatchSize_def)
    have rest: "drop (ckOffset ck') ps = drop ?B ?rest" by (simp add: o' add.commute)
    have split: "?rest = ?pg @ drop ?B ?rest" by (rule append_take_drop_id [symmetric])
    have in_rest: "(c, md) \<in> set (drop (ckOffset ck') ps)"
    proof -
      have "(c, md) \<in> set ?pg \<or> (c, md) \<in> set (drop ?B ?rest)"
        using Cons.prems(3) split by (metis Un_iff set_append)
      with False show ?thesis unfolding rest by blast
    qed
    have "distinct (map fst ?rest)" using ps by (simp add: piecesIn_def drop_map [symmetric])
    then have "distinct (map fst ?pg @ map fst (drop ?B ?rest))"
      by (metis map_append split)
    then have disj: "set (map fst ?pg) \<inter> set (map fst (drop ?B ?rest)) = {}" by simp
    have fresh: "map_of (ckChecked ck') (addrString W a @ cidString W d) = None"
      if d: "d \<in> set (map fst (drop (ckOffset ck') ps))" for d
    proof -
      have "set ?cs \<subseteq> set (map fst ?pg)" by auto
      with disj d have "d \<notin> set ?cs" unfolding rest by blast
      moreover have "d \<in> set (map fst ?rest)" 
        using d set_drop_subset [of ?B ?rest] unfolding rest set_map by (auto simp del: drop_drop)
      ultimately show ?thesis
        using Cons.prems(2) nm unfolding chk map_of_markChecked by auto
    qed
    have "c \<in> set (scanCalls W s a ck' ts)"
      using Cons.prems(1) o' fresh in_rest Cons.prems(4)
      by (intro Cons.IH) (simp_all del: hasDealWith_iff)
    then show ?thesis by (simp add: call)
  qed
qed

lemma scan_reaches:
  assumes ok: "world_ok W view listing" and wf: "wf_store W view s"
    and all: "Store_ListPieces W s = Inr all" and enough: "length all \<le> 1024 * length ts"
    and p: "Store_GetPieceDeals W s c = Inr deals" "dl \<in> set deals" "MinerAddr dl = a"
  shows "c \<in> set (scanCalls W s a initChecker ts)"
proof -
  obtain ps where ps: "piecesIn W view listing s ps" using piecesIn_ex [OF ok wf] by blast
  from DB_ListPieces_lid [OF ok ps] all have "all = map fst ps" by (simp add: Store_ListPieces_def)
  with enough have len: "length ps \<le> ckOffset initChecker + PiecesToTrackerBatchSize * length ts"
    by (simp add: initChecker_def PiecesToTrackerBatchSize_def)
  from p(1) obtain md where md: "lidPieces (lid_of W view s) c = Some md" "deals = Deals md"
    by (auto simp: GetPieceDeals_lid [OF ok wf] split: option.splits)
  with ps have "(c, md) \<in> set (drop (ckOffset initChecker) ps)"
    by (simp add: piecesIn_def initChecker_def)
  moreover have "hasDealWith a (Deals md)" using p md(2) by auto
  ultimately show ?thesis
    using scanCalls_cover [OF ok wf ps len] by (simp add: initChecker_def)
qed

text \<open>
  C13: The scan reaches every piece: from a fresh checker, at the beginning of the table with nothing checked,
  and with one miner whose calls follow each other while the store does not change, as
  many calls as there are batches of 1024 in the table return every piece that has a deal with the
  miner, whatever the times of the calls. The position and the times of the checks are variables of the
  package: nothing is said for two miners in turn, or for a scan that is already under way.
\<close>

theorem ldb_scan_reaches_every_piece:
  assumes "world_ok W view listing" and "wf_store W view s"
    and "Store_ListPieces W s = Inr all" and "length all \<le> 1024 * length ts"
    and "Store_GetPieceDeals W s c = Inr deals" "dl \<in> set deals" "MinerAddr dl = a"
  shows "c \<in> set (scanCalls W s a initChecker ts)"
  using assms by (rule scan_reaches)

lemma distinct_singleton_list:
  assumes "set xs = {x}" and "distinct xs"
  shows "xs = [x]"
proof (cases xs)
  case (Cons y ys)
  with assms have "y = x" and "\<forall>z\<in>set ys. z = x" and "x \<notin> set ys" by auto
  then have "ys = []" by (cases ys) auto
  with Cons \<open>y = x\<close> show ?thesis by simp
qed (use assms in simp)

lemma demo2_list: "Store_ListPieces demoWorld demo2 = Inr [''p'']"
proof -
  obtain ps where ps: "piecesIn demoWorld map_of demoListing demo2 ps"
    using piecesIn_ex [OF demo_ok demo2_lid(1)] by blast
  have "set (map fst ps) = {''p''}"
    using dom_map_of_conv_image_fst [of ps] by (simp add: piecesIn_map_of [OF ps] demo2_lid(2))
  moreover have "distinct (map fst ps)" using ps by (simp add: piecesIn_def)
  ultimately have "map fst ps = [''p'']" by (rule distinct_singleton_list)
  with DB_ListPieces_lid [OF demo_ok ps] show ?thesis by (simp add: Store_ListPieces_def)
qed

lemma scanCalls_demo2:
  "''p'' \<in> set (scanCalls demoWorld demo2 ''m'' initChecker [0])"
  by (rule scan_reaches [OF demo_ok demo2_lid(1) demo2_list, of _ _ "[demoDeal]" demoDeal])
    (simp_all add: GetPieceDeals_lid [OF demo_ok demo2_lid(1)] demo2_lid(2) demoDeal_def)

theorem ldb_scan_reaches_every_piece_witness:
  "''p'' \<in> set (scanCalls demoWorld demo2 ''m'' initChecker [0])"
  by (rule ldb_scan_reaches_every_piece [OF demo_ok demo2_lid(1) demo2_list, of _ _ "[demoDeal]" demoDeal])
    (simp_all add: GetPieceDeals_lid [OF demo_ok demo2_lid(1)] demo2_lid(2) demoDeal_def)

section \<open>Flags\<close>

text \<open>
  The flagged-piece list holds exactly the flags that pass the filter and are not older than the
  cursor, sorted by creation time, and the count agrees with it. The page to return is cut off at the
  position of the doctor's scan (the package variable \<open>offset\<close>), not at the caller's offset, which
  is never read: here the scan is at the start of the table and no limit is given.
\<close>

theorem ldb_flagged_list:
  assumes ok: "world_ok W view listing" and wf: "wf_store W view s"
    and start: "ckOffset ck = 0" and limit: "limit \<le> 0"
  shows "\<exists>rows. Store_FlaggedPiecesList W s ck flt cursor ofs limit = Inr rows \<and>
    sorted (map fpCreatedAt rows) \<and>
    set rows = {flaggedRow ((a, c), fm) | a c fm. lidFlags (lid_of W view s) a c = Some fm \<and>
      flaggedMatch W flt cursor ((a, c), fm)} \<and>
    (cursor = None \<longrightarrow> Store_FlaggedPiecesCount W s flt = Inr (length rows))"
proof -
  obtain fs where fs: "flagsIn W view listing s fs" using flagsIn_ex [OF ok wf] by blast
  let ?rows = "sort_key fpCreatedAt (map flaggedRow (filter (flaggedMatch W flt cursor) fs))"
  have "Store_FlaggedPiecesList W s ck flt cursor ofs limit = Inr ?rows"
    unfolding Store_FlaggedPiecesList_def DB_ListFlaggedPieces_lid [OF ok fs] using start limit by simp
  moreover have "set ?rows = {flaggedRow ((a, c), fm) | a c fm. lidFlags (lid_of W view s) a c = Some fm \<and>
      flaggedMatch W flt cursor ((a, c), fm)}"
  proof -
    have "x \<in> set fs \<longleftrightarrow> (\<exists>a c fm. x = ((a, c), fm) \<and> lidFlags (lid_of W view s) a c = Some fm)" for x
      using fs by (cases x) (auto simp: flagsIn_def)
    then show ?thesis by auto
  qed
  moreover have "Store_FlaggedPiecesCount W s flt = Inr (length ?rows)" if "cursor = None"
  proof -
    have "flaggedMatch W flt None = (\<lambda>(ac, fm). \<not> filteredOut W flt fm)"
      by (auto simp: flaggedMatch_def)
    with that show ?thesis
      by (simp add: Store_FlaggedPiecesCount_def DB_FlaggedPiecesCount_lid [OF ok fs])
  qed
  ultimately show ?thesis by (intro exI [of _ ?rows]) simp
qed

theorem ldb_flagged_list_witness:
  "Store_FlaggedPiecesList demoWorld demo1 initChecker None None 3 0 = Inr []"
proof -
  have "lidFlags (lid_of demoWorld map_of demo1) = (\<lambda>a. Map.empty)"
  proof -
    obtain sent where a: "Store_AddIndex demoWorld demo0 5 ''p'' [demoBlock] True = (sent, demo1)"
      using demo1_step by blast
    show ?thesis using Store_AddIndex_refines [OF demo_ok _ _ a, of 100] demo0_lid
      by (simp add: lidAddIndex_def Let_def)
  qed
  then show ?thesis
    using ldb_flagged_list [OF demo_ok demo1_wf, of initChecker 0 None None 3]
    by (auto simp: initChecker_def)
qed

text \<open>
  Flagging is an upsert with a stable creation time: a piece flagged twice for a miner has one
  entry, created at the time of the first call and updated at the time of the second with its
  unsealed-copy bit; unflagging removes that entry and touches no other.
\<close>

theorem ldb_flag_twice_unflag:
  assumes ok: "world_ok W view listing" and wf: "wf_store W view s"
    and new: "lidFlags (lid_of W view s) a p = None"
    and f1: "Store_FlagPiece W s t1 p b1 a = (e1, s1)" and f2: "Store_FlagPiece W s1 t2 p b2 a = (e2, s2)"
    and u: "Store_UnflagPiece W s2 p a = (e3, s3)"
  shows "e1 = None \<and> e2 = None \<and> e3 = None \<and>
    lidFlags (lid_of W view s2) a p = Some \<lparr>fmCreatedAt = t1, fmUpdatedAt = t2, fmHasUnsealedCopy = b2,
      fmMinerAddr = a\<rparr> \<and>
    (\<forall>a' c. (a', c) \<noteq> (a, p) \<longrightarrow> lidFlags (lid_of W view s2) a' c = lidFlags (lid_of W view s) a' c) \<and>
    lid_of W view s3 = lid_of W view s"
proof -
  from Store_FlagPiece_refines [OF ok wf f1] have 1: "e1 = None" "wf_store W view s1"
    "lid_of W view s1 = lidFlagPiece t1 p b1 a (lid_of W view s)" by auto
  from Store_FlagPiece_refines [OF ok 1(2) f2] have 2: "e2 = None" "wf_store W view s2"
    "lid_of W view s2 = lidFlagPiece t2 p b2 a (lid_of W view s1)" by auto
  from Store_UnflagPiece_refines [OF ok 2(2) u] have 3: "e3 = None"
    "lid_of W view s3 = lidUnflagPiece p a (lid_of W view s2)" by auto
  have "(lidFlags (lid_of W view s))(a := (lidFlags (lid_of W view s) a)(p := None)) =
      lidFlags (lid_of W view s)" using new by (auto simp: fun_eq_iff)
  then show ?thesis
    using 1(1) 2(1) 3 new by (simp add: 2(3) 1(3) lidFlagPiece_def lidUnflagPiece_def Let_def)
qed

theorem ldb_flag_twice_unflag_witness:
  "\<exists>s2. lidFlags (lid_of demoWorld map_of s2) ''m'' ''p'' = Some \<lparr>fmCreatedAt = 3, fmUpdatedAt = 9,
    fmHasUnsealedCopy = True, fmMinerAddr = ''m''\<rparr>"
proof -
  obtain e1 s1 where 1: "Store_FlagPiece demoWorld demo0 3 ''p'' False ''m'' = (e1, s1)" by fastforce
  obtain e2 s2 where 2: "Store_FlagPiece demoWorld s1 9 ''p'' True ''m'' = (e2, s2)" by fastforce
  obtain e3 s3 where 3: "Store_UnflagPiece demoWorld s2 ''p'' ''m'' = (e3, s3)" by fastforce
  have "lidFlags (lid_of demoWorld map_of demo0) ''m'' ''p'' = None" by (simp add: demo0_lid)
  from ldb_flag_twice_unflag [OF demo_ok conjunct1 [OF demo0_lid] this 1 2 3] show ?thesis by blast
qed

section \<open>Deals\<close>

lemma removeDealLoop_mset:
  assumes "sorted_wrt (<) is" and "\<forall>i\<in>set is. i < length deals"
  shows "mset (removeDealLoop u is deals) = mset deals - mset (take 1 (filter (\<lambda>d. DealUuid d = u)
    (map ((!) deals) is)))"
  using assms
proof (induction "is")
  case (Cons i "is")
  show ?case
  proof (cases "DealUuid (deals ! i) = u")
    case True
    let ?n = "length deals - 1"
    have i: "i < length deals" using Cons.prems by simp
    then have "deals \<noteq> []" by auto
    have "mset (take ?n (deals[i := deals ! ?n])) = mset deals - {#deals ! i#}"
    proof -
      let ?ds = "deals[i := deals ! ?n]"
      have n: "length ?ds = Suc ?n" using \<open>deals \<noteq> []\<close> by simp
      then have "?ds = take (Suc ?n) ?ds" by simp
      also have "\<dots> = take ?n ?ds @ [?ds ! ?n]" using n by (intro take_Suc_conv_app_nth) simp
      also have "?ds ! ?n = deals ! ?n" using i by (cases "i = ?n") simp_all
      finally have "?ds = take ?n ?ds @ [deals ! ?n]" .
      then have "mset (deals[i := deals ! ?n]) = mset (take ?n (deals[i := deals ! ?n])) + {#deals ! ?n#}"
        by (metis mset.simps mset_append add_mset_add_single union_mset_add_mset_right)
      moreover have "mset (deals[i := deals ! ?n]) = add_mset (deals ! ?n) (mset deals - {#deals ! i#})"
        using i by (rule mset_update)
      ultimately show ?thesis by simp
    qed
    with True show ?thesis by simp
  next
    case False
    with Cons show ?thesis by simp
  qed
qed simp

text \<open>
  Removing a deal drops the first deal with the UUID and keeps all others (their order may
  change); a UUID that no deal has changes nothing.
\<close>

theorem removeDeal_multiset:
  "mset (removeDeal u deals) = mset deals - mset (take 1 (filter (\<lambda>d. DealUuid d = u) deals))"
proof -
  have "map ((!) deals) [0..<length deals] = deals" by (simp add: map_nth)
  then show ?thesis
    using removeDealLoop_mset [of "[0..<length deals]" deals u] by (simp add: removeDeal_def)
qed

end
