(* ===== verification/Service.thy ===== *)
theory Service
  imports Model
begin

text \<open>
  The interface of the local index directory (\<open>types.ServiceImpl\<close> behind \<open>bdclient.Store\<close>) as its
  clients in the piece directory call it: a record of operations over an opaque state, and the
  contract \<open>lid_service\<close> that the piece doctor relies on. The LevelDB store is an instance.
\<close>

record 's lidService =
  svcGetPieceMetadata :: "'s \<Rightarrow> cid \<Rightarrow> goerr + Metadata"
  svcGetPieceDeals :: "'s \<Rightarrow> cid \<Rightarrow> goerr + DealInfo list"
  svcIsIndexed :: "'s \<Rightarrow> cid \<Rightarrow> goerr + bool"
  svcIsCompleteIndex :: "'s \<Rightarrow> cid \<Rightarrow> goerr + bool"
  svcGetOffsetSize :: "'s \<Rightarrow> cid \<Rightarrow> multihash \<Rightarrow> OffsetSize outcome"
  svcPiecesContainingMultihash :: "'s \<Rightarrow> multihash \<Rightarrow> goerr + cid list"
  svcAddDealForPiece :: "'s \<Rightarrow> cid \<Rightarrow> DealInfo \<Rightarrow> goerr option \<times> 's"
  svcRemoveDealForPiece :: "'s \<Rightarrow> cid \<Rightarrow> string \<Rightarrow> unit outcome \<times> 's"
  svcFlagPiece :: "'s \<Rightarrow> time \<Rightarrow> cid \<Rightarrow> bool \<Rightarrow> address \<Rightarrow> goerr option \<times> 's"
  svcUnflagPiece :: "'s \<Rightarrow> cid \<Rightarrow> address \<Rightarrow> goerr option \<times> 's"
  svcUntrackPiece :: "'s \<Rightarrow> cid \<Rightarrow> address \<Rightarrow> goerr option \<times> 's"
  svcNextPiecesToCheck :: "'s \<Rightarrow> time \<Rightarrow> address \<Rightarrow> (goerr + cid list) \<times> 's"

text \<open>
  The contract: \<open>flagged s a p\<close> is the unsealed-copy bit of the flag that piece \<open>p\<close> has for miner
  \<open>a\<close>. Flagging and unflagging succeed, change that one entry, and leave what can be read about
  pieces alone; untracking and picking the next pieces leave the flags alone too.
\<close>

locale lid_service =
  fixes svc :: "'s lidService"
    and invar :: "'s \<Rightarrow> bool"
    and flagged :: "'s \<Rightarrow> address \<Rightarrow> cid \<Rightarrow> bool option"
  assumes flag: "invar s \<Longrightarrow> svcFlagPiece svc s now p huc a = (e, s') \<Longrightarrow>
      e = None \<and> invar s' \<and> flagged s' = (flagged s)(a := (flagged s a)(p \<mapsto> huc)) \<and>
      svcGetPieceMetadata svc s' = svcGetPieceMetadata svc s \<and>
      svcIsIndexed svc s' = svcIsIndexed svc s"
    and unflag: "invar s \<Longrightarrow> svcUnflagPiece svc s p a = (e, s') \<Longrightarrow>
      e = None \<and> invar s' \<and> flagged s' = (flagged s)(a := (flagged s a)(p := None)) \<and>
      svcGetPieceMetadata svc s' = svcGetPieceMetadata svc s \<and>
      svcIsIndexed svc s' = svcIsIndexed svc s"
    and untrack: "invar s \<Longrightarrow> svcUntrackPiece svc s p a = (e, s') \<Longrightarrow>
      e = None \<and> invar s' \<and> flagged s' = flagged s \<and>
      svcGetPieceMetadata svc s' = svcGetPieceMetadata svc s \<and>
      svcIsIndexed svc s' = svcIsIndexed svc s"
    and next_pieces: "invar s \<Longrightarrow> svcNextPiecesToCheck svc s now a = (r, s') \<Longrightarrow>
      invar s' \<and> flagged s' = flagged s \<and> (\<forall>ps. r = Inr ps \<longrightarrow> distinct ps) \<and>
      svcGetPieceMetadata svc s' = svcGetPieceMetadata svc s \<and>
      svcIsIndexed svc s' = svcIsIndexed svc s"
    and metadata_total: "invar s \<Longrightarrow> svcGetPieceMetadata svc s p = Inl err \<Longrightarrow>
      containsStr (emsg err) ''not found''"
    and indexed_total: "invar s \<Longrightarrow> \<exists>b. svcIsIndexed svc s p = Inr b"

end
