(* ===== verification/SectorState.thy ===== *)
theory SectorState
  imports Model "HOL-Library.AList"
begin

text \<open>
  The sector state manager (\<open>lib/boost/sectorstatemgr\<close>) and the table it keeps up to date
  (\<open>lib/boost/db/sectors.go\<close>). The lotus APIs and the SQL database are the record \<open>ssmEnv\<close>
  over an opaque database state; a Go map that is iterated over is the list of its entries in
  the order of the iteration, so that what holds for every list holds for every order.
  \<open>storageList\<close> takes whether the storage was redeclared just before, an action whose error is
  only logged.
\<close>

datatype SealState = SealStateSealed | SealStateUnsealed | SealStateRemoved | SealStateCache

record SectorID =
  Miner :: u64
  Number :: u64

record SectorStateRow =
  rowSector :: SectorID
  rowSealState :: SealState

text \<open>A storage declaration: what \<open>SectorFileType.Has\<close> says of the two bits the code asks for.\<close>

record Decl =
  declSector :: SectorID
  hasUnsealed :: bool
  hasSealed :: bool

record OnChainSector =
  ocNumber :: u64
  ocDealWeight :: int

record SectorStateUpdates =
  Updates :: "SectorID \<Rightarrow> SealState option"
  ActiveSectors :: "SectorID \<Rightarrow> bool"
  SectorWithDeals :: "SectorID \<Rightarrow> bool"
  SectorStates :: "SectorID \<Rightarrow> SealState option"
  UpdatedAt :: time

record 'd ssmEnv =
  storageList :: "bool \<Rightarrow> goerr + Decl list list"
  sdbList :: "'d \<Rightarrow> goerr + SectorStateRow list"
  sdbUpdate :: "'d \<Rightarrow> SectorID \<Rightarrow> SealState \<Rightarrow> goerr option \<times> 'd"
  chainHead :: "goerr + string"
  minerActiveSectors :: "address \<Rightarrow> string \<Rightarrow> goerr + OnChainSector list"
  minerSectors :: "address \<Rightarrow> string \<Rightarrow> goerr + OnChainSector list"
  idFromAddress :: "address \<Rightarrow> goerr + u64"

section \<open>The state of a sector from its declarations\<close>

text \<open>The body of the inner loop: first the switch, then the default to \<open>Cache\<close>.\<close>

definition declStep ::
  "Decl \<Rightarrow> (SectorID \<Rightarrow> SealState option) \<Rightarrow> (SectorID \<Rightarrow> SealState option)" where
  "declStep d states =
     (let sid = declSector d;
          states1 =
            (if hasUnsealed d then states(sid \<mapsto> SealStateUnsealed)
             else if hasSealed d then
               (if states sid \<noteq> Some SealStateUnsealed then states(sid \<mapsto> SealStateSealed) else states)
             else states)
      in if states1 sid = None then states1(sid \<mapsto> SealStateCache) else states1)"

definition collectStates :: "Decl list list \<Rightarrow> (SectorID \<Rightarrow> SealState option)" where
  "collectStates locs = fold (\<lambda>loc states. fold declStep loc states) locs Map.empty"

text \<open>
  The loop over the rows of the database: \<open>states\<close> is the map that known sectors are deleted
  from, \<open>updates\<close> the map that is filled.
\<close>

fun diffLoop ::
  "SectorStateRow list \<Rightarrow> (SectorID \<Rightarrow> SealState option) \<Rightarrow> (SectorID \<Rightarrow> SealState option) \<Rightarrow>
    (SectorID \<Rightarrow> SealState option) \<times> (SectorID \<Rightarrow> SealState option)" where
  "diffLoop [] states updates = (states, updates)"
| "diffLoop (pss # rows) states updates =
     (case states (rowSector pss) of
        Some sealState \<Rightarrow>
          diffLoop rows (states(rowSector pss := None))
            (if rowSealState pss \<noteq> sealState \<and> sealState \<noteq> SealStateCache
             then updates(rowSector pss \<mapsto> sealState) else updates)
      | None \<Rightarrow> diffLoop rows states (updates(rowSector pss \<mapsto> SealStateRemoved)))"

text \<open>The sectors left over are new.\<close>

definition sectorUpdates ::
  "SectorStateRow list \<Rightarrow> (SectorID \<Rightarrow> SealState option) \<Rightarrow> (SectorID \<Rightarrow> SealState option)" where
  "sectorUpdates rows states =
     (let (rest, updates) = diffLoop rows states Map.empty in updates ++ rest)"

definition refreshState ::
  "'d ssmEnv \<Rightarrow> bool \<Rightarrow> address \<Rightarrow> time \<Rightarrow> 'd \<Rightarrow> goerr + SectorStateUpdates" where
  "refreshState E redeclare maddr now d =
     (case storageList E redeclare of
        Inl err \<Rightarrow> Inl (errorf_w ''getting sectors state from lotus: '' err)
      | Inr locs \<Rightarrow>
          let states = collectStates locs in
          (case sdbList E d of
             Inl err \<Rightarrow> Inl (errorf_w ''getting sectors state from database: '' err)
           | Inr rows \<Rightarrow>
               (case chainHead E of
                  Inl err \<Rightarrow> Inl err
                | Inr head \<Rightarrow>
                    (case minerActiveSectors E maddr head of
                       Inl err \<Rightarrow> Inl err
                     | Inr activeSet \<Rightarrow>
                         (case minerSectors E maddr head of
                            Inl err \<Rightarrow> Inl err
                          | Inr allSet \<Rightarrow>
                              (case idFromAddress E maddr of
                                 Inl err \<Rightarrow> Inl err
                               | Inr mid \<Rightarrow>
                                   Inr \<lparr>Updates = sectorUpdates rows states,
                                        ActiveSectors = (\<lambda>sid. Miner sid = mid \<and>
                                          (\<exists>info\<in>set activeSet. ocNumber info = Number sid)),
                                        SectorWithDeals = (\<lambda>sid. Miner sid = mid \<and>
                                          (\<exists>info\<in>set allSet. ocNumber info = Number sid \<and>
                                             0 < ocDealWeight info)),
                                        SectorStates = states,
                                        UpdatedAt = now\<rparr>))))))"

text \<open>
  The loop of \<open>checkForUpdates\<close> over the update map, in the order \<open>sids\<close> of the iteration; it
  stops at the first error, before anything is published.
\<close>

fun applyUpdates ::
  "'d ssmEnv \<Rightarrow> (SectorID \<Rightarrow> SealState option) \<Rightarrow> SectorID list \<Rightarrow> 'd \<Rightarrow> goerr option \<times> 'd" where
  "applyUpdates E updates [] d = (None, d)"
| "applyUpdates E updates (sid # sids) d =
     (case updates sid of
        None \<Rightarrow> applyUpdates E updates sids d
      | Some st \<Rightarrow>
          (case sdbUpdate E d sid st of
             (Some err, d') \<Rightarrow>
               (Some (errorf_w ''updating sectors unseal state in database: '' err), d')
           | (None, d') \<Rightarrow> applyUpdates E updates sids d'))"

definition checkForUpdates ::
  "'d ssmEnv \<Rightarrow> bool \<Rightarrow> address \<Rightarrow> time \<Rightarrow> SectorID list \<Rightarrow> 'd \<Rightarrow> (goerr + SectorStateUpdates) \<times> 'd" where
  "checkForUpdates E redeclare maddr now order d =
     (case refreshState E redeclare maddr now d of
        Inl err \<Rightarrow> (Inl err, d)
      | Inr ssu \<Rightarrow>
          (case applyUpdates E (Updates ssu) order d of
             (Some err, d') \<Rightarrow> (Inl err, d')
           | (None, d') \<Rightarrow> (Inr ssu, d')))"

section \<open>The state is that of the best copy\<close>

definition bestCopy :: "Decl list \<Rightarrow> SectorID \<Rightarrow> SealState option" where
  "bestCopy ds sid =
     (if \<exists>d\<in>set ds. declSector d = sid \<and> hasUnsealed d then Some SealStateUnsealed
      else if \<exists>d\<in>set ds. declSector d = sid \<and> hasSealed d then Some SealStateSealed
      else if \<exists>d\<in>set ds. declSector d = sid then Some SealStateCache
      else None)"

text \<open>The states in the order of how much a copy is worth to retrieval.\<close>

primrec sealRank :: "SealState \<Rightarrow> nat" where
  "sealRank SealStateRemoved = 0"
| "sealRank SealStateCache = 1"
| "sealRank SealStateSealed = 2"
| "sealRank SealStateUnsealed = 3"

lemma sealRank_inj: "sealRank a = sealRank b \<Longrightarrow> a = b"
  by (cases a; cases b) simp_all

instantiation SealState :: linorder
begin

definition less_eq_SealState :: "SealState \<Rightarrow> SealState \<Rightarrow> bool" where
  "less_eq_SealState a b \<longleftrightarrow> sealRank a \<le> sealRank b"

definition less_SealState :: "SealState \<Rightarrow> SealState \<Rightarrow> bool" where
  "less_SealState a b \<longleftrightarrow> sealRank a < sealRank b"

instance
  by intro_classes (auto simp: less_eq_SealState_def less_SealState_def intro: sealRank_inj)

end

definition copyState :: "Decl \<Rightarrow> SealState" where
  "copyState d = (if hasUnsealed d then SealStateUnsealed else if hasSealed d then SealStateSealed else SealStateCache)"

lemma bestCopy_Max:
  "bestCopy ds sid =
    (let cs = copyState ` {d \<in> set ds. declSector d = sid} in if cs = {} then None else Some (Max cs))"
proof -
  let ?cs = "copyState ` {d \<in> set ds. declSector d = sid}"
  have "bestCopy ds sid = Some s" if "s \<in> ?cs" "\<And>x. x \<in> ?cs \<Longrightarrow> x \<le> s" for s
  proof -
    from that(1) obtain d where d: "d \<in> set ds" "declSector d = sid" "s = copyState d" by blast
    have le: "copyState e \<le> s" if "e \<in> set ds" "declSector e = sid" for e
      using that \<open>\<And>x. x \<in> ?cs \<Longrightarrow> x \<le> s\<close> by blast
    have unsealed: "hasUnsealed d" if "e \<in> set ds" "declSector e = sid" "hasUnsealed e" for e
      using le [OF that(1,2)] that(3) d(3) by (auto simp: copyState_def less_eq_SealState_def split: if_splits)
    have sealed: "hasUnsealed d \<or> hasSealed d" if "e \<in> set ds" "declSector e = sid" "hasSealed e" for e
      using le [OF that(1,2)] that(3) d(3) by (auto simp: copyState_def less_eq_SealState_def split: if_splits)
    have "(\<exists>e\<in>set ds. declSector e = sid \<and> hasUnsealed e) \<longleftrightarrow> hasUnsealed d"
      using d(1,2) unsealed by blast
    moreover have "(\<exists>e\<in>set ds. declSector e = sid \<and> hasSealed e) \<longleftrightarrow> hasSealed d" if "\<not> hasUnsealed d"
      using d(1,2) sealed that by blast
    moreover have "\<exists>e\<in>set ds. declSector e = sid" using d(1,2) by blast
    ultimately show ?thesis by (simp add: bestCopy_def copyState_def d(3))
  qed
  from this [of "Max ?cs"] show ?thesis
    by (cases "?cs = {}") (auto simp: bestCopy_def Let_def)
qed

lemma bestCopy_cong: "set ds = set ds' \<Longrightarrow> bestCopy ds = bestCopy ds'"
  by (simp add: bestCopy_def fun_eq_iff)

lemma fold_declStep: "fold declStep ds Map.empty = bestCopy ds"
proof (induction ds rule: rev_induct)
  case Nil
  then show ?case by (simp add: bestCopy_def fun_eq_iff)
next
  case (snoc d ds)
  have "declStep d (bestCopy ds) sid = bestCopy (ds @ [d]) sid" for sid
    by (cases "sid = declSector d"; cases "hasUnsealed d"; cases "hasSealed d")
      (auto simp: declStep_def Let_def bestCopy_def)
  with snoc show ?case by auto
qed

lemma collectStates_best: "collectStates locs = bestCopy (concat locs)"
proof -
  have "fold (\<lambda>loc states. fold declStep loc states) locs st = fold declStep (concat locs) st" for st
    by (induction locs arbitrary: st) simp_all
  then show ?thesis by (simp add: collectStates_def fold_declStep)
qed

text \<open>
  C21: The seal state of a sector does not depend on the order in which lotus lists storage locations
  and declarations: it is the greatest state of a copy, unsealed before sealed before cache, and a sector
  without a declaration has none.
\<close>

theorem sector_state_order_independent:
  assumes "set (concat locs) = set (concat locs')"
  shows "collectStates locs = collectStates locs' \<and>
    (\<forall>sid. collectStates locs sid =
      (let cs = copyState ` {d \<in> set (concat locs). declSector d = sid} in if cs = {} then None else Some (Max cs)))"
  using bestCopy_cong [OF assms] bestCopy_Max [of "concat locs"] by (simp only: collectStates_best simp_thms)

theorem sector_state_order_independent_witness:
  "collectStates [[\<lparr>declSector = \<lparr>Miner = 1, Number = 3\<rparr>, hasUnsealed = False, hasSealed = True\<rparr>],
      [\<lparr>declSector = \<lparr>Miner = 1, Number = 3\<rparr>, hasUnsealed = True, hasSealed = False\<rparr>]] =
    collectStates [[\<lparr>declSector = \<lparr>Miner = 1, Number = 3\<rparr>, hasUnsealed = True, hasSealed = False\<rparr>,
      \<lparr>declSector = \<lparr>Miner = 1, Number = 3\<rparr>, hasUnsealed = False, hasSealed = True\<rparr>]]"
  by (rule sector_state_order_independent [THEN conjunct1]) auto

section \<open>What a refresh changes\<close>

definition rowsMap :: "SectorStateRow list \<Rightarrow> SectorID \<Rightarrow> SealState option" where
  "rowsMap rows = map_of (map (\<lambda>r. (rowSector r, rowSealState r)) rows)"

lemma rowsMap_simps [simp]:
  "rowsMap [] = Map.empty"
  "rowsMap (r # rows) = (rowsMap rows)(rowSector r \<mapsto> rowSealState r)"
  by (simp_all add: rowsMap_def)

lemma rowsMap_None: "rowsMap rows sid = None \<longleftrightarrow> sid \<notin> rowSector ` set rows"
  by (induction rows) auto

definition change :: "SealState option \<Rightarrow> SealState option \<Rightarrow> SealState option" where
  "change old cur =
     (case old of
        None \<Rightarrow> cur
      | Some o' \<Rightarrow>
          (case cur of
             None \<Rightarrow> Some SealStateRemoved
           | Some n \<Rightarrow> if o' \<noteq> n \<and> n \<noteq> SealStateCache then Some n else None))"

lemma diffLoop_spec:
  assumes "distinct (map rowSector rows)"
  shows "fst (diffLoop rows st up) sid = (if rowsMap rows sid = None then st sid else None) \<and>
    snd (diffLoop rows st up) sid =
      (if rowsMap rows sid = None then up sid
       else case change (rowsMap rows sid) (st sid) of None \<Rightarrow> up sid | Some x \<Rightarrow> Some x)"
  using assms
proof (induction rows arbitrary: st up)
  case (Cons r rows)
  have nr: "rowsMap rows (rowSector r) = None" using Cons.prems by (simp add: rowsMap_None)
  show ?case
  proof (cases "sid = rowSector r")
    case True
    with Cons nr show ?thesis by (auto simp: change_def split: option.split)
  next
    case False
    with Cons nr show ?thesis by (auto split: option.split)
  qed
qed simp

lemma sectorUpdates_change:
  assumes "distinct (map rowSector rows)"
  shows "sectorUpdates rows st sid = change (rowsMap rows sid) (st sid)"
  using diffLoop_spec [OF assms, of st Map.empty sid]
  by (cases "diffLoop rows st Map.empty")
    (auto simp: sectorUpdates_def map_add_def change_def split: option.splits)

text \<open>
  What the code relies on of the \<open>SectorState\<close> table: one row per sector, read as the map
  \<open>dbview\<close>, and \<open>REPLACE INTO\<close> sets the row of its key or fails and changes nothing.
\<close>

definition sdb_ok :: "'d ssmEnv \<Rightarrow> ('d \<Rightarrow> SectorID \<Rightarrow> SealState option) \<Rightarrow> bool" where
  "sdb_ok E dbview \<longleftrightarrow>
     (\<forall>d rows. sdbList E d = Inr rows \<longrightarrow> distinct (map rowSector rows) \<and> rowsMap rows = dbview d) \<and>
     (\<forall>d sid st e d'. sdbUpdate E d sid st = (e, d') \<longrightarrow>
        dbview d' = (if e = None then (dbview d)(sid \<mapsto> st) else dbview d))"

lemma sdb_ok_list:
  "sdb_ok E dbview \<Longrightarrow> sdbList E d = Inr rows \<Longrightarrow> distinct (map rowSector rows) \<and> rowsMap rows = dbview d"
  by (simp add: sdb_ok_def)

lemma sdb_ok_update:
  "sdb_ok E dbview \<Longrightarrow> sdbUpdate E d sid st = (None, d') \<Longrightarrow> dbview d' = (dbview d)(sid \<mapsto> st)"
  unfolding sdb_ok_def by (metis (full_types))

lemma applyUpdates_ok:
  assumes "sdb_ok E dbview" and "applyUpdates E updates sids d = (None, d')"
  shows "\<forall>sid. dbview d' sid = (if sid \<in> set sids \<and> updates sid \<noteq> None then updates sid else dbview d sid)"
  using assms(2)
proof (induction sids arbitrary: d)
  case (Cons s sids)
  show ?case
  proof (cases "updates s")
    case None
    with Cons show ?thesis by auto
  next
    case (Some st)
    obtain e1 d1 where u: "sdbUpdate E d s st = (e1, d1)" by fastforce
    have "e1 = None" using Cons.prems Some u by (cases e1) auto
    with sdb_ok_update [OF assms(1)] u have "dbview d1 = (dbview d)(s \<mapsto> st)" by simp
    with Cons Some u \<open>e1 = None\<close> show ?thesis by auto
  qed
qed simp

text \<open>What the table should say of a sector that it said \<open>old\<close> of, now that lotus says \<open>cur\<close>.\<close>

definition nextState :: "SealState option \<Rightarrow> SealState option \<Rightarrow> SealState option" where
  "nextState old cur =
     (case cur of
        None \<Rightarrow> (case old of None \<Rightarrow> None | Some _ \<Rightarrow> Some SealStateRemoved)
      | Some SealStateCache \<Rightarrow> (case old of None \<Rightarrow> Some SealStateCache | Some o' \<Rightarrow> Some o')
      | Some n \<Rightarrow> Some n)"

lemma change_nextState:
  "(case change old cur of None \<Rightarrow> old | Some x \<Rightarrow> Some x) = nextState old cur"
  by (cases old; cases cur) (auto simp: change_def nextState_def split: SealState.splits)

lemma refreshState_states:
  assumes "refreshState E redeclare maddr now d = Inr ssu"
  shows "\<exists>locs rows. storageList E redeclare = Inr locs \<and> sdbList E d = Inr rows \<and>
    SectorStates ssu = collectStates locs \<and> Updates ssu = sectorUpdates rows (collectStates locs)"
  using assms by (auto simp: refreshState_def Let_def split: sum.splits)

lemma check_for_updates_agrees_aux:
  assumes db: "sdb_ok E dbview"
    and r: "checkForUpdates E redeclare maddr now order d = (Inr ssu, d')"
    and order: "\<forall>sid. Updates ssu sid \<noteq> None \<longrightarrow> sid \<in> set order"
  shows "\<exists>locs. storageList E redeclare = Inr locs \<and>
    (\<forall>sid. dbview d' sid = nextState (dbview d sid) (bestCopy (concat locs) sid))"
proof -
  from r have ref: "refreshState E redeclare maddr now d = Inr ssu"
    by (auto simp: checkForUpdates_def split: sum.splits prod.splits option.splits)
  with r have ap: "applyUpdates E (Updates ssu) order d = (None, d')"
    by (auto simp: checkForUpdates_def split: prod.splits option.splits)
  from refreshState_states [OF ref] obtain locs rows where l: "storageList E redeclare = Inr locs"
    "sdbList E d = Inr rows" "Updates ssu = sectorUpdates rows (collectStates locs)" by blast
  from db l(2) have rows: "distinct (map rowSector rows)" "rowsMap rows = dbview d"
    by (simp_all add: sdb_ok_list)
  have up: "Updates ssu sid = change (dbview d sid) (bestCopy (concat locs) sid)" for sid
    using sectorUpdates_change [OF rows(1)] by (simp add: l(3) rows(2) collectStates_best)
  have "dbview d' sid = nextState (dbview d sid) (bestCopy (concat locs) sid)" for sid
  proof -
    have "dbview d' sid = (case Updates ssu sid of None \<Rightarrow> dbview d sid | Some x \<Rightarrow> Some x)"
      using applyUpdates_ok [OF db ap] order by (auto split: option.split)
    then show ?thesis by (simp only: up change_nextState)
  qed
  with l(1) show ?thesis by blast
qed

text \<open>
  A refresh that succeeds leaves the sector table in agreement with lotus, in whatever order the
  update map is walked: a listed sector has its current state, a sector that is only in cache keeps
  the state it had, a sector no longer listed is marked removed, and no other row changes.
\<close>

theorem check_for_updates_agrees:
  assumes "sdb_ok E dbview"
    and "checkForUpdates E redeclare maddr now order d = (Inr ssu, d')"
    and "\<forall>sid. Updates ssu sid \<noteq> None \<longrightarrow> sid \<in> set order"
  shows "\<exists>locs. storageList E redeclare = Inr locs \<and>
    (\<forall>sid. dbview d' sid = nextState (dbview d sid) (bestCopy (concat locs) sid))"
  using assms by (rule check_for_updates_agrees_aux)

text \<open>
  A second refresh with the same storage list finds nothing new, except that every sector already
  marked removed is reported as removed again.
\<close>

theorem second_refresh_only_removed:
  assumes db: "sdb_ok E dbview"
    and r: "checkForUpdates E redeclare maddr now order d = (Inr ssu, d')"
    and order: "\<forall>sid. Updates ssu sid \<noteq> None \<longrightarrow> sid \<in> set order"
    and r2: "refreshState E redeclare maddr now2 d' = Inr ssu2"
  shows "Updates ssu2 sid =
    (if dbview d' sid \<noteq> None \<and> SectorStates ssu2 sid = None then Some SealStateRemoved else None)"
proof -
  from check_for_updates_agrees_aux [OF db r order] obtain locs where l: "storageList E redeclare = Inr locs"
    "\<And>sid. dbview d' sid = nextState (dbview d sid) (bestCopy (concat locs) sid)" by blast
  from refreshState_states [OF r2] l(1) obtain rows where l2: "sdbList E d' = Inr rows"
    "SectorStates ssu2 = collectStates locs" "Updates ssu2 = sectorUpdates rows (collectStates locs)"
    by auto
  from db l2(1) have rows: "distinct (map rowSector rows)" "rowsMap rows = dbview d'"
    by (simp_all add: sdb_ok_list)
  have up: "Updates ssu2 sid = change (dbview d' sid) (bestCopy (concat locs) sid)"
    using sectorUpdates_change [OF rows(1)] by (simp add: l2(3) rows(2) collectStates_best)
  show ?thesis
    unfolding up l2(2) collectStates_best l(2)
    by (cases "dbview d sid"; cases "bestCopy (concat locs) sid")
      (auto simp: change_def nextState_def split: SealState.splits)
qed

section \<open>A concrete run\<close>

definition demoSsm :: "(SectorID \<times> SealState) list ssmEnv" where
  "demoSsm =
     \<lparr>storageList = (\<lambda>_. Inr [[\<lparr>declSector = \<lparr>Miner = 1, Number = 7\<rparr>, hasUnsealed = True,
        hasSealed = False\<rparr>]]),
      sdbList = (\<lambda>d. Inr (map (\<lambda>(k, v). \<lparr>rowSector = k, rowSealState = v\<rparr>) (AList.clearjunk d))),
      sdbUpdate = (\<lambda>d sid st. (None, AList.update sid st d)),
      chainHead = Inr ''head'',
      minerActiveSectors = (\<lambda>_ _. Inr []),
      minerSectors = (\<lambda>_ _. Inr []),
      idFromAddress = (\<lambda>_. Inr 1)\<rparr>"

lemma demoSsm_ok: "sdb_ok demoSsm map_of"
proof -
  have "\<exists>rows. sdbList demoSsm d = Inr rows \<and> distinct (map rowSector rows) \<and> rowsMap rows = map_of d"
    for d :: "(SectorID \<times> SealState) list"
  proof (intro exI conjI)
    let ?rows = "map (\<lambda>(k, v). \<lparr>rowSector = k, rowSealState = v\<rparr>) (AList.clearjunk d)"
    show "sdbList demoSsm d = Inr ?rows" by (simp add: demoSsm_def)
    have "map rowSector ?rows = map fst (AList.clearjunk d)" by (simp add: split_def)
    then show "distinct (map rowSector ?rows)" by (simp only: distinct_clearjunk)
    have "map (\<lambda>r. (rowSector r, rowSealState r)) ?rows = AList.clearjunk d"
      by (simp add: split_def o_def)
    then show "rowsMap ?rows = map_of d" by (simp only: rowsMap_def map_of_clearjunk)
  qed
  then have "distinct (map rowSector rows) \<and> rowsMap rows = map_of d" if "sdbList demoSsm d = Inr rows" for d rows
    using that by (metis sum.inject(2))
  then show ?thesis by (auto simp: sdb_ok_def) (auto simp: demoSsm_def update_conv')
qed

definition oldSector :: SectorID where "oldSector = \<lparr>Miner = 1, Number = 3\<rparr>"
definition newSector :: SectorID where "newSector = \<lparr>Miner = 1, Number = 7\<rparr>"

definition demoSsu :: SectorStateUpdates where
  "demoSsu = \<lparr>Updates = (\<lambda>sid. change (if sid = oldSector then Some SealStateSealed else None)
       (bestCopy [\<lparr>declSector = newSector, hasUnsealed = True, hasSealed = False\<rparr>] sid)),
     ActiveSectors = (\<lambda>sid. False), SectorWithDeals = (\<lambda>sid. False),
     SectorStates = bestCopy [\<lparr>declSector = newSector, hasUnsealed = True, hasSealed = False\<rparr>],
     UpdatedAt = 9\<rparr>"

lemma demo_refresh:
  "refreshState demoSsm False ''m'' 9 [(oldSector, SealStateSealed)] = Inr demoSsu"
proof -
  have "sectorUpdates [\<lparr>rowSector = oldSector, rowSealState = SealStateSealed\<rparr>]
      (collectStates [[\<lparr>declSector = newSector, hasUnsealed = True, hasSealed = False\<rparr>]]) =
    Updates demoSsu"
    by (rule ext) (simp add: sectorUpdates_change collectStates_best demoSsu_def)
  then show ?thesis
    by (simp add: refreshState_def Let_def demoSsm_def newSector_def demoSsu_def collectStates_best)
qed

lemma demo_check:
  "\<exists>d'. checkForUpdates demoSsm False ''m'' 9 [newSector, oldSector] [(oldSector, SealStateSealed)] =
    (Inr demoSsu, d')"
proof -
  obtain e d' where a: "applyUpdates demoSsm (Updates demoSsu) [newSector, oldSector]
      [(oldSector, SealStateSealed)] = (e, d')" by fastforce
  have "fst (applyUpdates demoSsm u sids d) = None" for u sids d
    by (induction sids arbitrary: d) (auto simp: demoSsm_def split: option.split)
  from this [of "Updates demoSsu" "[newSector, oldSector]" "[(oldSector, SealStateSealed)]"] a show ?thesis
    by (simp add: checkForUpdates_def demo_refresh)
qed

lemma demo_order: "\<forall>sid. Updates demoSsu sid \<noteq> None \<longrightarrow> sid \<in> set [newSector, oldSector]"
  by (auto simp: demoSsu_def change_def bestCopy_def split: if_splits)

theorem check_for_updates_agrees_witness:
  "\<exists>d'. map_of d' oldSector = Some SealStateRemoved \<and> map_of d' newSector = Some SealStateUnsealed"
proof -
  obtain d' where c: "checkForUpdates demoSsm False ''m'' 9 [newSector, oldSector]
      [(oldSector, SealStateSealed)] = (Inr demoSsu, d')" using demo_check by blast
  from check_for_updates_agrees [OF demoSsm_ok c demo_order] show ?thesis
    by (intro exI [of _ d']) (auto simp: demoSsm_def oldSector_def newSector_def bestCopy_def nextState_def)
qed

theorem second_refresh_only_removed_witness:
  "\<exists>ssu2 :: SectorStateUpdates. Updates ssu2 oldSector = Some SealStateRemoved \<and> Updates ssu2 newSector = None"
proof -
  obtain d' where c: "checkForUpdates demoSsm False ''m'' 9 [newSector, oldSector]
      [(oldSector, SealStateSealed)] = (Inr demoSsu, d')" using demo_check by blast
  obtain ssu2 where r: "refreshState demoSsm False ''m'' 10 d' = Inr ssu2"
    by (auto simp: refreshState_def demoSsm_def Let_def)
  from refreshState_states [OF r] have st: "SectorStates ssu2 =
      bestCopy [\<lparr>declSector = newSector, hasUnsealed = True, hasSealed = False\<rparr>]"
    by (auto simp: demoSsm_def collectStates_best newSector_def)
  from check_for_updates_agrees_aux [OF demoSsm_ok c demo_order]
  have "map_of d' oldSector = Some SealStateRemoved"
    by (auto simp: demoSsm_def oldSector_def bestCopy_def nextState_def)
  then have "Updates ssu2 oldSector = Some SealStateRemoved \<and> Updates ssu2 newSector = None"
    using second_refresh_only_removed [OF demoSsm_ok c demo_order r]
    by (simp add: st bestCopy_def oldSector_def newSector_def)
  then show ?thesis by blast
qed

end
