(* ===== verification/Doctor.thy ===== *)
theory Doctor
  imports Service SectorState
begin

text \<open>
  The piece doctor (\<open>lib/boost/piecedirectory/doctor.go\<close>): \<open>checkPiece\<close> decides from the metadata,
  the sector states and the chain whether a piece has a problem and flags or unflags it, and
  \<open>doctorIteration\<close> is one turn of the loop of \<open>Run\<close>. The index service is the record
  \<open>lidService\<close>, the lotus API the record \<open>doctorEnv\<close> (\<open>drMarketDeal = None\<close> when the API is nil).
\<close>

record doctorEnv =
  drIDFromAddress :: "address \<Rightarrow> goerr + u64"
  drMarketDeal :: "(u64 \<Rightarrow> bool) option"
  drChainHead :: "goerr option"
  drGetClaims :: "address \<Rightarrow> goerr + u64 list"

section \<open>Checking a piece\<close>

text \<open>
  The first loop over the deals: whether there is a deal on this miner, whether none of them is in
  an active sector, and the deals in active sectors.
\<close>

fun activeLoop ::
  "doctorEnv \<Rightarrow> SectorStateUpdates \<Rightarrow> address \<Rightarrow> DealInfo list \<Rightarrow> bool \<Rightarrow> bool \<Rightarrow> DealInfo list \<Rightarrow>
    goerr + bool \<times> bool \<times> DealInfo list" where
  "activeLoop D lu maddr [] hasDeals lacksActive chainDeals = Inr (hasDeals, lacksActive, chainDeals)"
| "activeLoop D lu maddr (dl # deals) hasDeals lacksActive chainDeals =
     (if maddr \<noteq> MinerAddr dl then activeLoop D lu maddr deals hasDeals lacksActive chainDeals
      else case drIDFromAddress D (MinerAddr dl) of
          Inl err \<Rightarrow> Inl err
        | Inr mid \<Rightarrow>
            if ActiveSectors lu \<lparr>Miner = mid, Number = SectorID dl\<rparr>
            then activeLoop D lu maddr deals True False (chainDeals @ [dl])
            else activeLoop D lu maddr deals True lacksActive chainDeals)"

text \<open>Whether one of the deals is on chain: by a claim on its sector, or as a market deal.\<close>

fun onChainLoop :: "(u64 \<Rightarrow> bool) \<Rightarrow> u64 list \<Rightarrow> DealInfo list \<Rightarrow> bool \<Rightarrow> bool" where
  "onChainLoop marketDeal claims [] found = found"
| "onChainLoop marketDeal claims (dl # deals) found =
     (if IsDirectDeal dl then
        onChainLoop marketDeal claims deals (if SectorID dl \<in> set claims then True else found)
      else if marketDeal (ChainDealID dl) then True
      else onChainLoop marketDeal claims deals found)"

fun unsealedLoop ::
  "doctorEnv \<Rightarrow> SectorStateUpdates \<Rightarrow> address \<Rightarrow> DealInfo list \<Rightarrow> goerr + bool" where
  "unsealedLoop D lu maddr [] = Inr False"
| "unsealedLoop D lu maddr (dl # deals) =
     (if maddr \<noteq> MinerAddr dl then unsealedLoop D lu maddr deals
      else case drIDFromAddress D (MinerAddr dl) of
          Inl err \<Rightarrow> Inl err
        | Inr mid \<Rightarrow>
            if SectorStates lu \<lparr>Miner = mid, Number = SectorID dl\<rparr> = Some SealStateUnsealed
            then Inr True else unsealedLoop D lu maddr deals)"

definition unflagOr :: "'s lidService \<Rightarrow> 's \<Rightarrow> cid \<Rightarrow> address \<Rightarrow> string \<Rightarrow> goerr option \<times> 's" where
  "unflagOr svc s pieceCid maddr msg =
     (case svcUnflagPiece svc s pieceCid maddr of
        (Some err, s') \<Rightarrow> (Some (errorf_w msg err), s')
      | (None, s') \<Rightarrow> (None, s'))"

definition checkPiece ::
  "'s lidService \<Rightarrow> doctorEnv \<Rightarrow> address \<Rightarrow> SectorStateUpdates \<Rightarrow> u64 list \<Rightarrow> time \<Rightarrow> cid \<Rightarrow> 's \<Rightarrow>
    goerr option \<times> 's" where
  "checkPiece svc D maddr lu claims now pieceCid s =
     (case svcGetPieceMetadata svc s pieceCid of
        Inl err \<Rightarrow>
          if containsStr (emsg err) ''not found'' then
            (case unflagOr svc s pieceCid maddr ''failed to unflag the missing piece: '' of
               (Some err', s') \<Rightarrow> (Some err', s')
             | (None, s') \<Rightarrow>
                 (case svcUntrackPiece svc s' pieceCid maddr of
                    (Some serr, s'') \<Rightarrow>
                      (Some (errorf_w ''failed to delete piece from tracker table: '' serr), s'')
                  | (None, s'') \<Rightarrow> (None, s'')))
          else (Some (errorf_w ''failed to get piece from local index directory: '' err), s)
      | Inr md \<Rightarrow>
          (case activeLoop D lu maddr (Deals md) False True [] of
             Inl err \<Rightarrow> (Some err, s)
           | Inr (hasDeals, lacksActive, chainDeals) \<Rightarrow>
               if \<not> hasDeals then (None, s)
               else if lacksActive then unflagOr svc s pieceCid maddr ''failed to unflag piece: ''
               else if (case drMarketDeal D of None \<Rightarrow> False
                        | Some marketDeal \<Rightarrow> \<not> onChainLoop marketDeal claims chainDeals False)
               then unflagOr svc s pieceCid maddr ''failed to unflag piece: ''
               else case unsealedLoop D lu maddr (Deals md) of
                   Inl err \<Rightarrow> (Some err, s)
                 | Inr hasUnsealedCopy \<Rightarrow>
                     (case svcIsIndexed svc s pieceCid of
                        Inl err \<Rightarrow> (Some (errorf_w ''failed to check index status of piece: '' err), s)
                      | Inr isIndexed \<Rightarrow>
                          if \<not> isIndexed \<or> \<not> hasUnsealedCopy then
                            (case svcFlagPiece svc s now pieceCid hasUnsealedCopy maddr of
                               (Some err, s') \<Rightarrow> (Some (errorf_w ''failed to flag piece: '' err), s')
                             | (None, s') \<Rightarrow> (None, s'))
                          else unflagOr svc s pieceCid maddr ''failed to unflag piece: '')))"

section \<open>One turn of Run\<close>

text \<open>A cancelled context stops the turn; other errors of a piece are logged and the loop goes on.\<close>

fun checkPieces ::
  "'s lidService \<Rightarrow> doctorEnv \<Rightarrow> address \<Rightarrow> SectorStateUpdates \<Rightarrow> u64 list \<Rightarrow> time \<Rightarrow> cid list \<Rightarrow> 's \<Rightarrow>
    goerr option \<times> 's" where
  "checkPieces svc D maddr lu claims now [] s = (None, s)"
| "checkPieces svc D maddr lu claims now (p # ps) s =
     (case checkPiece svc D maddr lu claims now p s of
        (Some err, s') \<Rightarrow>
          if errors_Is err ContextCanceled then (Some err, s')
          else checkPieces svc D maddr lu claims now ps s'
      | (None, s') \<Rightarrow> checkPieces svc D maddr lu claims now ps s')"

definition doctorIteration ::
  "'s lidService \<Rightarrow> doctorEnv \<Rightarrow> address \<Rightarrow> SectorStateUpdates option \<Rightarrow> time \<Rightarrow> 's \<Rightarrow>
    goerr option \<times> 's" where
  "doctorIteration svc D maddr latest now s =
     (case latest of
        None \<Rightarrow> (None, s)
      | Some lu \<Rightarrow>
          (case drChainHead D of
             Some err \<Rightarrow> (Some err, s)
           | None \<Rightarrow>
               (case svcNextPiecesToCheck svc s now maddr of
                  (Inl err, s') \<Rightarrow> (Some err, s')
                | (Inr pcids, s') \<Rightarrow>
                    (case drGetClaims D maddr of
                       Inl err \<Rightarrow> (Some (errorf_w ''getting claims for the miner: '' err), s')
                     | Inr claims \<Rightarrow> checkPieces svc D maddr lu claims now pcids s'))))"

section \<open>What the loops compute\<close>

text \<open>
  The sector of a deal on this miner, whose actor ID is \<open>mid\<close>.
\<close>

definition dealSector :: "u64 \<Rightarrow> DealInfo \<Rightarrow> SectorID" where
  "dealSector mid dl = \<lparr>Miner = mid, Number = SectorID dl\<rparr>"

lemma activeLoop_spec:
  assumes "drIDFromAddress D maddr = Inr mid"
  shows "activeLoop D lu maddr deals has lacks chain =
    (let mine = filter (\<lambda>dl. MinerAddr dl = maddr) deals;
         active = filter (\<lambda>dl. ActiveSectors lu (dealSector mid dl)) mine
     in Inr (has \<or> mine \<noteq> [], lacks \<and> active = [], chain @ active))"
  using assms
  by (induction deals arbitrary: has lacks chain) (auto simp: Let_def dealSector_def)

lemma onChainLoop_spec:
  "onChainLoop md claims deals found \<longleftrightarrow> found \<or>
    (\<exists>dl\<in>set deals. if IsDirectDeal dl then SectorID dl \<in> set claims else md (ChainDealID dl))"
  by (induction deals arbitrary: found) auto

lemma unsealedLoop_spec:
  assumes "drIDFromAddress D maddr = Inr mid"
  shows "unsealedLoop D lu maddr deals =
    Inr (\<exists>dl\<in>set deals. MinerAddr dl = maddr \<and>
      SectorStates lu (dealSector mid dl) = Some SealStateUnsealed)"
  using assms by (induction deals) (auto simp: dealSector_def)

text \<open>The decision, as a function of what the doctor reads: the new flag of the piece.\<close>

definition verdict ::
  "doctorEnv \<Rightarrow> address \<Rightarrow> u64 \<Rightarrow> SectorStateUpdates \<Rightarrow> u64 list \<Rightarrow> Metadata option \<Rightarrow> bool \<Rightarrow>
    bool option \<Rightarrow> bool option" where
  "verdict D maddr mid lu claims md indexed old =
     (case md of
        None \<Rightarrow> None
      | Some md \<Rightarrow>
          let mine = filter (\<lambda>dl. MinerAddr dl = maddr) (Deals md);
              active = filter (\<lambda>dl. ActiveSectors lu (dealSector mid dl)) mine;
              onChain = (case drMarketDeal D of None \<Rightarrow> True | Some m \<Rightarrow>
                \<exists>dl\<in>set active. if IsDirectDeal dl then SectorID dl \<in> set claims else m (ChainDealID dl));
              unsealed = (\<exists>dl\<in>set mine. SectorStates lu (dealSector mid dl) = Some SealStateUnsealed)
          in if mine = [] then old
             else if active = [] \<or> \<not> onChain then None
             else if indexed \<and> unsealed then None
             else Some unsealed)"

lemma verdict_if:
  "(if M then x else if A then None else if b \<and> u then None else Some u) =
    (if M then x else if A then None else if \<not> b \<or> \<not> u then Some u else None)"
  by simp

context lid_service
begin

lemma unflagOr_ok:
  assumes "invar s" and "unflagOr svc s p a msg = (e, s')"
  shows "e = None \<and> invar s' \<and> flagged s' = (flagged s)(a := (flagged s a)(p := None)) \<and>
      svcGetPieceMetadata svc s' = svcGetPieceMetadata svc s \<and>
      svcIsIndexed svc s' = svcIsIndexed svc s"
proof -
  obtain e1 s1 where u: "svcUnflagPiece svc s p a = (e1, s1)" by fastforce
  from unflag [OF assms(1) u] u assms(2) show ?thesis by (auto simp: unflagOr_def)
qed

lemma checkPiece_ok:
  assumes inv: "invar s" and mid: "drIDFromAddress D maddr = Inr mid"
    and r: "checkPiece svc D maddr lu claims now p s = (e, s')"
  shows "e = None \<and> invar s' \<and>
    flagged s' = (flagged s)(maddr := (flagged s maddr)
      (p := verdict D maddr mid lu claims
         (case svcGetPieceMetadata svc s p of Inl _ \<Rightarrow> None | Inr md \<Rightarrow> Some md)
         (svcIsIndexed svc s p = Inr True) (flagged s maddr p))) \<and>
    svcGetPieceMetadata svc s' = svcGetPieceMetadata svc s \<and>
    svcIsIndexed svc s' = svcIsIndexed svc s"
proof (cases "svcGetPieceMetadata svc s p")
  case (Inl err)
  obtain e1 s1 where u: "unflagOr svc s p maddr ''failed to unflag the missing piece: '' = (e1, s1)"
    by fastforce
  note u1 = unflagOr_ok [OF inv u]
  then have inv1: "invar s1" by blast
  obtain e2 s2 where t: "svcUntrackPiece svc s1 p maddr = (e2, s2)" by fastforce
  from untrack [OF inv1 t] u1 u t r Inl metadata_total [OF inv Inl] show ?thesis
    by (simp add: checkPiece_def verdict_def)
next
  case (Inr md)
  obtain b where b: "svcIsIndexed svc s p = Inr b" using indexed_total [OF inv] by blast
  let ?mine = "filter (\<lambda>dl. MinerAddr dl = maddr) (Deals md)"
  let ?active = "filter (\<lambda>dl. ActiveSectors lu (dealSector mid dl)) ?mine"
  let ?unsealed = "\<exists>dl\<in>set ?mine. SectorStates lu (dealSector mid dl) = Some SealStateUnsealed"
  have un: "unsealedLoop D lu maddr (Deals md) = Inr ?unsealed"
    using unsealedLoop_spec [OF mid, of lu "Deals md"] by auto
  have ac: "activeLoop D lu maddr (Deals md) False True [] = Inr (?mine \<noteq> [], ?active = [], ?active)"
    by (simp add: activeLoop_spec [OF mid] Let_def)
  let ?off = "case drMarketDeal D of None \<Rightarrow> False | Some m \<Rightarrow> \<not> onChainLoop m claims ?active False"
  have off: "?off \<longleftrightarrow> \<not> (case drMarketDeal D of None \<Rightarrow> True | Some m \<Rightarrow>
      \<exists>dl\<in>set ?active. if IsDirectDeal dl then SectorID dl \<in> set claims else m (ChainDealID dl))"
    by (cases "drMarketDeal D") (simp_all only: onChainLoop_spec option.case simp_thms)
  obtain e1 s1 where u: "unflagOr svc s p maddr ''failed to unflag piece: '' = (e1, s1)" by fastforce
  note u1 = unflagOr_ok [OF inv u]
  obtain e2 s2 where f: "svcFlagPiece svc s now p ?unsealed maddr = (e2, s2)" by fastforce
  note f1 = flag [OF inv f]
  have eq: "checkPiece svc D maddr lu claims now p s =
      (if ?mine = [] then (None, s)
       else if ?active = [] \<or> ?off then (e1, s1)
       else if \<not> b \<or> \<not> ?unsealed then
         (case (e2, s2) of (Some err, s') \<Rightarrow> (Some (errorf_w ''failed to flag piece: '' err), s')
          | (None, s') \<Rightarrow> (None, s'))
       else (e1, s1))"
    unfolding checkPiece_def Inr sum.case ac prod.case un b u f by simp
  have v: "verdict D maddr mid lu claims (Some md) b old =
      (if ?mine = [] then old else if ?active = [] \<or> ?off then None
       else if \<not> b \<or> \<not> ?unsealed then Some ?unsealed else None)" for old
    unfolding off verdict_def option.case Let_def not_not by (rule verdict_if)
  have bt: "(svcIsIndexed svc s p = Inr True) = b" by (simp add: b)
  show ?thesis
    unfolding Inr sum.case bt v using r inv u1 f1 unfolding eq by (auto split: if_splits)
qed

text \<open>The pieces of one turn are distinct, so each gets its own verdict.\<close>

lemma checkPieces_ok:
  assumes "invar s" and mid: "drIDFromAddress D maddr = Inr mid" and "distinct ps"
    and "checkPieces svc D maddr lu claims now ps s = (e, s')"
  shows "e = None \<and> invar s' \<and>
    (\<forall>a q. flagged s' a q =
      (if a = maddr \<and> q \<in> set ps then
         verdict D maddr mid lu claims
           (case svcGetPieceMetadata svc s q of Inl _ \<Rightarrow> None | Inr md \<Rightarrow> Some md)
           (svcIsIndexed svc s q = Inr True) (flagged s maddr q)
       else flagged s a q))"
  using assms(1,3,4)
proof (induction ps arbitrary: s)
  case (Cons p ps)
  obtain e1 s1 where c: "checkPiece svc D maddr lu claims now p s = (e1, s1)" by fastforce
  note c1 = checkPiece_ok [OF Cons.prems(1) mid c]
  then have inv1: "invar s1" and "e1 = None" by blast+
  with Cons.prems(3) c have rest: "checkPieces svc D maddr lu claims now ps s1 = (e, s')" by simp
  have d: "distinct ps" and p: "p \<notin> set ps" using Cons.prems(2) by auto
  from Cons.IH [OF inv1 d rest] c1 p show ?case by auto
qed auto

lemma doctorIteration_ok:
  assumes inv: "invar s" and mid: "drIDFromAddress D maddr = Inr mid"
    and head: "drChainHead D = None" and claims: "drGetClaims D maddr = Inr claims"
    and next_ps: "svcNextPiecesToCheck svc s now maddr = (Inr ps, s1)"
    and r: "doctorIteration svc D maddr (Some lu) now s = (e, s')"
  shows "e = None \<and> invar s' \<and>
    (\<forall>a q. flagged s' a q =
      (if a = maddr \<and> q \<in> set ps then
         verdict D maddr mid lu claims
           (case svcGetPieceMetadata svc s q of Inl _ \<Rightarrow> None | Inr md \<Rightarrow> Some md)
           (svcIsIndexed svc s q = Inr True) (flagged s maddr q)
       else flagged s a q))"
proof -
  from next_pieces [OF inv next_ps] have n: "invar s1" "flagged s1 = flagged s" "distinct ps"
    "svcGetPieceMetadata svc s1 = svcGetPieceMetadata svc s" "svcIsIndexed svc s1 = svcIsIndexed svc s"
    by auto
  from r head claims next_ps have "checkPieces svc D maddr lu claims now ps s1 = (e, s')"
    by (simp add: doctorIteration_def)
  from checkPieces_ok [OF n(1) mid n(3) this] show ?thesis by (simp add: n)
qed

end

end
