(* ===== verification/LdbService.thy ===== *)
theory LdbService
  imports LdbDoctor Doctor
begin

text \<open>
  The LevelDB store as the index service of the doctor and of the piece directory: \<open>ldbService W\<close>
  over the pair of the datastore state and the in-memory state of the scan. The interpretation
  proves that it meets the contract \<open>lid_service\<close>; the properties of the doctor on this store
  follow.
\<close>

definition ldbService :: "'s world \<Rightarrow> ('s \<times> checker) lidService" where
  "ldbService W =
     \<lparr>svcGetPieceMetadata = (\<lambda>s p. Store_GetPieceMetadata W (fst s) p),
      svcGetPieceDeals = (\<lambda>s p. Store_GetPieceDeals W (fst s) p),
      svcIsIndexed = (\<lambda>s p. Store_IsIndexed W (fst s) p),
      svcIsCompleteIndex = (\<lambda>s p. Store_IsCompleteIndex W (fst s) p),
      svcGetOffsetSize = (\<lambda>s p m. Store_GetOffsetSize W (fst s) p m),
      svcPiecesContainingMultihash = (\<lambda>s m. Store_PiecesContainingMultihash W (fst s) m),
      svcAddDealForPiece = (\<lambda>s p dl. apsnd (\<lambda>t. (t, snd s)) (Store_AddDealForPiece W (fst s) p dl)),
      svcRemoveDealForPiece =
        (\<lambda>s p uuid. apsnd (\<lambda>t. (t, snd s)) (Store_RemoveDealForPiece W (fst s) p uuid)),
      svcFlagPiece =
        (\<lambda>s now p huc a. apsnd (\<lambda>t. (t, snd s)) (Store_FlagPiece W (fst s) now p huc a)),
      svcUnflagPiece = (\<lambda>s p a. apsnd (\<lambda>t. (t, snd s)) (Store_UnflagPiece W (fst s) p a)),
      svcUntrackPiece = (\<lambda>s p a. apsnd (\<lambda>t. (t, snd s)) (Store_UntrackPiece (fst s) p a)),
      svcNextPiecesToCheck =
        (\<lambda>s now a. apsnd (\<lambda>ck. (fst s, ck)) (Store_NextPiecesToCheck W (fst s) (snd s) now a))\<rparr>"

definition ldbInv ::
  "'s world \<Rightarrow> ('s \<Rightarrow> string \<Rightarrow> dsval option) \<Rightarrow> ('s \<Rightarrow> string \<Rightarrow> (string \<times> dsval) list) \<Rightarrow>
    's \<times> checker \<Rightarrow> bool" where
  "ldbInv W view listing s \<longleftrightarrow> world_ok W view listing \<and> wf_store W view (fst s)"

text \<open>The unsealed-copy bit of a flag, as the service shows it.\<close>

definition ldbFlagged ::
  "'s world \<Rightarrow> ('s \<Rightarrow> string \<Rightarrow> dsval option) \<Rightarrow> 's \<times> checker \<Rightarrow> address \<Rightarrow> cid \<Rightarrow> bool option" where
  "ldbFlagged W view s a p = map_option fmHasUnsealedCopy (lidFlags (lid_of W view (fst s)) a p)"

lemma GetPieceMetadata_cong:
  assumes ok: "world_ok W view listing" and "wf_store W view s" and "wf_store W view s'"
    and "lidPieces (lid_of W view s') = lidPieces (lid_of W view s)"
  shows "Store_GetPieceMetadata W s' = Store_GetPieceMetadata W s"
  using assms by (simp add: fun_eq_iff GetPieceMetadata_lid [OF ok])

lemma IsIndexed_lid:
  assumes ok: "world_ok W view listing" and wf: "wf_store W view s"
  shows "Store_IsIndexed W s p =
    Inr (case lidPieces (lid_of W view s) p of None \<Rightarrow> False | Some md \<Rightarrow> \<not> time_IsZero (IndexedAt md))"
  by (simp add: Store_IsIndexed_def Store_IndexedAt_def DB_GetPieceCidToMetadata_lid [OF ok wf]
      zeroLeveldbMetadata_def time_IsZero_def time_zero_def split: option.split)

lemma IsIndexed_cong:
  assumes ok: "world_ok W view listing" and "wf_store W view s" and "wf_store W view s'"
    and "lidPieces (lid_of W view s') = lidPieces (lid_of W view s)"
  shows "Store_IsIndexed W s' = Store_IsIndexed W s"
  using assms by (simp add: fun_eq_iff IsIndexed_lid [OF ok])

lemmas service_cong = GetPieceMetadata_cong IsIndexed_cong

interpretation ldb: lid_service "ldbService W" "ldbInv W view listing" "ldbFlagged W view"
  for W :: "'s world" and view listing
proof (unfold_locales, goal_cases)
  case (1 s now p huc a e s')
  obtain e1 t where f: "Store_FlagPiece W (fst s) now p huc a = (e1, t)" by fastforce
  from 1 f have es: "e = e1" "s' = (t, snd s)" by (auto simp: ldbService_def)
  from 1 have ok: "world_ok W view listing" and wf: "wf_store W view (fst s)" by (auto simp: ldbInv_def)
  from Store_FlagPiece_refines [OF ok wf f] have r: "e1 = None" "wf_store W view t"
    "lid_of W view t = lidFlagPiece now p huc a (lid_of W view (fst s))" by auto
  have pc: "lidPieces (lid_of W view t) = lidPieces (lid_of W view (fst s))"
    by (simp add: r(3) lidFlagPiece_def Let_def)
  have fl: "ldbFlagged W view s' = (ldbFlagged W view s)(a := (ldbFlagged W view s a)(p \<mapsto> huc))"
    by (auto simp: fun_eq_iff ldbFlagged_def es r(3) lidFlagPiece_def Let_def)
  show ?case
    using es r ok fl service_cong [OF ok wf r(2) pc] by (simp add: ldbInv_def ldbService_def)
next
  case (2 s p a e s')
  obtain e1 t where f: "Store_UnflagPiece W (fst s) p a = (e1, t)" by fastforce
  from 2 f have es: "e = e1" "s' = (t, snd s)" by (auto simp: ldbService_def)
  from 2 have ok: "world_ok W view listing" and wf: "wf_store W view (fst s)" by (auto simp: ldbInv_def)
  from Store_UnflagPiece_refines [OF ok wf f] have r: "e1 = None" "wf_store W view t"
    "lid_of W view t = lidUnflagPiece p a (lid_of W view (fst s))" by auto
  have pc: "lidPieces (lid_of W view t) = lidPieces (lid_of W view (fst s))"
    by (simp add: r(3) lidUnflagPiece_def)
  have fl: "ldbFlagged W view s' = (ldbFlagged W view s)(a := (ldbFlagged W view s a)(p := None))"
    by (auto simp: fun_eq_iff ldbFlagged_def es r(3) lidUnflagPiece_def)
  show ?case
    using es r ok fl service_cong [OF ok wf r(2) pc] by (simp add: ldbInv_def ldbService_def)
next
  case (3 s p a e s')
  then show ?case by (auto simp: ldbService_def Store_UntrackPiece_def)
next
  case (4 s now a r s')
  from 4 have ok: "world_ok W view listing" and wf: "wf_store W view (fst s)" by (auto simp: ldbInv_def)
  from piecesIn_ex [OF ok wf] obtain ps where ps: "piecesIn W view listing (fst s) ps" by blast
  let ?found = "map fst (filter (due W (ckChecked (snd s)) a now)
    (take PiecesToTrackerBatchSize (drop (ckOffset (snd s)) ps)))"
  have r: "r = Inr ?found" and s': "fst s' = fst s"
    using 4(2) DB_NextPiecesToCheck_lid [OF ok wf ps, of "snd s" now a]
    by (auto simp: ldbService_def Store_NextPiecesToCheck_def)
  have "distinct ?found"
    using ps by (intro distinct_map_filter)
      (simp add: piecesIn_def take_map [symmetric] drop_map [symmetric])
  then show ?case
    using r s' ok wf by (simp add: ldbInv_def ldbFlagged_def [abs_def] ldbService_def)
next
  case (5 s p err)
  then show ?case
    by (auto simp: ldbInv_def ldbService_def GetPieceMetadata_lid typesErrNotFound_def
        containsStr_append_right split: option.splits)
next
  case (6 s p)
  then show ?case by (auto simp: ldbInv_def ldbService_def IsIndexed_lid)
qed

text \<open>
  One turn of the piece doctor on the LevelDB store brings the flags in line with the pieces: it
  succeeds, and every piece that the store gave it to check is flagged afterwards exactly when it has
  a deal on this miner that is in an active sector and on chain and the piece is not indexed or has no
  unsealed copy (with that bit); a piece that is gone, inactive, off chain or healthy is unflagged, a
  piece without a deal on this miner and every piece that was not given keep their flags.
\<close>

theorem doctor_turn_flags:
  assumes "ldbInv W view listing s" and "drIDFromAddress D maddr = Inr mid"
    and "drChainHead D = None" and "drGetClaims D maddr = Inr claims"
    and "svcNextPiecesToCheck (ldbService W) s now maddr = (Inr ps, s1)"
    and "doctorIteration (ldbService W) D maddr (Some lu) now s = (e, s')"
  shows "e = None \<and> ldbInv W view listing s' \<and>
    (\<forall>a q. ldbFlagged W view s' a q =
      (if a = maddr \<and> q \<in> set ps then
         verdict D maddr mid lu claims
           (case svcGetPieceMetadata (ldbService W) s q of Inl _ \<Rightarrow> None | Inr md \<Rightarrow> Some md)
           (svcIsIndexed (ldbService W) s q = Inr True) (ldbFlagged W view s maddr q)
       else ldbFlagged W view s a q))"
  using assms by (rule ldb.doctorIteration_ok)

definition demoDoctor :: doctorEnv where
  "demoDoctor = \<lparr>drIDFromAddress = (\<lambda>_. Inr 1), drMarketDeal = None, drChainHead = None,
     drGetClaims = (\<lambda>_. Inr [])\<rparr>"

definition demoLu :: SectorStateUpdates where
  "demoLu = \<lparr>Updates = Map.empty, ActiveSectors = (\<lambda>_. True), SectorWithDeals = (\<lambda>_. False),
     SectorStates = Map.empty, UpdatedAt = 0\<rparr>"

theorem doctor_turn_flags_witness:
  "\<exists>s'. ldbFlagged demoWorld map_of s' ''m'' ''p'' = Some False"
proof -
  let ?s = "(demo2, initChecker)"
  have inv: "ldbInv demoWorld map_of demoListing ?s" by (simp add: ldbInv_def demo_ok demo2_lid(1))
  obtain r s1 where n: "svcNextPiecesToCheck (ldbService demoWorld) ?s 0 ''m'' = (r, s1)"
    by (rule prod.exhaust)
  have md: "svcGetPieceMetadata (ldbService demoWorld) ?s ''p'' =
      Inr \<lparr>Version = ''1'', IndexedAt = 5, CompleteIndex = False, Deals = [demoDeal]\<rparr>"
    by (simp add: ldbService_def GetPieceMetadata_lid [OF demo_ok demo2_lid(1)] demo2_lid(2)
        Metadata.defs)
  have all: "''p'' \<in> set (scanCalls demoWorld demo2 ''m'' initChecker [0])"
    by (rule scanCalls_demo2)
  then obtain ps ck where c: "Store_NextPiecesToCheck demoWorld demo2 initChecker 0 ''m'' = (Inr ps, ck)"
    and p: "''p'' \<in> set ps"
    by (cases "Store_NextPiecesToCheck demoWorld demo2 initChecker 0 ''m''")
      (auto split: sum.splits)
  from n c have ps: "r = Inr ps" "''p'' \<in> set ps" using p by (auto simp: ldbService_def)
  obtain e s' where it: "doctorIteration (ldbService demoWorld) demoDoctor ''m'' (Some demoLu) 0 ?s = (e, s')"
    by (rule prod.exhaust)
  have "ldbFlagged demoWorld map_of s' ''m'' ''p'' = Some False"
    using doctor_turn_flags [OF inv _ _ _ n [unfolded ps(1)] it, of 1 "[]"] ps(2)
    by (simp add: demoDoctor_def md verdict_def demoDeal_def demoLu_def dealSector_def)
  then show ?thesis by blast
qed

end
