(* ===== verification/PubSub.thy ===== *)
theory PubSub
  imports SectorState
begin

text \<open>
  The publisher of sector state updates (\<open>lib/boost/sectorstatemgr/pubsub.go\<close>). A subscription is
  an unbuffered Go channel: a send in a \<open>select\<close> with a \<open>default\<close> succeeds exactly when a
  receiver is waiting, and a send to, or a second close of, a closed channel panics. \<open>UpdateLatest\<close>
  is the receiver of the manager itself.
\<close>

record psChan =
  chOpen :: bool
  chWaiting :: bool
  chGot :: "SectorStateUpdates list"

record pubSub =
  subs :: "psChan list"
  closed :: bool

definition NewPubSub :: pubSub where
  "NewPubSub = \<lparr>subs = [], closed = False\<rparr>"

text \<open>\<open>select { case ch <- msg: default: }\<close>\<close>

definition trySend :: "SectorStateUpdates \<Rightarrow> psChan \<Rightarrow> psChan outcome" where
  "trySend msg ch =
     (if \<not> chOpen ch then Panic
      else if chWaiting ch then Ret (ch\<lparr>chWaiting := False, chGot := chGot ch @ [msg]\<rparr>)
      else Ret ch)"

definition closeChan :: "psChan \<Rightarrow> psChan outcome" where
  "closeChan ch = (if \<not> chOpen ch then Panic else Ret (ch\<lparr>chOpen := False, chWaiting := False\<rparr>))"

fun forSubs :: "(psChan \<Rightarrow> psChan outcome) \<Rightarrow> psChan list \<Rightarrow> psChan list outcome" where
  "forSubs f [] = Ret []"
| "forSubs f (ch # chs) =
     (case f ch of
        Ret ch' \<Rightarrow> (case forSubs f chs of Ret chs' \<Rightarrow> Ret (ch' # chs') | Fail e \<Rightarrow> Fail e | Panic \<Rightarrow> Panic)
      | Fail e \<Rightarrow> Fail e
      | Panic \<Rightarrow> Panic)"

definition Publish :: "pubSub \<Rightarrow> SectorStateUpdates \<Rightarrow> pubSub outcome" where
  "Publish b msg =
     (if closed b then Ret b
      else case forSubs (trySend msg) (subs b) of
          Ret chs \<Rightarrow> Ret (b\<lparr>subs := chs\<rparr>) | Fail e \<Rightarrow> Fail e | Panic \<Rightarrow> Panic)"

text \<open>\<open>Subscribe\<close> returns a nil channel (\<open>None\<close>) when closed, else the new channel's index.\<close>

definition Subscribe :: "pubSub \<Rightarrow> nat option \<times> pubSub" where
  "Subscribe b =
     (if closed b then (None, b)
      else (Some (length (subs b)),
            b\<lparr>subs := subs b @ [\<lparr>chOpen = True, chWaiting = False, chGot = []\<rparr>]\<rparr>))"

definition Close :: "pubSub \<Rightarrow> pubSub outcome" where
  "Close b =
     (if closed b then Ret b
      else case forSubs closeChan (subs b) of
          Ret chs \<Rightarrow> Ret (b\<lparr>closed := True, subs := chs\<rparr>) | Fail e \<Rightarrow> Fail e | Panic \<Rightarrow> Panic)"

text \<open>A subscriber starts to receive: it waits when the channel is open, else it gets nothing.\<close>

definition receive :: "pubSub \<Rightarrow> nat \<Rightarrow> pubSub" where
  "receive b i =
     (if i < length (subs b) \<and> chOpen (subs b ! i)
      then b\<lparr>subs := (subs b)[i := (subs b ! i)\<lparr>chWaiting := True\<rparr>]\<rparr> else b)"

section \<open>The manager's receiver\<close>

text \<open>\<open>UpdateLatest\<close>: each update received becomes \<open>LatestUpdate\<close>.\<close>

definition latestUpdate :: "psChan \<Rightarrow> SectorStateUpdates option" where
  "latestUpdate ch = fold (\<lambda>u _. Some u) (chGot ch) None"

lemma latestUpdate_last: "latestUpdate ch = (if chGot ch = [] then None else Some (last (chGot ch)))"
proof -
  have "fold (\<lambda>u _. Some u) xs z = (if xs = [] then z else Some (last xs))"
    for xs :: "SectorStateUpdates list" and z
    by (induction xs arbitrary: z) auto
  then show ?thesis by (simp add: latestUpdate_def)
qed

section \<open>No panic\<close>

inductive psReachable :: "pubSub \<Rightarrow> bool" where
  new: "psReachable NewPubSub"
| publish: "psReachable b \<Longrightarrow> Publish b msg = Ret b' \<Longrightarrow> psReachable b'"
| subscribe: "psReachable b \<Longrightarrow> Subscribe b = (r, b') \<Longrightarrow> psReachable b'"
| close: "psReachable b \<Longrightarrow> Close b = Ret b' \<Longrightarrow> psReachable b'"
| receive: "psReachable b \<Longrightarrow> psReachable (receive b i)"

definition psInv :: "pubSub \<Rightarrow> bool" where
  "psInv b \<longleftrightarrow> (\<forall>ch\<in>set (subs b). chOpen ch = (\<not> closed b) \<and> (chWaiting ch \<longrightarrow> chOpen ch))"

lemma forSubs_map: "(\<And>ch. ch \<in> set chs \<Longrightarrow> f ch = Ret (g ch)) \<Longrightarrow> forSubs f chs = Ret (map g chs)"
  by (induction chs) auto

definition deliver :: "SectorStateUpdates \<Rightarrow> psChan \<Rightarrow> psChan" where
  "deliver msg ch = (if chWaiting ch then ch\<lparr>chWaiting := False, chGot := chGot ch @ [msg]\<rparr> else ch)"

lemma Publish_inv:
  assumes "psInv b"
  shows "Publish b msg = Ret (if closed b then b else b\<lparr>subs := map (deliver msg) (subs b)\<rparr>)"
proof (cases "closed b")
  case False
  with assms have "ch \<in> set (subs b) \<Longrightarrow> trySend msg ch = Ret (deliver msg ch)" for ch
    by (simp add: psInv_def trySend_def deliver_def)
  then have "forSubs (trySend msg) (subs b) = Ret (map (deliver msg) (subs b))" by (rule forSubs_map)
  with False show ?thesis by (simp add: Publish_def)
qed (simp add: Publish_def)

lemma Close_inv:
  assumes "psInv b"
  shows "Close b = Ret (if closed b then b
    else b\<lparr>closed := True, subs := map (\<lambda>ch. ch\<lparr>chOpen := False, chWaiting := False\<rparr>) (subs b)\<rparr>)"
proof (cases "closed b")
  case False
  with assms have "ch \<in> set (subs b) \<Longrightarrow> closeChan ch = Ret (ch\<lparr>chOpen := False, chWaiting := False\<rparr>)"
    for ch by (simp add: psInv_def closeChan_def)
  then have "forSubs closeChan (subs b) =
      Ret (map (\<lambda>ch. ch\<lparr>chOpen := False, chWaiting := False\<rparr>) (subs b))" by (rule forSubs_map)
  with False show ?thesis by (simp add: Close_def)
qed (simp add: Close_def)

lemma psReachable_inv: "psReachable b \<Longrightarrow> psInv b"
proof (induction rule: psReachable.induct)
  case new
  then show ?case by (simp add: psInv_def NewPubSub_def)
next
  case (publish b msg b')
  with Publish_inv [OF publish.IH, of msg]
  have "b' = (if closed b then b else b\<lparr>subs := map (deliver msg) (subs b)\<rparr>)" by simp
  with publish.IH show ?case by (auto simp: psInv_def deliver_def)
next
  case (subscribe b r b')
  then show ?case by (auto simp: Subscribe_def psInv_def split: if_splits)
next
  case (close b b')
  with Close_inv [OF close.IH] have "b' = (if closed b then b else b\<lparr>closed := True,
      subs := map (\<lambda>ch. ch\<lparr>chOpen := False, chWaiting := False\<rparr>) (subs b)\<rparr>)" by simp
  with close.IH show ?case by (auto simp: psInv_def)
next
  case (receive b i)
  show ?case
  proof (cases "i < length (subs b) \<and> chOpen (subs b ! i)")
    case True
    let ?ch = "(subs b ! i)\<lparr>chWaiting := True\<rparr>"
    have rb: "receive b i = b\<lparr>subs := (subs b)[i := ?ch]\<rparr>" using True by (simp add: receive_def)
    have "subs b ! i \<in> set (subs b)" using True by simp
    with receive.IH have ok: "chOpen ?ch = (\<not> closed b)" "chOpen ?ch"
      using True by (auto simp: psInv_def)
    have "ch = ?ch \<or> ch \<in> set (subs b)" if "ch \<in> set ((subs b)[i := ?ch])" for ch
      using that set_update_subset_insert [of "subs b" i ?ch] by blast
    with receive.IH ok show ?thesis unfolding psInv_def rb by fastforce
  next
    case False
    then have "receive b i = b" by (auto simp: receive_def)
    with receive.IH show ?thesis by simp
  qed
qed

text \<open>
  C20: In every state that calls of \<open>Publish\<close>, \<open>Subscribe\<close>, \<open>Close\<close> and receivers can reach,
  publishing and closing do not panic, however often and in whatever order they are called; an open
  publisher hands the update to exactly the subscribers that wait, and a closed one to none.
\<close>

theorem pubsub_never_panics:
  assumes "psReachable b"
  shows "\<exists>b'. Publish b msg = Ret b' \<and> length (subs b') = length (subs b) \<and>
    (\<forall>i < length (subs b). chGot (subs b' ! i) =
       chGot (subs b ! i) @ (if chWaiting (subs b ! i) \<and> \<not> closed b then [msg] else [])) \<and>
    (\<exists>b''. Close b' = Ret b'' \<and> closed b'' \<and> Publish b'' msg = Ret b'')"
proof -
  have inv: "psInv b" using assms by (rule psReachable_inv)
  let ?b' = "if closed b then b else b\<lparr>subs := map (deliver msg) (subs b)\<rparr>"
  have pub: "Publish b msg = Ret ?b'" by (rule Publish_inv [OF inv])
  have "psReachable ?b'" using assms pub by (rule psReachable.publish)
  then have inv': "psInv ?b'" by (rule psReachable_inv)
  obtain b'' where c: "Close ?b' = Ret b''" "closed b''"
    using Close_inv [OF inv'] by (cases "closed ?b'") auto
  have "Publish b'' msg = Ret b''" using c(2) by (simp add: Publish_def)
  with pub c show ?thesis by (intro exI [of _ ?b']) (auto simp: deliver_def)
qed

theorem pubsub_never_panics_witness: "\<exists>b'. Publish NewPubSub demoSsu = Ret b'"
  using pubsub_never_panics [OF psReachable.new] by blast

end
