(* ===== verification/PieceDirectory.thy ===== *)
theory PieceDirectory
  imports Service
begin

text \<open>
  The piece directory (\<open>lib/boost/piecedirectory/piecedirectory.go\<close>), its sequential behaviour:
  finding a readable copy of a piece, parsing its index from a data segment index or a CAR, and the
  blockstore calls. The index service is the record \<open>lidService\<close>; the sector accessor, the CAR and
  data-segment libraries and \<open>go-multierror\<close> are the record \<open>pdEnv\<close> over opaque readers \<open>'r\<close>, data
  segments \<open>'g\<close> and block contents. The blockstore reads through the shared readers of the cache, whose
  content is a state of its own; between two steps of a call other callers may change it. What the
  throttle makes of an index operation is the value \<open>idxTurn\<close>. The interleavings of the throttle
  and the reference counts of the cached readers are step relations in their own theories
  (\<open>IndexThrottle\<close>, \<open>ReaderCache\<close>).
\<close>

text \<open>What reading the data segment index gives; a panic inside the library is recovered.\<close>

datatype 'g segIndex = SegPanic | SegErr goerr | SegEntries "'g list"

text \<open>
  What becomes of a call of \<open>addIndexForPieceThrottled\<close>: it starts the operation and gets a slot, it
  joins one in progress for the piece and is given that one's result, or its context is done first.
\<close>

datatype idxTurn = RunsIt | JoinsOp "goerr option" | CtxDone goerr

record ('r, 'g) pdEnv =
  getReader :: "address \<Rightarrow> u64 \<Rightarrow> u64 \<Rightarrow> u64 \<Rightarrow> goerr + 'r"
  seekEnd :: "'r \<Rightarrow> goerr option"
  seekStart :: "'r \<Rightarrow> u64 \<Rightarrow> goerr option"
  unpadded :: "u64 \<Rightarrow> u64"
  padded :: "u64 \<Rightarrow> u64"
  indexStartOffset :: "u64 \<Rightarrow> u64"
  parseIndex :: "'r \<Rightarrow> u64 \<Rightarrow> 'g segIndex"
  segValidate :: "'g \<Rightarrow> goerr option"
  segOffset :: "'g \<Rightarrow> u64"
  segLength :: "'g \<Rightarrow> u64"
  blockReader :: "'r \<Rightarrow> (u64 \<times> u64) option \<Rightarrow> goerr + IndexedBlock list \<times> goerr"
  readNode :: "'r \<Rightarrow> u64 \<Rightarrow> u64 \<Rightarrow> goerr + cid \<times> string"
  pdCidHash :: "cid \<Rightarrow> multihash"
  mhDecode :: "multihash \<Rightarrow> goerr + bool \<times> string"
  multiErr :: "goerr list \<Rightarrow> goerr"
  numCPU :: nat
  idxTurn :: "cid \<Rightarrow> DealInfo \<Rightarrow> idxTurn"

definition PodsiMinConcurrency :: nat where "PodsiMinConcurrency = 4"
definition PodsiMaxConcurrency :: nat where "PodsiMaxConcurrency = 32"

section \<open>Parsing an index\<close>

text \<open>
  \<open>SkipNext\<close> yields the blocks and then an error; only the end of the file ends it well.
\<close>

definition parseRecordsFromCar ::
  "('r, 'g) pdEnv \<Rightarrow> 'r \<Rightarrow> (u64 \<times> u64) option \<Rightarrow> goerr + IndexedBlock list" where
  "parseRecordsFromCar E reader section' =
     (case blockReader E reader section' of
        Inl err \<Rightarrow> Inl (errorf_w ''getting block reader over piece: '' err)
      | Inr (recs, err) \<Rightarrow>
          if \<not> errors_Is err IoEOF then Inl (errorf_w ''generating index for piece: '' err)
          else Inr recs)"

fun validateLoop :: "('r, 'g) pdEnv \<Rightarrow> nat \<Rightarrow> 'g list \<Rightarrow> 'g list \<Rightarrow> goerr + 'g list" where
  "validateLoop E i [] res = Inr res"
| "validateLoop E i (e # entries) res =
     (case segValidate E e of
        Some err \<Rightarrow>
          if errors_Is err ErrValidation then validateLoop E (i + 1) entries res
          else Inl (errorf_w (''got unknown error for entry '' @ show_nat i @ '': '') err)
      | None \<Rightarrow> validateLoop E (i + 1) entries (res @ [e]))"

definition validateEntries :: "('r, 'g) pdEnv \<Rightarrow> 'g list \<Rightarrow> goerr + 'g list" where
  "validateEntries E entries = validateLoop E 0 entries []"

definition podsiConcurrency :: "nat \<Rightarrow> nat \<Rightarrow> nat" where
  "podsiConcurrency ncpu entries =
     (let c = (if ncpu < PodsiMinConcurrency then PodsiMinConcurrency else ncpu);
          c' = (if PodsiMaxConcurrency < c then PodsiMaxConcurrency else c)
      in if entries < c' then entries else c')"

text \<open>The bounds of the chunk of goroutine \<open>i\<close>; the last one takes the rest.\<close>

definition chunkOf :: "nat \<Rightarrow> nat \<Rightarrow> 'g list \<Rightarrow> 'g list" where
  "chunkOf concurrency i entries =
     (let chunkSize = length entries div concurrency;
          start = i * chunkSize;
          stop = (if i = concurrency - 1 then length entries else start + chunkSize)
      in take (stop - start) (drop start entries))"

text \<open>
  The goroutines of the error group write to their own slots; \<open>Wait\<close> returns the error of one that
  failed (here the first in the order of the slots).
\<close>

fun collectResults :: "(goerr + 'g list) list \<Rightarrow> goerr + 'g list" where
  "collectResults [] = Inr []"
| "collectResults (Inl err # rs) = Inl err"
| "collectResults (Inr xs # rs) =
     (case collectResults rs of Inl err \<Rightarrow> Inl err | Inr ys \<Rightarrow> Inr (xs @ ys))"

definition validSegments :: "('r, 'g) pdEnv \<Rightarrow> 'g list \<Rightarrow> goerr + 'g list" where
  "validSegments E entries =
     (let concurrency = podsiConcurrency (numCPU E) (length entries) in
      collectResults (map (\<lambda>i. validateEntries E (chunkOf concurrency i entries)) [0..<concurrency]))"

fun parseSegments ::
  "('r, 'g) pdEnv \<Rightarrow> 'r \<Rightarrow> 'g list \<Rightarrow> IndexedBlock list \<Rightarrow> goerr + IndexedBlock list" where
  "parseSegments E r [] recs = Inr recs"
| "parseSegments E r (s # segs) recs =
     (case parseRecordsFromCar E r (Some (segOffset E s, segLength E s)) of
        Inl err \<Rightarrow> Inl (errorf_w (''could not parse data segment #'' @ show_nat (length recs) @
          '' at offset '' @ show_u64 (segOffset E s) @ '': '') err)
      | Inr subRecs \<Rightarrow> parseSegments E r segs
          (recs @ map (\<lambda>b. b\<lparr>Offset := Offset b + segOffset E s\<rparr>) subRecs))"

definition parsePieceWithDataSegmentIndex ::
  "('r, 'g) pdEnv \<Rightarrow> u64 \<Rightarrow> 'r \<Rightarrow> goerr + IndexedBlock list" where
  "parsePieceWithDataSegmentIndex E unpaddedSize r =
     (let dsis = indexStartOffset E (padded E unpaddedSize) in
      case seekEnd E r of
        Some err \<Rightarrow> Inl (errorf_w ''could not seek to end of piece reader: '' err)
      | None \<Rightarrow>
        (case seekStart E r dsis of
           Some err \<Rightarrow> Inl (errorf_w ''could not seek to data segment index: '' err)
         | None \<Rightarrow>
           (case parseIndex E r dsis of
              SegErr err \<Rightarrow> Inl (errorf_w ''could not parse data segment index: '' err)
            | SegPanic \<Rightarrow>
                Inl (errorf ''could not parse data segment index because of an internal panic'')
            | SegEntries entries \<Rightarrow>
                if entries = [] then Inl (errorf ''no data segments found'')
                else case validSegments E entries of
                    Inl err \<Rightarrow> Inl (errorf_w ''could not calculate valid entries: '' err)
                  | Inr valid \<Rightarrow>
                      if valid = [] then Inl (errorf ''no valid data segments found'')
                      else parseSegments E r valid [])))"

text \<open>
  \<open>addIndexForPiece\<close>: in this repository the records are parsed and counted, the call that stores
  them is commented out.
\<close>

definition addIndexForPiece :: "('r, 'g) pdEnv \<Rightarrow> cid \<Rightarrow> DealInfo \<Rightarrow> goerr option" where
  "addIndexForPiece E pieceCid dealInfo =
     (case getReader E (MinerAddr dealInfo) (SectorID dealInfo) (PieceOffset dealInfo)
             (PieceLength dealInfo) of
        Inl err \<Rightarrow> Some (errorf_w (''getting reader over piece: '') err)
      | Inr reader \<Rightarrow>
          (case parsePieceWithDataSegmentIndex E (unpadded E (PieceLength dealInfo)) reader of
             Inr recs \<Rightarrow> None
           | Inl _ \<Rightarrow>
               (case seekStart E reader 0 of
                  Some err \<Rightarrow> Some (errorf_w ''seek to start for piece: '' err)
                | None \<Rightarrow>
                    (case parseRecordsFromCar E reader None of
                       Inl err \<Rightarrow> Some (errorf_w ''parse car for piece: '' err)
                     | Inr recs \<Rightarrow> None))))"

definition addIndexForPieceThrottled ::
  "('r, 'g) pdEnv \<Rightarrow> cid \<Rightarrow> DealInfo \<Rightarrow> goerr option" where
  "addIndexForPieceThrottled E pieceCid dealInfo =
     (case idxTurn E pieceCid dealInfo of
        JoinsOp opErr \<Rightarrow> opErr
      | CtxDone err \<Rightarrow> Some err
      | RunsIt \<Rightarrow> addIndexForPiece E pieceCid dealInfo)"

section \<open>Deals and readers\<close>

definition PD_GetPieceDeals :: "'s lidService \<Rightarrow> 's \<Rightarrow> cid \<Rightarrow> goerr + DealInfo list" where
  "PD_GetPieceDeals svc s pieceCid =
     (case svcGetPieceDeals svc s pieceCid of
        Inl err \<Rightarrow> Inl (errorf_w (''listing deals for piece: '') err)
      | Inr deals \<Rightarrow> Inr deals)"

definition PD_AddDealForPiece ::
  "'s lidService \<Rightarrow> ('r, 'g) pdEnv \<Rightarrow> 's \<Rightarrow> cid \<Rightarrow> DealInfo \<Rightarrow> goerr option \<times> 's" where
  "PD_AddDealForPiece svc E s pieceCid dealInfo =
     (let addDeal =
        (case svcAddDealForPiece svc s pieceCid dealInfo of
           (Some err, s') \<Rightarrow>
             (Some (errorf_w (''saving deal '' @ DealUuid dealInfo @ '' to store: '') err), s')
         | (None, s') \<Rightarrow> (None, s'))
      in case svcIsIndexed svc s pieceCid of
           Inl err \<Rightarrow> (Some err, s)
         | Inr True \<Rightarrow> addDeal
         | Inr False \<Rightarrow>
             (case addIndexForPieceThrottled E pieceCid dealInfo of
                Some err \<Rightarrow> (Some (errorf_w ''adding index for piece: '' err), s)
              | None \<Rightarrow> addDeal))"

definition PD_TxAddDealForPiece ::
  "'s lidService \<Rightarrow> ('r, 'g) pdEnv \<Rightarrow> 's \<Rightarrow> cid \<Rightarrow> DealInfo \<Rightarrow> goerr option" where
  "PD_TxAddDealForPiece svc E s pieceCid dealInfo =
     (case svcIsIndexed svc s pieceCid of
        Inl err \<Rightarrow> Some err
      | Inr _ \<Rightarrow>
          (case addIndexForPieceThrottled E pieceCid dealInfo of
             Some err \<Rightarrow> Some (errorf_w ''adding index for piece: '' err)
           | None \<Rightarrow> None))"

definition PD_RemoveDealForPiece ::
  "'s lidService \<Rightarrow> 's \<Rightarrow> cid \<Rightarrow> string \<Rightarrow> unit outcome \<times> 's" where
  "PD_RemoveDealForPiece svc s pieceCid dealUuid =
     (case svcRemoveDealForPiece svc s pieceCid dealUuid of
        (Fail err, s') \<Rightarrow> (Fail (errorf_w ''deleting deal from piece metadata: '' err), s')
      | r \<Rightarrow> r)"

fun buildLoop :: "('r, 'g) pdEnv \<Rightarrow> cid \<Rightarrow> DealInfo list \<Rightarrow> goerr list \<Rightarrow> goerr option" where
  "buildLoop E pieceCid [] merr = (if merr = [] then None else Some (multiErr E merr))"
| "buildLoop E pieceCid (dl # dls) merr =
     (case addIndexForPieceThrottled E pieceCid dl of
        None \<Rightarrow> None
      | Some err \<Rightarrow>
          buildLoop E pieceCid dls (merr @
            [if IsDirectDeal dl
             then errorf_w (''adding index for allocation ID '' @ show_u64 (ChainDealID dl) @ '': '') err
             else errorf_w (''adding index for piece deal '' @ show_u64 (ChainDealID dl) @ '': '') err]))"

definition PD_BuildIndexForPiece ::
  "'s lidService \<Rightarrow> ('r, 'g) pdEnv \<Rightarrow> 's \<Rightarrow> cid \<Rightarrow> goerr option" where
  "PD_BuildIndexForPiece svc E s pieceCid =
     (case PD_GetPieceDeals svc s pieceCid of
        Inl err \<Rightarrow> Some (errorf_w ''getting piece deals: '' err)
      | Inr dls \<Rightarrow>
          if dls = [] then Some (errorf ''getting piece deals: no deals found for piece'')
          else buildLoop E pieceCid dls [])"

fun readerLoop :: "('r, 'g) pdEnv \<Rightarrow> nat \<Rightarrow> DealInfo list \<Rightarrow> goerr list \<Rightarrow> goerr list + 'r" where
  "readerLoop E i [] merr = Inl merr"
| "readerLoop E i (dl # deals) merr =
     (case getReader E (MinerAddr dl) (SectorID dl) (PieceOffset dl) (PieceLength dl) of
        Inl err \<Rightarrow> readerLoop E (i + 1) deals (if i < 3 then merr @ [err] else merr)
      | Inr reader \<Rightarrow> Inr reader)"

definition PD_GetPieceReader ::
  "'s lidService \<Rightarrow> ('r, 'g) pdEnv \<Rightarrow> 's \<Rightarrow> cid \<Rightarrow> goerr + 'r" where
  "PD_GetPieceReader svc E s pieceCid =
     (case PD_GetPieceDeals svc s pieceCid of
        Inl err \<Rightarrow> Inl (errorf_w ''getting piece deals: '' err)
      | Inr deals \<Rightarrow>
          if deals = [] then Inl (errorf ''no deals found for piece cid'')
          else case readerLoop E 0 deals [] of
              Inl merr \<Rightarrow> Inl (multiErr E merr) | Inr reader \<Rightarrow> Inr reader)"

section \<open>Shared piece readers\<close>

text \<open>
  The cache of the shared readers: for a piece, what \<open>GetPieceReader\<close> gave when the entry was made,
  an error included. Getting an entry that another caller is still filling waits for it, or for the
  end of the caller's context (\<open>ctx\<close>); an entry that is missing is made, with a context of its own.
\<close>

type_synonym 'r readerMap = "cid \<Rightarrow> (goerr + 'r) option"

definition PD_GetSharedPieceReader ::
  "'s lidService \<Rightarrow> ('r, 'g) pdEnv \<Rightarrow> 's \<Rightarrow> goerr option \<Rightarrow> cid \<Rightarrow> 'r readerMap \<Rightarrow>
    (goerr + 'r) \<times> 'r readerMap" where
  "PD_GetSharedPieceReader svc E s ctx pieceCid cache =
     (case cache pieceCid of
        None \<Rightarrow> (let sr = PD_GetPieceReader svc E s pieceCid in (sr, cache(pieceCid \<mapsto> sr)))
      | Some sr \<Rightarrow> (case ctx of Some err \<Rightarrow> (Inl err, cache) | None \<Rightarrow> (sr, cache)))"

section \<open>The blockstore\<close>

text \<open>
  The function literal in the loop of \<open>BlockstoreGet\<close>, for one piece. A \<open>readTurn\<close> is what happens around
  it: the change that other callers and the expiry make to the cache before, and whether the context
  is done while it waits.
\<close>

record 'r readTurn =
  cacheBefore :: "'r readerMap \<Rightarrow> 'r readerMap"
  turnCtx :: "goerr option"

definition blockFromPiece ::
  "'s lidService \<Rightarrow> ('r, 'g) pdEnv \<Rightarrow> 's \<Rightarrow> cid \<Rightarrow> 'r readTurn \<Rightarrow> cid \<Rightarrow> 'r readerMap \<Rightarrow>
    string outcome \<times> 'r readerMap" where
  "blockFromPiece svc E s c t pieceCid cache =
     (case PD_GetSharedPieceReader svc E s (turnCtx t) pieceCid (cacheBefore t cache) of
        (Inl err, cache') \<Rightarrow> (Fail (errorf_w ''getting piece reader: '' err), cache')
      | (Inr reader, cache') \<Rightarrow>
          (case svcGetOffsetSize svc s pieceCid (pdCidHash E c) of
             Panic \<Rightarrow> Panic
           | Fail err \<Rightarrow> Fail (errorf_w ''getting offset/size for cid: '' err)
           | Ret offsetSize \<Rightarrow>
               (let bufferSize = (if Size offsetSize < 4096 then Size offsetSize else 4096) in
                case readNode E reader (Offset offsetSize) bufferSize of
                  Inl err \<Rightarrow> Fail (errorf_w ''reading data for block: '' err)
                | Inr (readCid, data) \<Rightarrow>
                    if pdCidHash E readCid \<noteq> pdCidHash E c
                    then Fail (errorf ''read block from reader for piece, but expected another block'')
                    else Ret data), cache'))"

fun blockLoop ::
  "'s lidService \<Rightarrow> ('r, 'g) pdEnv \<Rightarrow> 's \<Rightarrow> (nat \<Rightarrow> 'r readTurn) \<Rightarrow> cid \<Rightarrow> nat \<Rightarrow> cid list \<Rightarrow>
    goerr list \<Rightarrow> 'r readerMap \<Rightarrow> string outcome \<times> 'r readerMap" where
  "blockLoop svc E s turns c i [] merr cache = (Fail (multiErr E merr), cache)"
| "blockLoop svc E s turns c i (p # ps) merr cache =
     (case blockFromPiece svc E s c (turns i) p cache of
        (Panic, cache') \<Rightarrow> (Panic, cache')
      | (Fail err, cache') \<Rightarrow>
          blockLoop svc E s turns c (i + 1) ps (if i < 3 then merr @ [err] else merr) cache'
      | (Ret data, cache') \<Rightarrow> (Ret data, cache'))"

definition isIdentity :: "('r, 'g) pdEnv \<Rightarrow> cid \<Rightarrow> goerr + bool \<times> string" where
  "isIdentity E c = mhDecode E (pdCidHash E c)"

definition PD_BlockstoreGet ::
  "'s lidService \<Rightarrow> ('r, 'g) pdEnv \<Rightarrow> 's \<Rightarrow> (nat \<Rightarrow> 'r readTurn) \<Rightarrow> cid \<Rightarrow> 'r readerMap \<Rightarrow>
    string outcome \<times> 'r readerMap" where
  "PD_BlockstoreGet svc E s turns c cache =
     (case svcPiecesContainingMultihash svc s (pdCidHash E c) of
        Inl err \<Rightarrow>
          ((case isIdentity E c of
              Inr (True, digest) \<Rightarrow> Ret digest
            | _ \<Rightarrow> Fail (errorf_w ''getting pieces containing cid: '' err)), cache)
      | Inr pieces \<Rightarrow>
          if pieces = [] then (Fail (errorf ''no pieces with cid found''), cache)
          else blockLoop svc E s turns c 0 pieces [] cache)"

text \<open>
  \<open>BlockstoreGetSize\<close>. A zero size may mean an incomplete index, which is then rebuilt; the store
  is not changed by that, so the second lookup is made in the same state.
\<close>

fun sizeLoop ::
  "'s lidService \<Rightarrow> ('r, 'g) pdEnv \<Rightarrow> 's \<Rightarrow> cid \<Rightarrow> cid list \<Rightarrow> goerr list \<Rightarrow> u64 outcome" where
  "sizeLoop svc E s c [] merr = (if merr = [] then Ret 0 else Fail (multiErr E merr))"
| "sizeLoop svc E s c (p # ps) merr =
     (case svcGetOffsetSize svc s p (pdCidHash E c) of
        Panic \<Rightarrow> Panic
      | Fail err \<Rightarrow> sizeLoop svc E s c ps (merr @ [errorf_w ''getting size of cid: '' err])
      | Ret offsetSize \<Rightarrow>
          if 0 < Size offsetSize then Ret (Size offsetSize)
          else case svcIsCompleteIndex svc s p of
              Inl err \<Rightarrow> sizeLoop svc E s c ps
                (merr @ [errorf_w ''getting index complete status for piece: '' err])
            | Inr True \<Rightarrow> Ret (Size offsetSize)
            | Inr False \<Rightarrow>
                (case PD_BuildIndexForPiece svc E s p of
                   Some err \<Rightarrow> sizeLoop svc E s c ps
                     (merr @ [errorf_w ''re-building index for piece: '' err])
                 | None \<Rightarrow>
                     (case svcGetOffsetSize svc s p (pdCidHash E c) of
                        Panic \<Rightarrow> Panic
                      | Fail err \<Rightarrow> sizeLoop svc E s c ps (merr @ [errorf_w ''getting size of cid: '' err])
                      | Ret offsetSize' \<Rightarrow> Ret (Size offsetSize'))))"

definition PD_BlockstoreGetSize ::
  "'s lidService \<Rightarrow> ('r, 'g) pdEnv \<Rightarrow> 's \<Rightarrow> cid \<Rightarrow> u64 outcome" where
  "PD_BlockstoreGetSize svc E s c =
     (case svcPiecesContainingMultihash svc s (pdCidHash E c) of
        Inl err \<Rightarrow> Fail (errorf_w ''getting pieces containing cid: '' err)
      | Inr pieces \<Rightarrow>
          if pieces = [] then Fail (errorf ''ipld: could not find block'')
          else sizeLoop svc E s c pieces [])"

definition PD_BlockstoreHas :: "'s lidService \<Rightarrow> ('r, 'g) pdEnv \<Rightarrow> 's \<Rightarrow> cid \<Rightarrow> goerr + bool" where
  "PD_BlockstoreHas svc E s c =
     (case svcPiecesContainingMultihash svc s (pdCidHash E c) of
        Inl err \<Rightarrow> Inl (errorf_w ''getting pieces containing cid: '' err)
      | Inr pieces \<Rightarrow> Inr (0 < length pieces))"

text \<open>
  \<open>SectorAccessorAsPieceReader.GetReader\<close> over a sector accessor: no reader for a sealed sector.
\<close>

record 'r sectorAccessor =
  saIsUnsealed :: "u64 \<Rightarrow> u64 \<Rightarrow> u64 \<Rightarrow> goerr + bool"
  saUnsealSectorAt :: "u64 \<Rightarrow> u64 \<Rightarrow> u64 \<Rightarrow> goerr + 'r"

definition typesErrSealed :: goerr where
  "typesErrSealed = GoErr ''sector is not unsealed'' [ErrSealed]"

definition SA_GetReader ::
  "'r sectorAccessor \<Rightarrow> (u64 \<Rightarrow> u64) \<Rightarrow> u64 \<Rightarrow> u64 \<Rightarrow> u64 \<Rightarrow> goerr + 'r" where
  "SA_GetReader A unpad id' ofs len =
     (case saIsUnsealed A id' (unpad ofs) (unpad len) of
        Inl err \<Rightarrow> Inl (errorf_w (''checking unsealed state of sector '' @ show_u64 id' @ '': '') err)
      | Inr isUnsealed \<Rightarrow>
          if \<not> isUnsealed then
            Inl (errorf_w (''getting reader over sector '' @ show_u64 id' @ '': '') typesErrSealed)
          else case saUnsealSectorAt A id' (unpad ofs) (unpad len) of
              Inl err \<Rightarrow> Inl (errorf_w (''getting reader over sector '' @ show_u64 id' @ '': '') err)
            | Inr r \<Rightarrow> Inr r)"

end
