(* ===== verification/MultiReader.thy ===== *)
theory MultiReader
  imports Prelude
begin

text \<open>
  The concatenation of readers (\<open>lib/boost/car/multi_reader_at.go\<close>), used to present a CARv2 piece
  as a CARv1. A part is any reader with a size that meets \<open>reader_at\<close>, the documented behaviour of
  \<open>io.ReaderAt\<close> for reads inside the data; the result again meets it. Offsets are \<open>int64\<close> values
  far from the bounds of their type, taken as \<open>int\<close>.
\<close>

text \<open>\<open>ReadAt(p, off)\<close> with \<open>len(p) = n\<close>: the bytes read and the error.\<close>

type_synonym 'r readFun = "'r \<Rightarrow> nat \<Rightarrow> int \<Rightarrow> u8 list \<times> goerr option"

definition ioErrUnexpectedEOF :: goerr where
  "ioErrUnexpectedEOF = GoErr ''unexpected EOF'' [IoErrUnexpectedEOF]"

definition ioEOF :: goerr where
  "ioEOF = GoErr ''EOF'' [IoEOF]"

section \<open>sort.Search\<close>

text \<open>The binary search of the standard library.\<close>

function searchLoop :: "(nat \<Rightarrow> bool) \<Rightarrow> nat \<Rightarrow> nat \<Rightarrow> nat" where
  "searchLoop f i j =
     (if i < j then
        (let h = (i + j) div 2 in if \<not> f h then searchLoop f (h + 1) j else searchLoop f i h)
      else i)"
  by pat_completeness auto
termination by (relation "measure (\<lambda>(f, i, j). j - i)") auto

declare searchLoop.simps [simp del]

definition sortSearch :: "nat \<Rightarrow> (nat \<Rightarrow> bool) \<Rightarrow> nat" where
  "sortSearch n f = searchLoop f 0 n"

lemma searchLoop_least:
  assumes "i \<le> j" and "\<forall>k < i. \<not> f k" and "\<forall>k. j \<le> k \<and> k < n \<longrightarrow> f k"
    and "\<And>a b. a \<le> b \<Longrightarrow> b < n \<Longrightarrow> f a \<Longrightarrow> f b" and "j \<le> n"
  shows "searchLoop f i j \<le> n \<and> (\<forall>k < searchLoop f i j. \<not> f k) \<and>
    (\<forall>k. searchLoop f i j \<le> k \<and> k < n \<longrightarrow> f k)"
  using assms
proof (induction f i j rule: searchLoop.induct)
  case (1 f i j)
  show ?case
  proof (cases "i < j")
    case False
    then have "searchLoop f i j = i" by (subst searchLoop.simps) simp
    with False "1.prems" show ?thesis by auto
  next
    case True
    let ?h = "(i + j) div 2"
    have h: "i \<le> ?h" "?h < j" using True by auto
    show ?thesis
    proof (cases "f ?h")
      case fh: True
      have "\<forall>k. ?h \<le> k \<and> k < n \<longrightarrow> f k" using "1.prems"(4) fh by blast
      with "1.IH"(2) [OF True refl] fh h "1.prems" True show ?thesis
        by (simp add: searchLoop.simps [of f i j] Let_def)
    next
      case fh: False
      have "\<forall>k < ?h + 1. \<not> f k"
      proof (intro allI impI notI)
        fix k
        assume "k < ?h + 1" "f k"
        moreover have "?h < n" using h "1.prems"(5) by simp
        ultimately show False using "1.prems"(4) [of k ?h] fh by simp
      qed
      with "1.IH"(1) [OF True refl] fh h "1.prems" True show ?thesis
        by (simp add: searchLoop.simps [of f i j] Let_def)
    qed
  qed
qed

section \<open>The multi reader\<close>

record 'r multiReaderAt =
  mParts :: "(int \<times> 'r) list"
  mSize :: int

fun addParts :: "('r \<Rightarrow> int) \<Rightarrow> 'r list \<Rightarrow> int \<Rightarrow> (int \<times> 'r) list \<times> int" where
  "addParts sz [] off = ([], off)"
| "addParts sz (p # ps) off =
     (let (parts, total) = addParts sz ps (off + sz p) in ((off, p) # parts, total))"

definition NewMultiReaderAt :: "('r \<Rightarrow> int) \<Rightarrow> 'r list \<Rightarrow> 'r multiReaderAt" where
  "NewMultiReaderAt sz parts = (let (ps, total) = addParts sz parts 0 in \<lparr>mParts = ps, mSize = total\<rparr>)"

text \<open>
  The loop of \<open>ReadAt\<close>. It may run forever when a part returns no bytes and no error: that is the
  result \<open>None\<close>. \<open>want\<close> is \<open>len(p)\<close>; the error of a part is returned with the bytes of the parts
  before it.
\<close>

partial_function (option) readLoop ::
  "'r readFun \<Rightarrow> ('r \<Rightarrow> int) \<Rightarrow> (int \<times> 'r) list \<Rightarrow> nat \<Rightarrow> int \<Rightarrow> u8 list \<Rightarrow>
    (u8 list \<times> goerr option) option" where
  "readLoop rd sz parts want needSkip acc =
     (if parts = [] \<or> want = 0 then Some (acc, None)
      else
        let r = snd (hd parts);
            partSize = sz r;
            n = (if partSize - needSkip < int want then nat (partSize - needSkip) else want);
            bs = fst (rd r n needSkip);
            err0 = snd (rd r n needSkip)
        in case err0 of
             Some e \<Rightarrow> Some (acc, Some e)
           | None \<Rightarrow>
               readLoop rd sz (if int (length bs) + needSkip = partSize then tl parts else parts)
                 (want - length bs) 0 (acc @ bs))"

definition multiReadAt ::
  "'r readFun \<Rightarrow> ('r \<Rightarrow> int) \<Rightarrow> 'r multiReaderAt \<Rightarrow> nat \<Rightarrow> int \<Rightarrow> (u8 list \<times> goerr option) option" where
  "multiReadAt rd sz m wantN off =
     (let skipParts = sortSearch (length (mParts m))
            (\<lambda>i. off < fst (mParts m ! i) + sz (snd (mParts m ! i)));
          parts = drop skipParts (mParts m);
          needSkip = (if parts = [] then off else off - fst (hd parts))
      in case readLoop rd sz parts wantN needSkip [] of
           None \<Rightarrow> None
         | Some (bs, Some e) \<Rightarrow> Some (bs, Some e)
         | Some (bs, None) \<Rightarrow>
             Some (bs, if length bs \<noteq> wantN then Some ioErrUnexpectedEOF else None))"

text \<open>The reader as a \<open>ReaderAtSize\<close> of its own, for nesting.\<close>

definition multiRead :: "'r readFun \<Rightarrow> ('r \<Rightarrow> int) \<Rightarrow> 'r multiReaderAt readFun" where
  "multiRead rd sz m n off = (case multiReadAt rd sz m n off of None \<Rightarrow> ([], None) | Some r \<Rightarrow> r)"

section \<open>The contract of a part\<close>

locale reader_at =
  fixes readAt :: "'r readFun"
    and size' :: "'r \<Rightarrow> int"
    and content :: "'r \<Rightarrow> u8 list"
    and valid :: "'r \<Rightarrow> bool"
  assumes size_content: "valid r \<Longrightarrow> size' r = int (length (content r))"
    and not_empty: "valid r \<Longrightarrow> content r \<noteq> []"
    and read_inside: "valid r \<Longrightarrow> 0 \<le> off \<Longrightarrow> 0 < n \<Longrightarrow> off + int n \<le> size' r \<Longrightarrow>
      readAt r n off = (take n (drop (nat off) (content r)), None)"
begin

lemma size_pos: "valid r \<Longrightarrow> 0 < size' r"
  using not_empty by (simp add: size_content)

lemma readLoop_parts:
  assumes "\<And>p. p \<in> set parts \<Longrightarrow> valid (snd p)" and "parts = [] \<Longrightarrow> ns = 0" and "0 \<le> ns"
    and "parts \<noteq> [] \<Longrightarrow> ns < size' (snd (hd parts))"
  shows "readLoop readAt size' parts want ns acc =
    Some (acc @ take want (drop (nat ns) (concat (map (content \<circ> snd) parts))), None)"
  using assms
proof (induction parts arbitrary: want ns acc)
  case Nil
  then show ?case by (simp add: readLoop.simps)
next
  case (Cons p parts)
  show ?case
  proof (cases "want = 0")
    case True
    then show ?thesis by (simp add: readLoop.simps)
  next
    case False
    let ?r = "snd p" and ?s = "size' (snd p)"
    define n where "n = (if ?s - ns < int want then nat (?s - ns) else want)"
    have v: "valid ?r" using Cons.prems(1) by simp
    have ns: "0 \<le> ns" "ns < ?s" using Cons.prems by auto
    have nn: "ns + int n \<le> ?s" "0 < n" using ns False by (auto simp: n_def)
    define bs where "bs = take n (drop (nat ns) (content ?r))"
    have rd: "readAt ?r n ns = (bs, None)"
      unfolding bs_def by (rule read_inside [OF v ns(1) nn(2,1)])
    have len: "length bs = n"
      using ns nn by (auto simp: size_content [OF v] bs_def)
    have step: "readLoop readAt size' (p # parts) want ns acc =
        readLoop readAt size' (if int n + ns = ?s then parts else p # parts) (want - n) 0
          (acc @ take n (drop (nat ns) (content ?r)))"
      by (subst readLoop.simps) (simp add: False Let_def n_def [symmetric] rd len bs_def [symmetric])
    show ?thesis
    proof (cases "int n + ns = ?s")
      case True
      have IH: "readLoop readAt size' parts (want - n) 0 (acc @ take n (drop (nat ns) (content ?r))) =
          Some ((acc @ take n (drop (nat ns) (content ?r))) @
            take (want - n) (drop (nat 0) (concat (map (content \<circ> snd) parts))), None)"
        by (rule Cons.IH) (use Cons.prems(1) in \<open>auto simp: size_pos\<close>)
      have "take n (drop (nat ns) (content ?r)) = drop (nat ns) (content ?r)"
        using True ns by (auto simp: size_content [OF v])
      moreover have "n \<le> want" by (auto simp: n_def)
      moreover have "length (drop (nat ns) (content ?r)) = n"
        using True ns by (auto simp: size_content [OF v])
      moreover have "nat ns \<le> length (content ?r)" using ns by (simp add: size_content [OF v])
      ultimately show ?thesis using True step IH by (simp add: o_def)
    next
      case notall: False
      then have nw: "n = want" using ns by (auto simp: n_def split: if_splits)
      have "readLoop readAt size' (p # parts) 0 0 (acc @ take want (drop (nat ns) (content ?r))) =
          Some (acc @ take want (drop (nat ns) (content ?r)), None)"
        by (simp add: readLoop.simps)
      moreover have "nat ns + want \<le> length (content ?r)"
        using nn ns nw by (simp add: size_content [OF v])
      ultimately show ?thesis using step notall nw by simp
    qed
  qed
qed

lemma addParts_spec:
  assumes "\<And>p. p \<in> set ps \<Longrightarrow> valid p"
  shows "fst (addParts size' ps off) = zip (map (\<lambda>i. off + int (length (concat (map content (take i ps)))))
     [0..<length ps]) ps \<and>
   snd (addParts size' ps off) = off + int (length (concat (map content ps)))"
  using assms
proof (induction ps arbitrary: off)
  case (Cons p ps)
  have "[0..<length (p # ps)] = 0 # map Suc [0..<length ps]"
    by (simp add: upt_conv_Cons map_Suc_upt del: upt_Suc)
  then show ?case using Cons.IH [of "off + size' p"] Cons.prems
    by (simp add: split_def Let_def size_content [of p] o_def add.assoc del: upt_Suc)
qed simp

lemma multi_parts:
  assumes v: "\<And>p. p \<in> set ps \<Longrightarrow> valid p"
  defines "off i \<equiv> \<lambda>ps. int (length (concat (map content (take i ps))))"
  shows "length (mParts (NewMultiReaderAt size' ps)) = length ps"
    and "i < length ps \<Longrightarrow> mParts (NewMultiReaderAt size' ps) ! i = (off i ps, ps ! i)"
    and "mSize (NewMultiReaderAt size' ps) = int (length (concat (map content ps)))"
  using addParts_spec [of ps 0, OF v] by (auto simp: NewMultiReaderAt_def split_def off_def)

lemma prefix_length_mono: "i \<le> j \<Longrightarrow>
    length (concat (map content (take i ps))) \<le> length (concat (map content (take j ps)))"
proof -
  assume "i \<le> j"
  then have "take j ps = take i ps @ take (j - i) (drop i ps)"
    by (metis le_add_diff_inverse take_add)
  then show ?thesis by simp
qed

lemma prefix_Suc: "i < length ps \<Longrightarrow> concat (map content (take (Suc i) ps)) =
    concat (map content (take i ps)) @ content (ps ! i)"
  by (simp add: take_Suc_conv_app_nth)

lemma multiReadAt_concat:
  assumes v: "\<And>p. p \<in> set ps \<Longrightarrow> valid p" and "0 \<le> off"
  defines "all \<equiv> \<lambda>ps. concat (map content ps)"
  shows "multiReadAt readAt size' (NewMultiReaderAt size' ps) n off =
    (let bs = take n (drop (nat off) (all ps)) in
     Some (bs, if length bs \<noteq> n then Some ioErrUnexpectedEOF else None))"
proof -
  let ?m = "NewMultiReaderAt size' ps"
  let ?P = "mParts ?m"
  let ?f = "\<lambda>i. off < fst (?P ! i) + size' (snd (?P ! i))"
  have f: "?f i \<longleftrightarrow> nat off < length (concat (map content (take (Suc i) ps)))" if "i < length ps" for i
    using that assms(2) size_content [OF v [OF nth_mem [OF that]]]
    by (auto simp: multi_parts(2) [OF v that] prefix_Suc)
  have len: "length ?P = length ps" by (rule multi_parts(1)) (rule v)
  define k where "k = sortSearch (length ?P) ?f"
  have k: "k \<le> length ps" "\<forall>i < k. \<not> ?f i" "\<forall>i. k \<le> i \<and> i < length ps \<longrightarrow> ?f i"
  proof -
    have "?f b" if "a \<le> b" "b < length ps" "?f a" for a b
    proof -
      have "length (concat (map content (take (Suc a) ps))) \<le> length (concat (map content (take (Suc b) ps)))"
        using that(1) by (intro prefix_length_mono) simp
      with that show ?thesis using f [of a] f [of b] by simp
    qed
    then have "k \<le> length ps \<and> (\<forall>i < k. \<not> ?f i) \<and> (\<forall>i. k \<le> i \<and> i < length ps \<longrightarrow> ?f i)"
      unfolding k_def sortSearch_def len
      by (intro searchLoop_least) auto
    then show "k \<le> length ps" "\<forall>i < k. \<not> ?f i" "\<forall>i. k \<le> i \<and> i < length ps \<longrightarrow> ?f i" by blast+
  qed
  let ?pre = "length (concat (map content (take k ps)))"
  have pre: "?pre \<le> nat off"
  proof (cases k)
    case (Suc i)
    with k(1,2) f [of i] show ?thesis by simp
  qed simp
  have parts: "concat (map (content \<circ> snd) (drop k ?P)) = concat (map content (drop k ps))"
  proof -
    have "map snd ?P = ps" by (rule nth_equalityI) (simp_all add: multi_parts(1,2) [OF v])
    then have "map (content \<circ> snd) ?P = map content ps" by (metis map_map)
    then show ?thesis by (simp add: drop_map [symmetric])
  qed
  have vp: "valid (snd p)" if "p \<in> set ?P" for p
  proof -
    from that obtain i where "i < length ps" "?P ! i = p" by (auto simp: in_set_conv_nth len)
    with multi_parts(2) [OF v this(1)] v show ?thesis by auto
  qed
  have all: "all ps = concat (map content (take k ps)) @ concat (map content (drop k ps))"
    unfolding all_def by (metis append_take_drop_id concat_append map_append)
  show ?thesis
  proof (cases "k = length ps")
    case True
    then have "drop k ?P = []" by (simp add: multi_parts(1) [OF v])
    moreover have "readLoop readAt size' [] n off [] = Some ([], None)" by (simp add: readLoop.simps)
    moreover have "drop (nat off) (all ps) = []" using pre True by (simp add: all_def)
    ultimately show ?thesis
      by (simp add: multiReadAt_def Let_def k_def [symmetric])
  next
    case False
    with k(1) have kl: "k < length ps" by simp
    then have hd: "hd (drop k ?P) = (int ?pre, ps ! k)" "drop k ?P \<noteq> []"
      by (simp_all add: hd_drop_conv_nth multi_parts(1,2) [OF v])
    let ?ns = "off - int ?pre"
    have "?f k" using k(3) kl by simp
    then have "?ns < size' (ps ! k)" by (simp add: multi_parts(2) [OF v kl])
    then have "readLoop readAt size' (drop k ?P) n ?ns [] =
        Some ([] @ take n (drop (nat ?ns) (concat (map (content \<circ> snd) (drop k ?P)))), None)"
      using hd pre assms(2) by (intro readLoop_parts) (auto dest!: in_set_dropD dest: vp)
    moreover have "drop (nat ?ns) (concat (map content (drop k ps))) = drop (nat off) (all ps)"
      using pre assms(2) by (simp add: all nat_diff_distrib)
    ultimately show ?thesis
      using hd by (simp add: multiReadAt_def Let_def k_def [symmetric] parts)
  qed
qed

text \<open>The concatenation meets the contract itself, so multi readers can be nested.\<close>

lemma multi_is_reader:
  assumes v: "\<And>p. p \<in> set ps \<Longrightarrow> valid p"
  shows "mSize (NewMultiReaderAt size' ps) = int (length (concat (map content ps)))"
    and "0 \<le> off \<Longrightarrow> off + int n \<le> int (length (concat (map content ps))) \<Longrightarrow>
    multiRead readAt size' (NewMultiReaderAt size' ps) n off =
      (take n (drop (nat off) (concat (map content ps))), None)"
  using multiReadAt_concat [of ps off n, OF v] by (auto simp: multi_parts(3) [OF v] multiRead_def Let_def)

end

section \<open>Readers over bytes\<close>

text \<open>\<open>bytes.Reader.ReadAt\<close>: what is there, with \<open>io.EOF\<close> when it is less than asked for.\<close>

definition bytesReadAt :: "u8 list readFun" where
  "bytesReadAt b n off =
     (if off < 0 then ([], Some (errorf ''bytes.Reader.ReadAt: negative offset''))
      else if int (length b) \<le> off then ([], Some ioEOF)
      else let bs = take n (drop (nat off) b) in (bs, if length bs < n then Some ioEOF else None))"

interpretation bytesR: reader_at bytesReadAt "\<lambda>b. int (length b)" "\<lambda>b. b" "\<lambda>b. b \<noteq> []"
  by unfold_locales (auto simp: bytesReadAt_def Let_def)

text \<open>A multi reader over byte readers, built by \<open>NewMultiReaderAt\<close>, is a reader over their concatenation.\<close>

interpretation multiR: reader_at
  "\<lambda>ps. multiRead bytesReadAt (\<lambda>b. int (length b)) (NewMultiReaderAt (\<lambda>b. int (length b)) ps)"
  "\<lambda>ps. mSize (NewMultiReaderAt (\<lambda>b. int (length b)) ps)" concat "\<lambda>ps. ps \<noteq> [] \<and> [] \<notin> set ps"
proof unfold_locales
  fix ps :: "u8 list list" and off n
  assume v: "ps \<noteq> [] \<and> [] \<notin> set ps"
  then have ne: "\<And>b. b \<in> set ps \<Longrightarrow> b \<noteq> []" by auto
  show "mSize (NewMultiReaderAt (\<lambda>b. int (length b)) ps) = int (length (concat ps))"
    using bytesR.multi_is_reader(1) [OF ne] by simp
  show "concat ps \<noteq> []" using v by (cases ps) auto
  assume "0 \<le> off" and "off + int n \<le> mSize (NewMultiReaderAt (\<lambda>b. int (length b)) ps)"
  then show "multiRead bytesReadAt (\<lambda>b. int (length b)) (NewMultiReaderAt (\<lambda>b. int (length b)) ps) n off =
      (take n (drop (nat off) (concat ps)), None)"
    using bytesR.multi_is_reader [OF ne] by simp
qed

text \<open>
  C22: Reading from the concatenation of non-empty readers is reading from the concatenated bytes: at
  any non-negative offset and for any length \<open>ReadAt\<close> returns, with exactly the bytes there are,
  across part boundaries, and with \<open>ErrUnexpectedEOF\<close> when they are fewer than asked for.
\<close>

theorem multi_reader_concat:
  assumes "[] \<notin> set ps" and "0 \<le> off"
  shows "multiReadAt bytesReadAt (\<lambda>b. int (length b)) (NewMultiReaderAt (\<lambda>b. int (length b)) ps) n off =
    (let bs = take n (drop (nat off) (concat ps)) in
     Some (bs, if length bs \<noteq> n then Some ioErrUnexpectedEOF else None))"
proof -
  have "\<And>p. p \<in> set ps \<Longrightarrow> p \<noteq> []" using assms(1) by auto
  from bytesR.multiReadAt_concat [OF this assms(2)] show ?thesis by simp
qed

theorem multi_reader_concat_witness:
  "multiReadAt bytesReadAt (\<lambda>b. int (length b)) (NewMultiReaderAt (\<lambda>b. int (length b))
     [[1, 2], [3, 4, 5]]) 3 1 = Some ([2, 3, 4], None)"
  using multi_reader_concat [of "[[1, 2], [3, 4, 5]]" 1 3] by (simp add: Let_def)

text \<open>
  The parts must not be empty: an empty byte reader between two others stops the read with
  \<open>io.EOF\<close> and the bytes before it, since reading nothing at the end of a part is an error.
\<close>

theorem multi_reader_empty_part:
  "multiReadAt bytesReadAt (\<lambda>b. int (length b)) (NewMultiReaderAt (\<lambda>b. int (length b)) [[a], [], [b]]) 2 0 =
    Some ([a], Some ioEOF)"
proof -
  have "sortSearch 3 f = 0" if "f 0" "f 1" for f
    using that by (simp add: sortSearch_def searchLoop.simps Let_def)
  moreover have "readLoop bytesReadAt (\<lambda>b. int (length b)) [(0, [a]), (1, []), (1, [b])] 2 0 [] =
      Some ([a], Some ioEOF)"
    by (subst readLoop.simps, simp add: Let_def bytesReadAt_def) (subst readLoop.simps, simp add: Let_def bytesReadAt_def)
  ultimately show ?thesis
    by (simp add: multiReadAt_def NewMultiReaderAt_def Let_def numeral_3_eq_3)
qed

text \<open>
  Nesting is sound: a multi reader whose parts are multi readers over bytes reads the bytes of all
  of them in order.
\<close>

theorem multi_reader_nested:
  assumes "\<forall>ps\<in>set pss. ps \<noteq> [] \<and> [] \<notin> set ps" and "0 \<le> off"
  shows "multiReadAt
      (\<lambda>ps. multiRead bytesReadAt (\<lambda>b. int (length b)) (NewMultiReaderAt (\<lambda>b. int (length b)) ps))
      (\<lambda>ps. mSize (NewMultiReaderAt (\<lambda>b. int (length b)) ps))
      (NewMultiReaderAt (\<lambda>ps. mSize (NewMultiReaderAt (\<lambda>b. int (length b)) ps)) pss) n off =
    (let bs = take n (drop (nat off) (concat (map concat pss))) in
     Some (bs, if length bs \<noteq> n then Some ioErrUnexpectedEOF else None))"
  using multiR.multiReadAt_concat [OF _ assms(2), of pss n] assms(1) by simp

theorem multi_reader_nested_witness:
  "multiReadAt
      (\<lambda>ps. multiRead bytesReadAt (\<lambda>b. int (length b)) (NewMultiReaderAt (\<lambda>b. int (length b)) ps))
      (\<lambda>ps. mSize (NewMultiReaderAt (\<lambda>b. int (length b)) ps))
      (NewMultiReaderAt (\<lambda>ps. mSize (NewMultiReaderAt (\<lambda>b. int (length b)) ps)) [[[1], [2]], [[3]]]) 2 1 =
    Some ([2, 3], None)"
  using multi_reader_nested [of "[[[1], [2]], [[3]]]" 1 2] by (simp add: Let_def)

end
