(* ===== verification/CarBlockstore.thy ===== *)
theory CarBlockstore
  imports PieceDirectory MultiReader
begin

text \<open>
  The blockstore over a piece, \<open>GetBlockstore\<close> of \<open>lib/boost/piecedirectory/piecedirectory.go\<close>. The
  index holds offsets from the start of the piece. For a CARv2 piece the code puts a reader together
  that starts with the CARv1 header, then a gap as long as the CARv2 wrapper, then the payload after
  the header, so that these offsets stay valid. The CAR library is a parameter, a piece reader is a
  reader over the bytes of the piece.
\<close>

text \<open>\<open>io.SectionReader\<close> over a byte reader: base, limit and \<open>ReadAt\<close>; sizes are far from overflow.\<close>

definition sectionReadAt :: "u8 list \<Rightarrow> int \<Rightarrow> int \<Rightarrow> nat \<Rightarrow> int \<Rightarrow> u8 list \<times> goerr option" where
  "sectionReadAt r base limit n off =
     (if off < 0 \<or> limit - base \<le> off then ([], Some ioEOF)
      else let off' = off + base in
        if limit - off' < int n
        then (case bytesReadAt r (nat (limit - off')) off' of (bs, None) \<Rightarrow> (bs, Some ioEOF) | res \<Rightarrow> res)
        else bytesReadAt r n off')"

datatype bsPart = BytesPart "u8 list" | SectionPart "u8 list" int int

fun partSize :: "bsPart \<Rightarrow> int" where
  "partSize (BytesPart bs) = int (length bs)"
| "partSize (SectionPart r base limit) = limit - base"

fun partReadAt :: "bsPart readFun" where
  "partReadAt (BytesPart bs) n off = bytesReadAt bs n off"
| "partReadAt (SectionPart r base limit) n off = sectionReadAt r base limit n off"

fun partBytes :: "bsPart \<Rightarrow> u8 list" where
  "partBytes (BytesPart bs) = bs"
| "partBytes (SectionPart r base limit) = take (nat (limit - base)) (drop (nat base) r)"

fun partOk :: "bsPart \<Rightarrow> bool" where
  "partOk (BytesPart bs) = (bs \<noteq> [])"
| "partOk (SectionPart r base limit) = (0 \<le> base \<and> base < limit \<and> limit \<le> int (length r))"

interpretation partR: reader_at partReadAt partSize partBytes partOk
proof unfold_locales
  fix r off n
  assume ok: "partOk r"
  then show "partSize r = int (length (partBytes r))" by (cases r) auto
  show "partBytes r \<noteq> []" using ok by (cases r) auto
  assume "0 \<le> off" "0 < n" "off + int n \<le> partSize r"
  then show "partReadAt r n off = (take n (drop (nat off) (partBytes r)), None)"
    using ok by (cases r) (auto simp: sectionReadAt_def bytesReadAt_def Let_def nat_add_distrib min_def
        take_drop add.commute)
qed

record 'h carLib =
  carReadVersion :: "u8 list \<Rightarrow> goerr + nat"
  carV2Header :: "u8 list \<Rightarrow> goerr + nat \<times> nat"
  carReadHeader :: "u8 list \<Rightarrow> goerr + 'h"
  carWriteHeader :: "'h \<Rightarrow> goerr + u8 list"

text \<open>
  The reader that the read-only blockstore is made over: the piece itself, or the parts of the
  multi reader. The header of a CARv2 piece gives the offset and the size of its payload; \<open>seekErr\<close> is
  what seeking any other piece back to its start returns.
\<close>

datatype bsReader = PlainReader "u8 list" | MultiParts "bsPart list"

definition blockstoreReader :: "'h carLib \<Rightarrow> goerr option \<Rightarrow> u8 list \<Rightarrow> goerr + bsReader" where
  "blockstoreReader C seekErr piece =
     (case carReadVersion C piece of
        Inl err \<Rightarrow> Inl (errorf_w ''getting car version for piece: '' err)
      | Inr v \<Rightarrow>
          if v = 2 then
            (case carV2Header C piece of
               Inl err \<Rightarrow> Inl (errorf_w ''getting car reader for piece: '' err)
             | Inr (dataOffset, dataSize) \<Rightarrow>
                 (case carReadHeader C (take dataSize (drop dataOffset piece)) of
                    Inl err \<Rightarrow> Inl (errorf_w ''reading car header for piece: '' err)
                  | Inr h \<Rightarrow>
                      (case carWriteHeader C h of
                         Inl err \<Rightarrow> Inl (errorf_w ''copying car header for piece: '' err)
                       | Inr hdr \<Rightarrow>
                           Inr (MultiParts
                             [BytesPart hdr, BytesPart (replicate dataOffset 0),
                              SectionPart piece (int dataOffset + int (length hdr))
                                (int dataOffset + int dataSize)]))))
          else case seekErr of
              Some err \<Rightarrow> Inl (errorf_w ''seeking back to start of piece: '' err)
            | None \<Rightarrow> Inr (PlainReader piece))"

definition bsReadAt :: "bsReader \<Rightarrow> nat \<Rightarrow> int \<Rightarrow> (u8 list \<times> goerr option) option" where
  "bsReadAt r n off =
     (case r of
        PlainReader b \<Rightarrow> Some (bytesReadAt b n off)
      | MultiParts ps \<Rightarrow> multiReadAt partReadAt partSize (NewMultiReaderAt partSize ps) n off)"

definition PD_GetBlockstore ::
  "'s lidService \<Rightarrow> ('r, 'g) pdEnv \<Rightarrow> ('s \<Rightarrow> cid \<Rightarrow> goerr + 'i) \<Rightarrow> ('r \<Rightarrow> u8 list) \<Rightarrow> 'h carLib \<Rightarrow>
    (bsReader \<Rightarrow> 'i \<Rightarrow> goerr + 'b) \<Rightarrow> 's \<Rightarrow> cid \<Rightarrow> goerr + 'b" where
  "PD_GetBlockstore svc E iterableIndex bytesOf C newReadOnly s pieceCid =
     (case PD_GetPieceReader svc E s pieceCid of
        Inl err \<Rightarrow> Inl (errorf_w ''getting piece reader for piece: '' err)
      | Inr reader \<Rightarrow>
          (case iterableIndex s pieceCid of
             Inl err \<Rightarrow> Inl (errorf_w ''getting index for piece: '' err)
           | Inr idx \<Rightarrow>
               (case blockstoreReader C (seekStart E reader 0) (bytesOf reader) of
                  Inl err \<Rightarrow> Inl err
                | Inr bsR \<Rightarrow>
                    (case newReadOnly bsR idx of
                       Inl err \<Rightarrow> Inl (errorf_w ''creating blockstore for piece: '' err)
                     | Inr bs \<Rightarrow> Inr bs))))"

text \<open>
  C28: The offsets of the index stay valid: for a CARv2 piece, reading the assembled reader at any offset
  after the CARv1 header of the payload gives the bytes of the piece at that same offset, up to the end
  of the payload, and its first bytes are the CARv1 header. The header must be written back with the
  length it has in the payload and be followed by data.
\<close>

theorem blockstore_offsets_valid:
  assumes v2: "carReadVersion C piece = Inr 2" and lay: "carV2Header C piece = Inr (dataOffset, dataSize)"
    and h: "carReadHeader C (take dataSize (drop dataOffset piece)) = Inr h"
    and w: "carWriteHeader C h = Inr hdr"
    and len: "0 < dataOffset" "0 < length hdr" "length hdr < dataSize" "dataOffset + dataSize \<le> length piece"
    and r: "blockstoreReader C seekErr piece = Inr bsR"
  shows "(dataOffset + length hdr \<le> off \<and> off + n \<le> dataOffset + dataSize \<longrightarrow>
      bsReadAt bsR n (int off) = Some (take n (drop off piece), None)) \<and>
    bsReadAt bsR (length hdr) 0 = Some (hdr, None)"
proof -
  let ?ps = "[BytesPart hdr, BytesPart (replicate dataOffset 0),
    SectionPart piece (int dataOffset + int (length hdr)) (int dataOffset + int dataSize)]"
  let ?tail = "take (dataSize - length hdr) (drop (dataOffset + length hdr) piece)"
  have bsR: "bsR = MultiParts ?ps" using r v2 lay h w by (simp add: blockstoreReader_def)
  have ok: "\<And>p. p \<in> set ?ps \<Longrightarrow> partOk p" using len by auto
  have bytes: "concat (map partBytes ?ps) = hdr @ replicate dataOffset 0 @ ?tail"
    using len by (simp add: nat_add_distrib nat_diff_distrib)
  have read: "bsReadAt bsR m (int k) = (let bs = take m (drop k (hdr @ replicate dataOffset 0 @ ?tail)) in
      Some (bs, if length bs \<noteq> m then Some ioErrUnexpectedEOF else None))" for m k
    using partR.multiReadAt_concat [of ?ps "int k" m, OF ok of_nat_0_le_iff]
    by (simp only: bsReadAt_def bsR bsReader.case bytes nat_int)
  have "bsReadAt bsR n (int off) = Some (take n (drop off piece), None)"
    if off: "dataOffset + length hdr \<le> off" "off + n \<le> dataOffset + dataSize"
  proof -
    have "drop off (hdr @ replicate dataOffset 0 @ ?tail) = drop (off - (dataOffset + length hdr)) ?tail"
      using off by (simp add: add.commute)
    then have "take n (drop off (hdr @ replicate dataOffset 0 @ ?tail)) = take n (drop off piece)"
      using off len by (simp add: drop_take min_def)
    moreover have "length (take n (drop off piece)) = n" using off len by simp
    ultimately show ?thesis by (simp add: read Let_def)
  qed
  moreover have "bsReadAt bsR (length hdr) 0 = Some (hdr, None)"
    using read [of "length hdr" 0] by (simp add: Let_def)
  ultimately show ?thesis by blast
qed

definition demoCar :: "u8 list carLib" where
  "demoCar = \<lparr>carReadVersion = (\<lambda>_. Inr 2), carV2Header = (\<lambda>_. Inr (2, 4)),
     carReadHeader = (\<lambda>bs. Inr (take 1 bs)), carWriteHeader = Inr\<rparr>"

theorem blockstore_offsets_valid_witness:
  "\<exists>bsR. blockstoreReader demoCar (Some (errorf ''unused'')) [9, 9, 1, 20, 21, 22, 0] = Inr bsR \<and>
    bsReadAt bsR 2 4 = Some ([21, 22], None)"
proof -
  obtain bsR where r: "blockstoreReader demoCar (Some (errorf ''unused'')) [9, 9, 1, 20, 21, 22, 0] = Inr bsR"
    by (simp add: blockstoreReader_def demoCar_def)
  have "bsReadAt bsR 2 (int 4) = Some (take 2 (drop 4 [9, 9, 1, 20, 21, 22, 0]), None)"
    using blockstore_offsets_valid [of demoCar "[9, 9, 1, 20, 21, 22, 0]" 2 4 "[1]" "[1]" "Some (errorf ''unused'')" bsR 4 2] r
    by (simp add: demoCar_def)
  with r show ?thesis by simp
qed

end
