(* ===== verification/PieceDirProps.thy ===== *)
theory PieceDirProps
  imports PieceDirectory LdbService
begin

text \<open>
  Properties of the piece directory: the concurrent validation of data segments loses nothing, the
  fallback over deals and pieces finds what can be found, and what adding a deal does to the index
  of a LevelDB store.
\<close>

section \<open>Data segments\<close>

definition badSeg :: "('r, 'g) pdEnv \<Rightarrow> 'g \<Rightarrow> bool" where
  "badSeg E e = (case segValidate E e of None \<Rightarrow> False | Some err \<Rightarrow> \<not> errors_Is err ErrValidation)"

definition okSeg :: "('r, 'g) pdEnv \<Rightarrow> 'g \<Rightarrow> bool" where
  "okSeg E e \<longleftrightarrow> segValidate E e = None"

lemma validateLoop_ok:
  "\<forall>e\<in>set es. \<not> badSeg E e \<Longrightarrow> validateLoop E i es res = Inr (res @ filter (okSeg E) es)"
  by (induction es arbitrary: i res) (auto simp: badSeg_def okSeg_def split: option.splits)

lemma validateLoop_bad:
  "\<exists>e\<in>set es. badSeg E e \<Longrightarrow> \<exists>err. validateLoop E i es res = Inl err"
  by (induction es arbitrary: i res) (auto simp: badSeg_def split: option.splits)

lemma concat_chunks: "concat (map (\<lambda>i. take k (drop (i * k) es)) [0..<m]) = take (m * k) es"
proof (induction m)
  case (Suc m)
  have "take (Suc m * k) es = take (m * k) es @ take k (drop (m * k) es)"
    by (metis add.commute mult_Suc take_add)
  with Suc show ?case by simp
qed simp

lemma chunks_cover:
  assumes "0 < c" and "c \<le> length es"
  shows "concat (map (\<lambda>i. chunkOf c i es) [0..<c]) = es"
proof -
  let ?k = "length es div c"
  obtain m where c: "c = Suc m" using assms(1) by (cases c) auto
  have "concat (map (\<lambda>i. chunkOf c i es) [0..<m]) = concat (map (\<lambda>i. take ?k (drop (i * ?k) es)) [0..<m])"
    by (rule arg_cong [where f = concat], rule map_cong) (simp_all add: chunkOf_def Let_def c)
  then have "concat (map (\<lambda>i. chunkOf c i es) [0..<m]) = take (m * ?k) es" by (simp only: concat_chunks)
  moreover have "chunkOf c m es = drop (m * ?k) es"
    by (simp add: chunkOf_def Let_def c)
  ultimately show ?thesis
    by (simp add: c)
qed

lemma collectResults_ok:
  "(\<And>x. x \<in> set xs \<Longrightarrow> f x = Inr (g x)) \<Longrightarrow> collectResults (map f xs) = Inr (concat (map g xs))"
  by (induction xs) auto

lemma collectResults_bad:
  "x \<in> set xs \<Longrightarrow> f x = Inl err \<Longrightarrow> \<exists>err'. collectResults (map f xs) = Inl err'"
proof (induction xs)
  case (Cons y xs)
  then show ?case by (cases "f y") (auto split: sum.split)
qed simp

lemma podsiConcurrency_bounds:
  "0 < entries \<Longrightarrow> 0 < podsiConcurrency ncpu entries \<and> podsiConcurrency ncpu entries \<le> entries \<and>
    podsiConcurrency ncpu entries \<le> 32"
  by (auto simp: podsiConcurrency_def PodsiMinConcurrency_def PodsiMaxConcurrency_def Let_def)

lemma chunkOf_subset: "set (chunkOf c i es) \<subseteq> set es"
  unfolding chunkOf_def Let_def by (meson order_trans set_drop_subset set_take_subset)

text \<open>
  Splitting the data segment index over goroutines changes nothing: whatever the number of CPUs,
  the validated segments are the entries that pass validation, in their order, and an entry that
  fails in an unknown way fails the whole.
\<close>

theorem valid_segments_chunked:
  assumes "entries \<noteq> []"
  shows "if \<exists>e\<in>set entries. badSeg E e then \<exists>err. validSegments E entries = Inl err
    else validSegments E entries = Inr (filter (okSeg E) entries)"
proof -
  define c where "c = podsiConcurrency (numCPU E) (length entries)"
  have c: "0 < c" "c \<le> length entries"
    using podsiConcurrency_bounds [of "length entries"] assms by (auto simp: c_def)
  let ?f = "\<lambda>i. validateEntries E (chunkOf c i entries)"
  have cover: "concat (map (\<lambda>i. chunkOf c i entries) [0..<c]) = entries" by (rule chunks_cover [OF c])
  show ?thesis
  proof (cases "\<exists>e\<in>set entries. badSeg E e")
    case True
    then obtain e where e: "e \<in> set (concat (map (\<lambda>i. chunkOf c i entries) [0..<c]))" "badSeg E e"
      unfolding cover by blast
    then obtain i where i: "i \<in> set [0..<c]" "e \<in> set (chunkOf c i entries)" by auto
    with e(2) obtain err where "?f i = Inl err"
      using validateLoop_bad [of "chunkOf c i entries" E] by (auto simp: validateEntries_def)
    from collectResults_bad [of i "[0..<c]" ?f, OF i(1) this] True show ?thesis
      by (simp add: validSegments_def Let_def c_def [symmetric])
  next
    case False
    then have "?f i = Inr (filter (okSeg E) (chunkOf c i entries))" for i
      using chunkOf_subset [of c i entries] validateLoop_ok [of "chunkOf c i entries" E 0 "[]"]
      by (auto simp: validateEntries_def)
    then have "collectResults (map ?f [0..<c]) =
        Inr (concat (map (\<lambda>i. filter (okSeg E) (chunkOf c i entries)) [0..<c]))"
      by (rule collectResults_ok)
    also have "\<dots> = Inr (filter (okSeg E) (concat (map (\<lambda>i. chunkOf c i entries) [0..<c])))"
      by (simp add: filter_concat o_def)
    finally show ?thesis
      using False cover by (simp add: validSegments_def Let_def c_def [symmetric])
  qed
qed

definition demoPd :: "(unit, nat) pdEnv" where
  "demoPd =
     \<lparr>getReader = (\<lambda>_ _ _ _. Inr ()), seekEnd = (\<lambda>_. None), seekStart = (\<lambda>_ _. None),
      unpadded = (\<lambda>n. n), padded = (\<lambda>n. n), indexStartOffset = (\<lambda>n. n),
      parseIndex = (\<lambda>_ _. SegEntries [1]),
      segValidate = (\<lambda>n. if n = 0 then Some (GoErr ''bad'' [ErrValidation]) else None),
      segOffset = (\<lambda>_. 0), segLength = (\<lambda>_. 10),
      blockReader = (\<lambda>_ _. Inr ([\<lparr>Offset = 7, Size = 3, Cid = ''blk''\<rparr>], GoErr ''EOF'' [IoEOF])),
      readNode = (\<lambda>_ _ _. Inr (''blk'', ''abc'')), pdCidHash = (\<lambda>c. c),
      mhDecode = (\<lambda>_. Inr (False, [])), multiErr = (\<lambda>es. errorf ''errors''), numCPU = 2,
      idxTurn = (\<lambda>_ _. RunsIt)\<rparr>"

theorem valid_segments_chunked_witness:
  "validSegments demoPd [1, 0, 2, 3, 0, 5] = Inr [1, 2, 3, 5]"
  using valid_segments_chunked [of "[1, 0, 2, 3, 0, 5]" demoPd]
  by (simp add: badSeg_def okSeg_def demoPd_def errors_Is_def)

section \<open>Readers and blocks\<close>

abbreviation dealReader :: "('r, 'g) pdEnv \<Rightarrow> DealInfo \<Rightarrow> goerr + 'r" where
  "dealReader E dl \<equiv> getReader E (MinerAddr dl) (SectorID dl) (PieceOffset dl) (PieceLength dl)"

lemma readerLoop_Inr:
  "readerLoop E i deals merr = Inr r \<longleftrightarrow>
    (\<exists>ds dl rest. deals = ds @ dl # rest \<and> dealReader E dl = Inr r \<and>
      (\<forall>d\<in>set ds. \<exists>err. dealReader E d = Inl err))"
proof (induction deals arbitrary: i merr)
  case (Cons d deals)
  show ?case
  proof (cases "dealReader E d")
    case (Inl err)
    have "(\<exists>ds dl rest. d # deals = ds @ dl # rest \<and> dealReader E dl = Inr r \<and>
        (\<forall>d\<in>set ds. \<exists>err. dealReader E d = Inl err)) \<longleftrightarrow>
      (\<exists>ds dl rest. deals = ds @ dl # rest \<and> dealReader E dl = Inr r \<and>
        (\<forall>d\<in>set ds. \<exists>err. dealReader E d = Inl err))" (is "?A \<longleftrightarrow> ?B")
    proof
      assume ?A
      then obtain ds dl rest where s: "d # deals = ds @ dl # rest" "dealReader E dl = Inr r"
        "\<forall>d\<in>set ds. \<exists>err. dealReader E d = Inl err" by blast
      with Inl obtain ds' where "ds = d # ds'" by (cases ds) auto
      with s show ?B by auto
    next
      assume ?B
      then obtain ds dl rest where "deals = ds @ dl # rest" "dealReader E dl = Inr r"
        "\<forall>d\<in>set ds. \<exists>err. dealReader E d = Inl err" by blast
      with Inl show ?A by (intro exI [of _ "d # ds"] exI [of _ dl] exI [of _ rest]) simp
    qed
    with Cons Inl show ?thesis by simp
  next
    case (Inr r')
    have "(\<exists>ds dl rest. d # deals = ds @ dl # rest \<and> dealReader E dl = Inr r \<and>
        (\<forall>d\<in>set ds. \<exists>err. dealReader E d = Inl err)) \<longleftrightarrow> r' = r" (is "?A \<longleftrightarrow> _")
    proof
      assume ?A
      then obtain ds dl rest where s: "d # deals = ds @ dl # rest" "dealReader E dl = Inr r"
        "\<forall>d\<in>set ds. \<exists>err. dealReader E d = Inl err" by blast
      with Inr show "r' = r" by (cases ds) auto
    next
      assume "r' = r"
      with Inr show ?A by (intro exI [of _ "[]"] exI [of _ d] exI [of _ deals]) simp
    qed
    with Inr show ?thesis by simp
  qed
qed simp

text \<open>
  A piece is readable when one of its deals is: the reader returned is that of the first deal
  whose sector can be read, and there is one exactly when such a deal exists.
\<close>

theorem get_piece_reader_first_readable:
  assumes "svcGetPieceDeals svc s p = Inr deals"
  shows "PD_GetPieceReader svc E s p = Inr r \<longleftrightarrow>
    (\<exists>ds dl rest. deals = ds @ dl # rest \<and> dealReader E dl = Inr r \<and>
      (\<forall>d\<in>set ds. \<exists>err. dealReader E d = Inl err))"
proof (cases "deals = []")
  case False
  have "PD_GetPieceReader svc E s p = Inr r \<longleftrightarrow> readerLoop E 0 deals [] = Inr r"
    using False assms
    by (cases "readerLoop E 0 deals []") (simp_all add: PD_GetPieceReader_def PD_GetPieceDeals_def)
  then show ?thesis by (simp only: readerLoop_Inr)
qed (simp add: PD_GetPieceReader_def PD_GetPieceDeals_def assms)

theorem get_piece_reader_first_readable_witness:
  "PD_GetPieceReader (ldbService demoWorld) demoPd (demo2, initChecker) ''p'' = Inr ()"
proof -
  have "svcGetPieceDeals (ldbService demoWorld) (demo2, initChecker) ''p'' = Inr [demoDeal]"
    by (simp add: ldbService_def GetPieceDeals_lid [OF demo_ok demo2_lid(1)] demo2_lid(2))
  from get_piece_reader_first_readable [OF this, of demoPd "()"] show ?thesis
    by (simp add: demoPd_def Cons_eq_append_conv)
qed

text \<open>
  What the cache can hold when the readers in it were opened at the moments \<open>H\<close>, each the environment and
  the store of one call: entries come from calls of \<open>GetSharedPieceReader\<close> and go when they expire.
\<close>

inductive sharedReach :: "'s lidService \<Rightarrow> (('r, 'g) pdEnv \<times> 's) set \<Rightarrow> 'r readerMap \<Rightarrow> bool"
  for svc H where
  start: "sharedReach svc H Map.empty"
| get: "sharedReach svc H cache \<Longrightarrow> (E, s) \<in> H \<Longrightarrow>
    PD_GetSharedPieceReader svc E s ctx p cache = (res, cache') \<Longrightarrow> sharedReach svc H cache'"
| expire: "sharedReach svc H cache \<Longrightarrow> sharedReach svc H (cache(p := None))"

lemma sharedReach_opened:
  "sharedReach svc H cache \<Longrightarrow> cache p = Some sr \<Longrightarrow> \<exists>(E, s)\<in>H. PD_GetPieceReader svc E s p = sr"
proof (induction rule: sharedReach.induct)
  case (get cache E s ctx q res cache')
  then show ?case
    by (fastforce simp: PD_GetSharedPieceReader_def Let_def split: option.splits if_splits)
qed (auto split: if_splits)

lemma shared_reader_opened:
  assumes "sharedReach svc H cache" "(E, s) \<in> H" "PD_GetSharedPieceReader svc E s ctx p cache = (Inr r, cache')"
  shows "\<exists>(E', s')\<in>H. PD_GetPieceReader svc E' s' p = Inr r"
proof (cases "cache p")
  case None
  with assms(2,3) show ?thesis by (auto simp: PD_GetSharedPieceReader_def Let_def)
next
  case (Some sr)
  with assms(3) have "sr = Inr r"
    by (auto simp: PD_GetSharedPieceReader_def split: option.splits)
  with sharedReach_opened [OF assms(1) Some] show ?thesis by simp
qed

text \<open>
  A failed \<open>GetPieceReader\<close> stays in the cache like a reader: while the entry lives, every call for the
  piece fails with that error, whatever has become readable meanwhile.
\<close>

lemma shared_reader_error_stays:
  assumes "PD_GetSharedPieceReader svc E s ctx p cache = (Inl err, cache')" "cache p = None"
  shows "\<exists>err'. PD_GetSharedPieceReader svc' E' s' ctx' p cache' = (Inl err', cache') \<and>
    (ctx' = None \<longrightarrow> err' = err)"
  using assms by (auto simp: PD_GetSharedPieceReader_def Let_def split: option.split)

text \<open>The changes that others make to the cache during a call keep it one that \<open>H\<close> accounts for.\<close>

definition turnsKeep :: "('r readerMap \<Rightarrow> bool) \<Rightarrow> (nat \<Rightarrow> 'r readTurn) \<Rightarrow> bool" where
  "turnsKeep P turns \<longleftrightarrow> (\<forall>i cache. P cache \<longrightarrow> P (cacheBefore (turns i) cache))"

definition blockRead ::
  "'s lidService \<Rightarrow> (('r, 'g) pdEnv \<times> 's) set \<Rightarrow> ('r, 'g) pdEnv \<Rightarrow> 's \<Rightarrow> cid \<Rightarrow> cid \<Rightarrow> string \<Rightarrow> bool" where
  "blockRead svc H E s c p data \<longleftrightarrow>
     (\<exists>E' s' r os readCid bufferSize. (E', s') \<in> H \<and> PD_GetPieceReader svc E' s' p = Inr r \<and>
        svcGetOffsetSize svc s p (pdCidHash E c) = Ret os \<and>
        readNode E r (Offset os) bufferSize = Inr (readCid, data) \<and> pdCidHash E readCid = pdCidHash E c)"

lemma blockFromPiece_Ret:
  assumes "blockFromPiece svc E s c t p cache = (res, cache')"
    and "sharedReach svc H (cacheBefore t cache)" "(E, s) \<in> H"
  shows "sharedReach svc H cache' \<and> (\<forall>data. res = Ret data \<longrightarrow> blockRead svc H E s c p data)"
proof -
  obtain sr cache1 where g: "PD_GetSharedPieceReader svc E s (turnCtx t) p (cacheBefore t cache) = (sr, cache1)"
    by (rule prod.exhaust)
  have c: "cache1 = cache'" using assms(1) g by (cases sr) (auto simp: blockFromPiece_def)
  have reach: "sharedReach svc H cache'" using sharedReach.get [OF assms(2,3) g] c by simp
  have "blockRead svc H E s c p data" if "res = Ret data" for data
  proof -
    from assms(1) g that obtain r where r: "sr = Inr r"
      by (cases sr) (auto simp: blockFromPiece_def)
    from shared_reader_opened [OF assms(2,3)] g r obtain E' s' where
      o: "(E', s') \<in> H" "PD_GetPieceReader svc E' s' p = Inr r" by blast
    from assms(1) g r that obtain os where os: "svcGetOffsetSize svc s p (pdCidHash E c) = Ret os"
      by (cases "svcGetOffsetSize svc s p (pdCidHash E c)") (auto simp: blockFromPiece_def)
    define n where "n = (if Size os < 4096 then Size os else 4096)"
    from assms(1) g r os that obtain readCid where "readNode E r (Offset os) n = Inr (readCid, data)"
      "pdCidHash E readCid = pdCidHash E c"
      by (auto simp: blockFromPiece_def Let_def n_def [symmetric] split: sum.splits if_splits)
    with o os show ?thesis unfolding blockRead_def by blast
  qed
  with reach show ?thesis by blast
qed

lemma blockLoop_Ret:
  assumes "turnsKeep (sharedReach svc H) turns" "(E, s) \<in> H"
  shows "blockLoop svc E s turns c i ps merr cache = (res, cache') \<Longrightarrow> sharedReach svc H cache \<Longrightarrow>
    sharedReach svc H cache' \<and> (\<forall>data. res = Ret data \<longrightarrow> (\<exists>p\<in>set ps. blockRead svc H E s c p data))"
proof (induction ps arbitrary: i merr cache)
  case (Cons p ps)
  obtain r1 cache1 where f: "blockFromPiece svc E s c (turns i) p cache = (r1, cache1)" by (rule prod.exhaust)
  have "sharedReach svc H (cacheBefore (turns i) cache)"
    using assms(1) Cons.prems(2) by (simp add: turnsKeep_def)
  note one = blockFromPiece_Ret [OF f this assms(2)]
  show ?case
  proof (cases r1)
    case (Fail err)
    with Cons.prems(1) f have "blockLoop svc E s turns c (i + 1) ps (if i < 3 then merr @ [err] else merr) cache1 =
      (res, cache')" by simp
    from Cons.IH [OF this] one show ?thesis by auto
  qed (use Cons.prems f one in auto)
qed auto

text \<open>
  The blockstore never returns a block that was not asked for: the data come from a piece that the
  index lists for the CID, read at the offset recorded there from a reader that \<open>GetPieceReader\<close> gave
  for that piece, now or when the entry of the cache was made, and the CID read with them has the
  multihash of the one requested.
\<close>

lemma blockstore_get_read:
  assumes "turnsKeep (sharedReach svc H) turns" "(E, s) \<in> H" "sharedReach svc H cache"
    and "PD_BlockstoreGet svc E s turns c cache = (res, cache')"
  shows "sharedReach svc H cache' \<and>
    (\<forall>data. res = Ret data \<longrightarrow>
      (\<exists>err. svcPiecesContainingMultihash svc s (pdCidHash E c) = Inl err \<and> isIdentity E c = Inr (True, data)) \<or>
      (\<exists>ps. svcPiecesContainingMultihash svc s (pdCidHash E c) = Inr ps \<and>
        (\<exists>p\<in>set ps. blockRead svc H E s c p data)))"
proof (cases "svcPiecesContainingMultihash svc s (pdCidHash E c)")
  case (Inl err)
  with assms(3,4) show ?thesis by (auto simp: PD_BlockstoreGet_def split: sum.splits bool.splits)
next
  case (Inr ps)
  show ?thesis
  proof (cases "ps = []")
    case True
    with Inr assms(3,4) show ?thesis by (auto simp: PD_BlockstoreGet_def)
  next
    case False
    with Inr assms(4) have "blockLoop svc E s turns c 0 ps [] cache = (res, cache')"
      by (simp add: PD_BlockstoreGet_def)
    from blockLoop_Ret [OF assms(1,2) this assms(3)] Inr show ?thesis by simp
  qed
qed

text \<open>
  It finds a block whenever one of the listed pieces provides it, when the cached readers are those
  that the deals give now.
\<close>

definition cacheCurrent :: "'s lidService \<Rightarrow> ('r, 'g) pdEnv \<Rightarrow> 's \<Rightarrow> 'r readerMap \<Rightarrow> bool" where
  "cacheCurrent svc E s cache \<longleftrightarrow> (\<forall>p sr. cache p = Some sr \<longrightarrow> sr = PD_GetPieceReader svc E s p)"

lemma current_shared_reader:
  assumes "cacheCurrent svc E s cache"
  shows "\<exists>cache'. PD_GetSharedPieceReader svc E s None p cache = (PD_GetPieceReader svc E s p, cache') \<and>
    cacheCurrent svc E s cache'"
  using assms by (auto simp: PD_GetSharedPieceReader_def cacheCurrent_def Let_def split: option.split)

lemma current_blockFromPiece:
  assumes "cacheCurrent svc E s (cacheBefore t cache)" "turnCtx t = None"
  shows "cacheCurrent svc E s (snd (blockFromPiece svc E s c t p cache)) \<and>
    fst (blockFromPiece svc E s c t p cache) =
      fst (blockFromPiece svc E s c \<lparr>cacheBefore = (\<lambda>cache. cache), turnCtx = None\<rparr> p Map.empty)"
proof -
  have e: "cacheCurrent svc E s Map.empty" by (simp add: cacheCurrent_def)
  from current_shared_reader [OF assms(1), of p] current_shared_reader [OF e, of p] assms(2)
  show ?thesis by (auto simp: blockFromPiece_def Let_def split: sum.split)
qed

lemma blockstore_get_found:
  assumes "turnsKeep (cacheCurrent svc E s) turns" "\<And>i. turnCtx (turns i) = None" "cacheCurrent svc E s cache"
    and "svcPiecesContainingMultihash svc s (pdCidHash E c) = Inr ps" "p \<in> set ps"
    and from_p: "fst (blockFromPiece svc E s c \<lparr>cacheBefore = (\<lambda>cache. cache), turnCtx = None\<rparr> p Map.empty) = Ret data"
    and no_panic: "\<And>q. q \<in> set ps \<Longrightarrow> svcGetOffsetSize svc s q (pdCidHash E c) \<noteq> Panic"
  shows "\<exists>data. fst (PD_BlockstoreGet svc E s turns c cache) = Ret data"
proof -
  have "\<exists>data. fst (blockLoop svc E s turns c i qs merr cache) = Ret data"
    if "p \<in> set qs" "set qs \<subseteq> set ps" "cacheCurrent svc E s cache" for i qs merr cache
    using that
  proof (induction qs arbitrary: i merr cache)
    case (Cons q qs)
    obtain r cache1 where f: "blockFromPiece svc E s c (turns i) q cache = (r, cache1)" by (rule prod.exhaust)
    have "cacheCurrent svc E s (cacheBefore (turns i) cache)"
      using assms(1) Cons.prems(3) by (simp add: turnsKeep_def)
    note one = current_blockFromPiece [OF this assms(2), of c q, unfolded f, simplified]
    have np: "svcGetOffsetSize svc s q (pdCidHash E c) \<noteq> Panic" using no_panic Cons.prems(2) by simp
    show ?case
    proof (cases r)
      case Panic
      with f np show ?thesis
        by (auto simp: blockFromPiece_def Let_def split: prod.splits sum.splits outcome.splits if_splits)
    next
      case (Fail err)
      with one from_p have "q \<noteq> p" by auto
      with Cons f Fail one show ?thesis by simp
    qed (use f in simp)
  qed simp
  moreover have "ps \<noteq> []" using assms(5) by auto
  ultimately show ?thesis using assms(3,4,5) by (simp add: PD_BlockstoreGet_def)
qed

abbreviation calmTurns :: "nat \<Rightarrow> 'r readTurn" where
  "calmTurns \<equiv> (\<lambda>i. \<lparr>cacheBefore = (\<lambda>cache. cache), turnCtx = None\<rparr>)"

lemma calmTurns_keep: "turnsKeep P calmTurns" by (simp add: turnsKeep_def)

lemma blockstore_get_found_demo:
  "\<exists>data. fst (PD_BlockstoreGet (ldbService demoWorld) demoPd (demo2, initChecker) calmTurns ''blk'' Map.empty) = Ret data"
proof -
  let ?svc = "ldbService demoWorld" and ?s = "(demo2, initChecker)"
  have h: "pdCidHash demoPd ''blk'' = ''blk''" by (simp add: demoPd_def)
  have ps: "svcPiecesContainingMultihash ?svc ?s (pdCidHash demoPd ''blk'') = Inr [''p'']"
    by (simp add: h ldbService_def PiecesContaining_lid [OF demo_ok demo2_lid(1)] demo2_lid(4))
  have rd: "PD_GetPieceReader ?svc demoPd ?s ''p'' = Inr ()"
    by (simp add: PD_GetPieceReader_def PD_GetPieceDeals_def ldbService_def demoPd_def
        GetPieceDeals_lid [OF demo_ok demo2_lid(1)] demo2_lid(2))
  have os: "svcGetOffsetSize ?svc ?s ''p'' ''blk'' = Ret \<lparr>Offset = 7, Size = 300\<rparr>"
    by (simp add: ldbService_def GetOffsetSize_lid [OF demo_ok demo2_lid(1)] demo2_lid(2,3))
  have "fst (blockFromPiece ?svc demoPd ?s ''blk'' \<lparr>cacheBefore = (\<lambda>cache. cache), turnCtx = None\<rparr> ''p'' Map.empty) =
      Ret ''abc''"
    using os by (simp add: blockFromPiece_def PD_GetSharedPieceReader_def rd Let_def h) (simp add: demoPd_def)
  from blockstore_get_found [OF calmTurns_keep _ _ ps _ this] os h show ?thesis
    by (simp add: cacheCurrent_def)
qed

lemma sizeLoop_Ret:
  "sizeLoop svc E s c ps merr = Ret n \<Longrightarrow> ps \<noteq> [] \<or> merr \<noteq> [] \<Longrightarrow>
    \<exists>p\<in>set ps. \<exists>os. svcGetOffsetSize svc s p (pdCidHash E c) = Ret os \<and> Size os = n"
proof (induction ps arbitrary: merr)
  case (Cons p ps)
  show ?case
  proof (cases "svcGetOffsetSize svc s p (pdCidHash E c)")
    case (Fail err)
    with Cons show ?thesis by fastforce
  next
    case (Ret os)
    show ?thesis
    proof (cases "Size os = n")
      case False
      with Cons.prems(1) Ret obtain merr' where "sizeLoop svc E s c ps merr' = Ret n" "merr' \<noteq> []"
        by (auto split: if_splits sum.splits bool.splits option.splits)
      from Cons.IH [OF this(1)] this(2) show ?thesis by auto
    qed (use Ret in auto)
  qed (use Cons.prems in simp)
qed simp

text \<open>
  The size of a block is always one that the index has recorded for its multihash in a listed
  piece. Rebuilding an incomplete index does not change that: the rebuild stores nothing, so a piece
  whose entry has size 0 still answers 0 when it succeeds.
\<close>

theorem blockstore_get_size_recorded:
  assumes ps: "svcPiecesContainingMultihash svc s (pdCidHash E c) = Inr ps" and ne: "ps \<noteq> []"
  shows "(PD_BlockstoreGetSize svc E s c = Ret n \<longrightarrow>
      (\<exists>p\<in>set ps. \<exists>os. svcGetOffsetSize svc s p (pdCidHash E c) = Ret os \<and> Size os = n)) \<and>
    (svcGetOffsetSize svc s (hd ps) (pdCidHash E c) = Ret os \<and> Size os = 0 \<and>
      svcIsCompleteIndex svc s (hd ps) = Inr False \<and> PD_BuildIndexForPiece svc E s (hd ps) = None \<longrightarrow>
      PD_BlockstoreGetSize svc E s c = Ret 0)"
proof -
  have get: "PD_BlockstoreGetSize svc E s c = sizeLoop svc E s c ps []"
    using ps ne by (simp add: PD_BlockstoreGetSize_def)
  obtain q qs where q: "ps = q # qs" using ne by (cases ps) auto
  show ?thesis
    unfolding get using sizeLoop_Ret [of svc E s c ps "[]" n] ne by (auto simp: q)
qed

theorem blockstore_get_size_recorded_witness:
  "PD_BlockstoreGetSize (ldbService demoWorld) demoPd (demo2, initChecker) ''blk'' = Ret 300"
proof -
  let ?svc = "ldbService demoWorld" and ?s = "(demo2, initChecker)"
  have h: "pdCidHash demoPd ''blk'' = ''blk''" by (simp add: demoPd_def)
  have ps: "svcPiecesContainingMultihash ?svc ?s (pdCidHash demoPd ''blk'') = Inr [''p'']"
    by (simp add: h ldbService_def PiecesContaining_lid [OF demo_ok demo2_lid(1)] demo2_lid(4))
  have os: "svcGetOffsetSize ?svc ?s ''p'' (pdCidHash demoPd ''blk'') = Ret \<lparr>Offset = 7, Size = 300\<rparr>"
    by (simp add: h ldbService_def GetOffsetSize_lid [OF demo_ok demo2_lid(1)] demo2_lid(2,3))
  have "\<exists>n. PD_BlockstoreGetSize ?svc demoPd ?s ''blk'' = Ret n"
    by (simp add: PD_BlockstoreGetSize_def ps os)
  then obtain n where n: "PD_BlockstoreGetSize ?svc demoPd ?s ''blk'' = Ret n" by blast
  with blockstore_get_size_recorded [OF ps, of n] os show ?thesis by simp
qed

text \<open>
  A reader over a sector is only ever made for a sector that is unsealed: a sealed sector is
  refused with the error \<open>ErrSealed\<close>, whatever the accessor would do.
\<close>

theorem reader_only_over_unsealed:
  assumes "saIsUnsealed A sid (unpad ofs) (unpad len) = Inr unsealed"
  shows "(SA_GetReader A unpad sid ofs len = Inr r \<longleftrightarrow>
      unsealed \<and> saUnsealSectorAt A sid (unpad ofs) (unpad len) = Inr r) \<and>
    (unsealed \<or> (\<exists>err. SA_GetReader A unpad sid ofs len = Inl err \<and> errors_Is err ErrSealed))"
  using assms
  by (auto simp: SA_GetReader_def errorf_w_def typesErrSealed_def errors_Is_def split: sum.split)

theorem reader_only_over_unsealed_witness:
  "\<exists>err. SA_GetReader \<lparr>saIsUnsealed = (\<lambda>_ _ _. Inr False), saUnsealSectorAt = (\<lambda>_ _ _. Inr ())\<rparr>
    (\<lambda>n. n) 3 0 128 = Inl err \<and> errors_Is err ErrSealed"
  using reader_only_over_unsealed
    [of "\<lparr>saIsUnsealed = (\<lambda>_ _ _. Inr False), saUnsealSectorAt = (\<lambda>_ _ _. Inr ())\<rparr>" 3 "\<lambda>n. n" 0 128
      False "()"] by simp

section \<open>Adding a deal\<close>

text \<open>
  Adding a deal to a piece that the store does not know does not index it, although the call
  parses the whole piece and succeeds: the step that stores the records is disabled, so the piece
  stays unindexed and gets metadata with cursor 0, the case excluded by the consistency property.
\<close>

theorem add_deal_leaves_piece_unindexed:
  assumes inv: "ldbInv W view listing s" and new: "lidPieces (lid_of W view (fst s)) p = None"
    and r: "PD_AddDealForPiece (ldbService W) E s p dl = (None, s')"
  shows "svcIsIndexed (ldbService W) s' p = Inr False \<and> ldbInv W view listing s' \<and>
    (\<exists>md. lidPieces (lid_of W view (fst s')) p = Some md \<and> Cursor md = 0 \<and> Deals md = [dl])"
proof -
  from inv have ok: "world_ok W view listing" and wf: "wf_store W view (fst s)" by (auto simp: ldbInv_def)
  have "svcIsIndexed (ldbService W) s p = Inr False"
    by (simp add: ldbService_def IsIndexed_lid [OF ok wf] new)
  with r have add: "svcAddDealForPiece (ldbService W) s p dl = (None, s')"
    by (auto simp: PD_AddDealForPiece_def Let_def split: option.splits prod.splits)
  obtain e t where t: "Store_AddDealForPiece W (fst s) p dl = (e, t)" by fastforce
  with add have s': "s' = (t, snd s)" by (simp add: ldbService_def)
  from Store_AddDealForPiece_refines [OF ok wf t] have wf': "wf_store W view t"
    and L: "lid_of W view t = lidAddDeal p dl (lid_of W view (fst s))" by auto
  have md: "lidPieces (lid_of W view t) p = Some (newLeveldbMetadata\<lparr>Deals := [dl]\<rparr>)"
    by (simp add: L lidAddDeal_def new newLeveldbMetadata_def)
  then show ?thesis
    using ok wf' by (simp add: s' ldbInv_def ldbService_def IsIndexed_lid [OF ok wf']
        newLeveldbMetadata_def time_IsZero_def time_zero_def)
qed

theorem add_deal_leaves_piece_unindexed_witness:
  "\<exists>s'. svcIsIndexed (ldbService demoWorld) s' ''p'' = Inr False \<and>
    lidPieces (lid_of demoWorld map_of (fst s')) ''p'' \<noteq> None"
proof -
  let ?s = "(demo0, initChecker)"
  have inv: "ldbInv demoWorld map_of demoListing ?s" by (simp add: ldbInv_def demo_ok demo0_lid)
  obtain e s' where r: "PD_AddDealForPiece (ldbService demoWorld) demoPd ?s ''p'' demoDeal = (e, s')"
    by (rule prod.exhaust)
  have idx: "addIndexForPieceThrottled demoPd ''p'' demoDeal = None"
    by (simp add: addIndexForPieceThrottled_def addIndexForPiece_def demoPd_def parseRecordsFromCar_def errors_Is_def split: sum.split)
  obtain e1 t where t: "Store_AddDealForPiece demoWorld demo0 ''p'' demoDeal = (e1, t)" by fastforce
  have ni: "svcIsIndexed (ldbService demoWorld) ?s ''p'' = Inr False"
    using demo0_lid by (simp add: ldbService_def IsIndexed_lid [OF demo_ok])
  have "e1 = None" using Store_AddDealForPiece_refines [OF demo_ok _ t] demo0_lid by blast
  with t have add: "svcAddDealForPiece (ldbService demoWorld) ?s ''p'' demoDeal = (None, (t, initChecker))"
    by (simp add: ldbService_def)
  have "e = None"
    using r by (simp add: PD_AddDealForPiece_def Let_def ni idx add)
  with add_deal_leaves_piece_unindexed [OF inv, of "''p''" demoPd demoDeal s'] r
  have "svcIsIndexed (ldbService demoWorld) s' ''p'' = Inr False \<and>
      lidPieces (lid_of demoWorld map_of (fst s')) ''p'' \<noteq> None" by (auto simp: demo0_lid)
  then show ?thesis by blast
qed

end
