(* ===== verification/IndexThrottle.thy ===== *)
theory IndexThrottle
  imports PieceDirectory
begin

text \<open>
  The throttling of index operations, \<open>addIndexForPieceThrottled\<close> of
  \<open>lib/boost/piecedirectory/piecedirectory.go\<close>. A call is a thread with a program counter; the
  shared state is the map \<open>addIdxOpByCid\<close> (from a piece to the operation in progress), the
  operations (a channel \<open>done\<close> and an error) and the buffered channel \<open>addIdxThrottle\<close>, of which
  only the number of elements matters. One step is one access to the shared state; the deferred
  calls run last in, first out: free the slot, close \<open>done\<close>, delete the map entry.
\<close>

record addIndexOperation =
  opDone :: bool
  opErr :: "goerr option"

datatype thPc =
    Idle
  | Waiting cid nat
  | Queued cid DealInfo nat
  | Running cid DealInfo nat
  | Releasing cid nat
  | Closing cid nat
  | Deleting cid nat
  | Returned "goerr option"

record throttle =
  thCap :: nat
  thSlots :: nat
  thOps :: "addIndexOperation list"
  thMap :: "cid \<Rightarrow> nat option"
  thPcs :: "thPc list"

datatype thAct = Call nat cid DealInfo | Cancel nat goerr | Go nat

definition setPc :: "nat \<Rightarrow> thPc \<Rightarrow> throttle \<Rightarrow> throttle" where
  "setPc t pc s = s\<lparr>thPcs := (thPcs s)[t := pc]\<rparr>"

text \<open>The call: \<open>LoadOrStore\<close> of a fresh operation.\<close>

definition thCall :: "nat \<Rightarrow> cid \<Rightarrow> DealInfo \<Rightarrow> throttle \<Rightarrow> throttle" where
  "thCall t p dl s =
     (case thMap s p of
        Some n \<Rightarrow> setPc t (Waiting p n) s
      | None \<Rightarrow>
          (let n = length (thOps s) in
           setPc t (Queued p dl n)
             (s\<lparr>thOps := thOps s @ [\<lparr>opDone = False, opErr = None\<rparr>], thMap := (thMap s)(p \<mapsto> n)\<rparr>)))"

text \<open>A cancelled context, in the two \<open>select\<close> statements; it does nothing elsewhere.\<close>

definition thCancel :: "nat \<Rightarrow> goerr \<Rightarrow> throttle \<Rightarrow> throttle option" where
  "thCancel t e s =
     (case thPcs s ! t of
        Waiting p n \<Rightarrow> Some (setPc t (Returned (Some e)) s)
      | Queued p dl n \<Rightarrow>
          Some (setPc t (Closing p n) (s\<lparr>thOps := (thOps s)[n := (thOps s ! n)\<lparr>opErr := Some e\<rparr>]\<rparr>))
      | _ \<Rightarrow> None)"

text \<open>
  The next step of a thread; \<open>None\<close> when it is blocked or has nothing to do. Closing a closed
  channel panics. \<open>idx\<close> is \<open>addIndexForPiece\<close> over the readers of the moment.
\<close>

definition thGo :: "(cid \<Rightarrow> DealInfo \<Rightarrow> goerr option) \<Rightarrow> nat \<Rightarrow> throttle \<Rightarrow> throttle outcome option" where
  "thGo idx t s =
     (case thPcs s ! t of
        Waiting p n \<Rightarrow>
          if opDone (thOps s ! n) then Some (Ret (setPc t (Returned (opErr (thOps s ! n))) s)) else None
      | Queued p dl n \<Rightarrow>
          if thSlots s < thCap s
          then Some (Ret (setPc t (Running p dl n) (s\<lparr>thSlots := thSlots s + 1\<rparr>)))
          else None
      | Running p dl n \<Rightarrow>
          Some (Ret (setPc t (Releasing p n)
            (s\<lparr>thOps := (thOps s)[n := (thOps s ! n)\<lparr>opErr := idx p dl\<rparr>]\<rparr>)))
      | Releasing p n \<Rightarrow> Some (Ret (setPc t (Closing p n) (s\<lparr>thSlots := thSlots s - 1\<rparr>)))
      | Closing p n \<Rightarrow>
          if opDone (thOps s ! n) then Some Panic
          else Some (Ret (setPc t (Deleting p n)
            (s\<lparr>thOps := (thOps s)[n := (thOps s ! n)\<lparr>opDone := True\<rparr>]\<rparr>)))
      | Deleting p n \<Rightarrow>
          Some (Ret (setPc t (Returned (opErr (thOps s ! n))) (s\<lparr>thMap := (thMap s)(p := None)\<rparr>)))
      | _ \<Rightarrow> None)"

fun thStep :: "(cid \<Rightarrow> DealInfo \<Rightarrow> goerr option) \<Rightarrow> thAct \<Rightarrow> throttle \<Rightarrow> throttle outcome option" where
  "thStep idx (Call t p dl) s =
     (if t < length (thPcs s) \<and> thPcs s ! t = Idle then Some (Ret (thCall t p dl s)) else None)"
| "thStep idx (Cancel t e) s =
     (if t < length (thPcs s) then map_option Ret (thCancel t e s) else None)"
| "thStep idx (Go t) s = (if t < length (thPcs s) then thGo idx t s else None)"

text \<open>The directory as \<open>NewPieceDirectory\<close> makes it, with \<open>threads\<close> calls to come.\<close>

definition thInit :: "nat \<Rightarrow> nat \<Rightarrow> throttle" where
  "thInit cap threads =
     \<lparr>thCap = cap, thSlots = 0, thOps = [], thMap = (\<lambda>_. None), thPcs = replicate threads Idle\<rparr>"

inductive thReachable :: "throttle \<Rightarrow> bool" where
  init: "thReachable (thInit cap threads)"
| step: "thReachable s \<Longrightarrow> thStep idx a s = Some (Ret s') \<Longrightarrow> thReachable s'"

text \<open>
  \<open>GetPieceMetadata\<close> adds to the metadata of the store whether this process is indexing the piece.
\<close>

definition PD_GetPieceMetadata ::
  "'s lidService \<Rightarrow> throttle \<Rightarrow> 's \<Rightarrow> cid \<Rightarrow> goerr + Metadata \<times> bool" where
  "PD_GetPieceMetadata svc th s pieceCid =
     (case svcGetPieceMetadata svc s pieceCid of
        Inl err \<Rightarrow> Inl err
      | Inr md \<Rightarrow> Inr (md, thMap th pieceCid \<noteq> None))"

section \<open>The invariant\<close>

text \<open>The operation that a thread owns: the one it has put into the map.\<close>

fun owned :: "thPc \<Rightarrow> (cid \<times> nat) option" where
  "owned (Queued p dl n) = Some (p, n)"
| "owned (Running p dl n) = Some (p, n)"
| "owned (Releasing p n) = Some (p, n)"
| "owned (Closing p n) = Some (p, n)"
| "owned (Deleting p n) = Some (p, n)"
| "owned _ = None"

fun holdsSlot :: "thPc \<Rightarrow> bool" where
  "holdsSlot (Running p dl n) = True"
| "holdsSlot (Releasing p n) = True"
| "holdsSlot _ = False"

fun isDeleting :: "thPc \<Rightarrow> bool" where
  "isDeleting (Deleting p n) = True"
| "isDeleting _ = False"

definition slotCount :: "thPc list \<Rightarrow> nat" where
  "slotCount pcs = cnt holdsSlot pcs"

definition thInv :: "throttle \<Rightarrow> bool" where
  "thInv s \<longleftrightarrow>
     thSlots s = slotCount (thPcs s) \<and> thSlots s \<le> thCap s \<and>
     (\<forall>p n. thMap s p = Some n \<longrightarrow> n < length (thOps s)) \<and>
     (\<forall>t<length (thPcs s). \<forall>p n. owned (thPcs s ! t) = Some (p, n) \<longrightarrow>
        thMap s p = Some n \<and> opDone (thOps s ! n) = isDeleting (thPcs s ! t)) \<and>
     (\<forall>t<length (thPcs s). \<forall>u<length (thPcs s). \<forall>p n m.
        owned (thPcs s ! t) = Some (p, n) \<longrightarrow> owned (thPcs s ! u) = Some (p, m) \<longrightarrow> t = u) \<and>
     (\<forall>p q n. thMap s p = Some n \<longrightarrow> thMap s q = Some n \<longrightarrow> p = q) \<and>
     (\<forall>p n. thMap s p = Some n \<longrightarrow>
        (\<exists>t<length (thPcs s). owned (thPcs s ! t) = Some (p, n))) \<and>
     (\<forall>t<length (thPcs s). \<forall>p n. thPcs s ! t = Waiting p n \<longrightarrow>
        n < length (thOps s) \<and> (opDone (thOps s ! n) \<or> thMap s p = Some n))"

lemma slotCount_update:
  "t < length pcs \<Longrightarrow> slotCount (pcs[t := pc]) =
    slotCount pcs + (if holdsSlot pc then 1 else 0) - (if holdsSlot (pcs ! t) then 1 else 0)"
  using cnt_update [of t pcs holdsSlot pc] cnt_pos [of t pcs holdsSlot]
  by (auto simp: slotCount_def split: if_splits)

lemma slotCount_pos: "t < length pcs \<Longrightarrow> holdsSlot (pcs ! t) \<Longrightarrow> 0 < slotCount pcs"
  by (simp add: slotCount_def cnt_pos)

lemma thInv_parts:
  assumes "thInv s"
  shows "thSlots s = slotCount (thPcs s)" and "thSlots s \<le> thCap s"
    and "\<forall>p n. thMap s p = Some n \<longrightarrow> n < length (thOps s)"
    and "\<forall>t<length (thPcs s). \<forall>p n. owned (thPcs s ! t) = Some (p, n) \<longrightarrow>
      thMap s p = Some n \<and> opDone (thOps s ! n) = isDeleting (thPcs s ! t)"
    and "\<forall>t<length (thPcs s). \<forall>u<length (thPcs s). \<forall>p n m.
      owned (thPcs s ! t) = Some (p, n) \<longrightarrow> owned (thPcs s ! u) = Some (p, m) \<longrightarrow> t = u"
    and "\<forall>p q n. thMap s p = Some n \<longrightarrow> thMap s q = Some n \<longrightarrow> p = q"
    and "\<forall>p n. thMap s p = Some n \<longrightarrow> (\<exists>t<length (thPcs s). owned (thPcs s ! t) = Some (p, n))"
    and "\<forall>t<length (thPcs s). \<forall>p n. thPcs s ! t = Waiting p n \<longrightarrow>
      n < length (thOps s) \<and> (opDone (thOps s ! n) \<or> thMap s p = Some n)"
  using assms unfolding thInv_def by - (elim conjE, assumption)+

lemmas thInvD = thInv_parts [rule_format]

lemma thInvI:
  assumes "thSlots s = slotCount (thPcs s)" and "thSlots s \<le> thCap s"
    and "\<And>p n. thMap s p = Some n \<Longrightarrow> n < length (thOps s)"
    and "\<And>t p n. t < length (thPcs s) \<Longrightarrow> owned (thPcs s ! t) = Some (p, n) \<Longrightarrow>
      thMap s p = Some n \<and> opDone (thOps s ! n) = isDeleting (thPcs s ! t)"
    and "\<And>t u p n m. t < length (thPcs s) \<Longrightarrow> u < length (thPcs s) \<Longrightarrow>
      owned (thPcs s ! t) = Some (p, n) \<Longrightarrow> owned (thPcs s ! u) = Some (p, m) \<Longrightarrow> t = u"
    and "\<And>p q n. thMap s p = Some n \<Longrightarrow> thMap s q = Some n \<Longrightarrow> p = q"
    and "\<And>p n. thMap s p = Some n \<Longrightarrow> \<exists>t<length (thPcs s). owned (thPcs s ! t) = Some (p, n)"
    and "\<And>t p n. t < length (thPcs s) \<Longrightarrow> thPcs s ! t = Waiting p n \<Longrightarrow>
      n < length (thOps s) \<and> (opDone (thOps s ! n) \<or> thMap s p = Some n)"
  shows "thInv s"
  unfolding thInv_def
proof (intro conjI)
  show "\<forall>t<length (thPcs s). \<forall>p n. owned (thPcs s ! t) = Some (p, n) \<longrightarrow>
      thMap s p = Some n \<and> opDone (thOps s ! n) = isDeleting (thPcs s ! t)"
    using assms(4) by blast
  show "\<forall>t<length (thPcs s). \<forall>u<length (thPcs s). \<forall>p n m.
      owned (thPcs s ! t) = Some (p, n) \<longrightarrow> owned (thPcs s ! u) = Some (p, m) \<longrightarrow> t = u"
    using assms(5) by blast
  show "\<forall>t<length (thPcs s). \<forall>p n. thPcs s ! t = Waiting p n \<longrightarrow>
      n < length (thOps s) \<and> (opDone (thOps s ! n) \<or> thMap s p = Some n)"
    using assms(8) by blast
qed (use assms(1-3,6,7) in blast)+

text \<open>
  The owner of an operation goes on, with its operation and its slot changed accordingly: every
  step of an owner except the last one has this shape.
\<close>

lemma owner_step:
  assumes inv: "thInv s" and t: "t < length (thPcs s)" and own: "owned (thPcs s ! t) = Some (p, n)"
    and own': "owned pc = Some (p, n)" and nd: "\<not> isDeleting (thPcs s ! t)"
    and ops: "ops = (thOps s)[n := op']" and dn: "opDone op' = isDeleting pc"
    and slots: "slots = slotCount ((thPcs s)[t := pc])" "slots \<le> thCap s"
  shows "thInv (setPc t pc (s\<lparr>thOps := ops, thSlots := slots\<rparr>))"
proof -
  let ?s = "setPc t pc (s\<lparr>thOps := ops, thSlots := slots\<rparr>)"
  have pcs: "thPcs ?s ! u = (if u = t then pc else thPcs s ! u)" if "u < length (thPcs s)" for u
    using that t by (simp add: setPc_def nth_list_update)
  have len: "length (thPcs ?s) = length (thPcs s)" "length (thOps ?s) = length (thOps s)"
    and m: "thMap ?s = thMap s" by (simp_all add: setPc_def ops)
  have mine: "thMap s p = Some n" "n < length (thOps s)"
    using thInvD(4) [OF inv t own] thInvD(3) [OF inv] by auto
  have op: "thOps ?s ! k = (if k = n then op' else thOps s ! k)" for k
    using mine by (simp add: setPc_def ops nth_list_update)
  have own_eq: "owned (thPcs ?s ! u) = owned (thPcs s ! u)" if "u < length (thPcs s)" for u
    using pcs [OF that] own own' by auto
  have other: "k \<noteq> n" if "u < length (thPcs s)" "u \<noteq> t" "owned (thPcs s ! u) = Some (q, k)" for u q k
    using that thInvD(4) [OF inv that(1,3)] mine(1) thInvD(6) [OF inv] thInvD(5) [OF inv that(1) t] own
    by blast
  have s8: "\<exists>u<length (thPcs s). owned (thPcs ?s ! u) = Some (q, k)" if "thMap s q = Some k" for q k
    using thInvD(7) [OF inv that] own_eq by metis
  have s4: "thMap s q = Some k \<and> opDone (thOps ?s ! k) = isDeleting (thPcs ?s ! u)"
    if "u < length (thPcs s)" "owned (thPcs s ! u) = Some (q, k)" for u q k
    using thInvD(4) [OF inv that] other [OF that(1) _ that(2)] own that pcs [OF that(1)] dn
    by (auto simp: op)
  have s9: "k < length (thOps s) \<and> (opDone (thOps ?s ! k) \<or> thMap s q = Some k)"
    if "u < length (thPcs s)" "thPcs ?s ! u = Waiting q k" for u q k
  proof -
    have "thPcs s ! u = Waiting q k" using that pcs [OF that(1)] own' by (auto split: if_splits)
    from thInvD(8) [OF inv that(1) this] have w: "k < length (thOps s)"
      "opDone (thOps s ! k) \<or> thMap s q = Some k" by auto
    moreover have "\<not> opDone (thOps s ! n)" using thInvD(4) [OF inv t own] nd by simp
    ultimately show ?thesis by (auto simp: op)
  qed
  have sl: "thSlots ?s = slotCount (thPcs ?s)" "thSlots ?s \<le> thCap ?s"
    using slots by (simp_all add: setPc_def)
  show ?thesis
  proof (rule thInvI, unfold len m)
    show "k < length (thOps s)" if "thMap s q = Some k" for q k using thInvD(3) [OF inv that] .
    show "thMap s q = Some k \<and> opDone (thOps ?s ! k) = isDeleting (thPcs ?s ! u)"
      if "u < length (thPcs s)" "owned (thPcs ?s ! u) = Some (q, k)" for u q k
      using s4 that own_eq by simp
    show "u = v" if "u < length (thPcs s)" "v < length (thPcs s)" "owned (thPcs ?s ! u) = Some (q, k)"
      "owned (thPcs ?s ! v) = Some (q, l)" for u v q k l
      using that own_eq thInvD(5) [OF inv] by metis
    show "q = r" if "thMap s q = Some k" "thMap s r = Some k" for q r k using thInvD(6) [OF inv that] .
  qed (use sl s8 s9 in auto)
qed

lemma holdsSlot_owned: "holdsSlot pc \<Longrightarrow> owned pc \<noteq> None"
  by (cases pc) auto

text \<open>A step of a thread that owns nothing: it starts or stops waiting.\<close>

lemma waiter_step:
  assumes inv: "thInv s" and t: "t < length (thPcs s)" and own: "owned (thPcs s ! t) = None"
    and own': "owned pc = None" and w: "\<And>p n. pc = Waiting p n \<Longrightarrow> thMap s p = Some n"
  shows "thInv (setPc t pc s)"
proof -
  let ?s = "setPc t pc s"
  have pcs: "thPcs ?s ! u = (if u = t then pc else thPcs s ! u)" if "u < length (thPcs s)" for u
    using that t by (simp add: setPc_def nth_list_update)
  have len: "length (thPcs ?s) = length (thPcs s)" and ops: "thOps ?s = thOps s" and m: "thMap ?s = thMap s"
    by (simp_all add: setPc_def)
  have own_eq: "owned (thPcs ?s ! u) = owned (thPcs s ! u)" if "u < length (thPcs s)" for u
    using pcs [OF that] own own' by auto
  have "\<not> holdsSlot pc" "\<not> holdsSlot (thPcs s ! t)" using own own' holdsSlot_owned by blast+
  then have slots: "slotCount (thPcs ?s) = slotCount (thPcs s)"
    using t by (simp add: setPc_def slotCount_update)
  show ?thesis
  proof (rule thInvI, unfold len ops m slots)
    show "k < length (thOps s)" if "thMap s q = Some k" for q k using thInvD(3) [OF inv that] .
    show "thMap s q = Some k \<and> opDone (thOps s ! k) = isDeleting (thPcs ?s ! u)"
      if "u < length (thPcs s)" "owned (thPcs ?s ! u) = Some (q, k)" for u q k
      using thInvD(4) [OF inv that(1)] that own own_eq pcs [OF that(1)] by (cases "u = t") auto
    show "u = v" if "u < length (thPcs s)" "v < length (thPcs s)" "owned (thPcs ?s ! u) = Some (q, k)"
      "owned (thPcs ?s ! v) = Some (q, l)" for u v q k l
      using that own_eq thInvD(5) [OF inv] by metis
    show "q = r" if "thMap s q = Some k" "thMap s r = Some k" for q r k using thInvD(6) [OF inv that] .
    show "\<exists>u<length (thPcs s). owned (thPcs ?s ! u) = Some (q, k)" if "thMap s q = Some k" for q k
      using thInvD(7) [OF inv that] own_eq by metis
    show "k < length (thOps s) \<and> (opDone (thOps s ! k) \<or> thMap s q = Some k)"
      if "u < length (thPcs s)" "thPcs ?s ! u = Waiting q k" for u q k
    proof (cases "u = t")
      case True
      with that pcs have "thMap s q = Some k" by (intro w) auto
      then show ?thesis using thInvD(3) [OF inv] by blast
    next
      case False
      then show ?thesis using that pcs thInvD(8) [OF inv that(1)] by auto
    qed
  qed (use thInvD(1,2) [OF inv] in \<open>simp_all add: setPc_def\<close>)
qed

lemma call_new_step:
  assumes inv: "thInv s" and t: "t < length (thPcs s)" and idle: "thPcs s ! t = Idle"
    and new: "thMap s p = None"
  defines "n \<equiv> length (thOps s)"
  shows "thInv (setPc t (Queued p dl n)
    (s\<lparr>thOps := thOps s @ [\<lparr>opDone = False, opErr = None\<rparr>], thMap := (thMap s)(p \<mapsto> n)\<rparr>))"
    (is "thInv ?s")
proof -
  have pcs: "thPcs ?s ! u = (if u = t then Queued p dl n else thPcs s ! u)" if "u < length (thPcs s)" for u
    using that t by (simp add: setPc_def nth_list_update)
  have len: "length (thPcs ?s) = length (thPcs s)" by (simp add: setPc_def)
  have op: "thOps ?s ! k = (if k = n then \<lparr>opDone = False, opErr = None\<rparr> else thOps s ! k)" if "k \<le> n" for k
    using that by (simp add: setPc_def n_def nth_append)
  have slots: "slotCount (thPcs ?s) = slotCount (thPcs s)"
    using t idle by (simp add: setPc_def slotCount_update)
  have m: "thMap ?s q = (if q = p then Some n else thMap s q)" for q by (simp add: setPc_def)
  have old: "k < n" if "thMap s q = Some k" for q k using thInvD(3) [OF inv that] n_def by simp
  have others: "q \<noteq> p" "k < n" "thMap s q = Some k" if "u < length (thPcs s)" "owned (thPcs s ! u) = Some (q, k)"
    for u q k using thInvD(4) [OF inv that] new old by auto
  show ?thesis
  proof (rule thInvI, unfold len slots)
    show "thMap ?s q = Some k \<and> opDone (thOps ?s ! k) = isDeleting (thPcs ?s ! u)"
      if "u < length (thPcs s)" "owned (thPcs ?s ! u) = Some (q, k)" for u q k
    proof (cases "u = t")
      case True
      with that pcs have "q = p" "k = n" by auto
      with True that pcs op show ?thesis by (simp add: m)
    next
      case False
      with that pcs have "owned (thPcs s ! u) = Some (q, k)" by simp
      with False that others [OF that(1) this] thInvD(4) [OF inv that(1) this] pcs show ?thesis
        by (simp add: m op)
    qed
    show "u = v" if "u < length (thPcs s)" "v < length (thPcs s)" "owned (thPcs ?s ! u) = Some (q, k)"
      "owned (thPcs ?s ! v) = Some (q, l)" for u v q k l
      using that pcs others(1) thInvD(5) [OF inv that(1,2)] by (auto split: if_splits)
    show "q = r" if "thMap ?s q = Some k" "thMap ?s r = Some k" for q r k
      using that thInvD(6) [OF inv] old [of _ n] by (auto simp: m split: if_splits)
    show "\<exists>u<length (thPcs s). owned (thPcs ?s ! u) = Some (q, k)" if "thMap ?s q = Some k" for q k
    proof (cases "q = p")
      case True
      then show ?thesis using that t pcs [OF t] by (auto simp: m)
    next
      case False
      with that obtain u where u: "u < length (thPcs s)" "owned (thPcs s ! u) = Some (q, k)"
        using thInvD(7) [OF inv] by (auto simp: m)
      with idle have "u \<noteq> t" by auto
      with u pcs show ?thesis by auto
    qed
    show "k < length (thOps ?s) \<and> (opDone (thOps ?s ! k) \<or> thMap ?s q = Some k)"
      if "u < length (thPcs s)" "thPcs ?s ! u = Waiting q k" for u q k
    proof -
      from that pcs have "thPcs s ! u = Waiting q k" by (auto split: if_splits)
      from thInvD(8) [OF inv that(1) this] have k: "k < n" "opDone (thOps s ! k) \<or> thMap s q = Some k"
        by (auto simp: n_def)
      have "length (thOps ?s) = Suc n" by (simp add: setPc_def n_def)
      with k op [of k] new show ?thesis by (auto simp: m)
    qed
    show "k < length (thOps ?s)" if "thMap ?s q = Some k" for q k
      using that old [of q k] by (auto simp: m setPc_def n_def split: if_splits)
  qed (use thInvD(1,2) [OF inv] in \<open>simp_all add: setPc_def\<close>)
qed

lemma delete_step:
  assumes inv: "thInv s" and t: "t < length (thPcs s)" and pc: "thPcs s ! t = Deleting p n"
  shows "thInv (setPc t (Returned e) (s\<lparr>thMap := (thMap s)(p := None)\<rparr>))" (is "thInv ?s")
proof -
  have pcs: "thPcs ?s ! u = (if u = t then Returned e else thPcs s ! u)" if "u < length (thPcs s)" for u
    using that t by (simp add: setPc_def nth_list_update)
  have len: "length (thPcs ?s) = length (thPcs s)" and ops: "thOps ?s = thOps s"
    by (simp_all add: setPc_def)
  have m: "thMap ?s q = (if q = p then None else thMap s q)" for q by (simp add: setPc_def)
  have slots: "slotCount (thPcs ?s) = slotCount (thPcs s)"
    using t pc by (simp add: setPc_def slotCount_update)
  have mine: "thMap s p = Some n" "opDone (thOps s ! n)" using thInvD(4) [OF inv t] pc by simp_all
  have others: "q \<noteq> p" if "u < length (thPcs s)" "u \<noteq> t" "owned (thPcs s ! u) = Some (q, k)" for u q k
    using thInvD(5) [OF inv that(1) t that(3)] pc that(2) by auto
  show ?thesis
  proof (rule thInvI, unfold len slots ops)
    show "thMap ?s q = Some k \<and> opDone (thOps s ! k) = isDeleting (thPcs ?s ! u)"
      if "u < length (thPcs s)" "owned (thPcs ?s ! u) = Some (q, k)" for u q k
      using that pcs [OF that(1)] others thInvD(4) [OF inv that(1)] by (auto simp: m split: if_splits)
    show "u = v" if "u < length (thPcs s)" "v < length (thPcs s)" "owned (thPcs ?s ! u) = Some (q, k)"
      "owned (thPcs ?s ! v) = Some (q, l)" for u v q k l
      using that pcs thInvD(5) [OF inv that(1,2)] by (auto split: if_splits)
    show "q = r" if "thMap ?s q = Some k" "thMap ?s r = Some k" for q r k
      using that thInvD(6) [OF inv] by (auto simp: m split: if_splits)
    show "\<exists>u<length (thPcs s). owned (thPcs ?s ! u) = Some (q, k)" if "thMap ?s q = Some k" for q k
    proof -
      from that obtain u where u: "u < length (thPcs s)" "owned (thPcs s ! u) = Some (q, k)" "q \<noteq> p"
        using thInvD(7) [OF inv] by (auto simp: m split: if_splits)
      with pc have "u \<noteq> t" by auto
      with u pcs show ?thesis by auto
    qed
    show "k < length (thOps s) \<and> (opDone (thOps s ! k) \<or> thMap ?s q = Some k)"
      if "u < length (thPcs s)" "thPcs ?s ! u = Waiting q k" for u q k
    proof -
      from that pcs have "thPcs s ! u = Waiting q k" by (auto split: if_splits)
      from thInvD(8) [OF inv that(1) this] mine show ?thesis by (auto simp: m)
    qed
    show "k < length (thOps s)" if "thMap ?s q = Some k" for q k
      using that thInvD(3) [OF inv] by (auto simp: m split: if_splits)
  qed (use thInvD(1,2) [OF inv] in \<open>simp_all add: setPc_def\<close>)
qed

lemma thCall_inv:
  assumes "thInv s" and "t < length (thPcs s)" and "thPcs s ! t = Idle"
  shows "thInv (thCall t p dl s)"
proof (cases "thMap s p")
  case None
  with call_new_step [OF assms] show ?thesis by (simp add: thCall_def Let_def)
next
  case (Some n)
  with waiter_step [OF assms(1,2), of "Waiting p n"] assms(3) show ?thesis by (simp add: thCall_def)
qed

lemma thCancel_inv:
  assumes inv: "thInv s" and t: "t < length (thPcs s)" and r: "thCancel t e s = Some s'"
  shows "thInv s'"
proof (cases "thPcs s ! t")
  case (Waiting p n)
  with waiter_step [OF inv t, of "Returned (Some e)"] r show ?thesis by (auto simp: thCancel_def)
next
  case (Queued p dl n)
  then have "slotCount ((thPcs s)[t := Closing p n]) = thSlots s"
    using t thInvD(1) [OF inv] by (simp add: slotCount_update)
  moreover have "\<not> opDone (thOps s ! n)" using thInvD(4) [OF inv t] Queued by simp
  ultimately have "thInv (setPc t (Closing p n)
      (s\<lparr>thOps := (thOps s)[n := (thOps s ! n)\<lparr>opErr := Some e\<rparr>], thSlots := thSlots s\<rparr>))"
    using Queued thInvD(2) [OF inv] by (intro owner_step [OF inv t _ _ _ refl]) auto
  then show ?thesis using r Queued by (auto simp: thCancel_def)
qed (use r in \<open>simp_all add: thCancel_def\<close>)

lemma thGo_inv:
  assumes inv: "thInv s" and t: "t < length (thPcs s)" and r: "thGo idx t s = Some res"
  shows "\<exists>s'. res = Ret s' \<and> thInv s'"
proof -
  note cap = thInvD(1,2) [OF inv]
  note own = thInvD(4) [OF inv t]
  note go = owner_step [OF inv t _ _ _ refl]
  note sc = slotCount_update [OF t]
  show ?thesis
  proof (cases "thPcs s ! t")
    case (Waiting p n)
    with waiter_step [OF inv t, of "Returned (opErr (thOps s ! n))"] r show ?thesis
      by (auto simp: thGo_def split: if_splits)
  next
    case (Queued p dl n)
    have "thInv (setPc t (Running p dl n)
        (s\<lparr>thOps := (thOps s)[n := thOps s ! n], thSlots := thSlots s + 1\<rparr>))" if "thSlots s < thCap s"
      by (rule go [of p n]) (use that Queued cap own sc in auto)
    with r Queued show ?thesis by (auto simp: thGo_def split: if_splits)
  next
    case (Running p dl n)
    have "thInv (setPc t (Releasing p n)
        (s\<lparr>thOps := (thOps s)[n := (thOps s ! n)\<lparr>opErr := idx p dl\<rparr>], thSlots := thSlots s\<rparr>))"
      by (rule go [of p n]) (use Running cap own sc slotCount_pos [OF t] in auto)
    with r Running show ?thesis by (auto simp: thGo_def)
  next
    case (Releasing p n)
    have "thInv (setPc t (Closing p n)
        (s\<lparr>thOps := (thOps s)[n := thOps s ! n], thSlots := thSlots s - 1\<rparr>))"
      by (rule go [of p n]) (use Releasing cap own sc in auto)
    with r Releasing show ?thesis by (auto simp: thGo_def)
  next
    case (Closing p n)
    have "thInv (setPc t (Deleting p n)
        (s\<lparr>thOps := (thOps s)[n := (thOps s ! n)\<lparr>opDone := True\<rparr>], thSlots := thSlots s\<rparr>))"
      by (rule go [of p n]) (use Closing cap own sc in auto)
    moreover have "\<not> opDone (thOps s ! n)" using own Closing by simp
    ultimately show ?thesis using r Closing by (auto simp: thGo_def)
  next
    case (Deleting p n)
    with delete_step [OF inv t] r show ?thesis by (auto simp: thGo_def)
  qed (use r in \<open>simp_all add: thGo_def\<close>)
qed

lemma thStep_inv:
  assumes "thInv s" and "thStep idx a s = Some res"
  shows "\<exists>s'. res = Ret s' \<and> thInv s'"
proof (cases a)
  case (Call t p dl)
  with assms thCall_inv [OF assms(1), of t p dl] show ?thesis by (auto split: if_splits)
next
  case (Cancel t e)
  with assms thCancel_inv [OF assms(1), of t e] show ?thesis by (auto split: if_splits)
next
  case (Go t)
  with assms thGo_inv [OF assms(1), of t idx res] show ?thesis by (auto split: if_splits)
qed

lemma thInit_inv: "thInv (thInit cap threads)"
proof -
  have "slotCount (replicate threads Idle) = 0" by (simp add: slotCount_def cnt_zero)
  then show ?thesis by (intro thInvI) (simp_all add: thInit_def)
qed

lemma thReachable_inv: "thReachable s \<Longrightarrow> thInv s"
proof (induction rule: thReachable.induct)
  case (step s idx a s')
  with thStep_inv [of s idx a "Ret s'"] show ?case by simp
qed (rule thInit_inv)

section \<open>Progress\<close>

fun rank :: "thPc \<Rightarrow> nat" where
  "rank (Waiting p n) = 1"
| "rank (Queued p dl n) = 5"
| "rank (Running p dl n) = 4"
| "rank (Releasing p n) = 3"
| "rank (Closing p n) = 2"
| "rank (Deleting p n) = 1"
| "rank _ = 0"

definition work :: "throttle \<Rightarrow> nat" where
  "work s = sum_list (map rank (thPcs s))"

text \<open>Runs of steps without new calls.\<close>

inductive thRun :: "nat \<Rightarrow> throttle \<Rightarrow> throttle \<Rightarrow> bool" where
  refl: "thRun 0 s s"
| step: "thRun n s s' \<Longrightarrow> thStep idx a s' = Some (Ret s'') \<Longrightarrow> (\<forall>t p dl. a \<noteq> Call t p dl) \<Longrightarrow>
    thRun (Suc n) s s''"

lemma work_setPc:
  assumes "t < length (thPcs s)" and "rank pc < rank (thPcs s ! t)"
  shows "work (setPc t pc s) < work s"
proof -
  have "sum_list (map rank ((thPcs s)[t := pc])) + rank (thPcs s ! t) = sum_list (map rank (thPcs s)) + rank pc"
    using assms(1) elem_le_sum_list [of t "map rank (thPcs s)"]
    by (simp add: map_update sum_list_update)
  with assms(2) show ?thesis by (simp add: work_def setPc_def)
qed

lemma thStep_work:
  assumes r: "thStep idx a s = Some (Ret s')" and nc: "\<forall>t p dl. a \<noteq> Call t p dl"
  shows "work s' < work s"
proof -
  have w: "work (setPc t pc (s\<lparr>thOps := ops\<rparr>)) = work (setPc t pc s)"
    "work (setPc t pc (s\<lparr>thSlots := n\<rparr>)) = work (setPc t pc s)"
    "work (setPc t pc (s\<lparr>thMap := m\<rparr>)) = work (setPc t pc s)" for t pc ops n m
    by (simp_all add: setPc_def work_def)
  show ?thesis
  proof (cases a)
    case (Cancel t e)
    with r have t: "t < length (thPcs s)" "thCancel t e s = Some s'" by (auto split: if_splits)
    show ?thesis
      using t(2) work_setPc [OF t(1)] by (cases "thPcs s ! t") (auto simp: thCancel_def w)
  next
    case (Go t)
    with r have t: "t < length (thPcs s)" "thGo idx t s = Some (Ret s')" by (auto split: if_splits)
    show ?thesis
      using t(2) work_setPc [OF t(1)] by (cases "thPcs s ! t") (auto simp: thGo_def w split: if_splits)
  qed (use nc in auto)
qed

text \<open>When somebody is in the middle of a call, some thread can go on.\<close>

lemma some_thread_enabled:
  assumes inv: "thInv s" and cap: "0 < thCap s" and t: "t < length (thPcs s)" and busy: "0 < rank (thPcs s ! t)"
  shows "\<exists>u<length (thPcs s). thGo idx u s \<noteq> None"
proof -
  have owner: "\<exists>u<length (thPcs s). thGo idx u s \<noteq> None"
    if u: "u < length (thPcs s)" "owned (thPcs s ! u) \<noteq> None" for u
  proof (cases "thGo idx u s")
    case None
    then obtain p dl n where "thPcs s ! u = Queued p dl n" "\<not> thSlots s < thCap s"
      using u(2) by (cases "thPcs s ! u") (auto simp: thGo_def split: if_splits)
    with cap thInvD(1,2) [OF inv] have "slotCount (thPcs s) \<noteq> 0" by auto
    then obtain v where v: "v < length (thPcs s)" "holdsSlot (thPcs s ! v)"
      unfolding slotCount_def by (auto simp: cnt_zero in_set_conv_nth)
    then have "thGo idx v s \<noteq> None" by (cases "thPcs s ! v") (auto simp: thGo_def)
    with v show ?thesis by blast
  qed (use u in auto)
  show ?thesis
  proof (cases "owned (thPcs s ! t)")
    case None
    with busy obtain p n where w: "thPcs s ! t = Waiting p n" by (cases "thPcs s ! t") auto
    from thInvD(8) [OF inv t w] consider "opDone (thOps s ! n)" | "thMap s p = Some n" by blast
    then show ?thesis
    proof cases
      case 1
      with w t show ?thesis by (intro exI [of _ t]) (simp add: thGo_def)
    next
      case 2
      from thInvD(7) [OF inv this] owner show ?thesis by auto
    qed
  qed (use owner t in auto)
qed

section \<open>Results\<close>

text \<open>A sequence of actions over one \<open>addIndexForPiece\<close>; \<open>None\<close> when one of them cannot be taken.\<close>

fun thExec :: "(cid \<Rightarrow> DealInfo \<Rightarrow> goerr option) \<Rightarrow> thAct list \<Rightarrow> throttle \<Rightarrow> throttle option" where
  "thExec idx [] s = Some s"
| "thExec idx (a # acts) s =
     (case thStep idx a s of Some (Ret s') \<Rightarrow> thExec idx acts s' | _ \<Rightarrow> None)"

lemma thExec_append:
  "thExec idx (xs @ ys) s = (case thExec idx xs s of None \<Rightarrow> None | Some s' \<Rightarrow> thExec idx ys s')"
  by (induction xs arbitrary: s) (auto split: option.split outcome.split)

fun actor :: "thAct \<Rightarrow> nat" where
  "actor (Call t p dl) = t"
| "actor (Cancel t e) = t"
| "actor (Go t) = t"

lemma thStep_others:
  assumes "thStep idx a s = Some (Ret s')" and "u \<noteq> actor a"
  shows "thPcs s' ! u = thPcs s ! u"
proof (cases a)
  case (Call t p dl)
  with assms show ?thesis
    by (auto simp: thCall_def setPc_def Let_def split: if_splits option.splits)
next
  case (Cancel t e)
  with assms show ?thesis
    by (cases "thPcs s ! t") (auto simp: thCancel_def setPc_def split: if_splits)
next
  case (Go t)
  with assms show ?thesis
    by (cases "thPcs s ! t") (auto simp: thGo_def setPc_def split: if_splits)
qed

lemma thStep_length: "thStep idx a s = Some (Ret s') \<Longrightarrow> length (thPcs s') = length (thPcs s)"
  by (cases a; cases "thPcs s ! actor a")
    (auto simp: thCall_def thCancel_def thGo_def setPc_def Let_def split: if_splits option.splits)

text \<open>A step leaves an operation alone unless it is one of the owner, and a closed one in any case.\<close>

lemma thStep_op:
  assumes inv: "thInv s" and n: "n < length (thOps s)" and r: "thStep idx a s = Some (Ret s')"
    and keep: "opDone (thOps s ! n) \<or> (\<exists>t p. t < length (thPcs s) \<and> t \<noteq> actor a \<and> owned (thPcs s ! t) = Some (p, n))"
  shows "n < length (thOps s') \<and> thOps s' ! n = thOps s ! n"
proof -
  have busy: "k \<noteq> n" if u: "u < length (thPcs s)" "u = actor a" "owned (thPcs s ! u) = Some (q, k)"
    "\<not> isDeleting (thPcs s ! u)" for u q k
  proof
    assume "k = n"
    with thInvD(4) [OF inv u(1,3)] u(4) have m: "thMap s q = Some n" "\<not> opDone (thOps s ! n)" by simp_all
    with keep obtain t p where t: "t < length (thPcs s)" "t \<noteq> actor a" "owned (thPcs s ! t) = Some (p, n)" by blast
    from thInvD(4) [OF inv t(1,3)] have "thMap s p = Some n" by simp
    with m(1) have "p = q" using thInvD(6) [OF inv] by blast
    with thInvD(5) [OF inv t(1) u(1)] t u \<open>k = n\<close> show False by blast
  qed
  show ?thesis
  proof (cases a)
    case (Call t p dl)
    with n r show ?thesis
      by (auto simp: thCall_def setPc_def nth_append Let_def split: if_splits option.splits)
  next
    case (Cancel t e)
    with r have t: "t < length (thPcs s)" "thCancel t e s = Some s'" by (auto split: if_splits)
    show ?thesis
    proof (cases "thPcs s ! t")
      case (Queued q dl k)
      have "k \<noteq> n" by (rule busy [OF t(1)]) (simp_all add: Cancel Queued)
      with Queued t(2) n show ?thesis by (auto simp: thCancel_def setPc_def)
    qed (use t(2) n in \<open>auto simp: thCancel_def setPc_def\<close>)
  next
    case (Go t)
    with r have t: "t < length (thPcs s)" "thGo idx t s = Some (Ret s')" by (auto split: if_splits)
    show ?thesis
    proof (cases "thPcs s ! t")
      case (Running q dl k)
      have "k \<noteq> n" by (rule busy [OF t(1)]) (simp_all add: Go Running)
      with Running t(2) n show ?thesis by (auto simp: thGo_def setPc_def)
    next
      case (Closing q k)
      have "k \<noteq> n" by (rule busy [OF t(1)]) (simp_all add: Go Closing)
      with Closing t(2) n show ?thesis by (auto simp: thGo_def setPc_def split: if_splits)
    qed (use t(2) n in \<open>auto simp: thGo_def setPc_def split: if_splits\<close>)
  qed
qed

text \<open>The result of the owner: that of \<open>addIndexForPiece\<close>, or the error of its context while it was queued.\<close>

definition ownerRes ::
  "(cid \<Rightarrow> DealInfo \<Rightarrow> goerr option) \<Rightarrow> thAct list \<Rightarrow> nat \<Rightarrow> cid \<Rightarrow> DealInfo \<Rightarrow> goerr option \<Rightarrow> bool" where
  "ownerRes idx acts t p dl r \<longleftrightarrow> r = idx p dl \<or> (\<exists>e. r = Some e \<and> Cancel t e \<in> set acts)"

text \<open>What is known of operation \<open>n\<close>, which thread \<open>t\<close> made for piece \<open>p\<close>, after the actions \<open>acts\<close>.\<close>

definition ownerInv ::
  "(cid \<Rightarrow> DealInfo \<Rightarrow> goerr option) \<Rightarrow> thAct list \<Rightarrow> nat \<Rightarrow> cid \<Rightarrow> DealInfo \<Rightarrow> nat \<Rightarrow> throttle \<Rightarrow> bool" where
  "ownerInv idx acts t p dl n s \<longleftrightarrow>
     n < length (thOps s) \<and> t < length (thPcs s) \<and>
     (let res = ownerRes idx acts t p dl (opErr (thOps s ! n)) in
      case thPcs s ! t of
        Queued p' dl' n' \<Rightarrow> p' = p \<and> dl' = dl \<and> n' = n
      | Running p' dl' n' \<Rightarrow> p' = p \<and> dl' = dl \<and> n' = n
      | Releasing p' n' \<Rightarrow> p' = p \<and> n' = n \<and> res
      | Closing p' n' \<Rightarrow> p' = p \<and> n' = n \<and> res
      | Deleting p' n' \<Rightarrow> p' = p \<and> n' = n \<and> res
      | Returned r \<Rightarrow> opDone (thOps s ! n) \<and> r = opErr (thOps s ! n) \<and> res
      | _ \<Rightarrow> False)"

lemma ownerRes_mono: "ownerRes idx acts t p dl r \<Longrightarrow> ownerRes idx (acts @ [a]) t p dl r"
  by (auto simp: ownerRes_def)

lemma ownerInv_go:
  assumes inv: "thInv s" and o: "ownerInv idx acts t p dl n s" and g: "thGo idx t s = Some (Ret s')"
  shows "ownerInv idx (acts @ [a]) t p dl n s'"
proof -
  from o have n: "n < length (thOps s)" and t: "t < length (thPcs s)" by (simp_all add: ownerInv_def)
  show ?thesis
  proof (cases "thPcs s ! t")
    case (Queued q dl' k)
    with o g t n show ?thesis by (auto simp: ownerInv_def thGo_def setPc_def split: if_splits)
  next
    case (Running q dl' k)
    with o have "q = p" "dl' = dl" "k = n" by (simp_all add: ownerInv_def)
    with Running g t n show ?thesis by (auto simp: ownerInv_def thGo_def setPc_def ownerRes_def Let_def)
  next
    case (Releasing q k)
    with o g t n show ?thesis by (auto simp: ownerInv_def thGo_def setPc_def ownerRes_mono Let_def)
  next
    case (Closing q k)
    with o g t n show ?thesis
      by (auto simp: ownerInv_def thGo_def setPc_def ownerRes_mono Let_def split: if_splits)
  next
    case (Deleting q k)
    with thInvD(4) [OF inv t, of q k] have "opDone (thOps s ! k)" by simp
    with Deleting o g t n show ?thesis by (auto simp: ownerInv_def thGo_def setPc_def ownerRes_mono Let_def)
  qed (use o g in \<open>simp_all add: ownerInv_def thGo_def\<close>)
qed

lemma ownerInv_step:
  assumes inv: "thInv s" and o: "ownerInv idx acts t p dl n s" and r: "thStep idx a s = Some (Ret s')"
  shows "ownerInv idx (acts @ [a]) t p dl n s'"
proof -
  from o have n: "n < length (thOps s)" and t: "t < length (thPcs s)" by (simp_all add: ownerInv_def)
  have len: "length (thPcs s') = length (thPcs s)" by (rule thStep_length [OF r])
  show ?thesis
  proof (cases "actor a = t")
    case False
    have "opDone (thOps s ! n) \<or> owned (thPcs s ! t) = Some (p, n)"
      using o by (cases "thPcs s ! t") (auto simp: ownerInv_def)
    then have "opDone (thOps s ! n) \<or> (\<exists>t p. t < length (thPcs s) \<and> t \<noteq> actor a \<and> owned (thPcs s ! t) = Some (p, n))"
      using t False by blast
    from thStep_op [OF inv n r this] thStep_others [OF r, of t] False o len show ?thesis
      by (auto simp: ownerInv_def Let_def ownerRes_mono split: thPc.splits)
  next
    case True
    show ?thesis
    proof (cases a)
      case (Call u q dl')
      with o r True show ?thesis by (auto simp: ownerInv_def split: if_splits)
    next
      case (Cancel u e)
      with True have u: "u = t" by simp
      with r Cancel have c: "thCancel t e s = Some s'" by (auto split: if_splits)
      show ?thesis
      proof (cases "thPcs s ! t")
        case (Queued q dl' k)
        with o have "q = p" "dl' = dl" "k = n" by (simp_all add: ownerInv_def)
        with Queued c t n show ?thesis
          by (auto simp: ownerInv_def Let_def thCancel_def setPc_def ownerRes_def Cancel u)
      qed (use o c in \<open>simp_all add: ownerInv_def thCancel_def\<close>)
    next
      case (Go u)
      with True have "u = t" by simp
      with r Go have g: "thGo idx t s = Some (Ret s')" by (auto split: if_splits)
      show ?thesis by (rule ownerInv_go [OF inv o g])
    qed
  qed
qed

text \<open>A thread that has joined the operation waits, or has its result, or the error of its own context.\<close>

definition waiterInv :: "thAct list \<Rightarrow> nat \<Rightarrow> cid \<Rightarrow> nat \<Rightarrow> throttle \<Rightarrow> bool" where
  "waiterInv acts u p n s \<longleftrightarrow> n < length (thOps s) \<and> u < length (thPcs s) \<and>
     (thPcs s ! u = Waiting p n \<or>
      (\<exists>r. thPcs s ! u = Returned r \<and> (opDone (thOps s ! n) \<and> r = opErr (thOps s ! n) \<or>
         (\<exists>e. r = Some e \<and> Cancel u e \<in> set acts))))"

lemma waiterInv_step:
  assumes inv: "thInv s" and w: "waiterInv acts u p n s" and r: "thStep idx a s = Some (Ret s')"
  shows "waiterInv (acts @ [a]) u p n s'"
proof -
  from w have n: "n < length (thOps s)" and u: "u < length (thPcs s)" by (simp_all add: waiterInv_def)
  have len: "length (thPcs s') = length (thPcs s)" by (rule thStep_length [OF r])
  have ops: "n < length (thOps s')"
    using n r by (cases a; cases "thPcs s ! actor a")
      (auto simp: thCall_def thCancel_def thGo_def setPc_def Let_def split: if_splits option.splits)
  have kept: "thOps s' ! n = thOps s ! n" if "opDone (thOps s ! n)"
    using thStep_op [OF inv n r] that by blast
  show ?thesis
  proof (cases "actor a = u")
    case False
    with thStep_others [OF r, of u] w len ops kept show ?thesis by (auto simp: waiterInv_def)
  next
    case True
    with w u r ops len kept show ?thesis
      by (cases a) (auto simp: waiterInv_def thGo_def thCancel_def setPc_def split: if_splits)
  qed
qed

lemma thExec_inv:
  assumes "thInv s" and "thExec idx acts s = Some s'"
    and "\<And>a s s' xs. thInv s \<Longrightarrow> P xs s \<Longrightarrow> thStep idx a s = Some (Ret s') \<Longrightarrow> P (xs @ [a]) s'" and "P xs s"
  shows "thInv s' \<and> P (xs @ acts) s'"
  using assms(1,2,4)
proof (induction acts arbitrary: s xs)
  case (Cons a acts)
  from Cons.prems(2) obtain s1 where 1: "thStep idx a s = Some (Ret s1)" "thExec idx acts s1 = Some s'"
    by (auto split: option.splits outcome.splits)
  have "thInv s1" using thStep_inv [OF Cons.prems(1) 1(1)] by simp
  from Cons.IH [OF this 1(2) assms(3) [OF Cons.prems(1,3) 1(1)]] show ?case by simp
qed simp

section \<open>Properties\<close>

text \<open>
  C23: In every state that calls, cancellations and steps can reach, no more index operations run than
  the throttle allows, at most one thread works on a piece, and no step closes a closed channel.
\<close>

theorem throttle_safe:
  assumes "thReachable s"
  shows "cnt holdsSlot (thPcs s) \<le> thCap s \<and>
    (\<forall>t<length (thPcs s). \<forall>u<length (thPcs s). \<forall>p n m.
      owned (thPcs s ! t) = Some (p, n) \<longrightarrow> owned (thPcs s ! u) = Some (p, m) \<longrightarrow> t = u) \<and>
    (\<forall>idx a. thStep idx a s \<noteq> Some Panic)"
proof -
  from assms have inv: "thInv s" by (rule thReachable_inv)
  have "thStep idx a s \<noteq> Some Panic" for idx a using thStep_inv [OF inv] by fastforce
  with thInvD(1,2) [OF inv] thInvD(5) [OF inv] show ?thesis by (auto simp: slotCount_def)
qed

abbreviation demoTh :: throttle where
  "demoTh \<equiv> \<lparr>thCap = 1, thSlots = 0, thOps = [\<lparr>opDone = False, opErr = None\<rparr>], thMap = [''p'' \<mapsto> 0],
    thPcs = [Queued ''p'' (undefined :: DealInfo) 0, Waiting ''p'' 0]\<rparr>"

lemma demoTh_reachable: "thReachable demoTh"
proof -
  let ?dl = "undefined :: DealInfo" and ?i = "\<lambda>_ _. None"
  obtain s1 where s1: "thStep ?i (Call 0 ''p'' ?dl) (thInit 1 2) = Some (Ret s1)" by (simp add: thInit_def)
  obtain s2 where s2: "thStep ?i (Call 1 ''p'' ?dl) s1 = Some (Ret s2)"
    using s1 by (auto simp: thInit_def thCall_def setPc_def)
  from thReachable.step [OF thReachable.step [OF thReachable.init s1] s2] show ?thesis
    using s1 s2 by (auto simp: thInit_def thCall_def setPc_def numeral_2_eq_2)
qed

theorem throttle_safe_witness:
  "thStep (\<lambda>_ _. None) (Go 0) demoTh \<noteq> Some Panic"
  using throttle_safe [OF demoTh_reachable] by blast

text \<open>
  C24: Every call returns, provided the throttle has room for one operation: without new calls a run is at most
  five steps per thread long, and when no thread can take a step, no call is pending. With the limit 0 no
  operation ever runs, and a call returns only when its context is cancelled.
\<close>

theorem throttle_every_call_returns:
  assumes "thReachable s" and "0 < thCap s"
  shows "(\<forall>n s'. thRun n s s' \<longrightarrow> n \<le> 5 * length (thPcs s)) \<and>
    ((\<forall>t. thStep idx (Go t) s = None) \<longrightarrow>
      (\<forall>t<length (thPcs s). thPcs s ! t = Idle \<or> (\<exists>r. thPcs s ! t = Returned r)))"
proof -
  from assms(1) have inv: "thInv s" by (rule thReachable_inv)
  have "n + work s' \<le> work s" if "thRun n s s'" for n s'
    using that
  proof (induction rule: thRun.induct)
    case (step n s s' idx a s'')
    from thStep_work [OF step(2,3)] step.IH show ?case by linarith
  qed simp
  moreover have "work s \<le> 5 * length (thPcs s)"
  proof -
    have "sum_list (map rank pcs) \<le> 5 * length pcs" for pcs
    proof (induction pcs)
      case (Cons pc pcs)
      then show ?case by (cases pc) auto
    qed simp
    then show ?thesis by (simp add: work_def)
  qed
  moreover have "thPcs s ! t = Idle \<or> (\<exists>r. thPcs s ! t = Returned r)"
    if blocked: "\<forall>t. thStep idx (Go t) s = None" and t: "t < length (thPcs s)" for t
  proof (rule ccontr)
    assume "\<not> ?thesis"
    then have "0 < rank (thPcs s ! t)" by (cases "thPcs s ! t") auto
    from some_thread_enabled [OF inv assms(2) t this, of idx] obtain u where
      "u < length (thPcs s)" "thGo idx u s \<noteq> None" by blast
    with blocked [rule_format, of u] show False by simp
  qed
  ultimately show ?thesis by (meson add_leD1 le_trans)
qed

theorem throttle_every_call_returns_witness:
  "\<exists>t. thStep (\<lambda>_ _. None) (Go t) demoTh \<noteq> None"
  using throttle_every_call_returns [OF demoTh_reachable, of "\<lambda>_ _. None"] by auto

text \<open>
  C25: All callers of an operation get its one result. Let thread \<open>t\<close> have started the operation \<open>n\<close> for a piece, and take any
  sequence of actions from there. When \<open>t\<close> has returned, it has returned the result of the operation, which is that of its
  \<open>addIndexForPiece\<close> or the error of its own context. A thread that joined the operation at any time and has returned, has
  returned the same result, or the error of its own context if that was cancelled. So a cancelled owner makes waiters fail
  whose own contexts are live.
\<close>

theorem throttle_shared_result:
  assumes reach: "thReachable s" and t: "t < length (thPcs s)" "thPcs s ! t = Queued p dl n"
    and run: "thExec idx acts s = Some s'"
  shows "(\<forall>r. thPcs s' ! t = Returned r \<longrightarrow> opDone (thOps s' ! n) \<and> r = opErr (thOps s' ! n) \<and>
      (r = idx p dl \<or> (\<exists>e. r = Some e \<and> Cancel t e \<in> set acts))) \<and>
    (\<forall>acts1 acts2 s1 u r. acts = acts1 @ acts2 \<and> thExec idx acts1 s = Some s1 \<and> u < length (thPcs s1) \<and>
       thPcs s1 ! u = Waiting p n \<and> thPcs s' ! u = Returned r \<longrightarrow>
       (r = opErr (thOps s' ! n) \<and> (r = idx p dl \<or> (\<exists>e. r = Some e \<and> Cancel t e \<in> set acts))) \<or>
       (\<exists>e. r = Some e \<and> Cancel u e \<in> set acts2))"
proof -
  from reach have inv: "thInv s" by (rule thReachable_inv)
  have "thMap s p = Some n" using thInvD(4) [OF inv t(1)] t(2) by simp
  then have n: "n < length (thOps s)" by (rule thInvD(3) [OF inv])
  have o0: "ownerInv idx [] t p dl n s" using t n by (simp add: ownerInv_def)
  note own = thExec_inv [OF inv, where P = "\<lambda>xs. ownerInv idx xs t p dl n" and xs = "[]", OF _ ownerInv_step o0]
  from own [OF run] have inv': "thInv s'" and o: "ownerInv idx acts t p dl n s'" by simp_all
  have res: "ownerRes idx acts t p dl (opErr (thOps s' ! n))" if "opDone (thOps s' ! n)"
  proof -
    from o have t': "t < length (thPcs s')" by (simp add: ownerInv_def)
    show ?thesis using o that thInvD(4) [OF inv' t', of p n]
      by (cases "thPcs s' ! t") (auto simp: ownerInv_def Let_def)
  qed
  have "opDone (thOps s' ! n) \<and> r = opErr (thOps s' ! n) \<and> (r = idx p dl \<or> (\<exists>e. r = Some e \<and> Cancel t e \<in> set acts))"
    if "thPcs s' ! t = Returned r" for r
    using o that by (auto simp: ownerInv_def ownerRes_def)
  moreover have "(r = opErr (thOps s' ! n) \<and> (r = idx p dl \<or> (\<exists>e. r = Some e \<and> Cancel t e \<in> set acts))) \<or>
      (\<exists>e. r = Some e \<and> Cancel u e \<in> set acts2)"
    if h: "acts = acts1 @ acts2" "thExec idx acts1 s = Some s1" "u < length (thPcs s1)" "thPcs s1 ! u = Waiting p n"
      "thPcs s' ! u = Returned r" for acts1 acts2 s1 u r
  proof -
    from own [OF h(2)] have inv1: "thInv s1" and o1: "ownerInv idx acts1 t p dl n s1" by simp_all
    have run2: "thExec idx acts2 s1 = Some s'" using run h(1,2) by (simp add: thExec_append)
    have "waiterInv [] u p n s1" using h(3,4) o1 by (simp add: waiterInv_def ownerInv_def)
    from thExec_inv [OF inv1 run2, where P = "\<lambda>xs. waiterInv xs u p n" and xs = "[]", OF waiterInv_step this]
    have "waiterInv acts2 u p n s'" by simp
    with h(5) res show ?thesis by (auto simp: waiterInv_def ownerRes_def)
  qed
  ultimately show ?thesis by blast
qed

theorem throttle_shared_result_witness:
  "\<exists>s. thExec (\<lambda>_ _. None) [Cancel 0 (GoErr ''context canceled'' [ContextCanceled]), Go 0, Go 1] demoTh = Some s \<and>
    thPcs s ! 1 = Returned (Some (GoErr ''context canceled'' [ContextCanceled])) \<and>
    opErr (thOps s ! 0) = Some (GoErr ''context canceled'' [ContextCanceled])"
proof -
  let ?e = "GoErr ''context canceled'' [ContextCanceled]" and ?i = "\<lambda>_ _. None"
  obtain s where s: "thExec ?i [Cancel 0 ?e, Go 0, Go 1] demoTh = Some s" "thPcs s ! 1 = Returned (Some ?e)"
    by (simp add: thCancel_def thGo_def setPc_def)
  have q: "0 < length (thPcs demoTh)" "thPcs demoTh ! 0 = Queued ''p'' undefined 0" by simp_all
  have w: "[Cancel 0 ?e, Go 0, Go 1] = [] @ [Cancel 0 ?e, Go 0, Go 1] \<and> thExec ?i [] demoTh = Some demoTh \<and>
      1 < length (thPcs demoTh) \<and> thPcs demoTh ! 1 = Waiting ''p'' 0 \<and> thPcs s ! 1 = Returned (Some ?e)"
    using s(2) by simp
  from conjunct2 [OF throttle_shared_result [OF demoTh_reachable q s(1)], rule_format, OF w]
  have "opErr (thOps s ! 0) = Some ?e" by auto
  with s show ?thesis by blast
qed

end
