(* ===== verification/ReaderCache.thy ===== *)
theory ReaderCache
  imports PieceDirectory
begin

text \<open>
  The cache of shared piece readers: \<open>GetSharedPieceReader\<close>, \<open>cachedSectionReader.Close\<close> and the
  expiration callback of \<open>NewPieceDirectory\<close> (\<open>lib/boost/piecedirectory/piecedirectory.go\<close>). A call
  is a thread; a step is what a thread does under the mutex \<open>pieceReaderCacheMu\<close>, or one access to
  the \<open>ready\<close> channel. \<open>ttlcache\<close> may drop an entry at any time, and calls the callback some time
  later. The underlying reader is not modelled, only the life time of its context. A caller closes
  the reader it got once.
\<close>

record cachedSectionReader =
  crReady :: bool
  crErr :: "goerr option"
  crCancel :: bool
  crCancelled :: bool
  crRefs :: int
  crExpired :: bool

datatype rcPc =
    RcIdle
  | Creating nat
  | Awaiting nat
  | Checking nat
  | Holding nat
  | Finished "goerr option"

record readerCache =
  rcReaders :: "cachedSectionReader list"
  rcCache :: "cid \<Rightarrow> nat option"
  rcEvicted :: "nat list"
  rcPcs :: "rcPc list"

datatype rcAct =
    Get nat cid
  | Created nat "goerr option"
  | Ready nat
  | TimedOut nat goerr
  | Check nat
  | CloseReader nat
  | Evict cid
  | Callback nat

text \<open>\<open>r.cancel()\<close> panics while the field is nil.\<close>

definition cancelReader :: "cachedSectionReader \<Rightarrow> cachedSectionReader outcome" where
  "cancelReader r = (if crCancel r then Ret (r\<lparr>crCancelled := True\<rparr>) else Panic)"

definition closeRef :: "cachedSectionReader \<Rightarrow> cachedSectionReader outcome" where
  "closeRef r =
     (let r' = r\<lparr>crRefs := crRefs r - 1\<rparr> in
      if crRefs r' = 0 \<and> crExpired r' then cancelReader r' else Ret r')"

definition expireCallback :: "cachedSectionReader \<Rightarrow> cachedSectionReader outcome" where
  "expireCallback r =
     (let r' = r\<lparr>crExpired := True\<rparr> in if crRefs r' \<le> 0 then cancelReader r' else Ret r')"

definition setRc :: "nat \<Rightarrow> rcPc \<Rightarrow> nat \<Rightarrow> cachedSectionReader \<Rightarrow> readerCache \<Rightarrow> readerCache" where
  "setRc t pc n r s = s\<lparr>rcReaders := (rcReaders s)[n := r], rcPcs := (rcPcs s)[t := pc]\<rparr>"

definition closeBy :: "nat \<Rightarrow> goerr option \<Rightarrow> nat \<Rightarrow> readerCache \<Rightarrow> readerCache outcome" where
  "closeBy t e n s =
     (case closeRef (rcReaders s ! n) of
        Ret r \<Rightarrow> Ret (setRc t (Finished e) n r s) | Fail err \<Rightarrow> Fail err | Panic \<Rightarrow> Panic)"

definition newReader :: cachedSectionReader where
  "newReader = \<lparr>crReady = False, crErr = None, crCancel = False, crCancelled = False, crRefs = 1,
     crExpired = False\<rparr>"

definition getShared :: "nat \<Rightarrow> cid \<Rightarrow> readerCache \<Rightarrow> readerCache" where
  "getShared t p s =
     (case rcCache s p of
        None \<Rightarrow>
          s\<lparr>rcReaders := rcReaders s @ [newReader], rcCache := (rcCache s)(p \<mapsto> length (rcReaders s)),
            rcPcs := (rcPcs s)[t := Creating (length (rcReaders s))]\<rparr>
      | Some n \<Rightarrow>
          setRc t (Awaiting n) n ((rcReaders s ! n)\<lparr>crRefs := crRefs (rcReaders s ! n) + 1\<rparr>) s)"

fun rcGo :: "rcAct \<Rightarrow> readerCache \<Rightarrow> readerCache outcome option" where
  "rcGo (Get t p) s = (if rcPcs s ! t = RcIdle then Some (Ret (getShared t p s)) else None)"
| "rcGo (Created t e) s =
     (case rcPcs s ! t of
        Creating n \<Rightarrow> Some (Ret (setRc t (Checking n) n
          ((rcReaders s ! n)\<lparr>crReady := True, crErr := e, crCancel := True\<rparr>) s))
      | _ \<Rightarrow> None)"
| "rcGo (Ready t) s =
     (case rcPcs s ! t of
        Awaiting n \<Rightarrow>
          if crReady (rcReaders s ! n) then Some (Ret (setRc t (Checking n) n (rcReaders s ! n) s)) else None
      | _ \<Rightarrow> None)"
| "rcGo (TimedOut t e) s =
     (case rcPcs s ! t of Awaiting n \<Rightarrow> Some (closeBy t (Some e) n s) | _ \<Rightarrow> None)"
| "rcGo (Check t) s =
     (case rcPcs s ! t of
        Checking n \<Rightarrow>
          (case crErr (rcReaders s ! n) of
             Some e \<Rightarrow> Some (closeBy t (Some e) n s)
           | None \<Rightarrow> Some (Ret (setRc t (Holding n) n (rcReaders s ! n) s)))
      | _ \<Rightarrow> None)"
| "rcGo (CloseReader t) s =
     (case rcPcs s ! t of Holding n \<Rightarrow> Some (closeBy t None n s) | _ \<Rightarrow> None)"
| "rcGo (Evict p) s =
     (case rcCache s p of
        Some n \<Rightarrow> Some (Ret (s\<lparr>rcCache := (rcCache s)(p := None), rcEvicted := n # rcEvicted s\<rparr>))
      | None \<Rightarrow> None)"
| "rcGo (Callback n) s =
     (if n \<in> set (rcEvicted s) then
        (case expireCallback (rcReaders s ! n) of
           Ret r \<Rightarrow> Some (Ret (s\<lparr>rcReaders := (rcReaders s)[n := r], rcEvicted := remove1 n (rcEvicted s)\<rparr>))
         | Fail err \<Rightarrow> Some (Fail err)
         | Panic \<Rightarrow> Some Panic)
      else None)"

fun actThread :: "rcAct \<Rightarrow> nat option" where
  "actThread (Get t p) = Some t"
| "actThread (Created t e) = Some t"
| "actThread (Ready t) = Some t"
| "actThread (TimedOut t e) = Some t"
| "actThread (Check t) = Some t"
| "actThread (CloseReader t) = Some t"
| "actThread _ = None"

definition rcStep :: "rcAct \<Rightarrow> readerCache \<Rightarrow> readerCache outcome option" where
  "rcStep a s =
     (case actThread a of
        Some t \<Rightarrow> if t < length (rcPcs s) then rcGo a s else None
      | None \<Rightarrow> rcGo a s)"

definition rcInit :: "nat \<Rightarrow> readerCache" where
  "rcInit threads = \<lparr>rcReaders = [], rcCache = (\<lambda>_. None), rcEvicted = [], rcPcs = replicate threads RcIdle\<rparr>"

inductive rcReachable :: "readerCache \<Rightarrow> bool" where
  init: "rcReachable (rcInit threads)"
| step: "rcReachable s \<Longrightarrow> rcStep a s = Some (Ret s') \<Longrightarrow> rcReachable s'"

section \<open>The invariant\<close>

fun uses :: "nat \<Rightarrow> rcPc \<Rightarrow> bool" where
  "uses n (Creating m) = (n = m)"
| "uses n (Awaiting m) = (n = m)"
| "uses n (Checking m) = (n = m)"
| "uses n (Holding m) = (n = m)"
| "uses n _ = False"

definition users :: "nat \<Rightarrow> rcPc list \<Rightarrow> int" where
  "users n pcs = int (cnt (uses n) pcs)"

text \<open>What holds of one reader, given the cache, the evicted entries and the threads.\<close>

definition rdOk ::
  "(cid \<Rightarrow> nat option) \<Rightarrow> nat list \<Rightarrow> rcPc list \<Rightarrow> nat \<Rightarrow> cachedSectionReader \<Rightarrow> bool" where
  "rdOk cache ev pcs n r \<longleftrightarrow>
     crRefs r = users n pcs \<and>
     cnt (\<lambda>pc. pc = Creating n) pcs = (if crReady r then 0 else 1) \<and>
     (crReady r \<longrightarrow> crCancel r) \<and>
     (crExpired r \<longleftrightarrow> n \<notin> ran cache \<and> n \<notin> set ev) \<and>
     (crCancelled r \<longleftrightarrow> crExpired r \<and> crRefs r = 0) \<and>
     (crErr r \<noteq> None \<longrightarrow> cnt (\<lambda>pc. pc = Holding n) pcs = 0) \<and>
     (\<not> crReady r \<longrightarrow> cnt (\<lambda>pc. pc = Checking n) pcs = 0 \<and> cnt (\<lambda>pc. pc = Holding n) pcs = 0)"

definition rcInv :: "readerCache \<Rightarrow> bool" where
  "rcInv s \<longleftrightarrow>
     (\<forall>n<length (rcReaders s). rdOk (rcCache s) (rcEvicted s) (rcPcs s) n (rcReaders s ! n)) \<and>
     (\<forall>n\<in>ran (rcCache s). n < length (rcReaders s) \<and> n \<notin> set (rcEvicted s)) \<and>
     inj_on (rcCache s) (dom (rcCache s)) \<and>
     distinct (rcEvicted s) \<and> (\<forall>n\<in>set (rcEvicted s). n < length (rcReaders s)) \<and>
     (\<forall>pc\<in>set (rcPcs s). \<forall>n. uses n pc \<longrightarrow> n < length (rcReaders s))"

lemma rcInv_parts:
  assumes "rcInv s"
  shows "n < length (rcReaders s) \<Longrightarrow> rdOk (rcCache s) (rcEvicted s) (rcPcs s) n (rcReaders s ! n)"
    and "n \<in> ran (rcCache s) \<Longrightarrow> n < length (rcReaders s) \<and> n \<notin> set (rcEvicted s)"
    and "inj_on (rcCache s) (dom (rcCache s))"
    and "distinct (rcEvicted s)"
    and "n \<in> set (rcEvicted s) \<Longrightarrow> n < length (rcReaders s)"
    and "t < length (rcPcs s) \<Longrightarrow> uses n (rcPcs s ! t) \<Longrightarrow> n < length (rcReaders s)"
  using assms by (auto simp: rcInv_def)

text \<open>A thread changes one reader and its own program counter.\<close>

lemma rdOk_other:
  assumes "t < length pcs" and "\<not> uses m pc" and "\<not> uses m (pcs ! t)"
  shows "rdOk cache ev (pcs[t := pc]) m r = rdOk cache ev pcs m r"
proof -
  have "cnt P (pcs[t := pc]) = cnt P pcs" if "\<And>x. P x \<Longrightarrow> uses m x" for P
    using that assms by (intro cnt_update_same) auto
  from this [of "uses m"] this [of "\<lambda>pc. pc = Creating m"] this [of "\<lambda>pc. pc = Checking m"]
    this [of "\<lambda>pc. pc = Holding m"]
  show ?thesis by (simp add: rdOk_def users_def)
qed

lemma setRc_inv:
  assumes inv: "rcInv s" and t: "t < length (rcPcs s)" and n: "n < length (rcReaders s)"
    and uses: "\<And>m. uses m pc \<or> uses m (rcPcs s ! t) \<Longrightarrow> m = n"
    and ok: "rdOk (rcCache s) (rcEvicted s) ((rcPcs s)[t := pc]) n r"
  shows "rcInv (setRc t pc n r s)"
proof -
  have "rdOk (rcCache s) (rcEvicted s) ((rcPcs s)[t := pc]) m ((rcReaders s)[n := r] ! m)"
    if "m < length (rcReaders s)" for m
  proof (cases "m = n")
    case False
    then have "\<not> uses m pc" "\<not> uses m (rcPcs s ! t)" using uses by blast+
    from rdOk_other [OF t this] rcInv_parts(1) [OF inv that] False show ?thesis by simp
  qed (use ok that in simp)
  moreover have "\<forall>pc'\<in>set ((rcPcs s)[t := pc]). \<forall>m. uses m pc' \<longrightarrow> m < length (rcReaders s)"
    using inv n uses set_update_subset_insert [of "rcPcs s" t pc] unfolding rcInv_def by fast
  ultimately show ?thesis
    using inv by (simp add: rcInv_def setRc_def)
qed

lemma users_pcs_update:
  "t < length pcs \<Longrightarrow> users n (pcs[t := pc]) =
    users n pcs + (if uses n pc then 1 else 0) - (if uses n (pcs ! t) then 1 else 0)"
  using cnt_update [of t pcs "uses n" pc] by (auto simp: users_def split: if_splits)

lemma closeRef_ok:
  assumes ok: "rdOk cache ev pcs n r" and t: "t < length pcs"
    and old: "pcs ! t = Awaiting n \<or> pcs ! t = Checking n \<or> pcs ! t = Holding n"
  shows "\<exists>r'. closeRef r = Ret r' \<and> rdOk cache ev (pcs[t := Finished e]) n r'"
proof -
  let ?pcs = "pcs[t := Finished e]"
  have u: "users n ?pcs = users n pcs - 1" using users_pcs_update [OF t, of n "Finished e"] old by auto
  have c: "cnt (\<lambda>pc. pc = Creating n) ?pcs = cnt (\<lambda>pc. pc = Creating n) pcs"
    by (rule cnt_update_same [OF t]) (use old in auto)
  have le: "cnt (\<lambda>pc. pc = X) ?pcs \<le> cnt (\<lambda>pc. pc = X) pcs" if "X \<noteq> Finished e" for X
    using cnt_update [OF t, of "\<lambda>pc. pc = X" "Finished e"] that by auto
  have ready: "crReady r" if "users n ?pcs = 0"
  proof (rule ccontr)
    assume "\<not> crReady r"
    with ok c have "cnt (\<lambda>pc. pc = Creating n) ?pcs = 1" by (simp add: rdOk_def)
    moreover have "cnt (\<lambda>pc. pc = Creating n) ?pcs \<le> cnt (uses n) ?pcs" by (rule cnt_mono) auto
    ultimately show False using that by (simp add: users_def)
  qed
  have r: "crRefs r = users n pcs" using ok by (simp add: rdOk_def)
  have pos: "crRefs r \<noteq> 0" using r cnt_pos [OF t, of "uses n"] old by (auto simp: users_def)
  show ?thesis
    using ok c le [of "Holding n"] le [of "Checking n"] ready pos u r
    by (auto simp: closeRef_def cancelReader_def rdOk_def Let_def)
qed

lemma closeBy_inv:
  assumes inv: "rcInv s" and t: "t < length (rcPcs s)"
    and old: "rcPcs s ! t = Awaiting n \<or> rcPcs s ! t = Checking n \<or> rcPcs s ! t = Holding n"
  shows "\<exists>s'. closeBy t e n s = Ret s' \<and> rcInv s'"
proof -
  have n: "n < length (rcReaders s)" using rcInv_parts(6) [OF inv t, of n] old by auto
  from closeRef_ok [OF rcInv_parts(1) [OF inv n] t old, of e] obtain r' where
    r': "closeRef (rcReaders s ! n) = Ret r'"
    "rdOk (rcCache s) (rcEvicted s) ((rcPcs s)[t := Finished e]) n r'" by blast
  have "rcInv (setRc t (Finished e) n r' s)"
    by (rule setRc_inv [OF inv t n _ r'(2)]) (use old in auto)
  with r' show ?thesis by (simp add: closeBy_def)
qed

lemma getShared_inv:
  assumes inv: "rcInv s" and t: "t < length (rcPcs s)" and idle: "rcPcs s ! t = RcIdle"
  shows "rcInv (getShared t p s)"
proof (cases "rcCache s p")
  case (Some n)
  let ?r = "rcReaders s ! n"
  have n: "n < length (rcReaders s)" and ran: "n \<in> ran (rcCache s)"
    using rcInv_parts(2) [OF inv, of n] Some by (auto simp: ran_def)
  have ok: "rdOk (rcCache s) (rcEvicted s) (rcPcs s) n ?r" by (rule rcInv_parts(1) [OF inv n])
  have u: "users n ((rcPcs s)[t := Awaiting n]) = users n (rcPcs s) + 1"
    using users_pcs_update [OF t, of n] idle by simp
  have c: "cnt (\<lambda>pc. pc = X) ((rcPcs s)[t := Awaiting n]) = cnt (\<lambda>pc. pc = X) (rcPcs s)"
    if "X \<noteq> Awaiting n" "X \<noteq> RcIdle" for X
    by (rule cnt_update_same [OF t]) (use idle that in auto)
  have "rcInv (setRc t (Awaiting n) n (?r\<lparr>crRefs := crRefs ?r + 1\<rparr>) s)"
    by (rule setRc_inv [OF inv t n]) (use ok ran u c idle in \<open>auto simp: rdOk_def\<close>)
  with Some show ?thesis by (simp add: getShared_def)
next
  case None
  let ?n = "length (rcReaders s)" and ?pcs = "(rcPcs s)[t := Creating (length (rcReaders s))]"
  let ?cache = "(rcCache s)(p \<mapsto> length (rcReaders s))"
  have fresh: "\<not> uses ?n pc" if "pc \<in> set (rcPcs s)" for pc
    using inv that unfolding rcInv_def by blast
  have zero: "cnt P (rcPcs s) = 0" if "\<And>x. P x \<Longrightarrow> uses ?n x" for P
    unfolding cnt_zero using that fresh by blast
  have upd: "cnt P ?pcs = (if P (Creating ?n) then 1 else 0)" if "\<And>x. P x \<Longrightarrow> uses ?n x" for P
    using cnt_update [OF t, of P "Creating ?n"] zero [OF that] that [of RcIdle] idle
    by (auto split: if_splits)
  have new: "rdOk ?cache (rcEvicted s) ?pcs ?n newReader"
    using upd [of "uses ?n"] upd [of "\<lambda>pc. pc = Creating ?n"] upd [of "\<lambda>pc. pc = Checking ?n"]
      upd [of "\<lambda>pc. pc = Holding ?n"] None by (simp add: rdOk_def newReader_def users_def ran_map_upd)
  have "rdOk ?cache (rcEvicted s) ?pcs m (rcReaders s ! m)" if m: "m < ?n" for m
  proof -
    have "rdOk (rcCache s) (rcEvicted s) ?pcs m (rcReaders s ! m)"
      using rdOk_other [OF t, of m "Creating ?n"] idle m rcInv_parts(1) [OF inv m] by simp
    moreover have "m \<in> ran ?cache \<longleftrightarrow> m \<in> ran (rcCache s)"
      using m None by (simp add: ran_map_upd)
    ultimately show ?thesis by (auto simp: rdOk_def)
  qed
  moreover have "inj_on ?cache (dom ?cache)"
  proof -
    have "?n \<notin> ran (rcCache s)" using rcInv_parts(2) [OF inv] by blast
    with rcInv_parts(3) [OF inv] show ?thesis
      by (auto simp: inj_on_def ran_def split: if_splits)
  qed
  moreover have "\<forall>pc\<in>set ?pcs. \<forall>m. uses m pc \<longrightarrow> m < Suc ?n"
    using inv set_update_subset_insert [of "rcPcs s" t "Creating ?n"] unfolding rcInv_def
    by (fastforce simp: less_Suc_eq)
  moreover have "m < Suc ?n \<and> m \<notin> set (rcEvicted s)" if "m \<in> ran ?cache" for m
    using that rcInv_parts(2,5) [OF inv, of m] None by (auto simp: ran_map_upd)
  ultimately show ?thesis
    using None new rcInv_parts(4,5) [OF inv]
    by (auto simp: getShared_def rcInv_def nth_append less_Suc_eq)
qed

lemma rcGo_inv:
  assumes inv: "rcInv s" and t: "\<And>t. actThread a = Some t \<Longrightarrow> t < length (rcPcs s)"
    and r: "rcGo a s = Some res"
  shows "\<exists>s'. res = Ret s' \<and> rcInv s'"
proof (cases a)
  case (Get t p)
  with r getShared_inv [OF inv assms(2)] show ?thesis by (auto split: if_splits)
next
  case (Created t e)
  with r obtain n where pc: "rcPcs s ! t = Creating n"
    and res: "res = Ret (setRc t (Checking n) n
      ((rcReaders s ! n)\<lparr>crReady := True, crErr := e, crCancel := True\<rparr>) s)"
    by (auto split: rcPc.splits)
  from Created have tl: "t < length (rcPcs s)" by (intro assms(2)) simp
  have n: "n < length (rcReaders s)" using rcInv_parts(6) [OF inv tl, of n] pc by simp
  note ok = rcInv_parts(1) [OF inv n]
  have c: "cnt (\<lambda>x. x = Creating n) (rcPcs s) = 1" "\<not> crReady (rcReaders s ! n)"
    using ok cnt_pos [OF tl, of "\<lambda>x. x = Creating n"] pc by (auto simp: rdOk_def split: if_splits)
  have "rcInv (setRc t (Checking n) n ((rcReaders s ! n)\<lparr>crReady := True, crErr := e, crCancel := True\<rparr>) s)"
    using ok c pc users_pcs_update [OF tl, of n "Checking n"]
      cnt_update [OF tl, of "\<lambda>x. x = Creating n" "Checking n"]
      cnt_update [OF tl, of "\<lambda>x. x = Holding n" "Checking n"]
    by (intro setRc_inv [OF inv tl n]) (auto simp: rdOk_def)
  with res show ?thesis by blast
next
  case (Ready t)
  with r obtain n where pc: "rcPcs s ! t = Awaiting n" and rdy: "crReady (rcReaders s ! n)"
    and res: "res = Ret (setRc t (Checking n) n (rcReaders s ! n) s)"
    by (auto split: rcPc.splits if_splits)
  from Ready have tl: "t < length (rcPcs s)" by (intro assms(2)) simp
  have n: "n < length (rcReaders s)" using rcInv_parts(6) [OF inv tl, of n] pc by simp
  have "rcInv (setRc t (Checking n) n (rcReaders s ! n) s)"
    using rcInv_parts(1) [OF inv n] rdy pc users_pcs_update [OF tl, of n "Checking n"]
      cnt_update [OF tl, of "\<lambda>x. x = Creating n" "Checking n"]
      cnt_update [OF tl, of "\<lambda>x. x = Holding n" "Checking n"]
    by (intro setRc_inv [OF inv tl n]) (auto simp: rdOk_def)
  with res show ?thesis by blast
next
  case (TimedOut t e)
  with r closeBy_inv [OF inv assms(2)] show ?thesis by (auto split: rcPc.splits)
next
  case (Check t)
  from Check have tl: "t < length (rcPcs s)" by (intro assms(2)) simp
  from Check r obtain n where pc: "rcPcs s ! t = Checking n" by (auto split: rcPc.splits)
  have n: "n < length (rcReaders s)" using rcInv_parts(6) [OF inv tl, of n] pc by simp
  show ?thesis
  proof (cases "crErr (rcReaders s ! n)")
    case None
    have "rcInv (setRc t (Holding n) n (rcReaders s ! n) s)"
      using rcInv_parts(1) [OF inv n] None pc users_pcs_update [OF tl, of n "Holding n"]
        cnt_update [OF tl, of "\<lambda>x. x = Creating n" "Holding n"] cnt_pos [OF tl, of "\<lambda>x. x = Checking n"]
      by (intro setRc_inv [OF inv tl n]) (auto simp: rdOk_def)
    with Check r pc None show ?thesis by auto
  next
    case (Some e)
    with Check r pc closeBy_inv [OF inv tl, of n] show ?thesis by auto
  qed
next
  case (CloseReader t)
  with r closeBy_inv [OF inv assms(2)] show ?thesis by (auto split: rcPc.splits)
next
  case (Evict p)
  with r obtain n where p: "rcCache s p = Some n"
    and res: "res = Ret (s\<lparr>rcCache := (rcCache s)(p := None), rcEvicted := n # rcEvicted s\<rparr>)"
    by (auto split: option.splits)
  have sub: "ran ((rcCache s)(p := None)) = ran (rcCache s) - {n}"
    using rcInv_parts(3) [OF inv] p by (auto simp: ran_def inj_on_def dom_def split: if_splits) (metis option.inject)
  have n: "n < length (rcReaders s)" "n \<notin> set (rcEvicted s)" "n \<in> ran (rcCache s)"
    using rcInv_parts(2) [OF inv, of n] p by (auto simp: ran_def)
  have "rdOk ((rcCache s)(p := None)) (n # rcEvicted s) (rcPcs s) m (rcReaders s ! m)"
    if "m < length (rcReaders s)" for m
    using rcInv_parts(1) [OF inv that] sub n(3) by (auto simp: rdOk_def)
  moreover have "inj_on ((rcCache s)(p := None)) (dom ((rcCache s)(p := None)))"
    using rcInv_parts(3) [OF inv] by (auto simp: inj_on_def)
  moreover have "\<forall>m\<in>ran ((rcCache s)(p := None)). m < length (rcReaders s) \<and> m \<notin> set (n # rcEvicted s)"
    using sub rcInv_parts(2) [OF inv] by auto
  ultimately have "rcInv (s\<lparr>rcCache := (rcCache s)(p := None), rcEvicted := n # rcEvicted s\<rparr>)"
    using inv n by (simp add: rcInv_def)
  with res show ?thesis by blast
next
  case (Callback n)
  let ?r = "rcReaders s ! n"
  from Callback r have ev: "n \<in> set (rcEvicted s)" by (auto split: if_splits)
  have n: "n < length (rcReaders s)" by (rule rcInv_parts(5) [OF inv ev])
  note ok = rcInv_parts(1) [OF inv n]
  have nr: "n \<notin> ran (rcCache s)" using rcInv_parts(2) [OF inv] ev by blast
  have ready: "crReady ?r" if "crRefs ?r \<le> 0"
  proof (rule ccontr)
    assume "\<not> crReady ?r"
    with ok have "cnt (\<lambda>pc. pc = Creating n) (rcPcs s) = 1" by (simp add: rdOk_def)
    moreover have "cnt (\<lambda>pc. pc = Creating n) (rcPcs s) \<le> cnt (uses n) (rcPcs s)"
      by (rule cnt_mono) auto
    ultimately show False using that ok by (simp add: rdOk_def users_def)
  qed
  have nev: "n \<notin> set (remove1 n (rcEvicted s))" using rcInv_parts(4) [OF inv] by simp
  have le: "crRefs ?r \<le> 0 \<Longrightarrow> crRefs ?r = 0" using ok by (simp add: rdOk_def users_def)
  have "\<not> crCancelled ?r" using ok ev by (simp add: rdOk_def)
  then have "\<exists>r'. expireCallback ?r = Ret r' \<and>
    rdOk (rcCache s) (remove1 n (rcEvicted s)) (rcPcs s) n r'"
    using ok ready nr nev le
    by (cases "crRefs ?r \<le> 0") (auto simp: expireCallback_def cancelReader_def Let_def rdOk_def)
  then obtain r' where r': "expireCallback ?r = Ret r'"
    "rdOk (rcCache s) (remove1 n (rcEvicted s)) (rcPcs s) n r'" by blast
  have "rdOk (rcCache s) (remove1 n (rcEvicted s)) (rcPcs s) m ((rcReaders s)[n := r'] ! m)"
    if "m < length (rcReaders s)" for m
  proof (cases "m = n")
    case False
    with rcInv_parts(1) [OF inv that] show ?thesis by (auto simp: rdOk_def)
  qed (use r' n in simp)
  then have "rcInv (s\<lparr>rcReaders := (rcReaders s)[n := r'], rcEvicted := remove1 n (rcEvicted s)\<rparr>)"
    using inv set_remove1_subset [of n "rcEvicted s"] by (auto simp: rcInv_def)
  with Callback r ev r' show ?thesis by auto
qed

lemma rcStep_inv:
  assumes "rcInv s" and "rcStep a s = Some res"
  shows "\<exists>s'. res = Ret s' \<and> rcInv s'"
  using assms rcGo_inv [OF assms(1), of a res] by (auto simp: rcStep_def split: option.splits if_splits)

lemma rcReachable_inv: "rcReachable s \<Longrightarrow> rcInv s"
proof (induction rule: rcReachable.induct)
  case (init threads)
  show ?case by (simp add: rcInit_def rcInv_def)
next
  case (step s a s')
  with rcStep_inv [of s a "Ret s'"] show ?case by simp
qed

section \<open>Properties\<close>

text \<open>
  C26: A reader that a caller holds is never cancelled and was opened without an error, whatever the
  cache drops and whenever its callback runs; and neither closing nor expiry calls the cancel function
  before it is set.
\<close>

theorem held_reader_stays_open:
  assumes "rcReachable s"
  shows "(\<forall>t<length (rcPcs s). \<forall>n. rcPcs s ! t = Holding n \<longrightarrow>
      crReady (rcReaders s ! n) \<and> crErr (rcReaders s ! n) = None \<and> \<not> crCancelled (rcReaders s ! n)) \<and>
    (\<forall>a. rcStep a s \<noteq> Some Panic)"
proof -
  from assms have inv: "rcInv s" by (rule rcReachable_inv)
  have "crReady (rcReaders s ! n) \<and> crErr (rcReaders s ! n) = None \<and> \<not> crCancelled (rcReaders s ! n)"
    if t: "t < length (rcPcs s)" and pc: "rcPcs s ! t = Holding n" for t n
  proof -
    have "n < length (rcReaders s)" using rcInv_parts(6) [OF inv t, of n] pc by simp
    from rcInv_parts(1) [OF inv this] show ?thesis
      using cnt_pos [OF t, of "uses n"] cnt_pos [OF t, of "\<lambda>pc. pc = Holding n"] pc
      by (auto simp: rdOk_def users_def)
  qed
  moreover have "rcStep a s \<noteq> Some Panic" for a using rcStep_inv [OF inv] by fastforce
  ultimately show ?thesis by blast
qed

text \<open>
  C27: No reader leaks: when an entry has left the cache, its callback has run and no call uses it any
  more, its context has been cancelled; and it is cancelled only then.
\<close>

theorem dropped_reader_is_cancelled:
  assumes "rcReachable s" and "n < length (rcReaders s)"
  shows "crCancelled (rcReaders s ! n) \<longleftrightarrow>
    n \<notin> ran (rcCache s) \<and> n \<notin> set (rcEvicted s) \<and> (\<forall>pc\<in>set (rcPcs s). \<not> uses n pc)"
proof -
  from assms(1) have "rcInv s" by (rule rcReachable_inv)
  from rcInv_parts(1) [OF this assms(2)] show ?thesis
    by (simp add: rdOk_def users_def cnt_zero)
qed

text \<open>Two callers share a reader; the entry is dropped while they hold it.\<close>

definition demoRc :: "rcAct list \<Rightarrow> readerCache \<Rightarrow> readerCache" where
  "demoRc as s = fold (\<lambda>a s. case rcStep a s of Some (Ret s') \<Rightarrow> s' | _ \<Rightarrow> s) as s"

lemma demoRc_reachable: "rcReachable s \<Longrightarrow> rcReachable (demoRc as s)"
proof (induction as arbitrary: s)
  case (Cons a as)
  have "rcReachable (case rcStep a s of Some (Ret s') \<Rightarrow> s' | _ \<Rightarrow> s)"
    using Cons.prems rcReachable.step by (auto split: option.split outcome.split)
  with Cons.IH show ?case by (simp add: demoRc_def)
qed (simp add: demoRc_def)

definition demoShared :: readerCache where
  "demoShared = demoRc [Get 0 ''p'', Get 1 ''p'', Created 0 None, Check 0, Ready 1, Check 1, Evict ''p'',
    Callback 0, CloseReader 0] (rcInit 2)"

lemmas demo_rc_simps = demoShared_def demoRc_def rcStep_def rcInit_def getShared_def setRc_def newReader_def
  closeBy_def closeRef_def expireCallback_def cancelReader_def numeral_2_eq_2

lemma demoShared_eq: "demoShared = \<lparr>rcReaders = [\<lparr>crReady = True, crErr = None, crCancel = True,
    crCancelled = False, crRefs = 1, crExpired = True\<rparr>], rcCache = (\<lambda>_. None), rcEvicted = [],
    rcPcs = [Finished None, Holding 0]\<rparr>"
  by (simp add: demo_rc_simps fun_eq_iff)

lemma demoShared_reachable: "rcReachable demoShared"
  unfolding demoShared_def by (intro demoRc_reachable rcReachable.init)

theorem held_reader_stays_open_witness:
  "rcPcs demoShared ! 1 = Holding 0 \<and> \<not> crCancelled (rcReaders demoShared ! 0)"
  using held_reader_stays_open [OF demoShared_reachable] by (auto simp: demoShared_eq)

theorem dropped_reader_is_cancelled_witness:
  "crCancelled (rcReaders (demoRc [CloseReader 1] demoShared) ! 0)"
proof -
  have s: "demoRc [CloseReader 1] demoShared = \<lparr>rcReaders = [\<lparr>crReady = True, crErr = None, crCancel = True,
      crCancelled = True, crRefs = 0, crExpired = True\<rparr>], rcCache = (\<lambda>_. None), rcEvicted = [],
      rcPcs = [Finished None, Finished None]\<rparr>"
    unfolding demoShared_eq by (simp add: demo_rc_simps)
  have r: "rcReachable (demoRc [CloseReader 1] demoShared)"
    by (rule demoRc_reachable [OF demoShared_reachable])
  show ?thesis using dropped_reader_is_cancelled [OF r, of 0] unfolding s by simp
qed

end
