(* ===== verification/YbDb.thy ===== *)
theory YbDb
  imports Model
begin

text \<open>
  The YugabyteDB index store (\<open>boostd-data/yugabyte\<close>): the databases behind it. The session, the
  connection pool and the parsers of third-party packages are the record \<open>ybDb\<close> over an opaque
  state \<open>'s\<close>: one function per kind of query, and one that executes a statement. A statement is the
  CQL or SQL text of the source with its arguments, \<open>stmtSem\<close> what that text says of the tables;
  \<open>yb_ok\<close> is the documented behaviour the store relies on: a statement or batch that succeeds has
  had its effect, and queries return the rows of the tables in some order. Writes may fail.
\<close>

section \<open>Tables\<close>

record ybMetaRow =
  mVersion :: string
  mIndexedAt :: time
  mComplete :: bool
  mCreatedAt :: time

record ybFlagRow =
  fCreatedAt :: time
  fUpdatedAt :: time
  fHasUnsealedCopy :: bool

text \<open>
  \<open>PieceMetadata\<close>, \<open>PieceDeal\<close> (by deal UUID, the column its statements insert if absent and delete
  by), \<open>PayloadToPieces\<close>, \<open>PieceBlockOffsetSize\<close>, and the postgres tables \<open>PieceTracker\<close> (creation
  and update times) and \<open>PieceFlagged\<close>.
\<close>

record ybTables =
  tMeta :: "cid \<Rightarrow> ybMetaRow option"
  tDeals :: "string \<Rightarrow> (cid \<times> DealInfo) option"
  tMhs :: "(string \<times> cid) set"
  tInfos :: "cid \<times> multihash \<Rightarrow> OffsetSize option"
  tTracker :: "address \<times> cid \<Rightarrow> (time \<times> time) option"
  tFlagged :: "address \<times> cid \<Rightarrow> ybFlagRow option"

datatype ybStmt =
    InsertMeta cid string time
  | InsertDeal cid DealInfo
  | InsertMhPiece string cid
  | InsertInfo cid multihash u64 u64
  | UpdateMeta time bool cid
  | DeleteDeal string
  | DeleteMeta cid
  | DeleteMhPiece string cid
  | DeleteInfo multihash cid
  | InsertTracker address cid time time
  | InsertFlag address cid time time bool
  | DeleteFlag address cid
  | DeleteTracker address cid

text \<open>
  \<open>IF NOT EXISTS\<close> and \<open>ON CONFLICT DO NOTHING\<close> keep an existing row; other CQL inserts and updates
  write it whether it exists or not; \<open>ON CONFLICT DO UPDATE SET UpdatedAt\<close> changes that column only.
\<close>

fun stmtSem :: "ybStmt \<Rightarrow> ybTables \<Rightarrow> ybTables" where
  "stmtSem (InsertMeta p v now) T =
     (if tMeta T p = None
      then T\<lparr>tMeta := (tMeta T)(p \<mapsto>
        \<lparr>mVersion = v, mIndexedAt = time_zero, mComplete = False, mCreatedAt = now\<rparr>)\<rparr>
      else T)"
| "stmtSem (InsertDeal p dl) T =
     (if tDeals T (DealUuid dl) = None then T\<lparr>tDeals := (tDeals T)(DealUuid dl \<mapsto> (p, dl))\<rparr> else T)"
| "stmtSem (InsertMhPiece m p) T = T\<lparr>tMhs := insert (m, p) (tMhs T)\<rparr>"
| "stmtSem (InsertInfo p m ofs sz) T =
     T\<lparr>tInfos := (tInfos T)((p, m) \<mapsto> \<lparr>Offset = ofs, Size = sz\<rparr>)\<rparr>"
| "stmtSem (UpdateMeta t c p) T =
     T\<lparr>tMeta := (tMeta T)(p \<mapsto>
       (case tMeta T p of
          None \<Rightarrow> \<lparr>mVersion = [], mIndexedAt = t, mComplete = c, mCreatedAt = time_zero\<rparr>
        | Some r \<Rightarrow> r\<lparr>mIndexedAt := t, mComplete := c\<rparr>))\<rparr>"
| "stmtSem (DeleteDeal u) T = T\<lparr>tDeals := (tDeals T)(u := None)\<rparr>"
| "stmtSem (DeleteMeta p) T = T\<lparr>tMeta := (tMeta T)(p := None)\<rparr>"
| "stmtSem (DeleteMhPiece m p) T = T\<lparr>tMhs := tMhs T - {(m, p)}\<rparr>"
| "stmtSem (DeleteInfo m p) T = T\<lparr>tInfos := (tInfos T)((p, m) := None)\<rparr>"
| "stmtSem (InsertTracker a p c u) T =
     (if tTracker T (a, p) = None then T\<lparr>tTracker := (tTracker T)((a, p) \<mapsto> (c, u))\<rparr> else T)"
| "stmtSem (InsertFlag a p c u b) T =
     T\<lparr>tFlagged := (tFlagged T)((a, p) \<mapsto>
       (case tFlagged T (a, p) of
          None \<Rightarrow> \<lparr>fCreatedAt = c, fUpdatedAt = u, fHasUnsealedCopy = b\<rparr>
        | Some r \<Rightarrow> r\<lparr>fUpdatedAt := u\<rparr>))\<rparr>"
| "stmtSem (DeleteFlag a p) T = T\<lparr>tFlagged := (tFlagged T)((a, p) := None)\<rparr>"
| "stmtSem (DeleteTracker a p) T = T\<lparr>tTracker := (tTracker T)((a, p) := None)\<rparr>"

section \<open>The databases and the parsers\<close>

text \<open>A query that iterates gives its rows and the error of \<open>iter.Close\<close>.\<close>

record 's ybDb =
  ybExec :: "'s \<Rightarrow> ybStmt \<Rightarrow> goerr option \<times> 's"
  ybBatch :: "'s \<Rightarrow> ybStmt list \<Rightarrow> goerr option \<times> 's"
  ybMeta :: "'s \<Rightarrow> cid \<Rightarrow> goerr + string \<times> time \<times> bool"
  ybOffset :: "'s \<Rightarrow> cid \<Rightarrow> multihash \<Rightarrow> goerr + u64 \<times> u64"
  ybDeals :: "'s \<Rightarrow> cid \<Rightarrow> (DealInfo \<times> string) list \<times> goerr option"
  ybPieces :: "'s \<Rightarrow> string \<Rightarrow> string list \<times> goerr option"
  ybIndex :: "'s \<Rightarrow> cid \<Rightarrow> (string \<times> u64 \<times> u64) list \<times> goerr option"
  ybListMeta :: "'s \<Rightarrow> string list \<times> goerr option"
  ybMaxCreated :: "'s \<Rightarrow> goerr + time option"
  ybMetaSince :: "'s \<Rightarrow> time \<Rightarrow> (string \<times> time) list \<times> goerr option"
  ybMiners :: "'s \<Rightarrow> cid \<Rightarrow> string list \<times> goerr option"
  ybTrackerCount :: "'s \<Rightarrow> address option \<Rightarrow> goerr + nat"
  ybNextBatch :: "'s \<Rightarrow> address \<Rightarrow> time \<Rightarrow> nat \<Rightarrow> time \<Rightarrow> (goerr + string list \<times> goerr option) \<times> 's"
  ybScanned :: "'s \<Rightarrow> address \<Rightarrow> goerr + nat"
  ybDealCount :: "'s \<Rightarrow> address \<Rightarrow> goerr + nat"
  ybMaxUpdated :: "'s \<Rightarrow> address \<Rightarrow> goerr + time option"
  ybCidString :: "cid \<Rightarrow> string"
  ybCidBytes :: "cid \<Rightarrow> string"
  ybCidParse :: "string \<Rightarrow> goerr + cid"
  ybAddrString :: "address \<Rightarrow> string"
  ybAddrParse :: "string \<Rightarrow> goerr + address"
  ybMhString :: "multihash \<Rightarrow> string"
  ybMhFromBytes :: "string \<Rightarrow> goerr + multihash"
  ybCidHash :: "cid \<Rightarrow> multihash"
  ybCidV1Raw :: "multihash \<Rightarrow> cid"

definition gocqlErrNotFound :: goerr where
  "gocqlErrNotFound = GoErr ''not found'' [GocqlErrNotFound]"

text \<open>The rows of a table that a query lists: each once, in an order of the database's choice.\<close>

definition rowsOf :: "'a list \<Rightarrow> 'a set \<Rightarrow> bool" where
  "rowsOf xs A \<longleftrightarrow> set xs = A \<and> distinct xs"

definition yb_ok :: "'s ybDb \<Rightarrow> ('s \<Rightarrow> ybTables) \<Rightarrow> bool" where
  "yb_ok D tab \<longleftrightarrow>
     (\<forall>s st s'. ybExec D s st = (None, s') \<longrightarrow> tab s' = stmtSem st (tab s)) \<and>
     (\<forall>s sts s'. ybBatch D s sts = (None, s') \<longrightarrow> tab s' = fold stmtSem sts (tab s)) \<and>
     (\<forall>s p. ybMeta D s p = (case tMeta (tab s) p of
        None \<Rightarrow> Inl gocqlErrNotFound | Some r \<Rightarrow> Inr (mVersion r, mIndexedAt r, mComplete r))) \<and>
     (\<forall>s p m. ybOffset D s p m = (case tInfos (tab s) (p, m) of
        None \<Rightarrow> Inl gocqlErrNotFound | Some os \<Rightarrow> Inr (Offset os, Size os))) \<and>
     (\<forall>s p. \<exists>rows. ybDeals D s p = (rows, None) \<and>
        rowsOf rows {(dl, ybAddrString D (MinerAddr dl)) | dl u. tDeals (tab s) u = Some (p, dl)}) \<and>
     (\<forall>s m. \<exists>rows. ybPieces D s m = (rows, None) \<and> rowsOf rows (ybCidBytes D ` {p. (m, p) \<in> tMhs (tab s)})) \<and>
     (\<forall>s p. \<exists>rows. ybIndex D s p = (rows, None) \<and>
        rowsOf rows {(m, Offset os, Size os) | m os. tInfos (tab s) (p, m) = Some os}) \<and>
     (\<forall>c. ybCidParse D (ybCidBytes D c) = Inr c) \<and> (\<forall>c. ybCidParse D (ybCidString D c) = Inr c) \<and>
     (\<forall>a. ybAddrParse D (ybAddrString D a) = Inr a) \<and> (\<forall>m. ybMhFromBytes D m = Inr m) \<and>
     (\<forall>m. ybCidHash D (ybCidV1Raw D m) = m)"

lemma yb_parts:
  assumes "yb_ok D tab"
  shows "\<forall>s st s'. ybExec D s st = (None, s') \<longrightarrow> tab s' = stmtSem st (tab s)"
    and "\<forall>s sts s'. ybBatch D s sts = (None, s') \<longrightarrow> tab s' = fold stmtSem sts (tab s)"
    and "\<forall>s p. ybMeta D s p = (case tMeta (tab s) p of
        None \<Rightarrow> Inl gocqlErrNotFound | Some r \<Rightarrow> Inr (mVersion r, mIndexedAt r, mComplete r))"
    and "\<forall>s p m. ybOffset D s p m = (case tInfos (tab s) (p, m) of
        None \<Rightarrow> Inl gocqlErrNotFound | Some os \<Rightarrow> Inr (Offset os, Size os))"
    and "\<forall>s p. \<exists>rows. ybDeals D s p = (rows, None) \<and>
        rowsOf rows {(dl, ybAddrString D (MinerAddr dl)) | dl u. tDeals (tab s) u = Some (p, dl)}"
    and "\<forall>s m. \<exists>rows. ybPieces D s m = (rows, None) \<and>
        rowsOf rows (ybCidBytes D ` {p. (m, p) \<in> tMhs (tab s)})"
    and "\<forall>s p. \<exists>rows. ybIndex D s p = (rows, None) \<and>
        rowsOf rows {(m, Offset os, Size os) | m os. tInfos (tab s) (p, m) = Some os}"
    and "\<forall>c. ybCidParse D (ybCidBytes D c) = Inr c" and "\<forall>c. ybCidParse D (ybCidString D c) = Inr c"
    and "\<forall>a. ybAddrParse D (ybAddrString D a) = Inr a" and "\<forall>m. ybMhFromBytes D m = Inr m"
    and "\<forall>m. ybCidHash D (ybCidV1Raw D m) = m"
  using assms unfolding yb_ok_def by - (elim conjE, assumption)+

lemmas yb_exec = yb_parts(1) [rule_format]
lemmas yb_batch = yb_parts(2) [rule_format]
lemmas yb_meta = yb_parts(3) [rule_format]
lemmas yb_offset = yb_parts(4) [rule_format]
lemmas yb_deals = yb_parts(5) [rule_format]
lemmas yb_pieces = yb_parts(6) [rule_format]
lemmas yb_index = yb_parts(7) [rule_format]
lemmas yb_parse = yb_parts(8-12) [rule_format]

section \<open>Helpers of the package\<close>

definition multihashLimitBytes :: nat where
  "multihashLimitBytes = 24"

definition trimMultihash :: "multihash \<Rightarrow> string" where
  "trimMultihash m =
     (let idx = (if multihashLimitBytes < length m then length m - multihashLimitBytes else 0) in drop idx m)"

definition toLowerChar :: "char \<Rightarrow> char" where
  "toLowerChar c = (if 65 \<le> (of_char c :: nat) \<and> (of_char c :: nat) \<le> 90 then char_of (of_char c + 32 :: nat) else c)"

text \<open>\<open>strings.ToLower\<close> on ASCII text, and the test for a not-found error.\<close>

definition isNotFoundErr :: "goerr \<Rightarrow> bool" where
  "isNotFoundErr err \<longleftrightarrow>
     errors_Is err GocqlErrNotFound \<or> containsStr (map toLowerChar (emsg err)) ''not found''"

definition ybPieceCidError :: "'s ybDb \<Rightarrow> cid \<Rightarrow> goerr \<Rightarrow> goerr" where
  "ybPieceCidError D p err =
     (if isNotFoundErr err then errorf_w (''piece '' @ ybCidString D p @ '': '') typesErrNotFound else err)"

definition ybMultihashError :: "'s ybDb \<Rightarrow> multihash \<Rightarrow> goerr \<Rightarrow> goerr" where
  "ybMultihashError D m err =
     (if isNotFoundErr err then errorf_w (''multihash '' @ ybMhString D m @ '': '') typesErrNotFound else err)"

lemma map_toLowerChar_not_found [simp]: "map toLowerChar ''not found'' = ''not found''"
  by (simp add: toLowerChar_def)

lemma isNotFoundErr_wrapped: "isNotFoundErr (errorf_w p (errorf_w q typesErrNotFound))"
  by (simp add: isNotFoundErr_def typesErrNotFound_def containsStr_append_right toLowerChar_def)

lemma isNotFound_gocql [simp]: "isNotFoundErr gocqlErrNotFound"
  by (simp add: isNotFoundErr_def errors_Is_def gocqlErrNotFound_def)

end
