(* ===== verification/YbStore.thy ===== *)
theory YbStore
  imports YbDb
begin

text \<open>
  The methods of the YugabyteDB index store (\<open>boostd-data/yugabyte/service.go\<close>), with their error
  paths. \<open>AddIndex\<close> writes batches from several goroutines: a schedule says which goroutine executes
  its next batch, and the properties hold for every schedule. Metrics, tracing and logging are left
  out; the settings are those that \<open>NewStore\<close> has completed.
\<close>

section \<open>Settings\<close>

record ybSettings =
  PayloadPiecesParallelism :: nat
  InsertBatchSize :: nat
  InsertConcurrency :: nat

definition ybNewSettings :: "ybSettings \<Rightarrow> ybSettings" where
  "ybNewSettings s0 =
     (let s1 = (if PayloadPiecesParallelism s0 = 0 then s0\<lparr>PayloadPiecesParallelism := 16\<rparr> else s0);
          s2 = (if InsertBatchSize s1 = 0 then s1\<lparr>InsertBatchSize := 10000\<rparr> else s1);
          s3 = (if 50000 < InsertBatchSize s2 then s2\<lparr>InsertBatchSize := 50000\<rparr> else s2)
      in if InsertConcurrency s3 = 0 then s3\<lparr>InsertConcurrency := 4\<rparr> else s3)"

section \<open>Pieces and deals\<close>

definition ybCreatePieceMetadata :: "'s ybDb \<Rightarrow> 's \<Rightarrow> time \<Rightarrow> cid \<Rightarrow> goerr option \<times> 's" where
  "ybCreatePieceMetadata D s now p =
     (case ybExec D s (InsertMeta p pieceMetadataVersion now) of
        (Some err, s') \<Rightarrow>
          (Some (errorf_w (''inserting piece metadata for piece '' @ ybCidString D p @ '': '') err), s')
      | (None, s') \<Rightarrow> (None, s'))"

definition Yb_AddDealForPiece :: "'s ybDb \<Rightarrow> 's \<Rightarrow> time \<Rightarrow> cid \<Rightarrow> DealInfo \<Rightarrow> goerr option \<times> 's" where
  "Yb_AddDealForPiece D s now p dl =
     (case ybCreatePieceMetadata D s now p of
        (Some err, s') \<Rightarrow> (Some err, s')
      | (None, s') \<Rightarrow>
          (case ybExec D s' (InsertDeal p dl) of
             (Some err, s'') \<Rightarrow>
               (Some (errorf (''inserting deal '' @ DealUuid dl @ '' for piece '' @ ybCidString D p)), s'')
           | (None, s'') \<Rightarrow> (None, s'')))"

definition Yb_GetOffsetSize :: "'s ybDb \<Rightarrow> 's \<Rightarrow> cid \<Rightarrow> multihash \<Rightarrow> goerr + OffsetSize" where
  "Yb_GetOffsetSize D s p m =
     (case ybOffset D s p m of
        Inl err \<Rightarrow> Inl (errorf_w ''getting offset / size: '' (ybPieceCidError D p err))
      | Inr (ofs, sz) \<Rightarrow> Inr \<lparr>Offset = ofs, Size = sz\<rparr>)"

definition ybGetPieceMetadata :: "'s ybDb \<Rightarrow> 's \<Rightarrow> cid \<Rightarrow> goerr + Metadata" where
  "ybGetPieceMetadata D s p =
     (case ybMeta D s p of
        Inl err \<Rightarrow> Inl (errorf_w ''getting piece metadata: '' (ybPieceCidError D p err))
      | Inr (v, t, c) \<Rightarrow> Inr \<lparr>Version = v, IndexedAt = t, CompleteIndex = c, Deals = []\<rparr>)"

fun dealRows :: "'s ybDb \<Rightarrow> cid \<Rightarrow> (DealInfo \<times> string) list \<Rightarrow> DealInfo list \<Rightarrow> goerr + DealInfo list" where
  "dealRows D p [] deals = Inr deals"
| "dealRows D p ((dl, miner) # rows) deals =
     (case ybAddrParse D miner of
        Inl err \<Rightarrow> Inl (errorf_w (''parsing miner address for piece '' @ ybCidString D p @ '' / deal '' @
          DealUuid dl @ '': '') err)
      | Inr ma \<Rightarrow> dealRows D p rows (deals @ [dl\<lparr>MinerAddr := ma\<rparr>]))"

definition Yb_GetPieceDeals :: "'s ybDb \<Rightarrow> 's \<Rightarrow> cid \<Rightarrow> goerr + DealInfo list" where
  "Yb_GetPieceDeals D s p =
     (case ybDeals D s p of
        (rows, close) \<Rightarrow>
          (case dealRows D p rows [] of
             Inl err \<Rightarrow> Inl err
           | Inr deals \<Rightarrow>
               (case close of
                  Some err \<Rightarrow> Inl (errorf_w ''getting piece deals: '' err)
                | None \<Rightarrow>
                    if deals = [] then
                      (case ybGetPieceMetadata D s p of Inl err \<Rightarrow> Inl err | Inr _ \<Rightarrow> Inr deals)
                    else Inr deals)))"

definition Yb_GetPieceMetadata :: "'s ybDb \<Rightarrow> 's \<Rightarrow> cid \<Rightarrow> goerr + Metadata" where
  "Yb_GetPieceMetadata D s p =
     (case ybGetPieceMetadata D s p of
        Inl err \<Rightarrow> Inl err
      | Inr md \<Rightarrow>
          (case Yb_GetPieceDeals D s p of
             Inl err \<Rightarrow> Inl (errorf_w (''getting deals for piece '' @ ybCidString D p @ '': '') err)
           | Inr deals \<Rightarrow> Inr (md\<lparr>Deals := deals\<rparr>)))"

fun pieceRows :: "'s ybDb \<Rightarrow> string list \<Rightarrow> cid list \<Rightarrow> goerr + cid list" where
  "pieceRows D [] pcids = Inr pcids"
| "pieceRows D (bz # rows) pcids =
     (case ybCidParse D bz of
        Inl err \<Rightarrow> Inl (errorf_w ''parsing piece cid: '' err)
      | Inr c \<Rightarrow> pieceRows D rows (pcids @ [c]))"

definition Yb_PiecesContainingMultihash :: "'s ybDb \<Rightarrow> 's \<Rightarrow> multihash \<Rightarrow> goerr + cid list" where
  "Yb_PiecesContainingMultihash D s m =
     (case ybPieces D s (trimMultihash m) of
        (rows, close) \<Rightarrow>
          (case pieceRows D rows [] of
             Inl err \<Rightarrow> Inl err
           | Inr pcids \<Rightarrow>
               (case close of
                  Some err \<Rightarrow>
                    Inl (errorf_w (''getting pieces containing multihash '' @ ybMhString D m @ '': '') err)
                | None \<Rightarrow>
                    if pcids = [] then Inl (ybMultihashError D m typesErrNotFound) else Inr pcids)))"

section \<open>Reading an index\<close>

text \<open>
  The records that the goroutine of \<open>GetIndex\<close> sends: a parse error ends them. A record with an
  error has the zero \<open>Record\<close>.
\<close>

type_synonym indexRecord = "goerr + IndexedBlock"

fun indexRows :: "'s ybDb \<Rightarrow> (string \<times> u64 \<times> u64) list \<Rightarrow> goerr option \<Rightarrow> indexRecord list" where
  "indexRows D [] None = []"
| "indexRows D [] (Some err) = [Inl err]"
| "indexRows D ((bz, ofs, sz) # rows) close =
     (case ybMhFromBytes D bz of
        Inl err \<Rightarrow> [Inl err]
      | Inr m \<Rightarrow> Inr \<lparr>Offset = ofs, Size = sz, Cid = ybCidV1Raw D m\<rparr> # indexRows D rows close)"

text \<open>
  \<open>None\<close>: the call blocks until its context ends. The goroutine signals the first row, and otherwise
  its end; when there is no row and the query has failed, it first sends the error on the channel of
  records, which nobody reads before \<open>GetIndex\<close> has returned.
\<close>

definition Yb_GetIndex :: "'s ybDb \<Rightarrow> 's \<Rightarrow> cid \<Rightarrow> (goerr + indexRecord list) option" where
  "Yb_GetIndex D s p =
     (case ybIndex D s p of
        (rows, close) \<Rightarrow>
          if rows = [] \<and> close \<noteq> None then None
          else let recs = indexRows D rows
                 (map_option (errorf_w (''getting piece index for piece '' @ ybCidString D p @ '': '')) close)
            in if rows = [] then
                 (case ybGetPieceMetadata D s p of Inl err \<Rightarrow> Some (Inl err) | Inr _ \<Rightarrow> Some (Inr recs))
               else Some (Inr recs))"

definition Yb_IsCompleteIndex :: "'s ybDb \<Rightarrow> 's \<Rightarrow> cid \<Rightarrow> goerr + bool" where
  "Yb_IsCompleteIndex D s p =
     (case ybGetPieceMetadata D s p of Inl err \<Rightarrow> Inl err | Inr md \<Rightarrow> Inr (CompleteIndex md))"

definition Yb_IndexedAt :: "'s ybDb \<Rightarrow> 's \<Rightarrow> cid \<Rightarrow> goerr + time" where
  "Yb_IndexedAt D s p =
     (case ybGetPieceMetadata D s p of
        Inl err \<Rightarrow> if isNotFoundErr err then Inr time_zero else Inl err
      | Inr md \<Rightarrow> Inr (IndexedAt md))"

definition Yb_IsIndexed :: "'s ybDb \<Rightarrow> 's \<Rightarrow> cid \<Rightarrow> goerr + bool" where
  "Yb_IsIndexed D s p =
     (case Yb_IndexedAt D s p of
        Inl err \<Rightarrow> if isNotFoundErr err then Inr False else Inl err
      | Inr t \<Rightarrow> Inr (\<not> time_IsZero t))"

definition Yb_ListPieces :: "'s ybDb \<Rightarrow> 's \<Rightarrow> goerr + cid list" where
  "Yb_ListPieces D s =
     (case ybListMeta D s of
        (rows, close) \<Rightarrow>
          (case pieceRows D rows [] of
             Inl err \<Rightarrow> Inl err
           | Inr pcids \<Rightarrow>
               (case close of Some err \<Rightarrow> Inl (errorf_w ''getting piece cids: '' err) | None \<Rightarrow> Inr pcids)))"

section \<open>Writing an index\<close>

text \<open>
  The loop of one goroutine over its part of the records: a batch goes out when it is full or at the
  last record. Each batch comes with the number of records done so far.
\<close>

fun batchLoop :: "nat \<Rightarrow> nat \<Rightarrow> nat \<Rightarrow> 'a list \<Rightarrow> 'a list \<Rightarrow> ('a list \<times> nat) list" where
  "batchLoop size' tot allIdx batch [] = []"
| "batchLoop size' tot allIdx batch (rec # recsb) =
     (let batch' = batch @ [rec] in
      if allIdx = tot - 1 \<or> length batch' = size'
      then (batch', allIdx + 1) # batchLoop size' tot (allIdx + 1) [] recsb
      else batchLoop size' tot (allIdx + 1) batch' recsb)"

function splitParts :: "nat \<Rightarrow> 'a list \<Rightarrow> 'a list list" where
  "splitParts threadBatch recs =
     (if recs = [] \<or> threadBatch = 0 then []
      else take threadBatch recs # splitParts threadBatch (drop threadBatch recs))"
  by pat_completeness auto
termination by (relation "measure (\<lambda>(n, recs). length recs)") auto

declare splitParts.simps [simp del]

definition ybThreadBatch :: "ybSettings \<Rightarrow> 'a list \<Rightarrow> nat" where
  "ybThreadBatch cfg recs =
     (let tb = length recs div InsertConcurrency cfg in if tb = 0 then length recs else tb)"

text \<open>The batches of every goroutine, each with the progress value that goroutine 0 reports after it.\<close>

definition batchProgress :: "nat \<Rightarrow> nat \<Rightarrow> nat \<Rightarrow> rat" where
  "batchProgress len threadBatch n =
     of_nat (len div threadBatch + 1) * of_nat n / of_nat len"

definition ybGoroutines ::
  "ybSettings \<Rightarrow> ('a \<Rightarrow> ybStmt) \<Rightarrow> 'a list \<Rightarrow> (ybStmt list \<times> rat list) list list" where
  "ybGoroutines cfg stmt recs =
     (let tb = ybThreadBatch cfg recs;
          parts = splitParts tb recs
      in map (\<lambda>i. map (\<lambda>(b, n).
             (map stmt b, if i = 0 then [batchProgress (length recs) tb n] else []))
           (batchLoop (InsertBatchSize cfg) (length (parts ! i)) 0 [] (parts ! i)))
         [0..<length parts])"

text \<open>
  The error group: the schedule names the goroutine that executes its next batch; a goroutine that
  fails stops, the first error is the result. \<open>None\<close> when some goroutine is not done.
\<close>

fun runBatches ::
  "'s ybDb \<Rightarrow> string \<Rightarrow> nat list \<Rightarrow> (ybStmt list \<times> rat list) list list \<Rightarrow> 's \<Rightarrow> goerr option \<Rightarrow> rat list \<Rightarrow>
    (goerr option \<times> rat list \<times> 's) option" where
  "runBatches D msg [] gs s err prgs =
     (if \<forall>g\<in>set gs. g = [] then Some (err, prgs, s) else None)"
| "runBatches D msg (i # sched) gs s err prgs =
     (if i < length gs then
        (case gs ! i of
           [] \<Rightarrow> runBatches D msg sched gs s err prgs
         | (b, ps) # rest \<Rightarrow>
             (case ybBatch D s b of
                (None, s') \<Rightarrow> runBatches D msg sched (gs[i := rest]) s' err (prgs @ ps)
              | (Some e, s') \<Rightarrow>
                  runBatches D msg sched (gs[i := []]) s'
                    (case err of None \<Rightarrow> Some (errorf_w msg e) | Some _ \<Rightarrow> err) prgs))
      else runBatches D msg sched gs s err prgs)"

definition ybAddMultihashesToPieces ::
  "'s ybDb \<Rightarrow> ybSettings \<Rightarrow> nat list \<Rightarrow> 's \<Rightarrow> cid \<Rightarrow> IndexedBlock list \<Rightarrow> (goerr option \<times> rat list \<times> 's) option" where
  "ybAddMultihashesToPieces D cfg sched s p recs =
     runBatches D ''inserting into PayloadToPieces: '' sched
       (ybGoroutines cfg (\<lambda>r. InsertMhPiece (trimMultihash (ybCidHash D (Cid r))) p) recs) s None []"

definition ybAddPieceInfos ::
  "'s ybDb \<Rightarrow> ybSettings \<Rightarrow> nat list \<Rightarrow> 's \<Rightarrow> cid \<Rightarrow> IndexedBlock list \<Rightarrow> (goerr option \<times> rat list \<times> 's) option" where
  "ybAddPieceInfos D cfg sched s p recs =
     runBatches D (''executing offset / size batch insert for piece '' @ ybCidString D p @ '': '') sched
       (ybGoroutines cfg (\<lambda>r. InsertInfo p (ybCidHash D (Cid r)) (Offset r) (Size r)) recs) s None []"

text \<open>
  The goroutine of \<open>AddIndex\<close>: the error it hands to \<open>completeProgress\<close>, the values it hands to
  \<open>updateProgress\<close> and the state. \<open>created\<close> and \<open>now\<close> are the two readings of the clock.
\<close>

definition ybAddIndexRun ::
  "'s ybDb \<Rightarrow> ybSettings \<Rightarrow> nat list \<Rightarrow> nat list \<Rightarrow> 's \<Rightarrow> time \<Rightarrow> time \<Rightarrow> cid \<Rightarrow> IndexedBlock list \<Rightarrow> bool \<Rightarrow>
    (goerr option \<times> rat list \<times> 's) option" where
  "ybAddIndexRun D cfg sched sched' s created now p recs full =
     (case ybAddMultihashesToPieces D cfg sched s p recs of
          None \<Rightarrow> None
        | Some (Some err, ps, s1) \<Rightarrow> Some (Some err, map ((*) (45 / 100)) ps, s1)
        | Some (None, ps, s1) \<Rightarrow>
            let ps1 = map ((*) (45 / 100)) ps in
            (case ybAddPieceInfos D cfg sched' s1 p recs of
               None \<Rightarrow> None
             | Some (Some err, qs, s2) \<Rightarrow> Some (Some err, ps1 @ map (\<lambda>q. 45 / 100 + 45 / 100 * q) qs, s2)
             | Some (None, qs, s2) \<Rightarrow>
                 let ps2 = ps1 @ map (\<lambda>q. 45 / 100 + 45 / 100 * q) qs in
                 (case ybCreatePieceMetadata D s2 created p of
                    (Some err, s3) \<Rightarrow> Some (Some err, ps2, s3)
                  | (None, s3) \<Rightarrow>
                      (case ybExec D s3 (UpdateMeta now full p) of
                         (Some err, s4) \<Rightarrow> Some (Some err, ps2 @ [95 / 100], s4)
                       | (None, s4) \<Rightarrow> Some (None, ps2 @ [95 / 100, 1], s4)))))"

text \<open>
  The progress channel, as the goroutine meets it: at its \<open>n\<close>-th update, whether the last value was sent less
  than five seconds ago and whether the channel has room, and whether it gets room in the five seconds
  after the last update. A value that is not sent is kept as \<open>lastUpdateValue\<close>; \<open>completeProgress\<close> sends the error
  or the kept value, and drops it when the channel stays full.
\<close>

record ybChan =
  ycRecent :: "nat \<Rightarrow> bool"
  ycRoom :: "nat \<Rightarrow> bool"
  ycEnd :: bool

fun updateProgress ::
  "bool \<Rightarrow> bool \<Rightarrow> rat \<Rightarrow> AddIndexProgress list \<times> rat option \<Rightarrow> AddIndexProgress list \<times> rat option" where
  "updateProgress recent room prg (sent, lastUpdateValue) =
     (if recent then (sent, Some prg)
      else if room then (sent @ [sendProgress prg], None)
      else (sent, Some prg))"

fun updateAll ::
  "ybChan \<Rightarrow> nat \<Rightarrow> rat list \<Rightarrow> AddIndexProgress list \<times> rat option \<Rightarrow> AddIndexProgress list \<times> rat option" where
  "updateAll ch n [] st = st"
| "updateAll ch n (prg # prgs) st = updateAll ch (n + 1) prgs (updateProgress (ycRecent ch n) (ycRoom ch n) prg st)"

definition completeProgress ::
  "bool \<Rightarrow> goerr option \<Rightarrow> AddIndexProgress list \<times> rat option \<Rightarrow> AddIndexProgress list" where
  "completeProgress room err st =
     (case st of (sent, lastUpdateValue) \<Rightarrow>
        let lastProg = (case err of Some e \<Rightarrow> Some (sendErr e) | None \<Rightarrow> map_option sendProgress lastUpdateValue) in
        case lastProg of None \<Rightarrow> sent | Some prg \<Rightarrow> if room then sent @ [prg] else sent)"

text \<open>\<open>AddIndex\<close>: the error of the goroutine, what goes out on the channel before it is closed, and the state.\<close>

definition Yb_AddIndex ::
  "'s ybDb \<Rightarrow> ybSettings \<Rightarrow> nat list \<Rightarrow> nat list \<Rightarrow> ybChan \<Rightarrow> 's \<Rightarrow> time \<Rightarrow> time \<Rightarrow> cid \<Rightarrow> IndexedBlock list \<Rightarrow> bool \<Rightarrow>
    (goerr option \<times> AddIndexProgress list \<times> 's) option" where
  "Yb_AddIndex D cfg sched sched' ch s created now p recs full =
     (if recs = [] then Some (None, [sendProgress 1], s)
      else case ybAddIndexRun D cfg sched sched' s created now p recs full of
          None \<Rightarrow> None
        | Some (err, prgs, s') \<Rightarrow>
            Some (err, completeProgress (ycEnd ch) err (updateAll ch 0 prgs ([sendProgress 0], None)), s'))"

section \<open>Removal\<close>

text \<open>
  The workers of \<open>RemoveIndexes\<close> share the channel of records; a worker that fails exits, and the rest
  of the records is left when none remains. An error record is not looked at: its zero CID is used.
\<close>

definition recCid :: "indexRecord \<Rightarrow> cid" where
  "recCid r = (case r of Inl _ \<Rightarrow> [] | Inr b \<Rightarrow> Cid b)"

fun removeRecords ::
  "'s ybDb \<Rightarrow> cid \<Rightarrow> nat \<Rightarrow> 's \<Rightarrow> indexRecord list \<Rightarrow> goerr option \<Rightarrow> goerr option \<times> 's" where
  "removeRecords D p workers s [] err = (err, s)"
| "removeRecords D p workers s (r # recs) err =
     (if workers = 0 then (err, s)
      else let m = ybCidHash D (recCid r) in
        case ybExec D s (DeleteMhPiece (trimMultihash m) p) of
          (Some e, s1) \<Rightarrow>
            removeRecords D p (workers - 1) s1 recs
              (case err of None \<Rightarrow> Some (errorf_w ''deleting from PayloadToPieces: '' e) | Some _ \<Rightarrow> err)
        | (None, s1) \<Rightarrow>
            (case ybExec D s1 (DeleteInfo m p) of
               (Some e, s2) \<Rightarrow>
                 removeRecords D p (workers - 1) s2 recs
                   (case err of None \<Rightarrow> Some (errorf_w ''deleting from PieceBlockOffsetSize: '' e) | Some _ \<Rightarrow> err)
             | (None, s2) \<Rightarrow> removeRecords D p workers s2 recs err))"

definition Yb_RemoveIndexes :: "'s ybDb \<Rightarrow> ybSettings \<Rightarrow> 's \<Rightarrow> cid \<Rightarrow> (goerr option \<times> 's) option" where
  "Yb_RemoveIndexes D cfg s p =
     (case Yb_GetIndex D s p of
        None \<Rightarrow> None
      | Some (Inl err) \<Rightarrow>
          Some (Some (errorf_w (''removing indexes for piece '' @ ybCidString D p @ '': getting recs: '') err), s)
      | Some (Inr recs) \<Rightarrow> Some (removeRecords D p (PayloadPiecesParallelism cfg) s recs None))"

definition Yb_RemovePieceMetadata :: "'s ybDb \<Rightarrow> 's \<Rightarrow> cid \<Rightarrow> goerr option \<times> 's" where
  "Yb_RemovePieceMetadata D s p =
     (case ybExec D s (DeleteMeta p) of
        (Some err, s') \<Rightarrow>
          (Some (errorf_w (''removing piece metadata for piece '' @ ybCidString D p @ '': '') err), s')
      | (None, s') \<Rightarrow> (None, s'))"

definition Yb_RemoveDealForPiece ::
  "'s ybDb \<Rightarrow> ybSettings \<Rightarrow> 's \<Rightarrow> cid \<Rightarrow> string \<Rightarrow> (goerr option \<times> 's) option" where
  "Yb_RemoveDealForPiece D cfg s p dealId =
     (case ybExec D s (DeleteDeal dealId) of
        (Some err, s1) \<Rightarrow>
          Some (Some (errorf_w (''removing deal '' @ dealId @ '' for piece '' @ ybCidString D p @ '': '') err), s1)
      | (None, s1) \<Rightarrow>
          (case Yb_GetPieceDeals D s1 p of
             Inl err \<Rightarrow>
               Some (Some (errorf_w (''getting remaining deals in remove deal for piece '' @ ybCidString D p @
                 '': '') err), s1)
           | Inr dls \<Rightarrow>
               if dls \<noteq> [] then Some (None, s1)
               else case Yb_RemoveIndexes D cfg s1 p of
                   None \<Rightarrow> None
                 | Some (Some err, s2) \<Rightarrow> Some (Some (errorf_w ''removing deal: '' err), s2)
                 | Some (None, s2) \<Rightarrow>
                     (case Yb_RemovePieceMetadata D s2 p of
                        (Some err, s3) \<Rightarrow> Some (Some (errorf_w ''removing deal: '' err), s3)
                      | (None, s3) \<Rightarrow> Some (None, s3))))"

end
