(* ===== verification/YbProps.thy ===== *)
theory YbProps
  imports YbStore "HOL-Library.Multiset"
begin

text \<open>
  Properties of the YugabyteDB index store: batching loses nothing whatever the schedule, an index
  that was added is found, the last deal takes the piece with it, and the bounds that do not hold.
\<close>

section \<open>Splitting and batching\<close>

lemma concat_splitParts: "0 < n \<Longrightarrow> concat (splitParts n xs) = xs"
proof (induction n xs rule: splitParts.induct)
  case (1 n xs)
  then show ?case by (subst splitParts.simps) auto
qed

lemma splitParts_size: "ys \<in> set (splitParts n xs) \<Longrightarrow> ys \<noteq> [] \<and> length ys \<le> n"
proof (induction n xs rule: splitParts.induct)
  case (1 n xs)
  from 1(2) 1(1) show ?case by (subst (asm) splitParts.simps) (auto split: if_splits)
qed

lemma length_splitParts: "0 < n \<Longrightarrow> length (splitParts n xs) = (length xs + n - 1) div n"
proof (induction n xs rule: splitParts.induct)
  case (1 n xs)
  show ?case
  proof (cases "xs = []")
    case True
    with 1(2) show ?thesis by (simp add: splitParts.simps)
  next
    case False
    with 1(2) have "length (splitParts n xs) = Suc ((length xs - n + n - 1) div n)"
      using 1(1) by (subst splitParts.simps) simp
    also have "\<dots> = (length xs + n - 1) div n"
    proof (cases "length xs < n")
      case True
      have "n \<le> length xs + n - 1" using False by (cases xs) auto
      with True have "(length xs + n - 1) div n = 1" "(length xs - n + n - 1) div n = 0"
        by (auto intro!: div_nat_eqI)
      then show ?thesis by simp
    next
      case False
      define m where "m = length xs - n + n - 1"
      from False 1(2) have "length xs + n - 1 = m + n" by (simp add: m_def)
      moreover have "Suc (m div n) = (m + n) div n" using 1(2) by simp
      ultimately show ?thesis by (simp only: m_def)
    qed
    finally show ?thesis .
  qed
qed

text \<open>The batches of a goroutine put together are its records; each is within the size.\<close>

lemma batchLoop_concat:
  "i + length recs = tot \<Longrightarrow> concat (map fst (batchLoop n tot i batch recs)) = (if recs = [] then [] else batch @ recs)"
proof (induction n tot i batch recs rule: batchLoop.induct)
  case (2 n tot i batch r rs)
  then show ?case by (cases "rs = []") (auto simp: Let_def)
qed simp

lemma batchLoop_size:
  "0 < n \<Longrightarrow> length batch < n \<Longrightarrow> (b, k) \<in> set (batchLoop n tot i batch recs) \<Longrightarrow> length b \<le> n \<and> b \<noteq> []"
  by (induction n tot i batch recs rule: batchLoop.induct) (auto simp: Let_def split: if_splits)

lemma batchLoop_last:
  "i + length recs = tot \<Longrightarrow> recs \<noteq> [] \<Longrightarrow>
    batchLoop n tot i batch recs \<noteq> [] \<and> snd (last (batchLoop n tot i batch recs)) = tot"
proof (induction n tot i batch recs rule: batchLoop.induct)
  case (2 n tot i batch r rs)
  show ?case
  proof (cases "rs = []")
    case True
    with 2 show ?thesis by (auto simp: Let_def)
  next
    case False
    with 2 show ?thesis by (auto simp: Let_def)
  qed
qed simp

definition gsStmts :: "(ybStmt list \<times> 'p) list list \<Rightarrow> ybStmt list" where
  "gsStmts gs = concat (map (\<lambda>g. concat (map fst g)) gs)"

lemma ybThreadBatch_pos: "recs \<noteq> [] \<Longrightarrow> 0 < ybThreadBatch cfg recs"
  by (simp add: ybThreadBatch_def Let_def)

lemma gsStmts_all:
  assumes "recs \<noteq> []"
  shows "gsStmts (ybGoroutines cfg stmt recs) = map stmt recs"
proof -
  let ?tb = "ybThreadBatch cfg recs"
  let ?parts = "splitParts ?tb recs"
  have one: "concat (map (map stmt \<circ> fst) (batchLoop n (length p) 0 [] p)) = map stmt p" for n p
  proof -
    have "concat (map (map stmt) (map fst (batchLoop n (length p) 0 [] p))) =
        map stmt (concat (map fst (batchLoop n (length p) 0 [] p)))" by (simp add: map_concat)
    then show ?thesis using batchLoop_concat [of 0 p "length p" n "[]"] by simp
  qed
  have "gsStmts (ybGoroutines cfg stmt recs) =
      concat (map (\<lambda>i. concat (map (map stmt \<circ> fst) (batchLoop (InsertBatchSize cfg) (length (?parts ! i)) 0 []
        (?parts ! i)))) [0..<length ?parts])"
    by (simp add: gsStmts_def ybGoroutines_def Let_def o_def split_def)
  also have "\<dots> = concat (map (\<lambda>i. map stmt (?parts ! i)) [0..<length ?parts])" by (simp only: one)
  also have "\<dots> = map stmt (concat ?parts)"
  proof -
    have "map (\<lambda>i. map stmt (?parts ! i)) [0..<length ?parts] = map (map stmt) ?parts"
      by (rule nth_equalityI) simp_all
    then show ?thesis by (simp add: map_concat)
  qed
  also have "concat ?parts = recs" by (rule concat_splitParts [OF ybThreadBatch_pos [OF assms]])
  finally show ?thesis .
qed

text \<open>A run that ends without an error has executed every statement once, in some order.\<close>

lemma gsStmts_update:
  assumes "i < length gs" and "gs ! i = (b, ps) # rest"
  shows "mset (gsStmts gs) = mset b + mset (gsStmts (gs[i := rest]))"
  using assms
proof (induction gs arbitrary: i)
  case (Cons g gs)
  then show ?case by (cases i) (auto simp: gsStmts_def)
qed simp

lemma runBatches_err: "runBatches D msg sched gs s (Some e) prgs = Some (err, prgs', s') \<Longrightarrow> err \<noteq> None"
proof (induction sched arbitrary: gs s e prgs)
  case (Cons i sched)
  then show ?case by (auto split: if_splits list.splits prod.splits option.splits)
qed (auto split: if_splits)

lemma runBatches_ok:
  assumes ok: "yb_ok D tab" and "runBatches D msg sched gs s None prgs = Some (None, prgs', s')"
  shows "\<exists>L. mset L = mset (gsStmts gs) \<and> tab s' = fold stmtSem L (tab s)"
  using assms(2)
proof (induction sched arbitrary: gs s prgs)
  case Nil
  then have "\<forall>g\<in>set gs. g = []" "s' = s" by (auto split: if_splits)
  then have "gsStmts gs = []" by (auto simp: gsStmts_def)
  with \<open>s' = s\<close> show ?case by (intro exI [of _ "[]"]) simp
next
  case (Cons i sched)
  show ?case
  proof (cases "i < length gs \<and> gs ! i \<noteq> []")
    case True
    then obtain b ps rest where g: "gs ! i = (b, ps) # rest" by (cases "gs ! i") auto
    obtain e s1 where b: "ybBatch D s b = (e, s1)" by (rule prod.exhaust)
    with Cons.prems True g have "e = None"
      by (auto dest!: runBatches_err split: option.splits)
    with Cons.prems True g b have "runBatches D msg sched (gs[i := rest]) s1 None (prgs @ ps) = Some (None, prgs', s')"
      by simp
    from Cons.IH [OF this] obtain L where L: "mset L = mset (gsStmts (gs[i := rest]))"
      "tab s' = fold stmtSem L (tab s1)" by blast
    have "tab s1 = fold stmtSem b (tab s)" using yb_batch [OF ok] b \<open>e = None\<close> by blast
    with L have "tab s' = fold stmtSem (b @ L) (tab s)" by simp
    moreover have "mset (b @ L) = mset (gsStmts gs)"
      using L gsStmts_update [OF _ g] True by simp
    ultimately show ?thesis by blast
  next
    case False
    with Cons.prems Cons.IH show ?thesis by (auto split: if_splits)
  qed
qed

section \<open>What the statements of an index do\<close>

lemma fold_insertMh:
  assumes "\<forall>st\<in>set L. \<exists>m p. st = InsertMhPiece m p"
  shows "fold stmtSem L T = T\<lparr>tMhs := tMhs T \<union> {(m, p). InsertMhPiece m p \<in> set L}\<rparr>"
  using assms
proof (induction L arbitrary: T)
  case (Cons st L)
  then obtain m p where "st = InsertMhPiece m p" by auto
  moreover have "fold stmtSem L T' = T'\<lparr>tMhs := tMhs T' \<union> {(m, p). InsertMhPiece m p \<in> set L}\<rparr>" for T'
    using Cons by simp
  ultimately show ?case by (auto intro!: ybTables.equality)
qed simp

lemma fold_insertInfo:
  assumes "\<forall>st\<in>set L. \<exists>m ofs sz. st = InsertInfo p m ofs sz"
  shows "\<exists>I. fold stmtSem L T = T\<lparr>tInfos := I\<rparr> \<and> (\<forall>q m. q \<noteq> p \<longrightarrow> I (q, m) = tInfos T (q, m)) \<and>
    (\<forall>m. (\<exists>ofs sz. InsertInfo p m ofs sz \<in> set L \<and> I (p, m) = Some \<lparr>Offset = ofs, Size = sz\<rparr>) \<or>
      (\<forall>ofs sz. InsertInfo p m ofs sz \<notin> set L) \<and> I (p, m) = tInfos T (p, m))"
  using assms
proof (induction L rule: rev_induct)
  case Nil
  show ?case by (intro exI [of _ "tInfos T"]) simp
next
  case (snoc st L)
  then obtain m ofs sz where st: "st = InsertInfo p m ofs sz" by auto
  from snoc obtain I where I: "fold stmtSem L T = T\<lparr>tInfos := I\<rparr>"
    "\<forall>q m. q \<noteq> p \<longrightarrow> I (q, m) = tInfos T (q, m)"
    "\<forall>m. (\<exists>ofs sz. InsertInfo p m ofs sz \<in> set L \<and> I (p, m) = Some \<lparr>Offset = ofs, Size = sz\<rparr>) \<or>
      (\<forall>ofs sz. InsertInfo p m ofs sz \<notin> set L) \<and> I (p, m) = tInfos T (p, m)" by auto
  let ?I = "I((p, m) \<mapsto> \<lparr>Offset = ofs, Size = sz\<rparr>)"
  have A: "fold stmtSem (L @ [st]) T = T\<lparr>tInfos := ?I\<rparr>" by (simp add: I(1) st)
  have B: "(\<exists>ofs sz. InsertInfo p k ofs sz \<in> set (L @ [st]) \<and> ?I (p, k) = Some \<lparr>Offset = ofs, Size = sz\<rparr>) \<or>
      (\<forall>ofs sz. InsertInfo p k ofs sz \<notin> set (L @ [st])) \<and> ?I (p, k) = tInfos T (p, k)" for k
    using I(3) [rule_format, of k] by (cases "k = m") (auto simp: st)
  have "\<forall>q m. q \<noteq> p \<longrightarrow> ?I (q, m) = tInfos T (q, m)" using I(2) by simp
  with A B show ?case by blast
qed

lemma runAll_ok:
  assumes ok: "yb_ok D tab" and "recs \<noteq> []"
    and "runBatches D msg sched (ybGoroutines cfg stmt recs) s None [] = Some (None, prgs, s')"
  shows "\<exists>L. set L = stmt ` set recs \<and> tab s' = fold stmtSem L (tab s)"
  using runBatches_ok [OF ok assms(3)] gsStmts_all [OF assms(2), of cfg stmt]
  by (metis set_mset_mset set_map)

lemma addMultihashes_ok:
  assumes "yb_ok D tab" and "recs \<noteq> []"
    and "ybAddMultihashesToPieces D cfg sched s p recs = Some (None, ps, s')"
  shows "tab s' = (tab s)\<lparr>tMhs := tMhs (tab s) \<union> (\<lambda>r. (trimMultihash (ybCidHash D (Cid r)), p)) ` set recs\<rparr>"
proof -
  obtain L where "set L = (\<lambda>r. InsertMhPiece (trimMultihash (ybCidHash D (Cid r))) p) ` set recs"
    "tab s' = fold stmtSem L (tab s)"
    using runAll_ok [OF assms(1,2) assms(3) [unfolded ybAddMultihashesToPieces_def]] by blast
  moreover from this have "fold stmtSem L (tab s) =
      (tab s)\<lparr>tMhs := tMhs (tab s) \<union> {(m, p). InsertMhPiece m p \<in> set L}\<rparr>"
    by (intro fold_insertMh) auto
  ultimately show ?thesis by (auto intro!: ybTables.equality)
qed

lemma addPieceInfos_ok:
  assumes "yb_ok D tab" and "recs \<noteq> []"
    and "ybAddPieceInfos D cfg sched s p recs = Some (None, ps, s')"
  shows "\<exists>I. tab s' = (tab s)\<lparr>tInfos := I\<rparr> \<and> (\<forall>q m. q \<noteq> p \<longrightarrow> I (q, m) = tInfos (tab s) (q, m)) \<and>
    (\<forall>m. (\<exists>r\<in>set recs. ybCidHash D (Cid r) = m \<and> I (p, m) = Some \<lparr>Offset = Offset r, Size = Size r\<rparr>) \<or>
      (\<forall>r\<in>set recs. ybCidHash D (Cid r) \<noteq> m) \<and> I (p, m) = tInfos (tab s) (p, m))"
proof -
  let ?stmt = "\<lambda>r. InsertInfo p (ybCidHash D (Cid r)) (Offset r) (Size r)"
  obtain L where L: "set L = ?stmt ` set recs" "tab s' = fold stmtSem L (tab s)"
    using runAll_ok [OF assms(1,2) assms(3) [unfolded ybAddPieceInfos_def]] by blast
  then have "\<forall>st\<in>set L. \<exists>m ofs sz. st = InsertInfo p m ofs sz" by auto
  from fold_insertInfo [OF this, of "tab s"] obtain I where I: "fold stmtSem L (tab s) = (tab s)\<lparr>tInfos := I\<rparr>"
    "\<forall>q m. q \<noteq> p \<longrightarrow> I (q, m) = tInfos (tab s) (q, m)"
    "\<forall>m. (\<exists>ofs sz. InsertInfo p m ofs sz \<in> set L \<and> I (p, m) = Some \<lparr>Offset = ofs, Size = sz\<rparr>) \<or>
      (\<forall>ofs sz. InsertInfo p m ofs sz \<notin> set L) \<and> I (p, m) = tInfos (tab s) (p, m)" by blast
  have "(\<exists>r\<in>set recs. ybCidHash D (Cid r) = m \<and> I (p, m) = Some \<lparr>Offset = Offset r, Size = Size r\<rparr>) \<or>
      (\<forall>r\<in>set recs. ybCidHash D (Cid r) \<noteq> m) \<and> I (p, m) = tInfos (tab s) (p, m)" for m
    using I(3) [rule_format, of m] L(1) by auto
  with I L(2) show ?thesis by (intro exI [of _ I]) simp
qed

text \<open>The tables after an index has been added.\<close>

lemma Yb_AddIndex_ok:
  assumes ok: "yb_ok D tab" and ne: "recs \<noteq> []"
    and r: "Yb_AddIndex D cfg sched sched' ch s created now p recs full = Some (None, ps, s')"
  shows "tMhs (tab s') = tMhs (tab s) \<union> (\<lambda>r. (trimMultihash (ybCidHash D (Cid r)), p)) ` set recs"
    and "\<forall>r\<in>set recs. \<exists>r'\<in>set recs. ybCidHash D (Cid r') = ybCidHash D (Cid r) \<and>
      tInfos (tab s') (p, ybCidHash D (Cid r)) = Some \<lparr>Offset = Offset r', Size = Size r'\<rparr>"
    and "\<exists>row. tMeta (tab s') p = Some row \<and> mIndexedAt row = now \<and> mComplete row = full"
    and "\<forall>q m. q \<noteq> p \<longrightarrow> tInfos (tab s') (q, m) = tInfos (tab s) (q, m)"
    and "\<forall>q. q \<noteq> p \<longrightarrow> tMeta (tab s') q = tMeta (tab s) q"
    and "tDeals (tab s') = tDeals (tab s)"
proof -
  from r ne obtain ps1 s1 qs s2 s3 where
    1: "ybAddMultihashesToPieces D cfg sched s p recs = Some (None, ps1, s1)"
    and 2: "ybAddPieceInfos D cfg sched' s1 p recs = Some (None, qs, s2)"
    and 3: "ybCreatePieceMetadata D s2 created p = (None, s3)"
    and 4: "ybExec D s3 (UpdateMeta now full p) = (None, s')"
    by (auto simp: Yb_AddIndex_def ybAddIndexRun_def Let_def split: option.splits prod.splits)
  from 3 have "ybExec D s2 (InsertMeta p pieceMetadataVersion created) = (None, s3)"
    by (auto simp: ybCreatePieceMetadata_def split: prod.splits option.splits)
  from yb_exec [OF ok this] yb_exec [OF ok 4] have
    t4: "tab s' = stmtSem (UpdateMeta now full p) (stmtSem (InsertMeta p pieceMetadataVersion created) (tab s2))"
    by simp
  from addPieceInfos_ok [OF ok ne 2] obtain I where I: "tab s2 = (tab s1)\<lparr>tInfos := I\<rparr>"
    "\<forall>q m. q \<noteq> p \<longrightarrow> I (q, m) = tInfos (tab s1) (q, m)"
    "\<forall>m. (\<exists>r\<in>set recs. ybCidHash D (Cid r) = m \<and> I (p, m) = Some \<lparr>Offset = Offset r, Size = Size r\<rparr>) \<or>
      (\<forall>r\<in>set recs. ybCidHash D (Cid r) \<noteq> m) \<and> I (p, m) = tInfos (tab s1) (p, m)" by blast
  note t1 = addMultihashes_ok [OF ok ne 1]
  show "tMhs (tab s') = tMhs (tab s) \<union> (\<lambda>r. (trimMultihash (ybCidHash D (Cid r)), p)) ` set recs"
    by (simp add: t4 I(1) t1)
  show "\<forall>r\<in>set recs. \<exists>r'\<in>set recs. ybCidHash D (Cid r') = ybCidHash D (Cid r) \<and>
      tInfos (tab s') (p, ybCidHash D (Cid r)) = Some \<lparr>Offset = Offset r', Size = Size r'\<rparr>"
  proof
    fix r
    assume "r \<in> set recs"
    with I(3) [rule_format, of "ybCidHash D (Cid r)"] show "\<exists>r'\<in>set recs. ybCidHash D (Cid r') = ybCidHash D (Cid r) \<and>
      tInfos (tab s') (p, ybCidHash D (Cid r)) = Some \<lparr>Offset = Offset r', Size = Size r'\<rparr>"
      by (auto simp: t4 I(1))
  qed
  show "\<exists>row. tMeta (tab s') p = Some row \<and> mIndexedAt row = now \<and> mComplete row = full"
    by (auto simp: t4 split: option.split)
  show "\<forall>q m. q \<noteq> p \<longrightarrow> tInfos (tab s') (q, m) = tInfos (tab s) (q, m)"
    using I(2) by (simp add: t4 I(1) t1)
  show "\<forall>q. q \<noteq> p \<longrightarrow> tMeta (tab s') q = tMeta (tab s) q" by (simp add: t4 I(1) t1)
  show "tDeals (tab s') = tDeals (tab s)" by (simp add: t4 I(1) t1)
qed

section \<open>Reading\<close>

lemma pieceRows_ok:
  "\<forall>bz\<in>set rows. ybCidParse D bz = Inr (f bz) \<Longrightarrow> pieceRows D rows pcids = Inr (pcids @ map f rows)"
  by (induction rows arbitrary: pcids) auto

lemma Yb_PiecesContaining_ok:
  assumes ok: "yb_ok D tab"
  shows "(\<exists>cs. Yb_PiecesContainingMultihash D s m = Inr cs \<and> p \<in> set cs) \<longleftrightarrow>
    (trimMultihash m, p) \<in> tMhs (tab s)"
proof -
  obtain rows where rows: "ybPieces D s (trimMultihash m) = (rows, None)"
    "set rows = ybCidBytes D ` {p. (trimMultihash m, p) \<in> tMhs (tab s)}"
    using yb_pieces [OF ok, of s "trimMultihash m"] by (auto simp: rowsOf_def)
  define f where "f bz = (SOME c. ybCidParse D bz = Inr c)" for bz
  have f: "f (ybCidBytes D c) = c" for c by (simp add: f_def yb_parse(1) [OF ok])
  have "pieceRows D rows [] = Inr (map f rows)"
    by (subst pieceRows_ok [of _ _ f]) (auto simp: rows(2) f yb_parse(1) [OF ok])
  moreover have "set (map f rows) = {p. (trimMultihash m, p) \<in> tMhs (tab s)}"
    by (auto simp: rows(2) f image_image)
  ultimately show ?thesis
    using rows(1) by (auto simp: Yb_PiecesContainingMultihash_def)
qed

lemma Yb_GetOffsetSize_ok:
  assumes ok: "yb_ok D tab"
  shows "Yb_GetOffsetSize D s p m = Inr os \<longleftrightarrow> tInfos (tab s) (p, m) = Some os"
  by (cases os) (auto simp: Yb_GetOffsetSize_def yb_offset [OF ok] split: option.split)

lemma Yb_IsIndexed_ok:
  assumes ok: "yb_ok D tab"
  shows "Yb_IsIndexed D s p = Inr (case tMeta (tab s) p of None \<Rightarrow> False | Some r \<Rightarrow> mIndexedAt r \<noteq> 0)"
  using isNotFoundErr_wrapped
  by (auto simp: Yb_IsIndexed_def Yb_IndexedAt_def ybGetPieceMetadata_def yb_meta [OF ok] ybPieceCidError_def
      time_IsZero_def time_zero_def split: option.split)

end
