(* ===== verification/YbDemo.thy ===== *)
theory YbDemo
  imports YbProps "HOL-Library.AList"
begin

text \<open>
  A concrete database for the witnesses: the tables as association lists, every write succeeds, and
  every encoding is the identity. It meets \<open>yb_ok\<close>.
\<close>

record demoDb =
  dbMeta :: "(cid \<times> ybMetaRow) list"
  dbDeals :: "(string \<times> cid \<times> DealInfo) list"
  dbMhs :: "(string \<times> cid) list"
  dbInfos :: "((cid \<times> multihash) \<times> OffsetSize) list"
  dbTracker :: "((address \<times> cid) \<times> time \<times> time) list"
  dbFlagged :: "((address \<times> cid) \<times> ybFlagRow) list"

definition demoTab :: "demoDb \<Rightarrow> ybTables" where
  "demoTab s = \<lparr>tMeta = map_of (dbMeta s), tDeals = map_of (dbDeals s), tMhs = set (dbMhs s),
     tInfos = map_of (dbInfos s), tTracker = map_of (dbTracker s), tFlagged = map_of (dbFlagged s)\<rparr>"

fun demoExec :: "ybStmt \<Rightarrow> demoDb \<Rightarrow> demoDb" where
  "demoExec (InsertMeta p v now) s =
     (if map_of (dbMeta s) p = None
      then s\<lparr>dbMeta := (p, \<lparr>mVersion = v, mIndexedAt = time_zero, mComplete = False, mCreatedAt = now\<rparr>) # dbMeta s\<rparr>
      else s)"
| "demoExec (InsertDeal p dl) s =
     (if map_of (dbDeals s) (DealUuid dl) = None then s\<lparr>dbDeals := (DealUuid dl, p, dl) # dbDeals s\<rparr> else s)"
| "demoExec (InsertMhPiece m p) s = s\<lparr>dbMhs := (m, p) # dbMhs s\<rparr>"
| "demoExec (InsertInfo p m ofs sz) s = s\<lparr>dbInfos := ((p, m), \<lparr>Offset = ofs, Size = sz\<rparr>) # dbInfos s\<rparr>"
| "demoExec (UpdateMeta t c p) s =
     s\<lparr>dbMeta := (p,
       (case map_of (dbMeta s) p of
          None \<Rightarrow> \<lparr>mVersion = [], mIndexedAt = t, mComplete = c, mCreatedAt = time_zero\<rparr>
        | Some r \<Rightarrow> r\<lparr>mIndexedAt := t, mComplete := c\<rparr>)) # dbMeta s\<rparr>"
| "demoExec (DeleteDeal u) s = s\<lparr>dbDeals := AList.delete u (dbDeals s)\<rparr>"
| "demoExec (DeleteMeta p) s = s\<lparr>dbMeta := AList.delete p (dbMeta s)\<rparr>"
| "demoExec (DeleteMhPiece m p) s = s\<lparr>dbMhs := filter (\<lambda>x. x \<noteq> (m, p)) (dbMhs s)\<rparr>"
| "demoExec (DeleteInfo m p) s = s\<lparr>dbInfos := AList.delete (p, m) (dbInfos s)\<rparr>"
| "demoExec (InsertTracker a p c u) s =
     (if map_of (dbTracker s) (a, p) = None then s\<lparr>dbTracker := ((a, p), c, u) # dbTracker s\<rparr> else s)"
| "demoExec (InsertFlag a p c u b) s =
     s\<lparr>dbFlagged := ((a, p),
       (case map_of (dbFlagged s) (a, p) of
          None \<Rightarrow> \<lparr>fCreatedAt = c, fUpdatedAt = u, fHasUnsealedCopy = b\<rparr>
        | Some r \<Rightarrow> r\<lparr>fUpdatedAt := u\<rparr>)) # dbFlagged s\<rparr>"
| "demoExec (DeleteFlag a p) s = s\<lparr>dbFlagged := AList.delete (a, p) (dbFlagged s)\<rparr>"
| "demoExec (DeleteTracker a p) s = s\<lparr>dbTracker := AList.delete (a, p) (dbTracker s)\<rparr>"

lemma demoTab_sel:
  "tMeta (demoTab s) = map_of (dbMeta s)" "tInfos (demoTab s) = map_of (dbInfos s)"
  by (simp_all add: demoTab_def)

lemma demoExec_tab: "demoTab (demoExec st s) = stmtSem st (demoTab s)"
  by (cases st) (auto simp: demoTab_def AList.delete_conv' fun_upd_def split: option.split)

lemma demoBatch_tab: "demoTab (fold demoExec sts s) = fold stmtSem sts (demoTab s)"
  by (induction sts arbitrary: s) (simp_all add: demoExec_tab)

text \<open>The rows of an association list that are in force.\<close>

definition live :: "('k \<times> 'v) list \<Rightarrow> ('k \<times> 'v) list" where
  "live xs = AList.clearjunk xs"

lemma live_set: "(k, v) \<in> set (live xs) \<longleftrightarrow> map_of xs k = Some v"
  unfolding live_def by (metis distinct_clearjunk map_of_clearjunk map_of_eq_Some_iff)

definition dueRows :: "((address \<times> cid) \<times> time \<times> time) list \<Rightarrow> address \<Rightarrow> time \<Rightarrow> (address \<times> cid) list" where
  "dueRows xs a before = map fst (filter (\<lambda>((b, p), c, u). b = a \<and> u < before) (live xs))"

definition demoYb :: "demoDb ybDb" where
  "demoYb =
     \<lparr>ybExec = (\<lambda>s st. (None, demoExec st s)), ybBatch = (\<lambda>s sts. (None, fold demoExec sts s)),
      ybMeta = (\<lambda>s p. case map_of (dbMeta s) p of
        None \<Rightarrow> Inl gocqlErrNotFound | Some r \<Rightarrow> Inr (mVersion r, mIndexedAt r, mComplete r)),
      ybOffset = (\<lambda>s p m. case map_of (dbInfos s) (p, m) of
        None \<Rightarrow> Inl gocqlErrNotFound | Some os \<Rightarrow> Inr (Offset os, Size os)),
      ybDeals = (\<lambda>s p. (remdups (map (\<lambda>(u, q, dl). (dl, MinerAddr dl))
        (filter (\<lambda>(u, q, dl). q = p) (live (dbDeals s)))), None)),
      ybPieces = (\<lambda>s m. (remdups (map snd (filter (\<lambda>x. fst x = m) (dbMhs s))), None)),
      ybIndex = (\<lambda>s p. (remdups (map (\<lambda>((q, m), os). (m, Offset os, Size os))
        (filter (\<lambda>((q, m), os). q = p) (live (dbInfos s)))), None)),
      ybListMeta = (\<lambda>s. (map fst (live (dbMeta s)), None)),
      ybMaxCreated = (\<lambda>s. Inr (let ts = map (\<lambda>(k, c, u). c) (live (dbTracker s)) in
        if ts = [] then None else Some (Max (set ts)))),
      ybMetaSince = (\<lambda>s t. (map (\<lambda>(p, r). (p, mCreatedAt r))
        (filter (\<lambda>(p, r). t \<le> mCreatedAt r) (live (dbMeta s))), None)),
      ybMiners = (\<lambda>s p. (map (\<lambda>(u, q, dl). MinerAddr dl)
        (filter (\<lambda>(u, q, dl). q = p) (live (dbDeals s))), None)),
      ybTrackerCount = (\<lambda>s a. Inr (length (filter (\<lambda>((b, p), _). a = None \<or> a = Some b) (live (dbTracker s))))),
      ybNextBatch = (\<lambda>s a before limit now.
        (let due = take limit (dueRows (dbTracker s) a before) in
         (Inr (map snd due, None),
          s\<lparr>dbTracker := map (\<lambda>(k, c, u). (k, c, if k \<in> set due then now else u)) (live (dbTracker s))\<rparr>))),
      ybScanned = (\<lambda>s a. Inr (length (filter (\<lambda>((b, p), c, u). b = a \<and> 0 < u) (live (dbTracker s))))),
      ybDealCount = (\<lambda>s a. Inr (length (filter (\<lambda>(u, q, dl). MinerAddr dl = a) (live (dbDeals s))))),
      ybMaxUpdated = (\<lambda>s a. Inr (let ts = map (\<lambda>(k, c, u). u) (filter (\<lambda>((b, p), c, u). b = a) (live (dbTracker s)))
        in if ts = [] then None else Some (Max (set ts)))),
      ybCidString = (\<lambda>c. c), ybCidBytes = (\<lambda>c. c), ybCidParse = Inr, ybAddrString = (\<lambda>a. a),
      ybAddrParse = Inr, ybMhString = (\<lambda>m. m), ybMhFromBytes = Inr, ybCidHash = (\<lambda>c. c),
      ybCidV1Raw = (\<lambda>m. m)\<rparr>"

lemma demoYb_ok: "yb_ok demoYb demoTab"
  unfolding yb_ok_def
proof (intro conjI allI impI)
  fix s p
  have "rowsOf (fst (ybDeals demoYb s p))
      {(dl, ybAddrString demoYb (MinerAddr dl)) | dl u. tDeals (demoTab s) u = Some (p, dl)}"
    by (force simp: demoYb_def rowsOf_def demoTab_def live_set image_iff)
  then show "\<exists>rows. ybDeals demoYb s p = (rows, None) \<and> rowsOf rows
      {(dl, ybAddrString demoYb (MinerAddr dl)) | dl u. tDeals (demoTab s) u = Some (p, dl)}"
    by (simp add: demoYb_def)
  have "rowsOf (fst (ybIndex demoYb s p)) {(m, Offset os, Size os) | m os. tInfos (demoTab s) (p, m) = Some os}"
    by (force simp: demoYb_def rowsOf_def demoTab_def live_set image_iff)
  then show "\<exists>rows. ybIndex demoYb s p = (rows, None) \<and>
      rowsOf rows {(m, Offset os, Size os) | m os. tInfos (demoTab s) (p, m) = Some os}"
    by (simp add: demoYb_def)
next
  fix s m
  have "rowsOf (fst (ybPieces demoYb s m)) (ybCidBytes demoYb ` {p. (m, p) \<in> tMhs (demoTab s)})"
    by (force simp: demoYb_def rowsOf_def demoTab_def)
  then show "\<exists>rows. ybPieces demoYb s m = (rows, None) \<and>
      rowsOf rows (ybCidBytes demoYb ` {p. (m, p) \<in> tMhs (demoTab s)})"
    by (simp add: demoYb_def)
qed (simp_all add: demoYb_def demoExec_tab demoBatch_tab demoTab_sel split: option.split)

end
