(* ===== verification/YbIndex.thy ===== *)
theory YbIndex
  imports YbDemo
begin

text \<open>
  The properties of the index of the YugabyteDB store: what adding an index and removing a deal do,
  the bounds on batches and goroutines, and the progress values.
\<close>

section \<open>Removal\<close>

definition infoHashes :: "ybTables \<Rightarrow> cid \<Rightarrow> multihash set" where
  "infoHashes T p = {m. tInfos T (p, m) \<noteq> None}"

lemma removeRecords_err: "removeRecords D p w s recs (Some e) = (err, s') \<Longrightarrow> err \<noteq> None"
proof (induction recs arbitrary: w s e)
  case (Cons r recs)
  then show ?case by (auto simp: Let_def split: if_splits option.splits prod.splits)
qed auto

lemma removeRecords_ok:
  assumes ok: "yb_ok D tab" and w: "0 < w" and "removeRecords D p w s recs None = (None, s')"
  defines "H \<equiv> (\<lambda>r. ybCidHash D (recCid r)) ` set recs"
  shows "tab s' = (tab s)\<lparr>tMhs := tMhs (tab s) - {(trimMultihash m, p) | m. m \<in> H},
    tInfos := (\<lambda>(q, m). if q = p \<and> m \<in> H then None else tInfos (tab s) (q, m))\<rparr>"
  using assms(3) unfolding H_def
proof (induction recs arbitrary: s)
  case (Cons r recs)
  let ?m = "ybCidHash D (recCid r)"
  obtain e1 s1 where 1: "ybExec D s (DeleteMhPiece (trimMultihash ?m) p) = (e1, s1)" by (rule prod.exhaust)
  obtain e2 s2 where 2: "ybExec D s1 (DeleteInfo ?m p) = (e2, s2)" by (rule prod.exhaust)
  have "e1 = None"
  proof (cases e1)
    case (Some e)
    with 1 w Cons.prems show ?thesis by (auto simp: Let_def dest: removeRecords_err)
  qed
  moreover have "e2 = None"
  proof (cases e2)
    case (Some e)
    with 1 2 \<open>e1 = None\<close> w Cons.prems show ?thesis by (auto simp: Let_def dest: removeRecords_err)
  qed
  ultimately have "removeRecords D p w s2 recs None = (None, s')" using 1 2 w Cons.prems by (simp add: Let_def)
  note IH = Cons.IH [OF this]
  have "tab s2 = stmtSem (DeleteInfo ?m p) (stmtSem (DeleteMhPiece (trimMultihash ?m) p) (tab s))"
    using yb_exec [OF ok] 1 2 \<open>e1 = None\<close> \<open>e2 = None\<close> by metis
  then show ?case
    unfolding IH by (auto intro!: ybTables.equality simp: fun_eq_iff)
qed (auto intro!: ybTables.equality simp: fun_eq_iff)

lemma indexRows_ok:
  assumes "yb_ok D tab"
  shows "map (\<lambda>r. ybCidHash D (recCid r)) (indexRows D rows None) = map fst rows"
  by (induction rows) (auto simp: yb_parse [OF assms] recCid_def)

lemma RemoveIndexes_ok:
  assumes ok: "yb_ok D tab" and w: "0 < PayloadPiecesParallelism cfg"
    and r: "Yb_RemoveIndexes D cfg s p = Some (None, s')"
  shows "tab s' = (tab s)\<lparr>tMhs := tMhs (tab s) - {(trimMultihash m, p) | m. m \<in> infoHashes (tab s) p},
    tInfos := (\<lambda>(q, m). if q = p then None else tInfos (tab s) (q, m))\<rparr>"
proof -
  obtain rows where rows: "ybIndex D s p = (rows, None)"
    "set rows = {(m, Offset os, Size os) | m os. tInfos (tab s) (p, m) = Some os}"
    using yb_index [OF ok, of s p] by (auto simp: rowsOf_def)
  have recs: "removeRecords D p (PayloadPiecesParallelism cfg) s (indexRows D rows None) None = (None, s')"
    using r rows(1) by (auto simp: Yb_RemoveIndexes_def Yb_GetIndex_def Let_def split: sum.splits if_splits)
  have H: "(\<lambda>r. ybCidHash D (recCid r)) ` set (indexRows D rows None) = infoHashes (tab s) p"
  proof -
    have "fst ` set rows = infoHashes (tab s) p" by (force simp: rows(2) infoHashes_def image_iff)
    then show ?thesis using indexRows_ok [OF ok, of rows] by (metis set_map)
  qed
  from removeRecords_ok [OF ok w recs] show ?thesis
    unfolding H by (auto intro!: ybTables.equality simp: fun_eq_iff infoHashes_def)
qed

lemma dealRows_ok:
  assumes "\<forall>(dl, a)\<in>set rows. ybAddrParse D a = Inr (MinerAddr dl)"
  shows "dealRows D p rows deals = Inr (deals @ map fst rows)"
  using assms by (induction rows arbitrary: deals) (auto split: prod.splits)

lemma Yb_GetPieceDeals_ok:
  assumes ok: "yb_ok D tab" and r: "Yb_GetPieceDeals D s p = Inr dls"
  shows "set dls = {dl. \<exists>u. tDeals (tab s) u = Some (p, dl)}"
proof -
  obtain rows where rows: "ybDeals D s p = (rows, None)"
    "set rows = {(dl, ybAddrString D (MinerAddr dl)) | dl u. tDeals (tab s) u = Some (p, dl)}"
    using yb_deals [OF ok, of s p] by (auto simp: rowsOf_def)
  have "dealRows D p rows [] = Inr ([] @ map fst rows)"
    by (rule dealRows_ok) (auto simp: rows(2) yb_parse [OF ok])
  with r rows(1) have "dls = map fst rows"
    by (auto simp: Yb_GetPieceDeals_def split: sum.splits if_splits)
  then show ?thesis by (force simp: rows(2))
qed

section \<open>Properties\<close>

lemma updateAll_no_err:
  "\<forall>x\<in>set (fst st). Err x = [] \<Longrightarrow> \<forall>x\<in>set (fst (updateAll ch n prgs st)). Err x = []"
proof (induction prgs arbitrary: n st)
  case (Cons prg prgs)
  have "\<forall>x\<in>set (fst (updateProgress (ycRecent ch n) (ycRoom ch n) prg st)). Err x = []"
    using Cons.prems by (cases st) (auto simp: sendProgress_def)
  from Cons.IH [OF this] show ?case by simp
qed simp

lemma Yb_AddIndex_reports:
  assumes r: "Yb_AddIndex D cfg sched sched' ch s created now p recs full = Some (Some e, sent, s')"
  shows "if ycEnd ch then last sent = sendErr e else \<forall>x\<in>set sent. Err x = []"
proof -
  obtain prgs where "sent = completeProgress (ycEnd ch) (Some e) (updateAll ch 0 prgs ([sendProgress 0], None))"
    using r by (auto simp: Yb_AddIndex_def split: if_splits option.splits)
  moreover have "\<forall>x\<in>set (fst (updateAll ch 0 prgs ([sendProgress 0], None))). Err x = []"
    by (rule updateAll_no_err) (simp add: sendProgress_def)
  ultimately show ?thesis by (simp add: completeProgress_def split: prod.splits)
qed

text \<open>
  C14: An index that was added is found: when \<open>AddIndex\<close> of at least one record ends without an error, in
  whatever order the goroutines wrote their batches, the piece is marked as indexed with the given completeness,
  every block is found with an offset and size given for its multihash, and the piece is listed for every
  multihash with the same last 24 bytes. Other pieces keep their entries. An empty list is reported as done
  and changes nothing, so that the piece stays unindexed. An error is the last value on the channel when the
  channel has room within five seconds; otherwise it is lost, and no value that the caller gets is an error.
\<close>

theorem yb_add_index_found:
  assumes ok: "yb_ok D tab" and t: "now \<noteq> 0"
    and r: "Yb_AddIndex D cfg sched sched' ch s created now p recs full = Some (err, sent, s')"
  shows "(recs = [] \<longrightarrow> err = None \<and> sent = [sendProgress 1] \<and> s' = s) \<and>
    (recs \<noteq> [] \<and> err = None \<longrightarrow> Yb_IsIndexed D s' p = Inr True \<and> Yb_IsCompleteIndex D s' p = Inr full \<and>
      (\<forall>r\<in>set recs. (\<exists>r'\<in>set recs. ybCidHash D (Cid r') = ybCidHash D (Cid r) \<and>
          Yb_GetOffsetSize D s' p (ybCidHash D (Cid r)) = Inr \<lparr>Offset = Offset r', Size = Size r'\<rparr>) \<and>
        (\<forall>m. trimMultihash m = trimMultihash (ybCidHash D (Cid r)) \<longrightarrow>
          (\<exists>cs. Yb_PiecesContainingMultihash D s' m = Inr cs \<and> p \<in> set cs))) \<and>
      (\<forall>q m os. q \<noteq> p \<longrightarrow> Yb_GetOffsetSize D s' q m = Inr os \<longleftrightarrow> Yb_GetOffsetSize D s q m = Inr os)) \<and>
    (\<forall>e. err = Some e \<longrightarrow> (if ycEnd ch then last sent = sendErr e else \<forall>x\<in>set sent. Err x = []))"
proof (intro conjI impI allI)
  assume "recs = []"
  with r show "err = None" "sent = [sendProgress 1]" "s' = s" by (simp_all add: Yb_AddIndex_def)
next
  fix e
  assume "err = Some e"
  with r have "Yb_AddIndex D cfg sched sched' ch s created now p recs full = Some (Some e, sent, s')" by simp
  from Yb_AddIndex_reports [OF this] show "if ycEnd ch then last sent = sendErr e else \<forall>x\<in>set sent. Err x = []" .
next
  assume c: "recs \<noteq> [] \<and> err = None"
  with r have "Yb_AddIndex D cfg sched sched' ch s created now p recs full = Some (None, sent, s')" by simp
  note a = Yb_AddIndex_ok [OF ok conjunct1 [OF c] this]
  obtain row where row: "tMeta (tab s') p = Some row" "mIndexedAt row = now" "mComplete row = full"
    using a(3) by blast
  then show "Yb_IsIndexed D s' p = Inr True" "Yb_IsCompleteIndex D s' p = Inr full"
    using t by (simp_all add: Yb_IsIndexed_ok [OF ok] Yb_IsCompleteIndex_def ybGetPieceMetadata_def yb_meta [OF ok])
  show "\<forall>r\<in>set recs. (\<exists>r'\<in>set recs. ybCidHash D (Cid r') = ybCidHash D (Cid r) \<and>
      Yb_GetOffsetSize D s' p (ybCidHash D (Cid r)) = Inr \<lparr>Offset = Offset r', Size = Size r'\<rparr>) \<and>
    (\<forall>m. trimMultihash m = trimMultihash (ybCidHash D (Cid r)) \<longrightarrow>
      (\<exists>cs. Yb_PiecesContainingMultihash D s' m = Inr cs \<and> p \<in> set cs))"
    using a(1,2) by (auto simp: Yb_GetOffsetSize_ok [OF ok] Yb_PiecesContaining_ok [OF ok])
  fix q m os
  assume "q \<noteq> p"
  with a(4) show "Yb_GetOffsetSize D s' q m = Inr os \<longleftrightarrow> Yb_GetOffsetSize D s q m = Inr os"
    by (simp add: Yb_GetOffsetSize_ok [OF ok])
qed

definition demoRec :: IndexedBlock where
  "demoRec = \<lparr>Offset = 7, Size = 300, Cid = ''blk''\<rparr>"

definition demoCfg :: ybSettings where
  "demoCfg = ybNewSettings \<lparr>PayloadPiecesParallelism = 0, InsertBatchSize = 0, InsertConcurrency = 0\<rparr>"

definition demoChan :: ybChan where
  "demoChan = \<lparr>ycRecent = (\<lambda>_. True), ycRoom = (\<lambda>_. False), ycEnd = True\<rparr>"

definition demoDb0 :: demoDb where
  "demoDb0 = \<lparr>dbMeta = [], dbDeals = [], dbMhs = [], dbInfos = [], dbTracker = [], dbFlagged = []\<rparr>"

lemma demo_add_index:
  "\<exists>ps s'. Yb_AddIndex demoYb demoCfg [0] [0] demoChan demoDb0 3 5 ''p'' [demoRec] True = Some (None, ps, s')"
proof -
  have gs: "ybGoroutines demoCfg stmt [demoRec] =
      [[([stmt demoRec], [batchProgress 1 1 1])]]" for stmt :: "IndexedBlock \<Rightarrow> ybStmt"
    by (simp add: ybGoroutines_def ybThreadBatch_def demoCfg_def ybNewSettings_def splitParts.simps Let_def)
  show ?thesis
    by (simp add: Yb_AddIndex_def ybAddIndexRun_def ybAddMultihashesToPieces_def ybAddPieceInfos_def gs demoYb_def Let_def
        ybCreatePieceMetadata_def split: prod.split option.split)
qed

theorem yb_add_index_found_witness:
  "\<exists>s'. Yb_IsIndexed demoYb s' ''p'' = Inr True \<and>
    Yb_GetOffsetSize demoYb s' ''p'' ''blk'' = Inr \<lparr>Offset = 7, Size = 300\<rparr>"
proof -
  obtain ps s' where r: "Yb_AddIndex demoYb demoCfg [0] [0] demoChan demoDb0 3 5 ''p'' [demoRec] True = Some (None, ps, s')"
    using demo_add_index by blast
  have "ybCidHash demoYb c = c" for c by (simp add: demoYb_def)
  with yb_add_index_found [OF demoYb_ok _ r] show ?thesis
    by (auto simp: demoRec_def)
qed

text \<open>
  C15: Removing the last deal of a piece takes the piece with it: its metadata, its offsets and its
  listings go, the rest of the tables stays. While a deal of the piece remains only the deal row goes.
  The row goes by its UUID alone, also when the deal belongs to another piece.
\<close>

theorem yb_remove_last_deal:
  fixes tab :: "'s \<Rightarrow> ybTables" and s :: 's and dealId :: string
  assumes ok: "yb_ok D tab" and w: "0 < PayloadPiecesParallelism cfg"
    and r: "Yb_RemoveDealForPiece D cfg s p dealId = Some (None, s')"
  defines "T \<equiv> (tab s)\<lparr>tDeals := (tDeals (tab s))(dealId := None)\<rparr>"
  shows "if \<exists>u dl. tDeals T u = Some (p, dl) then tab s' = T
    else tab s' = T\<lparr>tMeta := (tMeta T)(p := None),
      tMhs := tMhs T - {(trimMultihash m, p) | m. m \<in> infoHashes T p},
      tInfos := (\<lambda>(q, m). if q = p then None else tInfos T (q, m))\<rparr>"
proof -
  obtain e s1 where 1: "ybExec D s (DeleteDeal dealId) = (e, s1)" by (rule prod.exhaust)
  with r have e: "e = None" by (auto simp: Yb_RemoveDealForPiece_def split: option.splits)
  with 1 have T: "tab s1 = T" using yb_exec [OF ok] by (simp add: T_def)
  from r 1 e obtain dls where d: "Yb_GetPieceDeals D s1 p = Inr dls"
    by (auto simp: Yb_RemoveDealForPiece_def split: sum.splits)
  have dls: "set dls = {dl. \<exists>u. tDeals T u = Some (p, dl)}" using Yb_GetPieceDeals_ok [OF ok d] by (simp add: T)
  show ?thesis
  proof (cases "dls = []")
    case False
    then have "hd dls \<in> set dls" by simp
    then have "\<exists>u dl. tDeals T u = Some (p, dl)" unfolding dls by blast
    moreover have "s' = s1" using r 1 e d False by (simp add: Yb_RemoveDealForPiece_def)
    ultimately show ?thesis using T by simp
  next
    case True
    then have "\<not> (\<exists>u dl. tDeals T u = Some (p, dl))" using dls by auto
    moreover obtain s2 where ri: "Yb_RemoveIndexes D cfg s1 p = Some (None, s2)"
      and rm: "Yb_RemovePieceMetadata D s2 p = (None, s')"
      using r 1 e d True by (auto simp: Yb_RemoveDealForPiece_def split: option.splits prod.splits)
    have "tab s' = stmtSem (DeleteMeta p) (tab s2)"
      using rm yb_exec [OF ok] by (auto simp: Yb_RemovePieceMetadata_def split: prod.splits option.splits)
    with RemoveIndexes_ok [OF ok w ri, unfolded T] have "tab s' = T\<lparr>tMeta := (tMeta T)(p := None),
      tMhs := tMhs T - {(trimMultihash m, p) | m. m \<in> infoHashes T p},
      tInfos := (\<lambda>(q, m). if q = p then None else tInfos T (q, m))\<rparr>" by simp
    ultimately show ?thesis by simp
  qed
qed

definition demoYbDeal :: DealInfo where
  "demoYbDeal = \<lparr>DealUuid = ''u'', IsLegacy = False, ChainDealID = 1, MinerAddr = ''m'', SectorID = 1,
    PieceOffset = 0, PieceLength = 0, CarLength = 0, IsDirectDeal = False\<rparr>"

definition demoDb1 :: demoDb where
  "demoDb1 = fold demoExec [InsertMeta ''p'' ''1'' 3, InsertDeal ''p'' demoYbDeal, InsertMhPiece ''blk'' ''p'',
    InsertInfo ''p'' ''blk'' 7 300] demoDb0"

theorem yb_remove_last_deal_witness:
  "\<exists>s'. Yb_RemoveDealForPiece demoYb demoCfg demoDb1 ''p'' ''u'' = Some (None, s') \<and>
    tMeta (demoTab s') ''p'' = None \<and> tInfos (demoTab s') (''p'', ''blk'') = None"
proof -
  have ex: "\<exists>s'. Yb_RemoveDealForPiece demoYb demoCfg demoDb1 ''p'' ''u'' = Some (None, s')"
    by (simp add: Yb_RemoveDealForPiece_def Yb_GetPieceDeals_def Yb_RemoveIndexes_def Yb_GetIndex_def
        Yb_RemovePieceMetadata_def ybGetPieceMetadata_def demoDb1_def demoDb0_def demoYb_def demoYbDeal_def
        live_def demoCfg_def ybNewSettings_def recCid_def Let_def)
  then obtain s' where r: "Yb_RemoveDealForPiece demoYb demoCfg demoDb1 ''p'' ''u'' = Some (None, s')" by blast
  have "0 < PayloadPiecesParallelism demoCfg" by (simp add: demoCfg_def ybNewSettings_def)
  from yb_remove_last_deal [OF demoYb_ok this r] have "tMeta (demoTab s') ''p'' = None"
    "tInfos (demoTab s') (''p'', ''blk'') = None"
    by (auto simp: demoDb1_def demoDb0_def demoTab_def demoYbDeal_def split: if_splits)
  with r show ?thesis by blast
qed

lemma split_bound:
  fixes q c r :: nat
  assumes "r < c" and "0 < q"
  shows "q * c + r + q - 1 < 2 * c * q"
proof -
  obtain k where k: "q = Suc k" using assms(2) by (cases q) auto
  have "k \<le> k * c" using assms(1) by (cases c) auto
  with assms(1) have "r + k < c + k * c" by linarith
  then show ?thesis unfolding k by (simp add: algebra_simps)
qed

text \<open>
  Batching loses, repeats and reorders nothing within the parts: the batches of all goroutines put
  together are the records in their order, no batch is empty or larger than the configured size, and
  there are fewer than twice as many goroutines as the configured concurrency.
\<close>

theorem yb_batches:
  assumes "recs \<noteq> []" and "0 < InsertBatchSize cfg" and "0 < InsertConcurrency cfg"
  shows "gsStmts (ybGoroutines cfg stmt recs) = map stmt recs \<and>
    (\<forall>g\<in>set (ybGoroutines cfg stmt recs). \<forall>(b, ps)\<in>set g. b \<noteq> [] \<and> length b \<le> InsertBatchSize cfg) \<and>
    length (ybGoroutines cfg stmt recs) < 2 * InsertConcurrency cfg"
proof -
  let ?n = "length recs" and ?c = "InsertConcurrency cfg"
  have "length (ybGoroutines cfg stmt recs) = (?n + ybThreadBatch cfg recs - 1) div ybThreadBatch cfg recs"
    using length_splitParts [OF ybThreadBatch_pos [OF assms(1)], of cfg recs]
    by (simp add: ybGoroutines_def Let_def)
  also have "\<dots> < 2 * ?c"
  proof (cases "?n div ?c = 0")
    case True
    have "(?n + ?n - 1) div ?n < 2" using assms(1) by (cases recs) (auto simp: div_less_iff_less_mult)
    with True assms(3) show ?thesis by (simp add: ybThreadBatch_def)
  next
    case False
    let ?q = "?n div ?c"
    have "?q * ?c + ?n mod ?c + ?q - 1 < 2 * ?c * ?q" using assms(3) False by (intro split_bound) auto
    then have "?n + ?q - 1 < 2 * ?c * ?q" by (simp only: div_mult_mod_eq)
    then show ?thesis using False by (simp add: ybThreadBatch_def Let_def div_less_iff_less_mult)
  qed
  finally have "length (ybGoroutines cfg stmt recs) < 2 * ?c" .
  moreover have "b \<noteq> [] \<and> length b \<le> InsertBatchSize cfg"
    if "g \<in> set (ybGoroutines cfg stmt recs)" "(b, ps) \<in> set g" for g b ps
    using that batchLoop_size [OF assms(2), of "[]"] assms(2)
    by (fastforce simp: ybGoroutines_def Let_def)
  ultimately show ?thesis using gsStmts_all [OF assms(1)] by blast
qed

theorem yb_batches_witness:
  "length (ybGoroutines \<lparr>PayloadPiecesParallelism = 1, InsertBatchSize = 2, InsertConcurrency = 4\<rparr>
    (\<lambda>m. InsertMhPiece m ''p'') [''a'', ''b'', ''c'', ''d'', ''e'', ''f'', ''g'']) < 8"
  using yb_batches [of "[''a'', ''b'', ''c'', ''d'', ''e'', ''f'', ''g'']"
      "\<lparr>PayloadPiecesParallelism = 1, InsertBatchSize = 2, InsertConcurrency = 4\<rparr>" "\<lambda>m. InsertMhPiece m ''p''"]
  by simp

text \<open>
  The progress of an insert ends above 1: the last value that the first goroutine reports is always
  greater than 1 and at most 2, because the number of goroutines is taken as one more than the quotient.
  With a single part it is 2, so \<open>AddIndex\<close> reports 0.9 and then 1.35.
\<close>

theorem yb_progress_exceeds_one:
  fixes cfg :: ybSettings and stmt :: "'a \<Rightarrow> ybStmt"
  assumes "recs \<noteq> []"
  defines "g \<equiv> hd (ybGoroutines cfg stmt recs)"
  shows "g \<noteq> [] \<and> (\<exists>x. snd (last g) = [x] \<and> 1 < x \<and> x \<le> 2)"
proof -
  let ?tb = "ybThreadBatch cfg recs" and ?n = "length recs"
  have tb: "0 < ?tb" "?tb \<le> ?n"
    using ybThreadBatch_pos [OF assms(1)] by (auto simp: ybThreadBatch_def Let_def)
  have "splitParts ?tb recs = take ?tb recs # splitParts ?tb (drop ?tb recs)"
    using assms(1) tb by (subst splitParts.simps) simp
  then obtain parts where parts: "splitParts ?tb recs = take ?tb recs # parts" by blast
  let ?bl = "batchLoop (InsertBatchSize cfg) ?tb 0 [] (take ?tb recs)"
  have g: "g = map (\<lambda>(b, k). (map stmt b, [batchProgress ?n ?tb k])) ?bl"
    using tb by (simp add: g_def ybGoroutines_def Let_def parts upt_conv_Cons del: upt_Suc)
  have bl: "?bl \<noteq> [] \<and> snd (last ?bl) = ?tb"
    using tb assms(1) by (intro batchLoop_last) auto
  then have last: "snd (last g) = [batchProgress ?n ?tb ?tb]"
    by (simp add: g last_map split_def)
  have "?n < (?n div ?tb + 1) * ?tb"
    using tb(1) by (metis Suc_eq_plus1 dividend_less_div_times mult_Suc)
  then have "(of_nat ?n :: rat) < of_nat ((?n div ?tb + 1) * ?tb)" by (simp only: of_nat_less_iff)
  then have "1 < batchProgress ?n ?tb ?tb"
    using assms(1) by (simp add: batchProgress_def less_divide_eq algebra_simps)
  moreover have "(?n div ?tb + 1) * ?tb \<le> 2 * ?n"
  proof -
    have "?n div ?tb * ?tb \<le> ?n" by simp
    with tb(2) show ?thesis unfolding distrib_right by linarith
  qed
  then have "(of_nat ((?n div ?tb + 1) * ?tb) :: rat) \<le> of_nat (2 * ?n)" by (simp only: of_nat_le_iff)
  then have "batchProgress ?n ?tb ?tb \<le> 2"
    using assms(1) by (simp add: batchProgress_def divide_le_eq algebra_simps)
  ultimately show ?thesis using bl last g by simp
qed

theorem yb_progress_exceeds_one_witness:
  "\<exists>x. snd (last (hd (ybGoroutines demoCfg (\<lambda>m. InsertMhPiece m ''p'') [''a'']))) = [x] \<and> 1 < x"
  using yb_progress_exceeds_one [of "[''a'']" demoCfg "\<lambda>m. InsertMhPiece m ''p''"] by auto

end
