(* ===== verification/YbDoctor.thy ===== *)
theory YbDoctor
  imports YbIndex
begin

text \<open>
  The part of the YugabyteDB store that serves the piece doctor (\<open>boostd-data/yugabyte/piecedoctor.go\<close>):
  the tracker of checked pieces and the table of flagged pieces, both in postgres. \<open>yb_pg_ok\<close> is the
  documented behaviour of its queries.
\<close>

text \<open>\<open>time.UnixMilli(0)\<close>, in nanoseconds since the zero time.\<close>

definition unixEpoch :: time where
  "unixEpoch = 62135596800000000000"

definition TrackerCheckBatchSize :: nat where
  "TrackerCheckBatchSize = 1024"

definition insertTrackerParallelism :: nat where
  "insertTrackerParallelism = 16"

record pieceCreated =
  pcMinerAddr :: address
  pcPieceCid :: cid
  pcCreatedAt :: time

text \<open>
  \<open>execWithConcurrency\<close>: workers take items from a queue; one that fails exits, the first error is the
  result, and what no worker is left for is not executed.
\<close>

fun execWithConcurrency ::
  "nat \<Rightarrow> ('s \<Rightarrow> 'a \<Rightarrow> goerr option \<times> 's) \<Rightarrow> 's \<Rightarrow> 'a list \<Rightarrow> goerr option \<Rightarrow> goerr option \<times> 's" where
  "execWithConcurrency workers ex s [] err = (err, s)"
| "execWithConcurrency workers ex s (x # xs) err =
     (if workers = 0 then (err, s)
      else case ex s x of
          (None, s') \<Rightarrow> execWithConcurrency workers ex s' xs err
        | (Some e, s') \<Rightarrow>
            execWithConcurrency (workers - 1) ex s' xs (case err of None \<Rightarrow> Some e | Some _ \<Rightarrow> err))"

section \<open>Tracking\<close>

text \<open>
  The scan of the new pieces. The variable \<open>createdAt\<close> is shared by all rows: it holds that of the row
  scanned last when the loop ends.
\<close>

fun newPieceRows ::
  "'s ybDb \<Rightarrow> (string \<times> time) list \<Rightarrow> pieceCreated list \<Rightarrow> time \<Rightarrow> goerr + pieceCreated list \<times> time" where
  "newPieceRows D [] pcs createdAt = Inr (pcs, createdAt)"
| "newPieceRows D ((pcidstr, t) # rows) pcs createdAt =
     (case ybCidParse D pcidstr of
        Inl err \<Rightarrow> Inl (errorf_w (''getting new pieces: parsing piece cid '' @ pcidstr @ '': '') err)
      | Inr c \<Rightarrow> newPieceRows D rows (pcs @ [\<lparr>pcMinerAddr = [], pcPieceCid = c, pcCreatedAt = t\<rparr>]) t)"

fun minerRows :: "'s ybDb \<Rightarrow> cid \<Rightarrow> time \<Rightarrow> string list \<Rightarrow> pieceCreated list \<Rightarrow> goerr option \<times> pieceCreated list" where
  "minerRows D p createdAt [] acc = (None, acc)"
| "minerRows D p createdAt (m # rows) acc =
     (case ybAddrParse D m of
        Inl err \<Rightarrow>
          (Some (errorf_w (''getting miners for pieces: parsing miner address '' @ [CHR 0x27] @ m @ [CHR 0x27] @ '': '') err), acc)
      | Inr a \<Rightarrow>
          minerRows D p createdAt rows (acc @ [\<lparr>pcMinerAddr = a, pcPieceCid = p, pcCreatedAt = createdAt\<rparr>]))"

definition minersOfPiece ::
  "'s ybDb \<Rightarrow> 's \<Rightarrow> time \<Rightarrow> pieceCreated list \<Rightarrow> pieceCreated \<Rightarrow> goerr option \<times> pieceCreated list" where
  "minersOfPiece D s createdAt acc pc =
     (case ybMiners D s (pcPieceCid pc) of
        (rows, close) \<Rightarrow>
          (case minerRows D (pcPieceCid pc) createdAt rows acc of
             (Some err, acc') \<Rightarrow> (Some err, acc')
           | (None, acc') \<Rightarrow>
               (case close of
                  Some err \<Rightarrow> (Some (errorf_w ''getting miners for pieces: '' err), acc')
                | None \<Rightarrow> (None, acc'))))"

definition insertTracked :: "'s ybDb \<Rightarrow> 's \<Rightarrow> pieceCreated \<Rightarrow> goerr option \<times> 's" where
  "insertTracked D s pc =
     (case ybExec D s (InsertTracker (pcMinerAddr pc) (pcPieceCid pc) (pcCreatedAt pc) unixEpoch) of
        (Some err, s') \<Rightarrow> (Some (errorf_w ''inserting row into piece tracker: '' err), s')
      | (None, s') \<Rightarrow> (None, s'))"

text \<open>
  The check period: \<open>time.Duration\<close> is an \<open>int64\<close> of nanoseconds, so the product wraps around.
\<close>

definition MinPieceCheckPeriod :: int where
  "MinPieceCheckPeriod = 5 * minute"

definition checkPeriod :: "nat \<Rightarrow> int" where
  "checkPeriod rows =
     (let period = sint ((of_nat (rows * 100) * 1000000) :: 64 word) in
      if period < MinPieceCheckPeriod then MinPieceCheckPeriod else period)"

definition ybGetPieceCheckPeriod :: "'s ybDb \<Rightarrow> 's \<Rightarrow> goerr + int" where
  "ybGetPieceCheckPeriod D s =
     (case ybTrackerCount D s None of
        Inl err \<Rightarrow> Inl (errorf_w ''getting count of rows in piece tracker: '' err)
      | Inr n \<Rightarrow> Inr (checkPeriod n))"

definition copyNewPieces :: "'s ybDb \<Rightarrow> 's \<Rightarrow> goerr option \<times> 's" where
  "copyNewPieces D s =
     (case ybMaxCreated D s of
        Inl err \<Rightarrow> (Some (errorf_w ''getting time piece tracker was last updated: '' err), s)
      | Inr res \<Rightarrow>
          let lastCopied = (case res of None \<Rightarrow> unixEpoch | Some t \<Rightarrow> t) in
          (case ybMetaSince D s lastCopied of
             (rows, close) \<Rightarrow>
               (case newPieceRows D rows [] time_zero of
                  Inl err \<Rightarrow> (Some err, s)
                | Inr (newPieces, createdAt) \<Rightarrow>
                    (case close of
                       Some err \<Rightarrow> (Some (errorf_w ''getting new pieces: '' err), s)
                     | None \<Rightarrow>
                         (case execWithConcurrency insertTrackerParallelism (minersOfPiece D s createdAt) []
                                 newPieces None of
                            (Some err, _) \<Rightarrow> (Some err, s)
                          | (None, tracked) \<Rightarrow>
                              execWithConcurrency insertTrackerParallelism (insertTracked D) s tracked None)))))"

fun trackerRows :: "'s ybDb \<Rightarrow> string list \<Rightarrow> cid list \<Rightarrow> goerr + cid list" where
  "trackerRows D [] pcids = Inr pcids"
| "trackerRows D (pcid # rows) pcids =
     (case ybCidParse D pcid of
        Inl err \<Rightarrow> Inl (errorf_w (''parsing tracker piece cid '' @ pcid @ '' as cid: '') err)
      | Inr c \<Rightarrow> trackerRows D rows (pcids @ [c]))"

definition Yb_NextPiecesToCheck :: "'s ybDb \<Rightarrow> 's \<Rightarrow> time \<Rightarrow> address \<Rightarrow> (goerr + cid list) \<times> 's" where
  "Yb_NextPiecesToCheck D s now a =
     (case copyNewPieces D s of
        (Some err, s1) \<Rightarrow> (Inl err, s1)
      | (None, s1) \<Rightarrow>
          (case ybGetPieceCheckPeriod D s1 of
             Inl err \<Rightarrow> (Inl (errorf_w ''getting piece check period: '' err), s1)
           | Inr period \<Rightarrow>
               (case ybNextBatch D s1 a (now - period) TrackerCheckBatchSize now of
                  (Inl err, s2) \<Rightarrow> (Inl (errorf_w ''getting pieces from piece tracker: '' err), s2)
                | (Inr (rows, close), s2) \<Rightarrow>
                    (case trackerRows D rows [] of
                       Inl err \<Rightarrow> (Inl err, s2)
                     | Inr pcids \<Rightarrow>
                         (case close of
                            Some err \<Rightarrow> (Inl (errorf_w ''getting pieces to check: '' err), s2)
                          | None \<Rightarrow> (Inr pcids, s2))))))"

definition Yb_PiecesCount :: "'s ybDb \<Rightarrow> 's \<Rightarrow> address \<Rightarrow> goerr + nat" where
  "Yb_PiecesCount D s a =
     (case ybTrackerCount D s (Some a) of
        Inl err \<Rightarrow> Inl (errorf_w ''getting pieces count: '' err) | Inr n \<Rightarrow> Inr n)"

definition Yb_ScanProgress :: "'s ybDb \<Rightarrow> 's \<Rightarrow> address \<Rightarrow> goerr + ScanProgressResult" where
  "Yb_ScanProgress D s a =
     (case ybScanned D s a of
        Inl err \<Rightarrow> Inl (errorf_w ''getting scanned pieces count: '' err)
      | Inr scanned \<Rightarrow>
          (case ybDealCount D s a of
             Inl err \<Rightarrow> Inl (errorf_w ''getting total pieces count: '' err)
           | Inr tot \<Rightarrow>
               (case ybMaxUpdated D s a of
                  Inl err \<Rightarrow> Inl (errorf_w ''getting time piece tracker was last scanned: '' err)
                | Inr lastScan \<Rightarrow>
                    let progress = (if tot \<noteq> 0 then of_nat scanned / of_nat tot else 1) in
                    Inr \<lparr>scProgress = (if 95 / 100 < progress then 1 else progress),
                      LastScan = (case lastScan of None \<Rightarrow> time_zero | Some t \<Rightarrow> t)\<rparr>)))"

definition Yb_UntrackPiece :: "'s ybDb \<Rightarrow> 's \<Rightarrow> cid \<Rightarrow> address \<Rightarrow> goerr option \<times> 's" where
  "Yb_UntrackPiece D s p a =
     (case ybExec D s (DeleteTracker a p) of
        (Some err, s') \<Rightarrow>
          (Some (errorf_w (''untracking piece '' @ ybAddrString D a @ '' '' @ ybCidString D p @ '': '') err), s')
      | (None, s') \<Rightarrow> (None, s'))"

section \<open>Flags\<close>

definition Yb_FlagPiece :: "'s ybDb \<Rightarrow> 's \<Rightarrow> time \<Rightarrow> cid \<Rightarrow> bool \<Rightarrow> address \<Rightarrow> goerr option \<times> 's" where
  "Yb_FlagPiece D s now p huc a =
     (case ybExec D s (InsertFlag a p now now huc) of
        (Some err, s') \<Rightarrow> (Some (errorf_w (''flagging piece '' @ ybCidString D p @ '': '') err), s')
      | (None, s') \<Rightarrow> (None, s'))"

definition Yb_UnflagPiece :: "'s ybDb \<Rightarrow> 's \<Rightarrow> cid \<Rightarrow> address \<Rightarrow> goerr option \<times> 's" where
  "Yb_UnflagPiece D s p a =
     (case ybExec D s (DeleteFlag a p) of
        (Some err, s') \<Rightarrow>
          (Some (errorf_w (''unflagging piece '' @ ybAddrString D a @ '' '' @ ybCidString D p @ '': '') err), s')
      | (None, s') \<Rightarrow> (None, s'))"

text \<open>The text and the arguments of the query of \<open>FlaggedPiecesList\<close> and \<open>FlaggedPiecesCount\<close>.\<close>

datatype ybArg = ArgTime time | ArgString string | ArgBool bool | ArgInt int | ArgAddr address

definition flaggedListQuery ::
  "'s ybDb \<Rightarrow> FlaggedPiecesListFilter option \<Rightarrow> time option \<Rightarrow> int \<Rightarrow> int \<Rightarrow> string \<times> ybArg list" where
  "flaggedListQuery D fl cursor offset' limit =
     (let qry = ''SELECT MinerAddr, PieceCid, CreatedAt, UpdatedAt, HasUnsealedCopy from PieceFlagged '';
          (where1, args1, idx1) =
            (case cursor of
               None \<Rightarrow> ([], [], 0)
             | Some t \<Rightarrow> (''WHERE CreatedAt < $1 '', [ArgTime t], 1));
          (where2, args2, idx2) =
            (case fl of
               None \<Rightarrow> (where1, args1, idx1)
             | Some f \<Rightarrow>
                 let w = where1 @ (if where1 = [] then ''WHERE '' else ''AND '');
                     (w', args', idx') =
                       (if flMinerAddr f \<noteq> []
                        then (w @ ''MinerAddr = $'' @ show_nat (idx1 + 1) @ '' AND '',
                              args1 @ [ArgString (ybAddrString D (flMinerAddr f))], idx1 + 1)
                        else (w, args1, idx1))
                 in (w' @ ''HasUnsealedCopy = $'' @ show_nat (idx' + 1) @ '' '',
                     args' @ [ArgBool (flHasUnsealedCopy f)], idx' + 1))
      in (qry @ where2 @ ''ORDER BY CreatedAt desc '' @
            ''LIMIT $'' @ show_nat (idx2 + 1) @ '' OFFSET $'' @ show_nat (idx2 + 2),
          args2 @ [ArgInt limit, ArgInt offset']))"

definition flaggedCountQuery :: "FlaggedPiecesListFilter option \<Rightarrow> string \<times> ybArg list" where
  "flaggedCountQuery fl =
     (let qry = ''SELECT COUNT(*) FROM PieceFlagged'' in
      case fl of
        None \<Rightarrow> (qry, [])
      | Some f \<Rightarrow>
          let qry' = qry @ '' WHERE HasUnsealedCopy = $1'' in
          if flMinerAddr f \<noteq> []
          then (qry' @ '' AND MinerAddr = $2'', [ArgBool (flHasUnsealedCopy f), ArgAddr (flMinerAddr f)])
          else (qry', [ArgBool (flHasUnsealedCopy f)]))"

text \<open>The rows of a query as pieces.\<close>

fun flaggedRows ::
  "'s ybDb \<Rightarrow> (string \<times> string \<times> ybFlagRow) list \<Rightarrow> FlaggedPiece list \<Rightarrow> goerr + FlaggedPiece list" where
  "flaggedRows D [] pieces = Inr pieces"
| "flaggedRows D ((maddr, pcid, row) # rows) pieces =
     (case ybAddrParse D maddr of
        Inl err \<Rightarrow> Inl (errorf_w (''parsing flagged piece miner address '' @ [CHR 0x27] @ maddr @ [CHR 0x27] @ '': '') err)
      | Inr ma \<Rightarrow>
          (case ybCidParse D pcid of
             Inl err \<Rightarrow> Inl (errorf_w (''parsing flagged piece cid '' @ pcid @ '': '') err)
           | Inr c \<Rightarrow> flaggedRows D rows (pieces @ [\<lparr>fpMinerAddr = ma, fpPieceCid = c,
               fpCreatedAt = fCreatedAt row, fpUpdatedAt = fUpdatedAt row,
               fpHasUnsealedCopy = fHasUnsealedCopy row\<rparr>])))"

definition Yb_FlaggedPiecesList ::
  "'s ybDb \<Rightarrow> (string \<times> ybArg list \<Rightarrow> goerr + (string \<times> string \<times> ybFlagRow) list \<times> goerr option) \<Rightarrow>
    FlaggedPiecesListFilter option \<Rightarrow> time option \<Rightarrow> int \<Rightarrow> int \<Rightarrow> goerr + FlaggedPiece list" where
  "Yb_FlaggedPiecesList D run fl cursor offset' limit =
     (case run (flaggedListQuery D fl cursor offset' limit) of
        Inl err \<Rightarrow> Inl (errorf_w ''getting flagged pieces: '' err)
      | Inr (rows, close) \<Rightarrow>
          (case flaggedRows D rows [] of
             Inl err \<Rightarrow> Inl err
           | Inr pieces \<Rightarrow>
               (case close of
                  Some err \<Rightarrow> Inl (errorf_w ''getting flagged pieces: '' err) | None \<Rightarrow> Inr pieces)))"

definition Yb_FlaggedPiecesCount ::
  "(string \<times> ybArg list \<Rightarrow> goerr + nat) \<Rightarrow> FlaggedPiecesListFilter option \<Rightarrow> goerr + nat" where
  "Yb_FlaggedPiecesCount run fl =
     (case run (flaggedCountQuery fl) of
        Inl err \<Rightarrow> Inl (errorf_w ''getting flagged pieces count: '' err) | Inr n \<Rightarrow> Inr n)"

end
