(* ===== verification/YbDoctorProps.thy ===== *)
theory YbDoctorProps
  imports YbDoctor
begin

text \<open>
  Properties of the tracker and the flags of the YugabyteDB store. \<open>yb_pg_ok\<close> says what the postgres
  queries of the tracker return: aggregates, and for the update the rows that it has marked.
\<close>

definition yb_pg_ok :: "'s ybDb \<Rightarrow> ('s \<Rightarrow> ybTables) \<Rightarrow> bool" where
  "yb_pg_ok D tab \<longleftrightarrow>
     (\<forall>s. ybTrackerCount D s None = Inr (card (dom (tTracker (tab s))))) \<and>
     (\<forall>s. \<exists>m. ybMaxCreated D s = Inr m \<and>
        (case m of
           None \<Rightarrow> tTracker (tab s) = Map.empty
         | Some t \<Rightarrow> (\<exists>k u. tTracker (tab s) k = Some (t, u)) \<and>
             (\<forall>k c u. tTracker (tab s) k = Some (c, u) \<longrightarrow> c \<le> t))) \<and>
     (\<forall>s t. \<exists>rows. ybMetaSince D s t = (rows, None) \<and>
        rowsOf rows {(ybCidString D p, mCreatedAt r) | p r. tMeta (tab s) p = Some r \<and> t \<le> mCreatedAt r}) \<and>
     (\<forall>s p. \<exists>rows. ybMiners D s p = (rows, None) \<and>
        set rows = {ybAddrString D (MinerAddr dl) | u dl. tDeals (tab s) u = Some (p, dl)}) \<and>
     (\<forall>s a before lim now rows s'. ybNextBatch D s a before lim now = (Inr (rows, None), s') \<longrightarrow>
        (\<exists>due. rows = map (ybCidString D) due \<and> distinct due \<and> length due \<le> lim \<and>
          (\<forall>p\<in>set due. \<exists>c u. tTracker (tab s) (a, p) = Some (c, u) \<and> u < before) \<and>
          tab s' = (tab s)\<lparr>tTracker := (\<lambda>(b, p). if b = a \<and> p \<in> set due
            then map_option (\<lambda>(c, u). (c, now)) (tTracker (tab s) (b, p)) else tTracker (tab s) (b, p))\<rparr>))"

lemma yb_pg_parts:
  assumes "yb_pg_ok D tab"
  shows "\<forall>s. \<exists>m. ybMaxCreated D s = Inr m \<and>
        (case m of
           None \<Rightarrow> tTracker (tab s) = Map.empty
         | Some t \<Rightarrow> (\<exists>k u. tTracker (tab s) k = Some (t, u)) \<and>
             (\<forall>k c u. tTracker (tab s) k = Some (c, u) \<longrightarrow> c \<le> t))"
    and "\<forall>s t. \<exists>rows. ybMetaSince D s t = (rows, None) \<and>
        rowsOf rows {(ybCidString D p, mCreatedAt r) | p r. tMeta (tab s) p = Some r \<and> t \<le> mCreatedAt r}"
    and "\<forall>s p. \<exists>rows. ybMiners D s p = (rows, None) \<and>
        set rows = {ybAddrString D (MinerAddr dl) | u dl. tDeals (tab s) u = Some (p, dl)}"
    and "\<forall>s. ybTrackerCount D s None = Inr (card (dom (tTracker (tab s))))"
    and "\<forall>s a before lim now rows s'. ybNextBatch D s a before lim now = (Inr (rows, None), s') \<longrightarrow>
        (\<exists>due. rows = map (ybCidString D) due \<and> distinct due \<and> length due \<le> lim \<and>
          (\<forall>p\<in>set due. \<exists>c u. tTracker (tab s) (a, p) = Some (c, u) \<and> u < before) \<and>
          tab s' = (tab s)\<lparr>tTracker := (\<lambda>(b, p). if b = a \<and> p \<in> set due
            then map_option (\<lambda>(c, u). (c, now)) (tTracker (tab s) (b, p)) else tTracker (tab s) (b, p))\<rparr>)"
  using assms unfolding yb_pg_ok_def by - (elim conjE, assumption)+

lemmas yb_max_created = yb_pg_parts(1) [rule_format]
lemmas yb_meta_since = yb_pg_parts(2) [rule_format]
lemmas yb_miners = yb_pg_parts(3) [rule_format]
lemmas yb_tracker_count = yb_pg_parts(4) [rule_format]
lemmas yb_next_batch = yb_pg_parts(5) [rule_format]

section \<open>Copying new pieces\<close>

lemma execWithConcurrency_err: "execWithConcurrency w ex s xs (Some e) = (err, s') \<Longrightarrow> err \<noteq> None"
proof (induction xs arbitrary: w s e)
  case (Cons x xs)
  then show ?case by (auto split: if_splits option.splits prod.splits)
qed auto

text \<open>A concurrent execution without errors is the sequence of the single ones.\<close>

lemma execWithConcurrency_ok:
  assumes "0 < w" and "execWithConcurrency w ex s xs None = (None, s')"
    and "\<And>s x s'. x \<in> set xs \<Longrightarrow> ex s x = (None, s') \<Longrightarrow> g s' = h x (g s)"
  shows "g s' = fold h xs (g s)"
  using assms(2,3)
proof (induction xs arbitrary: s)
  case (Cons x xs)
  obtain e s1 where 1: "ex s x = (e, s1)" by (rule prod.exhaust)
  with Cons.prems(1) assms(1) have e: "e = None" by (auto split: option.splits dest: execWithConcurrency_err)
  then have "execWithConcurrency w ex s1 xs None = (None, s')" using Cons.prems(1) 1 assms(1) by simp
  from Cons.IH [OF this] Cons.prems(2) have "g s' = fold h xs (g s1)" by simp
  moreover have "g s1 = h x (g s)" using Cons.prems(2) 1 e by simp
  ultimately show ?case by simp
qed simp

lemma newPieceRows_ok:
  assumes "\<forall>(str, t)\<in>set rows. ybCidParse D str = Inr (f str)"
  shows "\<exists>t. newPieceRows D rows pcs t0 =
    Inr (pcs @ map (\<lambda>(str, t). \<lparr>pcMinerAddr = [], pcPieceCid = f str, pcCreatedAt = t\<rparr>) rows, t)"
  using assms
proof (induction rows arbitrary: pcs t0)
  case (Cons row rows)
  obtain str t where row: "row = (str, t)" by fastforce
  from Cons.IH [of "pcs @ [\<lparr>pcMinerAddr = [], pcPieceCid = f str, pcCreatedAt = t\<rparr>]" t] Cons.prems
  show ?case by (simp add: row)
qed simp

lemma minerRows_ok:
  assumes "\<forall>m\<in>set rows. ybAddrParse D m = Inr (f m)"
  shows "minerRows D p t rows acc =
    (None, acc @ map (\<lambda>m. \<lparr>pcMinerAddr = f m, pcPieceCid = p, pcCreatedAt = t\<rparr>) rows)"
  using assms by (induction rows arbitrary: acc) auto

lemma fold_append: "fold (\<lambda>x acc. acc @ f x) xs acc = acc @ concat (map f xs)"
  by (induction xs arbitrary: acc) auto

lemma fold_trackers:
  "fold (\<lambda>pc. stmtSem (InsertTracker (pcMinerAddr pc) (pcPieceCid pc) (pcCreatedAt pc) u)) pcs T =
    T\<lparr>tTracker := tTracker (fold (\<lambda>pc. stmtSem (InsertTracker (pcMinerAddr pc) (pcPieceCid pc) (pcCreatedAt pc) u)) pcs T)\<rparr> \<and>
   dom (tTracker (fold (\<lambda>pc. stmtSem (InsertTracker (pcMinerAddr pc) (pcPieceCid pc) (pcCreatedAt pc) u)) pcs T)) =
    dom (tTracker T) \<union> (\<lambda>pc. (pcMinerAddr pc, pcPieceCid pc)) ` set pcs \<and>
   tTracker T \<subseteq>\<^sub>m tTracker (fold (\<lambda>pc. stmtSem (InsertTracker (pcMinerAddr pc) (pcPieceCid pc) (pcCreatedAt pc) u)) pcs T)"
proof (induction pcs arbitrary: T)
  case (Cons pc pcs)
  let ?T = "stmtSem (InsertTracker (pcMinerAddr pc) (pcPieceCid pc) (pcCreatedAt pc) u) T"
  have "tTracker T \<subseteq>\<^sub>m tTracker ?T" "dom (tTracker ?T) = insert (pcMinerAddr pc, pcPieceCid pc) (dom (tTracker T))"
    "?T = T\<lparr>tTracker := tTracker ?T\<rparr>"
    by (auto simp: map_le_def)
  with Cons [of ?T] show ?case by (auto intro: map_le_trans)
qed simp

text \<open>The tracker rows that a call adds: the miners of the pieces created since the last copied one.\<close>

definition lastCopied :: "time option \<Rightarrow> time" where
  "lastCopied m = (case m of None \<Rightarrow> unixEpoch | Some t \<Rightarrow> t)"

definition newTracked :: "ybTables \<Rightarrow> time \<Rightarrow> (address \<times> cid) set" where
  "newTracked T t = {(MinerAddr dl, p) | u dl p r.
     tDeals T u = Some (p, dl) \<and> tMeta T p = Some r \<and> t \<le> mCreatedAt r}"

lemma copyNewPieces_ok:
  assumes ok: "yb_ok D tab" and pg: "yb_pg_ok D tab" and m: "ybMaxCreated D s = Inr m"
    and r: "copyNewPieces D s = (None, s')"
  shows "tab s' = (tab s)\<lparr>tTracker := tTracker (tab s')\<rparr> \<and> tTracker (tab s) \<subseteq>\<^sub>m tTracker (tab s') \<and>
    dom (tTracker (tab s')) = dom (tTracker (tab s)) \<union> newTracked (tab s) (lastCopied m)"
proof -
  obtain rows where rows: "ybMetaSince D s (lastCopied m) = (rows, None)"
    "set rows = {(ybCidString D p, mCreatedAt r) | p r. tMeta (tab s) p = Some r \<and> lastCopied m \<le> mCreatedAt r}"
    using yb_meta_since [OF pg, of s "lastCopied m"] by (auto simp: rowsOf_def)
  define f where "f str = (case ybCidParse D str of Inr c \<Rightarrow> c)" for str
  have f: "f (ybCidString D c) = c" for c by (simp add: f_def yb_parse(2) [OF ok])
  let ?new = "map (\<lambda>(str, t). \<lparr>pcMinerAddr = [], pcPieceCid = f str, pcCreatedAt = t\<rparr>) rows"
  have "\<forall>(str, t)\<in>set rows. ybCidParse D str = Inr (f str)" by (auto simp: rows(2) f yb_parse(2) [OF ok])
  from newPieceRows_ok [OF this, of "[]" time_zero]
  obtain t where new: "newPieceRows D rows [] time_zero = Inr (?new, t)" by auto
  define g where "g str = (case ybAddrParse D str of Inr a \<Rightarrow> a)" for str
  have g: "g (ybAddrString D a) = a" for a by (simp add: g_def yb_parse(3) [OF ok])
  let ?ms = "\<lambda>pc. map (\<lambda>m. \<lparr>pcMinerAddr = g m, pcPieceCid = pcPieceCid pc, pcCreatedAt = t\<rparr>)
    (fst (ybMiners D s (pcPieceCid pc)))"
  have miners: "minersOfPiece D s t acc pc = (None, acc @ ?ms pc)" for acc pc
  proof -
    obtain ms where ms: "ybMiners D s (pcPieceCid pc) = (ms, None)"
      "set ms = {ybAddrString D (MinerAddr dl) | u dl. tDeals (tab s) u = Some (pcPieceCid pc, dl)}"
      using yb_miners [OF pg, of s "pcPieceCid pc"] by blast
    have "\<forall>m\<in>set ms. ybAddrParse D m = Inr (g m)" by (auto simp: ms(2) g yb_parse(3) [OF ok])
    from minerRows_ok [OF this] show ?thesis by (simp add: minersOfPiece_def ms(1))
  qed
  from r m rows(1) new obtain tracked where
    1: "execWithConcurrency insertTrackerParallelism (minersOfPiece D s t) [] ?new None = (None, tracked)"
    and 2: "execWithConcurrency insertTrackerParallelism (insertTracked D) s tracked None = (None, s')"
    by (auto simp: copyNewPieces_def lastCopied_def Let_def split: option.splits prod.splits)
  have w: "0 < insertTrackerParallelism" by (simp add: insertTrackerParallelism_def)
  have "tracked = fold (\<lambda>pc acc. acc @ ?ms pc) ?new []"
    using execWithConcurrency_ok [OF w 1, of "\<lambda>x. x" "\<lambda>pc acc. acc @ ?ms pc"] miners by simp
  then have tr: "set tracked = (\<Union>pc\<in>set ?new. set (?ms pc))" by (simp add: fold_append)
  have ms: "set (fst (ybMiners D s p)) = {ybAddrString D (MinerAddr dl) | u dl. tDeals (tab s) u = Some (p, dl)}"
    for p
  proof -
    obtain rows where "ybMiners D s p = (rows, None)"
      "set rows = {ybAddrString D (MinerAddr dl) | u dl. tDeals (tab s) u = Some (p, dl)}"
      using yb_miners [OF pg, of s p] by blast
    then show ?thesis by simp
  qed
  have keys: "(\<lambda>pc. (pcMinerAddr pc, pcPieceCid pc)) ` set tracked = newTracked (tab s) (lastCopied m)"
    unfolding tr newTracked_def by (auto simp: ms rows(2) f g image_iff) (metis f g)+
  have "tab s' = fold (\<lambda>pc. stmtSem (InsertTracker (pcMinerAddr pc) (pcPieceCid pc) (pcCreatedAt pc) unixEpoch))
      tracked (tab s)"
    by (rule execWithConcurrency_ok [OF w 2, of tab])
      (auto simp: insertTracked_def split: prod.splits option.splits dest: yb_exec [OF ok] simp del: stmtSem.simps)
  with fold_trackers [of unixEpoch tracked "tab s"] keys show ?thesis by metis
qed

section \<open>The tracker\<close>

lemma trackerRows_ok:
  assumes "yb_ok D tab"
  shows "trackerRows D (map (ybCidString D) due) pcids = Inr (pcids @ due)"
  by (induction due arbitrary: pcids) (simp_all add: yb_parse [OF assms])

text \<open>What a successful call has done.\<close>

lemma NextPieces_ok:
  assumes ok: "yb_ok D tab" and pg: "yb_pg_ok D tab"
    and r: "Yb_NextPiecesToCheck D s now a = (Inr ps, s')"
  shows "\<exists>s1. copyNewPieces D s = (None, s1) \<and> distinct ps \<and> length ps \<le> 1024 \<and>
    (\<forall>p\<in>set ps. \<exists>c u. tTracker (tab s1) (a, p) = Some (c, u) \<and>
       u < now - checkPeriod (card (dom (tTracker (tab s1))))) \<and>
    tab s' = (tab s1)\<lparr>tTracker := (\<lambda>(b, p). if b = a \<and> p \<in> set ps
      then map_option (\<lambda>(c, u). (c, now)) (tTracker (tab s1) (b, p)) else tTracker (tab s1) (b, p))\<rparr>"
proof -
  from r obtain s1 n rows where 1: "copyNewPieces D s = (None, s1)"
    and 2: "ybNextBatch D s1 a (now - checkPeriod n) TrackerCheckBatchSize now = (Inr (rows, None), s')"
    and 3: "trackerRows D rows [] = Inr ps"
    and n: "ybTrackerCount D s1 None = Inr n"
    by (auto simp: Yb_NextPiecesToCheck_def ybGetPieceCheckPeriod_def split: prod.splits option.splits sum.splits)
  from n have n: "n = card (dom (tTracker (tab s1)))" by (simp add: yb_tracker_count [OF pg])
  from yb_next_batch [OF pg 2] obtain due where due: "rows = map (ybCidString D) due" "distinct due"
    "length due \<le> TrackerCheckBatchSize"
    "\<forall>p\<in>set due. \<exists>c u. tTracker (tab s1) (a, p) = Some (c, u) \<and> u < now - checkPeriod n"
    "tab s' = (tab s1)\<lparr>tTracker := (\<lambda>(b, p). if b = a \<and> p \<in> set due
      then map_option (\<lambda>(c, u). (c, now)) (tTracker (tab s1) (b, p)) else tTracker (tab s1) (b, p))\<rparr>" by blast
  have "ps = due" using 3 trackerRows_ok [OF ok, of due "[]"] by (simp add: due(1))
  with 1 due n show ?thesis by (auto simp: TrackerCheckBatchSize_def)
qed

lemma checkPeriod_min: "MinPieceCheckPeriod \<le> checkPeriod n"
  by (simp add: checkPeriod_def Let_def)

text \<open>
  The check period is never below five minutes, and up to 92 billion pieces it is 100 ms for each
  piece where that is longer; beyond that the 64-bit product wraps around. For 100000 pieces it is
  10000 seconds, for a million 100000 seconds.
\<close>

theorem yb_check_period:
  assumes "n \<le> 92233720368"
  shows "checkPeriod n = max (5 * minute) (int n * 100000000)"
proof -
  have "int (n * 100) * 1000000 < 2 ^ 63" using assms by simp
  then have "sint ((of_nat (n * 100) * 1000000) :: 64 word) = int (n * 100) * 1000000"
  proof -
    have "(of_nat (n * 100) * 1000000 :: 64 word) = word_of_int (int (n * 100) * 1000000)" by simp
    then show ?thesis
      using \<open>int (n * 100) * 1000000 < 2 ^ 63\<close>
      by (simp only: sint_sbintrunc') (simp add: signed_take_bit_int_eq_self)
  qed
  then show ?thesis by (simp add: checkPeriod_def Let_def MinPieceCheckPeriod_def max_def)
qed

theorem yb_check_period_witness:
  "checkPeriod 100000 = 10000 * 1000000000 \<and> checkPeriod 1000000 = 100000 * 1000000000"
  using yb_check_period [of 100000] yb_check_period [of 1000000] by (simp add: minute_def)

section \<open>The concrete database\<close>

lemma live_image: "f ` set (filter P (live xs)) = {f (k, v) | k v. map_of xs k = Some v \<and> P (k, v)}"
  by (force simp: live_set [symmetric])

lemma distinct_live: "distinct (map fst (live xs))"
  by (simp add: live_def distinct_clearjunk)

lemma dueRows_distinct: "distinct (dueRows xs a t)"
  unfolding dueRows_def by (rule distinct_map_filter [OF distinct_live])

lemma dueRows_set: "(b, p) \<in> set (dueRows xs a t) \<longleftrightarrow> b = a \<and> (\<exists>c u. map_of xs (a, p) = Some (c, u) \<and> u < t)"
  by (force simp: dueRows_def live_set image_iff)

lemma map_of_marked:
  "map_of (map (\<lambda>(k, c, u). (k, c, if k \<in> A then t else u)) xs) k =
    (if k \<in> A then map_option (\<lambda>(c, u). (c, t)) (map_of xs k) else map_of xs k)"
  by (induction xs) auto

lemma demoYb_pg_ok: "yb_pg_ok demoYb demoTab"
  unfolding yb_pg_ok_def
proof (intro conjI allI impI)
  fix s :: demoDb
  have "length (live (dbTracker s)) = card (set (map fst (live (dbTracker s))))"
    using distinct_card [OF distinct_live, of "dbTracker s"] by simp
  also have "set (map fst (live (dbTracker s))) = dom (map_of (dbTracker s))"
    by (simp add: live_def dom_map_of_conv_image_fst dom_clearjunk)
  finally show "ybTrackerCount demoYb s None = Inr (card (dom (tTracker (demoTab s))))"
    by (simp add: demoYb_def demoTab_def case_prod_beta)
next
  fix s :: demoDb
  let ?ts = "map (\<lambda>(k, c, u). c) (live (dbTracker s))"
  have ts: "set ?ts = {c. \<exists>k u. map_of (dbTracker s) k = Some (c, u)}"
    using live_image [of "\<lambda>(k, c, u). c" "\<lambda>_. True" "dbTracker s"] by auto
  show "\<exists>m. ybMaxCreated demoYb s = Inr m \<and>
      (case m of
         None \<Rightarrow> tTracker (demoTab s) = Map.empty
       | Some t \<Rightarrow> (\<exists>k u. tTracker (demoTab s) k = Some (t, u)) \<and>
           (\<forall>k c u. tTracker (demoTab s) k = Some (c, u) \<longrightarrow> c \<le> t))"
  proof (cases "?ts = []")
    case True
    then have "map_of (live (dbTracker s)) = Map.empty" by simp
    then have "map_of (dbTracker s) = Map.empty" by (simp add: live_def map_of_clearjunk)
    with True show ?thesis by (simp add: demoYb_def demoTab_def Let_def)
  next
    case False
    have "Max (set ?ts) \<in> set ?ts" using False by (intro Max_in) auto
    moreover have "\<forall>c\<in>set ?ts. c \<le> Max (set ?ts)" by (intro ballI Max_ge) auto
    ultimately have "(\<exists>k u. tTracker (demoTab s) k = Some (Max (set ?ts), u)) \<and>
        (\<forall>k c u. tTracker (demoTab s) k = Some (c, u) \<longrightarrow> c \<le> Max (set ?ts))"
      unfolding ts by (auto simp: demoTab_def)
    with False show ?thesis by (simp add: demoYb_def Let_def)
  qed
next
  fix s :: demoDb and t :: time
  have "distinct (map fst (filter (\<lambda>(p, r). t \<le> mCreatedAt r) (live (dbMeta s))))"
    by (rule distinct_map_filter [OF distinct_live])
  then have "distinct (map fst (map (\<lambda>(p, r). (p, mCreatedAt r)) (filter (\<lambda>(p, r). t \<le> mCreatedAt r) (live (dbMeta s)))))"
    by (simp add: case_prod_beta comp_def)
  then have "distinct (map (\<lambda>(p, r). (p, mCreatedAt r)) (filter (\<lambda>(p, r). t \<le> mCreatedAt r) (live (dbMeta s))))"
    by (simp only: distinct_map)
  then show "\<exists>rows. ybMetaSince demoYb s t = (rows, None) \<and> rowsOf rows
      {(ybCidString demoYb p, mCreatedAt r) | p r. tMeta (demoTab s) p = Some r \<and> t \<le> mCreatedAt r}"
    by (simp add: demoYb_def rowsOf_def demoTab_def live_image del: set_filter)
next
  fix s :: demoDb and p :: cid
  show "\<exists>rows. ybMiners demoYb s p = (rows, None) \<and>
      set rows = {ybAddrString demoYb (MinerAddr dl) | u dl. tDeals (demoTab s) u = Some (p, dl)}"
    by (auto simp: demoYb_def demoTab_def live_image simp del: set_filter)
next
  fix s s' :: demoDb and a :: address and before now :: time and lim :: nat and rows :: "string list"
  assume r: "ybNextBatch demoYb s a before lim now = (Inr (rows, None), s')"
  define due where "due = take lim (dueRows (dbTracker s) a before)"
  from r have 1: "rows = map snd due"
    "s' = s\<lparr>dbTracker := map (\<lambda>(k, c, u). (k, c, if k \<in> set due then now else u)) (live (dbTracker s))\<rparr>"
    by (simp_all add: demoYb_def due_def Let_def)
  have d: "distinct due" by (simp add: due_def dueRows_distinct)
  have m: "k \<in> set due \<Longrightarrow> fst k = a \<and> (\<exists>c u. map_of (dbTracker s) k = Some (c, u) \<and> u < before)" for k
    by (cases k) (auto simp: due_def dest!: in_set_takeD simp: dueRows_set)
  have "inj_on snd (set due)" by (auto intro!: inj_onI dest!: m simp: prod_eq_iff)
  with d have d2: "distinct (map snd due)" by (simp add: distinct_map)
  have in_due: "(b, p) \<in> set due \<longleftrightarrow> b = a \<and> p \<in> set (map snd due)" for b p
    using m by (force simp: prod_eq_iff)
  have l: "map_of (live xs) = map_of xs" for xs :: "((address \<times> cid) \<times> time \<times> time) list"
    by (simp add: live_def map_of_clearjunk)
  have "demoTab s' = (demoTab s)\<lparr>tTracker := (\<lambda>(b, p). if b = a \<and> p \<in> set (map snd due)
      then map_option (\<lambda>(c, u). (c, now)) (tTracker (demoTab s) (b, p)) else tTracker (demoTab s) (b, p))\<rparr>"
    by (simp add: 1(2) demoTab_def map_of_marked l fun_eq_iff in_due)
  moreover have "\<forall>p\<in>set (map snd due). \<exists>c u. tTracker (demoTab s) (a, p) = Some (c, u) \<and> u < before"
    using m by (fastforce simp: demoTab_def)
  moreover have "length (map snd due) \<le> lim" by (simp add: due_def)
  moreover have "rows = map (ybCidString demoYb) (map snd due)" by (simp add: 1(1) demoYb_def)
  ultimately show "\<exists>due. rows = map (ybCidString demoYb) due \<and> distinct due \<and> length due \<le> lim \<and>
      (\<forall>p\<in>set due. \<exists>c u. tTracker (demoTab s) (a, p) = Some (c, u) \<and> u < before) \<and>
      demoTab s' = (demoTab s)\<lparr>tTracker := (\<lambda>(b, p). if b = a \<and> p \<in> set due
        then map_option (\<lambda>(c, u). (c, now)) (tTracker (demoTab s) (b, p)) else tTracker (demoTab s) (b, p))\<rparr>"
    using d2 by blast
qed

section \<open>Properties\<close>

text \<open>
  A sequence of successful calls for any miners: of each the time, the miner, the number of rows that the
  tracker has by then, and the pieces returned. In between anything may happen to the database, calls that fail
  and changes of the other tables included, that does not take a row from the tracker or set one back in time.
\<close>

definition keepsChecks :: "ybTables \<Rightarrow> ybTables \<Rightarrow> bool" where
  "keepsChecks T T' \<longleftrightarrow>
     (\<forall>k c u. tTracker T k = Some (c, u) \<longrightarrow> (\<exists>c' u'. tTracker T' k = Some (c', u') \<and> u \<le> u'))"

inductive ybChecks ::
  "'s ybDb \<Rightarrow> ('s \<Rightarrow> ybTables) \<Rightarrow> 's \<Rightarrow> (time \<times> address \<times> nat \<times> cid list) list \<Rightarrow> 's \<Rightarrow> bool" for D tab s where
  start: "ybChecks D tab s [] s"
| check: "ybChecks D tab s tr s1 \<Longrightarrow> Yb_NextPiecesToCheck D s1 now a = (Inr ps, s2) \<Longrightarrow>
    ybChecks D tab s (tr @ [(now, a, card (dom (tTracker (tab s2))), ps)]) s2"
| other: "ybChecks D tab s tr s1 \<Longrightarrow> keepsChecks (tab s1) (tab s2) \<Longrightarrow> ybChecks D tab s tr s2"

text \<open>
  One call: the pieces it returns have a row, older than the period for the number of rows, and are marked
  with the time of the call; no row is lost or set back.
\<close>

lemma NextPieces_step:
  assumes ok: "yb_ok D tab" and pg: "yb_pg_ok D tab"
    and r: "Yb_NextPiecesToCheck D s now a = (Inr ps, s')"
  shows "distinct ps \<and> length ps \<le> 1024 \<and> keepsChecks (tab s) (tab s') \<and>
    (\<forall>p\<in>set ps. \<exists>c. tTracker (tab s') (a, p) = Some (c, now)) \<and>
    (\<forall>p\<in>set ps. \<forall>c u. tTracker (tab s) (a, p) = Some (c, u) \<longrightarrow>
       u < now - checkPeriod (card (dom (tTracker (tab s')))))"
proof -
  obtain s1 where 1: "copyNewPieces D s = (None, s1)" "distinct ps" "length ps \<le> 1024"
    "\<forall>p\<in>set ps. \<exists>c u. tTracker (tab s1) (a, p) = Some (c, u) \<and> u < now - checkPeriod (card (dom (tTracker (tab s1))))"
    and s': "tab s' = (tab s1)\<lparr>tTracker := (\<lambda>(b, p). if b = a \<and> p \<in> set ps
      then map_option (\<lambda>(c, u). (c, now)) (tTracker (tab s1) (b, p)) else tTracker (tab s1) (b, p))\<rparr>"
    using NextPieces_ok [OF ok pg r] by blast
  obtain m where m: "ybMaxCreated D s = Inr m" using yb_max_created [OF pg, of s] by blast
  have le: "tTracker (tab s1) k = Some x" if "tTracker (tab s) k = Some x" for k x
    using copyNewPieces_ok [OF ok pg m 1(1)] that by (metis domI map_le_def)
  have dom: "dom (tTracker (tab s')) = dom (tTracker (tab s1))" by (auto simp: s' dom_def split: if_splits)
  have old: "u < now - checkPeriod (card (dom (tTracker (tab s'))))"
    if "p \<in> set ps" "tTracker (tab s1) (a, p) = Some (c, u)" for p c u
    using 1(4) that unfolding dom by fastforce
  have "checkPeriod (card (dom (tTracker (tab s')))) \<ge> 0"
    using checkPeriod_min [of "card (dom (tTracker (tab s')))"] by (simp add: MinPieceCheckPeriod_def minute_def)
  then have upd: "u \<le> now" if "p \<in> set ps" "tTracker (tab s1) (a, p) = Some (c, u)" for p c u
    using old [OF that] by linarith
  have "keepsChecks (tab s) (tab s')"
    unfolding keepsChecks_def s' using le upd by (auto dest!: le)
  moreover have "\<forall>p\<in>set ps. \<exists>c. tTracker (tab s') (a, p) = Some (c, now)"
    using 1(4) by (fastforce simp: s')
  ultimately show ?thesis using 1(2,3) old le by blast
qed

text \<open>What a run of calls leaves: every piece returned so far has a row that is not older.\<close>

lemma ybChecks_marked:
  assumes ok: "yb_ok D tab" and pg: "yb_pg_ok D tab" and run: "ybChecks D tab s tr s'"
  shows "(t, a, n, ps) \<in> set tr \<Longrightarrow> p \<in> set ps \<Longrightarrow> \<exists>c u. tTracker (tab s') (a, p) = Some (c, u) \<and> t \<le> u"
  using run
proof (induction rule: ybChecks.induct)
  case (check tr s1 now b qs s2)
  note st = NextPieces_step [OF ok pg check(2)]
  show ?case
  proof (cases "(t, a, n, ps) \<in> set tr")
    case True
    with check obtain c u where "tTracker (tab s1) (a, p) = Some (c, u)" "t \<le> u" by blast
    with st show ?thesis unfolding keepsChecks_def by (meson order_trans)
  next
    case False
    with check(4) have "t = now" "a = b" "ps = qs" by simp_all
    with st check(5) show ?thesis by fastforce
  qed
next
  case (other tr s1 s2)
  then obtain c u where "tTracker (tab s1) (a, p) = Some (c, u)" "t \<le> u" by blast
  with other(2) show ?case unfolding keepsChecks_def by (meson order_trans)
qed simp

lemma ybChecks_apart:
  assumes ok: "yb_ok D tab" and pg: "yb_pg_ok D tab" and run: "ybChecks D tab s tr s'"
  shows "(\<forall>(t, a, n, ps)\<in>set tr. distinct ps \<and> length ps \<le> 1024) \<and>
    (\<forall>i j t1 t2 a n1 n2 ps1 ps2 p. i < j \<and> j < length tr \<and> tr ! i = (t1, a, n1, ps1) \<and>
       tr ! j = (t2, a, n2, ps2) \<and> p \<in> set ps1 \<and> p \<in> set ps2 \<longrightarrow> t1 + checkPeriod n2 < t2)"
  using run
proof (induction rule: ybChecks.induct)
  case (check tr s1 now b qs s2)
  note st = NextPieces_step [OF ok pg check(2)]
  let ?e = "(now, b, card (dom (tTracker (tab s2))), qs)"
  have last: "t1 + checkPeriod (card (dom (tTracker (tab s2)))) < now"
    if "i < length tr" "tr ! i = (t1, b, n1, ps1)" "p \<in> set ps1" "p \<in> set qs" for i t1 n1 ps1 p
  proof -
    have "(t1, b, n1, ps1) \<in> set tr" using that(1,2) by (metis nth_mem)
    from ybChecks_marked [OF ok pg check(1) this that(3)] obtain c u where
      "tTracker (tab s1) (b, p) = Some (c, u)" "t1 \<le> u" by blast
    with st that(4) show ?thesis by fastforce
  qed
  have "t1 + checkPeriod n2 < t2" if h: "i < j" "j < length (tr @ [?e])" "(tr @ [?e]) ! i = (t1, a, n1, ps1)"
    "(tr @ [?e]) ! j = (t2, a, n2, ps2)" "p \<in> set ps1" "p \<in> set ps2" for i j t1 t2 a n1 n2 ps1 ps2 p
  proof (cases "j < length tr")
    case True
    with check(3) h show ?thesis by (simp add: nth_append) blast
  next
    case False
    with h have "j = length tr" "i < length tr" by simp_all
    with h last [of i t1 n1 ps1 p] show ?thesis by (simp add: nth_append)
  qed
  moreover have "\<forall>(t, a, n, ps)\<in>set (tr @ [?e]). distinct ps \<and> length ps \<le> 1024" using check(3) st by simp
  ultimately show ?case by blast
qed auto

text \<open>
  C16: The tracker hands out work once per period. In any sequence of successful calls, with anything in between that
  does not take tracker rows away or set them back, a call returns distinct pieces, at most 1024, and
  a piece that two calls return for one miner was returned the second time only after the check
  period of that call: five minutes, or 100 ms for every row that the tracker has then when that is longer (below
  92 billion rows, where the 64-bit product does not wrap around).
\<close>

theorem yb_next_pieces:
  assumes ok: "yb_ok D tab" and pg: "yb_pg_ok D tab" and run: "ybChecks D tab s tr s'"
  shows "(\<forall>(t, a, n, ps)\<in>set tr. distinct ps \<and> length ps \<le> 1024) \<and>
    (\<forall>i j t1 t2 a n1 n2 ps1 ps2 p. i < j \<and> j < length tr \<and> tr ! i = (t1, a, n1, ps1) \<and>
       tr ! j = (t2, a, n2, ps2) \<and> p \<in> set ps1 \<and> p \<in> set ps2 \<and> n2 \<le> 92233720368 \<longrightarrow>
       t1 + max (5 * minute) (int n2 * 100000000) < t2)"
proof (intro conjI allI impI)
  note apart = ybChecks_apart [OF ok pg run]
  show "\<forall>(t, a, n, ps)\<in>set tr. distinct ps \<and> length ps \<le> 1024" by (rule conjunct1 [OF apart])
  fix i j t1 t2 a n1 n2 ps1 ps2 p
  assume h: "i < j \<and> j < length tr \<and> tr ! i = (t1, a, n1, ps1) \<and>
    tr ! j = (t2, a, n2, ps2) \<and> p \<in> set ps1 \<and> p \<in> set ps2 \<and> n2 \<le> 92233720368"
  then have "t1 + checkPeriod n2 < t2" by (intro conjunct2 [OF apart, rule_format, of i j t1 a n1 ps1 t2 n2 ps2 p]) blast
  then show "t1 + max (5 * minute) (int n2 * 100000000) < t2" using h by (simp only: yb_check_period)
qed

text \<open>A piece with a deal that no call has tracked yet.\<close>

definition demoDbT :: demoDb where
  "demoDbT = demoDb0\<lparr>dbMeta := [(''p'', \<lparr>mVersion = ''1'', mIndexedAt = 0, mComplete = True,
     mCreatedAt = 70000000000000000000\<rparr>)], dbDeals := [(''u'', ''p'', demoYbDeal)]\<rparr>"

lemmas demo_tracker_defs = Yb_NextPiecesToCheck_def copyNewPieces_def demoDbT_def demoDb0_def demoYb_def
  live_def dueRows_def unixEpoch_def insertTrackerParallelism_def minersOfPiece_def insertTracked_def
  ybGetPieceCheckPeriod_def TrackerCheckBatchSize_def demoYbDeal_def checkPeriod_def MinPieceCheckPeriod_def
  minute_def

lemma demo_first_check:
  "Yb_NextPiecesToCheck demoYb demoDbT 80000000000000000000 ''m'' =
    (Inr [''p''], demoDbT\<lparr>dbTracker := [((''m'', ''p''), 70000000000000000000, 80000000000000000000)]\<rparr>)"
  by (simp add: demo_tracker_defs Let_def)

theorem yb_next_pieces_witness:
  "\<exists>s' s'' qs. Yb_NextPiecesToCheck demoYb demoDbT 80000000000000000000 ''m'' = (Inr [''p''], s') \<and>
    Yb_NextPiecesToCheck demoYb s' 80000000001000000000 ''m'' = (Inr qs, s'') \<and> ''p'' \<notin> set qs"
proof -
  let ?s = "demoDbT\<lparr>dbTracker := [((''m'', ''p''), 70000000000000000000, 80000000000000000000)]\<rparr>"
  obtain qs s'' where 2: "Yb_NextPiecesToCheck demoYb ?s 80000000001000000000 ''m'' = (Inr qs, s'')"
    and s'': "dom (tTracker (demoTab s'')) = {(''m'', ''p'')}"
    by (simp add: demo_tracker_defs Let_def demoTab_def)
  let ?n = "card (dom (tTracker (demoTab ?s)))"
  have run: "ybChecks demoYb demoTab demoDbT [(80000000000000000000, ''m'', ?n, [''p'']),
      (80000000001000000000, ''m'', card (dom (tTracker (demoTab s''))), qs)] s''"
    using ybChecks.check [OF ybChecks.check [OF ybChecks.start demo_first_check] 2] by simp
  have n: "card (dom (tTracker (demoTab s''))) = 1" by (simp add: s'')
  have "''p'' \<notin> set qs"
  proof
    assume "''p'' \<in> set qs"
    with conjunct2 [OF yb_next_pieces [OF demoYb_ok demoYb_pg_ok run], rule_format, of 0 1 _ "''m''" _ "[''p'']"]
    show False by (simp add: n minute_def)
  qed
  with demo_first_check 2 show ?thesis by blast
qed

text \<open>
  What gets tracked: a successful call adds to the tracker exactly the miners with a deal for a piece
  whose metadata was created at or after the newest tracked piece. So a deal with another miner that is
  added later for an older piece is never tracked for that miner, by this or any later call.
\<close>

theorem yb_late_miner_never_tracked:
  assumes ok: "yb_ok D tab" and pg: "yb_pg_ok D tab" and m: "ybMaxCreated D s = Inr m"
    and r: "Yb_NextPiecesToCheck D s now a = (Inr ps, s')"
  shows "dom (tTracker (tab s')) = dom (tTracker (tab s)) \<union> newTracked (tab s) (lastCopied m) \<and>
    (tTracker (tab s) (b, p) = None \<and> tMeta (tab s) p = Some row \<and>
       (\<exists>k c u. tTracker (tab s) k = Some (c, u) \<and> mCreatedAt row < c) \<longrightarrow>
     tTracker (tab s') (b, p) = None \<and> tMeta (tab s') p = Some row \<and>
       (\<exists>k c u. tTracker (tab s') k = Some (c, u) \<and> mCreatedAt row < c))"
proof -
  obtain s1 where 1: "copyNewPieces D s = (None, s1)"
    and s': "tab s' = (tab s1)\<lparr>tTracker := (\<lambda>(b, p). if b = a \<and> p \<in> set ps
      then map_option (\<lambda>(c, u). (c, now)) (tTracker (tab s1) (b, p)) else tTracker (tab s1) (b, p))\<rparr>"
    using NextPieces_ok [OF ok pg r] by blast
  note c = copyNewPieces_ok [OF ok pg m 1]
  then have meta: "tMeta (tab s1) = tMeta (tab s)" by (metis ybTables.select_convs(1) ybTables.surjective ybTables.update_convs(5))
  have dom: "dom (tTracker (tab s')) = dom (tTracker (tab s)) \<union> newTracked (tab s) (lastCopied m)"
  proof -
    have "dom (tTracker (tab s')) = dom (tTracker (tab s1))" by (auto simp: s' dom_def split: if_splits)
    with c show ?thesis by simp
  qed
  have "tTracker (tab s') (b, p) = None \<and> tMeta (tab s') p = Some row \<and>
      (\<exists>k c u. tTracker (tab s') k = Some (c, u) \<and> mCreatedAt row < c)"
    if h: "tTracker (tab s) (b, p) = None" "tMeta (tab s) p = Some row"
      "tTracker (tab s) k = Some (c', u)" "mCreatedAt row < c'" for k c' u
  proof -
    obtain t where t: "m = Some t" "c' \<le> t"
    proof (cases m)
      case None
      with yb_max_created [OF pg, of s] m h(3) show ?thesis by simp
    next
      case (Some t)
      with yb_max_created [OF pg, of s] m have "\<forall>k c u. tTracker (tab s) k = Some (c, u) \<longrightarrow> c \<le> t" by simp
      with Some h(3) that show ?thesis by blast
    qed
    have "(b, p) \<notin> newTracked (tab s) (lastCopied m)"
      using h(2,4) t by (auto simp: newTracked_def lastCopied_def)
    with h(1) dom have "tTracker (tab s') (b, p) = None" by (metis UnE domIff)
    moreover have "tTracker (tab s1) k = Some (c', u)" using c h(3) by (metis domI map_le_def)
    then have "\<exists>u. tTracker (tab s') k = Some (c', u)" by (cases k) (auto simp: s')
    moreover have "tMeta (tab s') = tMeta (tab s)" by (simp add: s' meta)
    ultimately show ?thesis using h(2,4) by metis
  qed
  with dom show ?thesis by blast
qed

theorem yb_late_miner_never_tracked_witness:
  "\<exists>s'. Yb_NextPiecesToCheck demoYb (demoDbT\<lparr>dbTracker := [((''n'', ''q''), 75000000000000000000, 0)]\<rparr>)
      80000000000000000000 ''m'' = (Inr [], s') \<and>
    tDeals (demoTab s') ''u'' = Some (''p'', demoYbDeal) \<and> tTracker (demoTab s') (''m'', ''p'') = None"
proof -
  let ?s = "demoDbT\<lparr>dbTracker := [((''n'', ''q''), 75000000000000000000, 0)]\<rparr>"
  obtain s' where r: "Yb_NextPiecesToCheck demoYb ?s 80000000000000000000 ''m'' = (Inr [], s')"
    "dbDeals s' = dbDeals ?s"
    by (simp add: demo_tracker_defs Let_def)
  have m: "ybMaxCreated demoYb ?s = Inr (Some 75000000000000000000)" by (simp add: demoYb_def live_def)
  have "tTracker (demoTab s') (''m'', ''p'') = None"
    using yb_late_miner_never_tracked [OF demoYb_ok demoYb_pg_ok m r(1), of "''m''" "''p''"
      "\<lparr>mVersion = ''1'', mIndexedAt = 0, mComplete = True, mCreatedAt = 70000000000000000000\<rparr>"]
    by (auto simp: demoTab_def demoDbT_def)
  with r show ?thesis by (simp add: demoTab_def demoDbT_def)
qed

text \<open>
  Flagging a piece again updates its time but keeps the first value of the unsealed-copy bit,
  although the doctor passes the new one; only after unflagging is a new value stored.
\<close>

theorem yb_flag_keeps_first_bit:
  assumes ok: "yb_ok D tab"
    and f: "Yb_FlagPiece D s now p huc a = (None, s')"
  shows "tFlagged (tab s') (a, p) = Some (case tFlagged (tab s) (a, p) of
      None \<Rightarrow> \<lparr>fCreatedAt = now, fUpdatedAt = now, fHasUnsealedCopy = huc\<rparr>
    | Some r \<Rightarrow> r\<lparr>fUpdatedAt := now\<rparr>) \<and>
    (\<forall>k. k \<noteq> (a, p) \<longrightarrow> tFlagged (tab s') k = tFlagged (tab s) k) \<and>
    (\<forall>s''. Yb_UnflagPiece D s' p a = (None, s'') \<longrightarrow> tFlagged (tab s'') = (tFlagged (tab s))((a, p) := None))"
proof -
  have "ybExec D s (InsertFlag a p now now huc) = (None, s')"
    using f by (auto simp: Yb_FlagPiece_def split: prod.splits option.splits)
  from yb_exec [OF ok this] have s': "tab s' = stmtSem (InsertFlag a p now now huc) (tab s)" .
  have "tab s'' = stmtSem (DeleteFlag a p) (tab s')" if "Yb_UnflagPiece D s' p a = (None, s'')" for s''
    using that yb_exec [OF ok] by (auto simp: Yb_UnflagPiece_def split: prod.splits option.splits)
  with s' show ?thesis by (auto split: option.split)
qed

theorem yb_flag_keeps_first_bit_witness:
  "\<exists>s'. Yb_FlagPiece demoYb (demoDb0\<lparr>dbFlagged := [((''m'', ''p''), \<lparr>fCreatedAt = 1, fUpdatedAt = 1,
      fHasUnsealedCopy = True\<rparr>)]\<rparr>) 9 ''p'' False ''m'' = (None, s') \<and>
    tFlagged (demoTab s') (''m'', ''p'') = Some \<lparr>fCreatedAt = 1, fUpdatedAt = 9, fHasUnsealedCopy = True\<rparr>"
proof -
  let ?s = "demoDb0\<lparr>dbFlagged := [((''m'', ''p''), \<lparr>fCreatedAt = 1, fUpdatedAt = 1, fHasUnsealedCopy = True\<rparr>)]\<rparr>"
  obtain s' where f: "Yb_FlagPiece demoYb ?s 9 ''p'' False ''m'' = (None, s')"
    by (simp add: Yb_FlagPiece_def demoYb_def)
  with yb_flag_keeps_first_bit [OF demoYb_ok f] show ?thesis by (simp add: demoTab_def)
qed


section \<open>Queries with optional parts\<close>

text \<open>The placeholders of a query text: the digit after each dollar sign.\<close>

fun placeholders :: "string \<Rightarrow> string list" where
  "placeholders (CHR ''$'' # c # cs) = [c] # placeholders cs"
| "placeholders (c # cs) = placeholders cs"
| "placeholders [] = []"

text \<open>
  Whatever parts of the filter, the cursor and the paging are given, the texts of the list and the
  count query use the placeholders from 1 up, in order and each once, as many as there are arguments.
\<close>

theorem yb_flagged_placeholders:
  "placeholders (fst (flaggedListQuery D fl cursor offset' limit)) =
      map show_nat [1..<Suc (length (snd (flaggedListQuery D fl cursor offset' limit)))] \<and>
   placeholders (fst (flaggedCountQuery fl)) = map show_nat [1..<Suc (length (snd (flaggedCountQuery fl)))]"
proof -
  have n: "show_nat 1 = ''1''" "show_nat 2 = ''2''" "show_nat 3 = ''3''" "show_nat 4 = ''4''" "show_nat 5 = ''5''"
    by code_simp+
  show ?thesis
    by (cases cursor; cases fl)
      (simp_all add: flaggedListQuery_def flaggedCountQuery_def Let_def n [simplified numeral_nat]
        numeral_nat upt_rec)
qed

text \<open>
  The progress of a scan is between 0 and 1, also when more pieces were scanned than there are
  deals; it is 1 for a miner without deals and from above 95 percent on.
\<close>

theorem yb_scan_progress_bounds:
  assumes "Yb_ScanProgress D s a = Inr r"
  shows "0 \<le> scProgress r \<and> scProgress r \<le> 1 \<and>
    (scProgress r = 1 \<longleftrightarrow> (\<exists>n t. ybScanned D s a = Inr n \<and> ybDealCount D s a = Inr t \<and>
      (t = 0 \<or> 95 * t < 100 * n)))"
proof -
  from assms obtain n t where n: "ybScanned D s a = Inr n" "ybDealCount D s a = Inr t"
    and p: "scProgress r = (let q = (if t \<noteq> 0 then of_nat n / of_nat t else 1 :: rat) in if 95 / 100 < q then 1 else q)"
    by (auto simp: Yb_ScanProgress_def Let_def split: sum.splits)
  show ?thesis
  proof (cases "t = 0")
    case False
    then have "(95 / 100 < (of_nat n / of_nat t :: rat)) = (95 * of_nat t < (100 * of_nat n :: rat))"
      by (simp add: field_simps)
    also have "\<dots> = (95 * t < 100 * n)" by (metis of_nat_less_iff of_nat_mult of_nat_numeral)
    finally have "(95 / 100 < (of_nat n / of_nat t :: rat)) = (95 * t < 100 * n)" .
    with False n p show ?thesis by (auto simp: Let_def split: if_splits)
  qed (use n p in simp)
qed

theorem yb_scan_progress_bounds_witness:
  "\<exists>r. Yb_ScanProgress demoYb demoDbT ''m'' = Inr r \<and> scProgress r = 0"
proof -
  obtain r where r: "Yb_ScanProgress demoYb demoDbT ''m'' = Inr r"
    by (simp add: Yb_ScanProgress_def demoDbT_def demoDb0_def demoYb_def live_def Let_def)
  have "scProgress r \<noteq> 1"
    using yb_scan_progress_bounds [OF r] by (simp add: demoDbT_def demoDb0_def demoYb_def live_def demoYbDeal_def)
  with r show ?thesis
    by (auto simp: Yb_ScanProgress_def demoDbT_def demoDb0_def demoYb_def live_def Let_def demoYbDeal_def)
qed

end
