(* ===== verification/Reseal.thy ===== *)
theory Reseal
  imports GoStd SectorState
begin

text \<open>
  The stages of resealing a sector, \<open>cmd/reseal.go\<close>, and \<open>cmd/gen.go\<close>: the list of sectors to seal,
  the database row of a sector, adding its piece, the two pre-commits, the finalization and the moving
  of its files. The file system, the database, the sealer and the packages \<open>txcar\<close>, \<open>cid\<close>, \<open>uuid\<close>
  and \<open>homedir\<close> are the record \<open>rsEnv\<close> over an opaque state \<open>'s\<close>. Logging is left out.
\<close>

section \<open>Data\<close>

record SectorSealInfo =
  siSid :: u64
  sealType :: string
  isDC :: bool
  carKey :: string

record SectorMeta =
  SpID :: int
  SectorNum :: int
  TicketEpoch :: int
  TicketValue :: "u8 list"
  OrigUnsealedCid :: string
  OrigSealedCid :: string
  MsgCidPrecommit :: string
  smSeed :: "u8 list"
  PorepProof :: "u8 list"

record PieceInfo =
  piSize :: u64
  piPieceCID :: cid

record SectorRef =
  refID :: SectorID
  refProofType :: int

record txPiece =
  txPieceCid :: cid
  txPieceSize :: u64

definition zeroUUID :: string where
  "zeroUUID = replicate 16 (CHR 0x00)"

text \<open>The undefined CID holds the empty string.\<close>

definition zeroPieceInfo :: PieceInfo where
  "zeroPieceInfo = \<lparr>piSize = 0, piPieceCID = []\<rparr>"

section \<open>The environment\<close>

text \<open>
  Queries give the rows and the error of \<open>db.Select\<close>. \<open>AcquireSector\<close> gives the path of the unsealed
  file, whether \<open>done\<close> is a function (it is nil otherwise), and an error. A command gives its standard
  error and the error of \<open>Run\<close>. The file types are their names.
\<close>

record 's rsEnv =
  rsSelectMeta :: "'s \<Rightarrow> u64 \<Rightarrow> SectorMeta list \<times> goerr option"
  rsSelectPipeline :: "'s \<Rightarrow> u64 \<Rightarrow> SectorMeta list \<times> goerr option"
  rsCidDecode :: "string \<Rightarrow> goerr + cid"
  rsCidString :: "cid \<Rightarrow> string"
  rsUuidParse :: "string \<Rightarrow> goerr + string"
  rsCreateCarFile :: "'s \<Rightarrow> string \<Rightarrow> (goerr + string \<times> txPiece) \<times> 's"
  rsCreateUnsealed :: "'s \<Rightarrow> txPiece \<Rightarrow> string \<Rightarrow> (goerr + string) \<times> 's"
  rsAcquireSector :: "'s \<Rightarrow> SectorRef \<Rightarrow> string \<times> bool \<times> goerr option \<times> 's"
  rsDone :: "'s \<Rightarrow> SectorRef \<Rightarrow> 's"
  rsRename :: "'s \<Rightarrow> string \<Rightarrow> string \<Rightarrow> goerr option \<times> 's"
  rsPreCommit1 :: "'s \<Rightarrow> SectorRef \<Rightarrow> u8 list \<Rightarrow> PieceInfo list \<Rightarrow> (goerr + string) \<times> 's"
  rsPreCommit2 :: "'s \<Rightarrow> SectorRef \<Rightarrow> string \<Rightarrow> (goerr + cid \<times> cid) \<times> 's"
  rsFinalizeSector :: "'s \<Rightarrow> SectorRef \<Rightarrow> goerr option \<times> 's"
  rsCommit1 :: "'s \<Rightarrow> SectorRef \<Rightarrow> u8 list \<Rightarrow> u8 list \<Rightarrow> PieceInfo list \<Rightarrow> cid \<times> cid \<Rightarrow> goerr + string"
  rsCommit2 :: "'s \<Rightarrow> SectorRef \<Rightarrow> string \<Rightarrow> goerr + u8 list"
  rsExpand :: "string \<Rightarrow> goerr + string"
  rsStat :: "'s \<Rightarrow> string \<Rightarrow> goerr option"
  rsMkdirAll :: "'s \<Rightarrow> string \<Rightarrow> goerr option \<times> 's"
  rsCommand :: "'s \<Rightarrow> string list \<Rightarrow> string \<times> goerr option \<times> 's"
  rsDarwin :: bool
  rsPathTypes :: "string list"
  rsFTUnsealed :: string
  rsFTSealed :: string
  rsFTCache :: string
  rsSectorName :: "SectorID \<Rightarrow> string"

section \<open>Directories\<close>

definition resealDir :: "string \<Rightarrow> string \<Rightarrow> goerr + string" where
  "resealDir sdir home =
     (if sdir = [] then
        (if home = [] then Inl (errorf ''No storage directory is set and get $HOME fail.'')
         else Inr (filepathJoin [home, ''redo'']))
      else Inr sdir)"

fun prepareTypes :: "'s rsEnv \<Rightarrow> string \<Rightarrow> string list \<Rightarrow> 's \<Rightarrow> goerr option \<times> 's" where
  "prepareTypes E path [] s = (None, s)"
| "prepareTypes E path (t # ts) s =
     (case rsStat E s (filepathJoin [path, t]) of
        None \<Rightarrow> prepareTypes E path ts s
      | Some _ \<Rightarrow>
          (case rsMkdirAll E s (filepathJoin [path, t]) of
             (Some err, s') \<Rightarrow> (Some err, s')
           | (None, s') \<Rightarrow> prepareTypes E path ts s'))"

fun prepareDirs :: "'s rsEnv \<Rightarrow> string list \<Rightarrow> 's \<Rightarrow> goerr option \<times> 's" where
  "prepareDirs E [] s = (None, s)"
| "prepareDirs E (path # paths) s =
     (if path = [] then prepareDirs E paths s
      else case prepareTypes E path (rsPathTypes E) s of
          (Some err, s') \<Rightarrow> (Some err, s')
        | (None, s') \<Rightarrow> prepareDirs E paths s')"

section \<open>The list of sectors\<close>

text \<open>
  One line: an index beyond the fields of the line panics. \<open>abi.SectorNumber(sid)\<close> takes the \<open>int\<close>
  modulo \<open>2 ^ 64\<close>.
\<close>

definition parseSealLine :: "(string \<Rightarrow> goerr + string) \<Rightarrow> string \<Rightarrow> SectorSealInfo outcome" where
  "parseSealLine uuidParse line =
     (let lineParts = splitOn (CHR '' '') line in
      case atoi (lineParts ! 0) of
        Inl err \<Rightarrow> Fail err
      | Inr sid \<Rightarrow>
          if length lineParts \<le> 1 then Panic
          else if length lineParts \<le> 2 then Panic
          else
            let dcParts = splitOn (CHR '':'') (lineParts ! 2);
                dc = (dcParts ! 0 = ''DC'');
                info = \<lparr>siSid = word_of_int sid, sealType = lineParts ! 1, isDC = dc, carKey = zeroUUID\<rparr>
            in if dc then
                 (if length dcParts \<le> 1 then Panic
                  else case uuidParse (dcParts ! 1) of
                      Inl err \<Rightarrow> Fail err | Inr key \<Rightarrow> Ret (info\<lparr>carKey := key\<rparr>))
               else Ret info)"

text \<open>
  The loop over the lines: the entries read so far and an error of the scanner come together, an
  error of a line comes without entries.
\<close>

fun sealInfoLoop ::
  "(string \<Rightarrow> goerr + string) \<Rightarrow> string list \<Rightarrow> goerr option \<Rightarrow> SectorSealInfo list \<Rightarrow>
    (SectorSealInfo list \<times> goerr option) outcome" where
  "sealInfoLoop uuidParse [] scanErr infos = Ret (infos, scanErr)"
| "sealInfoLoop uuidParse (line # ls) scanErr infos =
     (if trimSpace line = [] then sealInfoLoop uuidParse ls scanErr infos
      else case parseSealLine uuidParse line of
          Panic \<Rightarrow> Panic
        | Fail err \<Rightarrow> Ret ([], Some err)
        | Ret info \<Rightarrow> sealInfoLoop uuidParse ls scanErr (infos @ [info]))"

definition ReadSectorSealInfos ::
  "(string \<Rightarrow> goerr + string) \<Rightarrow> goerr + string \<Rightarrow> (SectorSealInfo list \<times> goerr option) outcome" where
  "ReadSectorSealInfos uuidParse file =
     (case file of
        Inl err \<Rightarrow> Ret ([], Some err)
      | Inr content \<Rightarrow>
          (case scanLines (rawLines content) of
             (ls, scanErr) \<Rightarrow> sealInfoLoop uuidParse ls scanErr []))"

section \<open>Adding the piece\<close>

definition sectorRef :: "u64 \<Rightarrow> u64 \<Rightarrow> int \<Rightarrow> SectorRef" where
  "sectorRef actor sid spt = \<lparr>refID = \<lparr>Miner = actor, Number = sid\<rparr>, refProofType = spt\<rparr>"

text \<open>
  The deferred \<open>done()\<close> runs on every return after it; it panics when \<open>done\<close> is nil. On a piece with
  another CID the function returns the variable \<open>err\<close>, which is nil there.
\<close>

definition addPiece ::
  "'s rsEnv \<Rightarrow> 's \<Rightarrow> SectorSealInfo \<Rightarrow> u64 \<Rightarrow> int \<Rightarrow> SectorMeta \<Rightarrow> PieceInfo outcome \<times> 's" where
  "addPiece E s info actor spt sectorMeta =
     (case rsCidDecode E (OrigUnsealedCid sectorMeta) of
        Inl err \<Rightarrow> (Fail err, s)
      | Inr dbOrigUnsealedCid \<Rightarrow>
          let sidRef = sectorRef actor (siSid info) spt in
          (case rsCreateCarFile E s (carKey info) of
             (Inl err, s1) \<Rightarrow> (Fail err, s1)
           | (Inr (carFile, tx), s1) \<Rightarrow>
               if txPieceCid tx \<noteq> dbOrigUnsealedCid then (Ret zeroPieceInfo, s1)
               else (case rsCreateUnsealed E s1 tx carFile of
                   (Inl err, s2) \<Rightarrow> (Fail err, s2)
                 | (Inr unsealedFile, s2) \<Rightarrow>
                     (case rsAcquireSector E s2 sidRef of
                        (stagedPath, hasDone, aerr, s3) \<Rightarrow>
                          let (r, s4) =
                            (case aerr of
                               Some err \<Rightarrow> (Fail err, s3)
                             | None \<Rightarrow>
                                 (case rsRename E s3 unsealedFile stagedPath of
                                    (Some err, s4) \<Rightarrow> (Fail err, s4)
                                  | (None, s4) \<Rightarrow>
                                      (Ret \<lparr>piSize = txPieceSize tx, piPieceCID = txPieceCid tx\<rparr>, s4)))
                          in if hasDone then (r, rsDone E s4 sidRef) else (Panic, s4)))))"

section \<open>Sealing\<close>

definition precommit1 ::
  "'s rsEnv \<Rightarrow> 's \<Rightarrow> PieceInfo \<Rightarrow> u64 \<Rightarrow> u64 \<Rightarrow> int \<Rightarrow> SectorMeta \<Rightarrow> (goerr + string) \<times> 's" where
  "precommit1 E s piece sid actor spt sectorMeta =
     (case rsPreCommit1 E s (sectorRef actor sid spt) (TicketValue sectorMeta) [piece] of
        (Inl err, s') \<Rightarrow> (Inl err, s')
      | (Inr p1Out, s') \<Rightarrow> (Inr p1Out, s'))"

definition precommit2 ::
  "'s rsEnv \<Rightarrow> 's \<Rightarrow> u64 \<Rightarrow> u64 \<Rightarrow> int \<Rightarrow> string \<Rightarrow> SectorMeta \<Rightarrow> goerr option \<times> 's" where
  "precommit2 E s sid actor spt p1Out sectorMeta =
     (case rsCidDecode E (OrigSealedCid sectorMeta) of
        Inl err \<Rightarrow> (Some err, s)
      | Inr dbOrigSealedCid \<Rightarrow>
          (case rsPreCommit2 E s (sectorRef actor sid spt) p1Out of
             (Inl err, s') \<Rightarrow> (Some err, s')
           | (Inr (unsealedCid, sealedCid), s') \<Rightarrow>
               if rsCidString E sealedCid \<noteq> rsCidString E dbOrigSealedCid
               then (Some (errorf ''cids.Sealed.String() != commR.String()''), s')
               else (None, s')))"

section \<open>Finalization\<close>

definition moveFile :: "'s rsEnv \<Rightarrow> 's \<Rightarrow> string \<Rightarrow> string \<Rightarrow> goerr option \<times> 's" where
  "moveFile E s from0 to0 =
     (case rsExpand E from0 of
        Inl err \<Rightarrow> (Some (errorf_w ''move: expanding from: '' err), s)
      | Inr from' \<Rightarrow>
          (case rsExpand E to0 of
             Inl err \<Rightarrow> (Some (errorf_w ''move: expanding to: '' err), s)
           | Inr to' \<Rightarrow>
               if filepathBase from' \<noteq> filepathBase to'
               then (Some (errorf (''move: base names must match ('' @ [CHR 0x27] @ filepathBase from' @
                 [CHR 0x27] @ '' != '' @ [CHR 0x27] @ filepathBase to' @ [CHR 0x27] @ '')'')), s)
               else
                 let toDir = filepathDir to';
                     (merr, s1) = (if rsDarwin E then rsMkdirAll E s toDir else (None, s));
                     cmd = (if rsDarwin E then [''/usr/bin/env'', ''mv'', from', toDir]
                            else [''/usr/bin/env'', ''mv'', ''-t'', toDir, from'])
                 in (case merr of
                       Some err \<Rightarrow> (Some (errorf_s ''failed exec MkdirAll: '' err), s1)
                     | None \<Rightarrow>
                         (case rsCommand E s1 cmd of
                            (errOut, Some err, s2) \<Rightarrow>
                              (Some (errorf_w (''exec mv (stderr: '' @ trimSpace errOut @ ''): '') err), s2)
                          | (errOut, None, s2) \<Rightarrow> (None, s2)))))"

definition removeFile :: "'s rsEnv \<Rightarrow> 's \<Rightarrow> string \<Rightarrow> goerr option \<times> 's" where
  "removeFile E s filePath =
     (case rsExpand E filePath of
        Inl err \<Rightarrow> (Some (errorf_w ''removeFile: expanding from: '' err), s)
      | Inr filePath' \<Rightarrow>
          (case rsCommand E s [''/usr/bin/env'', ''rm'', filePath'] of
             (errOut, Some err, s') \<Rightarrow>
               (Some (errorf_w (''exec rm (stderr: '' @ trimSpace errOut @ ''): '') err), s')
           | (errOut, None, s') \<Rightarrow> (None, s')))"

fun moveTypes :: "'s rsEnv \<Rightarrow> string \<Rightarrow> string \<Rightarrow> string \<Rightarrow> string list \<Rightarrow> 's \<Rightarrow> goerr option \<times> 's" where
  "moveTypes E sdir storageDir name [] s = (None, s)"
| "moveTypes E sdir storageDir name (pt # pts) s =
     (if pt \<noteq> rsFTSealed E \<and> pt \<noteq> rsFTCache E then moveTypes E sdir storageDir name pts s
      else case moveFile E s (filepathJoin [sdir, pt, name]) (filepathJoin [storageDir, pt, name]) of
          (Some err, s') \<Rightarrow> (Some err, s')
        | (None, s') \<Rightarrow> moveTypes E sdir storageDir name pts s')"

definition finalizeSector ::
  "'s rsEnv \<Rightarrow> 's \<Rightarrow> u64 \<Rightarrow> u64 \<Rightarrow> int \<Rightarrow> string \<Rightarrow> string \<Rightarrow> goerr option \<times> 's" where
  "finalizeSector E s sid actor spt sdir storageDir =
     (let sidRef = sectorRef actor sid spt; name = rsSectorName E (refID sidRef) in
      case rsFinalizeSector E s sidRef of
        (Some err, s1) \<Rightarrow> (Some err, s1)
      | (None, s1) \<Rightarrow>
          (case moveTypes E sdir storageDir name (rsPathTypes E) s1 of
             (Some err, s2) \<Rightarrow> (Some err, s2)
           | (None, s2) \<Rightarrow>
               (case removeFile E s2 (filepathJoin [sdir, rsFTUnsealed E, name]) of
                  (Some err, s3) \<Rightarrow> (Some err, s3)
                | (None, s3) \<Rightarrow> (None, s3))))"

section \<open>gen-c1\<close>

text \<open>
  The command after its setup: \<open>sectorSize\<close> in padded bytes, whose round trip through the unpadded
  size is the parameter \<open>padded\<close>. The comparison with the stored proof is only logged.
\<close>

definition GenC1 ::
  "'s rsEnv \<Rightarrow> 's \<Rightarrow> (u64 \<Rightarrow> u64) \<Rightarrow> u64 \<Rightarrow> u64 \<Rightarrow> u64 \<Rightarrow> int \<Rightarrow> goerr option" where
  "GenC1 E s padded sectorSize sid actor spt =
     (let sector = sectorRef actor sid spt;
          commit = (\<lambda>sectorMeta.
            (case rsCidDecode E (OrigUnsealedCid sectorMeta) of
               Inl err \<Rightarrow> Some err
             | Inr pieceCid \<Rightarrow>
                 (case rsCidDecode E (OrigSealedCid sectorMeta) of
                    Inl err \<Rightarrow> Some err
                  | Inr sealedCid \<Rightarrow>
                      (case rsCommit1 E s sector (TicketValue sectorMeta) (smSeed sectorMeta)
                              [\<lparr>piSize = padded sectorSize, piPieceCID = pieceCid\<rparr>] (pieceCid, sealedCid) of
                         Inl err \<Rightarrow> Some err
                       | Inr c1out \<Rightarrow>
                           (case rsCommit2 E s sector c1out of Inl err \<Rightarrow> Some err | Inr c2out \<Rightarrow> None)))))
      in case rsSelectMeta E s sid of
           (rows, Some err) \<Rightarrow> Some err
         | (rows, None) \<Rightarrow>
             if length rows = 1 then commit (hd rows)
             else (case rsSelectPipeline E s sid of
                 (rows2, Some err) \<Rightarrow> Some err
               | (rows2, None) \<Rightarrow> if length rows2 = 1 then commit (hd rows2) else None))"

end
