(* ===== verification/ResealRun.thy ===== *)
theory ResealRun
  imports Reseal
begin

text \<open>
  The concurrent part of \<open>Reseal\<close> (\<open>cmd/reseal.go\<close>): one goroutine per sector, which takes a place in
  \<open>sectorsThrottle\<close>, reads its database row, and goes through the stages, each behind a throttle of its
  own. A throttle is a buffered channel, of which only the number of elements matters. The variable
  \<open>err\<close> of the enclosing function is shared: both queries assign to it before they look at it. A stage
  is one step on the world; a step is otherwise one access to shared state.
\<close>

section \<open>State\<close>

datatype rsStage = StAP | StP1 | StP2 | StFIN

datatype rsJob =
    JobAP SectorMeta
  | JobP1 SectorMeta PieceInfo
  | JobP2 SectorMeta string
  | JobFIN SectorMeta

fun stageOf :: "rsJob \<Rightarrow> rsStage" where
  "stageOf (JobAP m) = StAP"
| "stageOf (JobP1 m piece) = StP1"
| "stageOf (JobP2 m p1Out) = StP2"
| "stageOf (JobFIN m) = StFIN"

datatype rsPc =
    Start
  | Select1
  | Check1 "SectorMeta list"
  | Select2
  | Check2 "SectorMeta list"
  | Want rsJob
  | Work rsJob
  | Free rsStage "rsJob option"
  | Leave
  | Finished

record rsConfig =
  rcInfos :: "SectorSealInfo list"
  rcActor :: u64
  rcSpt :: int
  rcSdir :: string
  rcStorageDir :: string
  rcSmax :: nat
  rcP1max :: nat

record 's reseal =
  rsWorld :: 's
  rsErr :: "goerr option"
  rsSectors :: nat
  rsBusy :: "rsStage \<Rightarrow> nat"
  rsPcs :: "rsPc list"

definition stageCap :: "rsConfig \<Rightarrow> rsStage \<Rightarrow> nat" where
  "stageCap cfg st = (if st = StP1 then rcP1max cfg else 1)"

definition rsInit :: "rsConfig \<Rightarrow> 's \<Rightarrow> 's reseal" where
  "rsInit cfg w =
     \<lparr>rsWorld = w, rsErr = None, rsSectors = 0, rsBusy = (\<lambda>_. 0),
      rsPcs = replicate (length (rcInfos cfg)) Start\<rparr>"

definition goto :: "nat \<Rightarrow> rsPc \<Rightarrow> 's reseal \<Rightarrow> 's reseal" where
  "goto t pc s = s\<lparr>rsPcs := (rsPcs s)[t := pc]\<rparr>"

section \<open>Steps\<close>

text \<open>The work of a stage: the next stage, if any, and the world; \<open>Panic\<close> ends the process.\<close>

definition doJob ::
  "'s rsEnv \<Rightarrow> rsConfig \<Rightarrow> SectorSealInfo \<Rightarrow> rsJob \<Rightarrow> 's \<Rightarrow> rsJob option outcome \<times> 's" where
  "doJob E cfg info job w =
     (let sid = siSid info; actor = rcActor cfg; spt = rcSpt cfg in
      case job of
        JobAP m \<Rightarrow>
          (case addPiece E w info actor spt m of
             (Panic, w') \<Rightarrow> (Panic, w')
           | (Fail err, w') \<Rightarrow> (Ret None, w')
           | (Ret piece, w') \<Rightarrow> (Ret (if sealType info = ''AP'' then None else Some (JobP1 m piece)), w'))
      | JobP1 m piece \<Rightarrow>
          (case precommit1 E w piece sid actor spt m of
             (Inl err, w') \<Rightarrow> (Ret None, w')
           | (Inr p1Out, w') \<Rightarrow> (Ret (if sealType info = ''P1'' then None else Some (JobP2 m p1Out)), w'))
      | JobP2 m p1Out \<Rightarrow>
          (case precommit2 E w sid actor spt p1Out m of
             (Some err, w') \<Rightarrow> (Ret None, w')
           | (None, w') \<Rightarrow> (Ret (if sealType info = ''P2'' then None else Some (JobFIN m)), w'))
      | JobFIN m \<Rightarrow>
          (case finalizeSector E w sid actor spt (rcSdir cfg) (rcStorageDir cfg) of
             (err, w') \<Rightarrow> (Ret None, w')))"

text \<open>
  The next step of goroutine \<open>t\<close>, \<open>None\<close> when it is blocked or done. Sending to a throttle needs room
  in its buffer: no goroutine receives from one before its own send. Receiving needs an element.
\<close>

definition rsStep :: "'s rsEnv \<Rightarrow> rsConfig \<Rightarrow> nat \<Rightarrow> 's reseal \<Rightarrow> 's reseal outcome option" where
  "rsStep E cfg t s =
     (let info = rcInfos cfg ! t; w = rsWorld s in
      if length (rsPcs s) \<le> t then None
      else case rsPcs s ! t of
        Start \<Rightarrow>
          if rsSectors s < rcSmax cfg
          then Some (Ret (goto t Select1 (s\<lparr>rsSectors := rsSectors s + 1\<rparr>))) else None
      | Select1 \<Rightarrow>
          (case rsSelectMeta E w (siSid info) of
             (rows, err) \<Rightarrow> Some (Ret (goto t (Check1 rows) (s\<lparr>rsErr := err\<rparr>))))
      | Check1 rows \<Rightarrow>
          Some (Ret (goto t
            (if rsErr s \<noteq> None then Leave
             else if length rows \<noteq> 1 then Select2 else Want (JobAP (hd rows))) s))
      | Select2 \<Rightarrow>
          (case rsSelectPipeline E w (siSid info) of
             (rows, err) \<Rightarrow> Some (Ret (goto t (Check2 rows) (s\<lparr>rsErr := err\<rparr>))))
      | Check2 rows \<Rightarrow>
          Some (Ret (goto t
            (if rsErr s \<noteq> None then Leave
             else if length rows \<noteq> 1 then Leave else Want (JobAP (hd rows))) s))
      | Want job \<Rightarrow>
          if rsBusy s (stageOf job) < stageCap cfg (stageOf job)
          then Some (Ret (goto t (Work job)
            (s\<lparr>rsBusy := (rsBusy s)(stageOf job := rsBusy s (stageOf job) + 1)\<rparr>)))
          else None
      | Work job \<Rightarrow>
          (case doJob E cfg info job w of
             (Panic, w') \<Rightarrow> Some Panic
           | (Fail err, w') \<Rightarrow> Some (Fail err)
           | (Ret nxt, w') \<Rightarrow> Some (Ret (goto t (Free (stageOf job) nxt) (s\<lparr>rsWorld := w'\<rparr>))))
      | Free st nxt \<Rightarrow>
          if rsBusy s st = 0 then None
          else Some (Ret (goto t (case nxt of None \<Rightarrow> Leave | Some job \<Rightarrow> Want job)
            (s\<lparr>rsBusy := (rsBusy s)(st := rsBusy s st - 1)\<rparr>)))
      | Leave \<Rightarrow>
          if rsSectors s = 0 then None
          else Some (Ret (goto t Finished (s\<lparr>rsSectors := rsSectors s - 1\<rparr>)))
      | Finished \<Rightarrow> None)"

inductive rsReach :: "'s rsEnv \<Rightarrow> rsConfig \<Rightarrow> 's \<Rightarrow> 's reseal \<Rightarrow> bool" for E cfg w where
  init: "rsReach E cfg w (rsInit cfg w)"
| step: "rsReach E cfg w s \<Longrightarrow> rsStep E cfg t s = Some (Ret s') \<Longrightarrow> rsReach E cfg w s'"

section \<open>The invariant\<close>

fun inSector :: "rsPc \<Rightarrow> bool" where
  "inSector Start = False"
| "inSector Finished = False"
| "inSector _ = True"

fun holdsStage :: "rsStage \<Rightarrow> rsPc \<Rightarrow> bool" where
  "holdsStage st (Work job) = (stageOf job = st)"
| "holdsStage st (Free st' nxt) = (st' = st)"
| "holdsStage st _ = False"

definition rsInv :: "rsConfig \<Rightarrow> 's reseal \<Rightarrow> bool" where
  "rsInv cfg s \<longleftrightarrow>
     length (rsPcs s) = length (rcInfos cfg) \<and>
     rsSectors s = cnt inSector (rsPcs s) \<and> rsSectors s \<le> rcSmax cfg \<and>
     (\<forall>st. rsBusy s st = cnt (holdsStage st) (rsPcs s) \<and> rsBusy s st \<le> stageCap cfg st)"

text \<open>One goroutine moves and takes or frees places accordingly.\<close>

lemma rsInv_goto:
  assumes inv: "rsInv cfg s" and t: "t < length (rsPcs s)"
    and sec: "n + (if inSector (rsPcs s ! t) then 1 else 0) = rsSectors s + (if inSector pc then 1 else 0)"
      "n \<le> rcSmax cfg"
    and busy: "\<And>st. b st + (if holdsStage st (rsPcs s ! t) then 1 else 0) =
        rsBusy s st + (if holdsStage st pc then 1 else 0)" "\<And>st. b st \<le> stageCap cfg st"
  shows "rsInv cfg (goto t pc (s\<lparr>rsSectors := n, rsBusy := b, rsWorld := w, rsErr := e\<rparr>))"
proof -
  have "cnt inSector ((rsPcs s)[t := pc]) = n"
    using cnt_update [OF t, of inSector pc] sec(1) inv by (auto simp: rsInv_def split: if_splits)
  moreover have "cnt (holdsStage st) ((rsPcs s)[t := pc]) = b st" for st
    using cnt_update [OF t, of "holdsStage st" pc] busy(1) [of st] inv by (auto simp: rsInv_def split: if_splits)
  ultimately show ?thesis using inv sec(2) busy(2) by (simp add: rsInv_def goto_def)
qed

lemma rsStep_inv:
  assumes inv: "rsInv cfg s" and r: "rsStep E cfg t s = Some (Ret s')"
  shows "rsInv cfg s'"
proof -
  from r have t: "t < length (rsPcs s)" by (auto simp: rsStep_def Let_def split: if_splits)
  have le: "rsSectors s \<le> rcSmax cfg" "\<And>st. rsBusy s st \<le> stageCap cfg st"
    using inv unfolding rsInv_def by blast+
  note g = rsInv_goto [OF inv t]
  show ?thesis
  proof (cases "rsPcs s ! t")
    case Start
    with r t g [of "rsSectors s + 1" Select1 "rsBusy s" "rsErr s" "rsWorld s"] le show ?thesis
      by (auto simp: rsStep_def split: if_splits)
  next
    case Select1
    with r t g [of "rsSectors s" "Check1 rows" "rsBusy s" err "rsWorld s" for rows err] le show ?thesis
      by (auto simp: rsStep_def split: prod.splits)
  next
    case (Check1 rows)
    with r t g [of "rsSectors s" pc "rsBusy s" "rsErr s" "rsWorld s" for pc] le show ?thesis
      by (auto simp: rsStep_def)
  next
    case Select2
    with r t g [of "rsSectors s" "Check2 rows" "rsBusy s" err "rsWorld s" for rows err] le show ?thesis
      by (auto simp: rsStep_def split: prod.splits)
  next
    case (Check2 rows)
    with r t g [of "rsSectors s" pc "rsBusy s" "rsErr s" "rsWorld s" for pc] le show ?thesis
      by (auto simp: rsStep_def)
  next
    case (Want job)
    let ?b = "(rsBusy s)(stageOf job := rsBusy s (stageOf job) + 1)"
    from Want r t have lt: "rsBusy s (stageOf job) < stageCap cfg (stageOf job)"
      and s': "s' = goto t (Work job) (s\<lparr>rsBusy := ?b\<rparr>)"
      by (auto simp: rsStep_def split: if_splits)
    have "rsInv cfg (goto t (Work job)
        (s\<lparr>rsSectors := rsSectors s, rsBusy := ?b, rsWorld := rsWorld s, rsErr := rsErr s\<rparr>))"
      by (rule g) (use Want le lt in \<open>auto simp: less_eq_Suc_le\<close>)
    then show ?thesis by (simp add: s')
  next
    case (Work job)
    with r t g [of "rsSectors s" "Free (stageOf job) nxt" "rsBusy s" "rsErr s" w' for nxt w'] le show ?thesis
      by (auto simp: rsStep_def split: prod.splits outcome.splits)
  next
    case (Free st nxt)
    let ?b = "(rsBusy s)(st := rsBusy s st - 1)" and ?pc = "case nxt of None \<Rightarrow> Leave | Some job \<Rightarrow> Want job"
    from Free r t have pos: "0 < rsBusy s st" and s': "s' = goto t ?pc (s\<lparr>rsBusy := ?b\<rparr>)"
      by (auto simp: rsStep_def split: if_splits)
    have pc: "inSector ?pc" "\<not> holdsStage st' ?pc" for st' by (auto split: option.split)
    have "rsBusy s st - 1 \<le> stageCap cfg st" using le(2) [of st] by simp
    then have "rsInv cfg (goto t ?pc
        (s\<lparr>rsSectors := rsSectors s, rsBusy := ?b, rsWorld := rsWorld s, rsErr := rsErr s\<rparr>))"
      by (intro g) (use Free le pos pc in auto)
    then show ?thesis by (simp add: s')
  next
    case Leave
    with r t g [of "rsSectors s - 1" Finished "rsBusy s" "rsErr s" "rsWorld s"] le show ?thesis
      by (auto simp: rsStep_def split: if_splits)
  next
    case Finished
    with r t show ?thesis by (simp add: rsStep_def)
  qed
qed

lemma rsReach_inv: "rsReach E cfg w s \<Longrightarrow> rsInv cfg s"
proof (induction rule: rsReach.induct)
  case init
  have "cnt P (replicate n Start) = 0" if "\<not> P Start" for P :: "rsPc \<Rightarrow> bool" and n
    using that by (simp add: cnt_zero)
  then show ?case by (simp add: rsInv_def rsInit_def)
qed (rule rsStep_inv)

end
