(* ===== verification/ResealProps.thy ===== *)
theory ResealProps
  imports ResealRun
begin

text \<open>
  Properties of \<open>cmd/reseal.go\<close>: the sector list as a format, what finalization does to the files of
  a sector, and the concurrent run: its throttles, its end, and what it checks before it finalizes.
\<close>

section \<open>Progress\<close>

fun jobRank :: "rsJob \<Rightarrow> nat" where
  "jobRank (JobAP m) = 13"
| "jobRank (JobP1 m piece) = 10"
| "jobRank (JobP2 m p1Out) = 7"
| "jobRank (JobFIN m) = 4"

fun rsRank :: "rsPc \<Rightarrow> nat" where
  "rsRank Start = 18"
| "rsRank Select1 = 17"
| "rsRank (Check1 rows) = 16"
| "rsRank Select2 = 15"
| "rsRank (Check2 rows) = 14"
| "rsRank (Want job) = jobRank job"
| "rsRank (Work job) = jobRank job - 1"
| "rsRank (Free st None) = 2"
| "rsRank (Free st (Some job)) = jobRank job + 1"
| "rsRank Leave = 1"
| "rsRank Finished = 0"

definition rsLeft :: "'s reseal \<Rightarrow> nat" where
  "rsLeft s = sum_list (map rsRank (rsPcs s))"

inductive rsRun :: "'s rsEnv \<Rightarrow> rsConfig \<Rightarrow> nat \<Rightarrow> 's reseal \<Rightarrow> 's reseal \<Rightarrow> bool" for E cfg where
  refl: "rsRun E cfg 0 s s"
| step: "rsRun E cfg n s s' \<Longrightarrow> rsStep E cfg t s' = Some (Ret s'') \<Longrightarrow> rsRun E cfg (Suc n) s s''"

lemma rsLeft_goto:
  assumes "t < length (rsPcs s)" and "rsRank pc < rsRank (rsPcs s ! t)"
  shows "rsLeft (goto t pc s) < rsLeft s"
proof -
  have "sum_list (map rsRank ((rsPcs s)[t := pc])) + rsRank (rsPcs s ! t) =
      sum_list (map rsRank (rsPcs s)) + rsRank pc"
    using assms(1) elem_le_sum_list [of t "map rsRank (rsPcs s)"]
    by (simp add: map_update sum_list_update)
  with assms(2) show ?thesis by (simp add: rsLeft_def goto_def)
qed

lemma rsLeft_other:
  "rsLeft (goto t pc (s\<lparr>rsSectors := n\<rparr>)) = rsLeft (goto t pc s)"
  "rsLeft (goto t pc (s\<lparr>rsBusy := b\<rparr>)) = rsLeft (goto t pc s)"
  "rsLeft (goto t pc (s\<lparr>rsWorld := w\<rparr>)) = rsLeft (goto t pc s)"
  "rsLeft (goto t pc (s\<lparr>rsErr := e\<rparr>)) = rsLeft (goto t pc s)"
  by (simp_all add: rsLeft_def goto_def)

lemma doJob_rank:
  assumes "doJob E cfg info job w = (Ret nxt, w')"
  shows "rsRank (Free (stageOf job) nxt) < jobRank job - 1"
  using assms by (cases job) (auto simp: doJob_def Let_def split: prod.splits outcome.splits sum.splits
      option.splits if_splits)

lemma jobRank_pos: "4 \<le> jobRank job"
  by (cases job) auto

lemma rsStep_less:
  assumes r: "rsStep E cfg t s = Some (Ret s')"
  shows "rsLeft s' < rsLeft s"
proof -
  from r have t: "t < length (rsPcs s)" by (auto simp: rsStep_def Let_def split: if_splits)
  note less = rsLeft_goto [OF t]
  show ?thesis
  proof (cases "rsPcs s ! t")
    case (Check1 rows)
    with r t less [of Leave] less [of Select2] less [of "Want (JobAP (hd rows))"] show ?thesis
      by (auto simp: rsStep_def split: if_splits)
  next
    case (Check2 rows)
    with r t less [of Leave] less [of "Want (JobAP (hd rows))"] show ?thesis
      by (auto simp: rsStep_def split: if_splits)
  next
    case (Want job)
    with r t less [of "Work job"] jobRank_pos [of job] show ?thesis
      by (auto simp: rsStep_def rsLeft_other split: if_splits)
  next
    case (Work job)
    with r t obtain nxt w' where "doJob E cfg (rcInfos cfg ! t) job (rsWorld s) = (Ret nxt, w')"
      "s' = goto t (Free (stageOf job) nxt) (s\<lparr>rsWorld := w'\<rparr>)"
      by (auto simp: rsStep_def Let_def split: prod.splits outcome.splits)
    with less [of "Free (stageOf job) nxt"] doJob_rank [of E cfg _ job] Work show ?thesis
      by (simp add: rsLeft_other)
  next
    case (Free st nxt)
    with r t less [of Leave] less [of "Want (the nxt)"] show ?thesis
      by (cases nxt) (auto simp: rsStep_def rsLeft_other split: if_splits)
  qed (use r t less [of Select1] less [of "Check1 rows" for rows] less [of "Check2 rows" for rows]
      less [of Finished] in \<open>auto simp: rsStep_def rsLeft_other split: if_splits prod.splits\<close>)
qed

lemma holder_enabled:
  assumes inv: "rsInv cfg s" and t: "t < length (rsPcs s)" and h: "holdsStage st (rsPcs s ! t)"
  shows "rsStep E cfg t s \<noteq> None"
proof (cases "rsPcs s ! t")
  case (Free st' nxt)
  with h have "0 < cnt (holdsStage st') (rsPcs s)" by (intro cnt_pos [OF t]) auto
  then have "rsBusy s st' \<noteq> 0" using inv by (auto simp: rsInv_def)
  with Free t show ?thesis by (simp add: rsStep_def)
qed (use h t in \<open>auto simp: rsStep_def split: prod.splits outcome.splits\<close>)

lemma inside_progress:
  assumes inv: "rsInv cfg s" and cap: "0 < rcP1max cfg" and t: "t < length (rsPcs s)"
    and h: "inSector (rsPcs s ! t)"
  shows "\<exists>u. rsStep E cfg u s \<noteq> None"
proof (cases "rsPcs s ! t")
  case (Want job)
  show ?thesis
  proof (cases "rsBusy s (stageOf job) < stageCap cfg (stageOf job)")
    case True
    with Want t have "rsStep E cfg t s \<noteq> None" by (simp add: rsStep_def)
    then show ?thesis by blast
  next
    case False
    moreover have "0 < stageCap cfg (stageOf job)" using cap by (simp add: stageCap_def)
    ultimately have "cnt (holdsStage (stageOf job)) (rsPcs s) \<noteq> 0" using inv by (auto simp: rsInv_def)
    then obtain u where "u < length (rsPcs s)" "holdsStage (stageOf job) (rsPcs s ! u)"
      by (auto simp: cnt_zero in_set_conv_nth)
    with holder_enabled [OF inv] show ?thesis by blast
  qed
next
  case (Free st nxt)
  with holder_enabled [OF inv t, of st] show ?thesis by fastforce
next
  case (Work job)
  with holder_enabled [OF inv t, of "stageOf job"] show ?thesis by fastforce
next
  case Leave
  with h have "0 < cnt inSector (rsPcs s)" by (intro cnt_pos [OF t]) auto
  then have "rsSectors s \<noteq> 0" using inv by (auto simp: rsInv_def)
  with Leave t have "rsStep E cfg t s \<noteq> None" by (simp add: rsStep_def)
  then show ?thesis by blast
next
  case Select1
  with t have "rsStep E cfg t s \<noteq> None" by (simp add: rsStep_def split: prod.split)
  then show ?thesis by blast
next
  case Select2
  with t have "rsStep E cfg t s \<noteq> None" by (simp add: rsStep_def split: prod.split)
  then show ?thesis by blast
next
  case (Check1 rows)
  with t have "rsStep E cfg t s \<noteq> None" by (simp add: rsStep_def)
  then show ?thesis by blast
next
  case (Check2 rows)
  with t have "rsStep E cfg t s \<noteq> None" by (simp add: rsStep_def)
  then show ?thesis by blast
qed (use h in auto)

lemma run_progress:
  assumes inv: "rsInv cfg s" and cap: "0 < rcSmax cfg" "0 < rcP1max cfg"
    and blocked: "\<forall>t. rsStep E cfg t s = None" and t: "t < length (rsPcs s)"
  shows "rsPcs s ! t = Finished"
proof (rule ccontr)
  assume n: "rsPcs s ! t \<noteq> Finished"
  have out: "\<not> inSector (rsPcs s ! u)" if "u < length (rsPcs s)" for u
    using inside_progress [OF inv cap(2) that, of E] blocked by auto
  then have "cnt inSector (rsPcs s) = 0" by (auto simp: cnt_zero in_set_conv_nth)
  then have "rsSectors s < rcSmax cfg" using inv cap by (simp add: rsInv_def)
  moreover have "rsPcs s ! t = Start" using n out [OF t] by (cases "rsPcs s ! t") auto
  ultimately have "rsStep E cfg t s \<noteq> None" using t by (simp add: rsStep_def)
  with blocked show False by simp
qed


section \<open>Panics\<close>

text \<open>
  The one panic: \<open>AcquireSector\<close> gave no function \<open>done\<close>, and the deferred \<open>done()\<close> of \<open>addPiece\<close> is a call
  of nil.
\<close>

lemma addPiece_panics:
  assumes "addPiece E w info actor spt m = (Panic, w')"
  shows "\<exists>w1 path e w2. rsAcquireSector E w1 (sectorRef actor (siSid info) spt) = (path, False, e, w2)"
  using assms unfolding addPiece_def Let_def
  by (auto split: sum.splits prod.splits if_splits option.splits)

lemma doJob_panics:
  assumes "doJob E cfg info job w = (Panic, w')"
  shows "\<exists>m. job = JobAP m \<and> (\<exists>w1 path e w2.
    rsAcquireSector E w1 (sectorRef (rcActor cfg) (siSid info) (rcSpt cfg)) = (path, False, e, w2))"
  using assms addPiece_panics [of E w info "rcActor cfg" "rcSpt cfg"]
  by (cases job) (auto simp: doJob_def Let_def split: prod.splits outcome.splits sum.splits option.splits)

lemma doJob_no_fail: "doJob E cfg info job w \<noteq> (Fail err, w')"
  by (cases job) (auto simp: doJob_def Let_def split: prod.splits outcome.splits sum.splits option.splits)

lemma rsStep_panics:
  assumes "rsStep E cfg t s = Some Panic"
  shows "\<exists>m. t < length (rsPcs s) \<and> rsPcs s ! t = Work (JobAP m) \<and> (\<exists>w1 path e w2.
    rsAcquireSector E w1 (sectorRef (rcActor cfg) (siSid (rcInfos cfg ! t)) (rcSpt cfg)) = (path, False, e, w2))"
proof -
  from assms have t: "t < length (rsPcs s)" by (auto simp: rsStep_def Let_def split: if_splits)
  obtain job where job: "rsPcs s ! t = Work job"
    using assms t by (cases "rsPcs s ! t") (auto simp: rsStep_def Let_def split: if_splits prod.splits)
  with assms t obtain w' where "doJob E cfg (rcInfos cfg ! t) job (rsWorld s) = (Panic, w')"
    by (auto simp: rsStep_def Let_def split: prod.splits outcome.splits)
  from doJob_panics [OF this] job t show ?thesis by blast
qed

lemma rsStep_no_fail: "rsStep E cfg t s \<noteq> Some (Fail err)"
proof
  assume f: "rsStep E cfg t s = Some (Fail err)"
  then have t: "t < length (rsPcs s)" by (auto simp: rsStep_def Let_def split: if_splits)
  with f obtain job where "rsPcs s ! t = Work job"
    by (cases "rsPcs s ! t") (auto simp: rsStep_def Let_def split: if_splits prod.splits)
  with f t show False
    by (auto simp: rsStep_def Let_def doJob_no_fail split: prod.splits outcome.splits)
qed

section \<open>What a goroutine knows\<close>

text \<open>The row that a job works with is the one row of a query for the sector.\<close>

definition rowFor :: "'s rsEnv \<Rightarrow> u64 \<Rightarrow> SectorMeta \<Rightarrow> bool" where
  "rowFor E sid m \<longleftrightarrow>
     (\<exists>w err. rsSelectMeta E w sid = ([m], err)) \<or> (\<exists>w err. rsSelectPipeline E w sid = ([m], err))"

lemma rowForI:
  "rsSelectMeta E w sid = ([m], err) \<Longrightarrow> rowFor E sid m"
  "rsSelectPipeline E w sid = ([m], err) \<Longrightarrow> rowFor E sid m"
  unfolding rowFor_def by blast+

text \<open>Some run of the second pre-commit of the sector has given the sealed CID of the row.\<close>

definition sealedAs :: "'s rsEnv \<Rightarrow> rsConfig \<Rightarrow> u64 \<Rightarrow> SectorMeta \<Rightarrow> bool" where
  "sealedAs E cfg sid m \<longleftrightarrow>
     (\<exists>w p1Out unsealedCid sealedCid w' c.
        rsPreCommit2 E w (sectorRef (rcActor cfg) sid (rcSpt cfg)) p1Out = (Inr (unsealedCid, sealedCid), w') \<and>
        rsCidDecode E (OrigSealedCid m) = Inr c \<and> rsCidString E sealedCid = rsCidString E c)"

fun jobOk :: "'s rsEnv \<Rightarrow> rsConfig \<Rightarrow> u64 \<Rightarrow> rsJob \<Rightarrow> bool" where
  "jobOk E cfg sid (JobAP m) = rowFor E sid m"
| "jobOk E cfg sid (JobP1 m piece) = rowFor E sid m"
| "jobOk E cfg sid (JobP2 m p1Out) = rowFor E sid m"
| "jobOk E cfg sid (JobFIN m) = (rowFor E sid m \<and> sealedAs E cfg sid m)"

fun pcOk :: "'s rsEnv \<Rightarrow> rsConfig \<Rightarrow> u64 \<Rightarrow> rsPc \<Rightarrow> bool" where
  "pcOk E cfg sid (Check1 rows) = (\<exists>w err. rsSelectMeta E w sid = (rows, err))"
| "pcOk E cfg sid (Check2 rows) = (\<exists>w err. rsSelectPipeline E w sid = (rows, err))"
| "pcOk E cfg sid (Want job) = jobOk E cfg sid job"
| "pcOk E cfg sid (Work job) = jobOk E cfg sid job"
| "pcOk E cfg sid (Free st (Some job)) = jobOk E cfg sid job"
| "pcOk E cfg sid _ = True"

lemma precommit2_ok:
  assumes "precommit2 E w sid (rcActor cfg) (rcSpt cfg) p1Out m = (None, w')"
  shows "sealedAs E cfg sid m"
  using assms unfolding precommit2_def sealedAs_def
  by (auto split: sum.splits prod.splits if_splits) blast

lemma doJob_ok:
  assumes "jobOk E cfg (siSid info) job" and "doJob E cfg info job w = (Ret (Some nxt), w')"
  shows "jobOk E cfg (siSid info) nxt"
  using assms
  by (cases job) (auto simp: doJob_def Let_def precommit2_ok
      split: prod.splits outcome.splits sum.splits option.splits if_splits)

lemma rsStep_ok:
  assumes ok: "pcOk E cfg (siSid (rcInfos cfg ! t)) (rsPcs s ! t)" and r: "rsStep E cfg t s = Some (Ret s')"
  shows "pcOk E cfg (siSid (rcInfos cfg ! t)) (rsPcs s' ! t)"
proof -
  from r have t: "t < length (rsPcs s)" by (auto simp: rsStep_def Let_def split: if_splits)
  show ?thesis
  proof (cases "rsPcs s ! t")
    case (Check1 rows)
    with ok r t show ?thesis by (cases rows) (auto simp: rsStep_def goto_def split: if_splits intro: rowForI)
  next
    case (Check2 rows)
    with ok r t show ?thesis by (cases rows) (auto simp: rsStep_def goto_def split: if_splits intro: rowForI)
  next
    case (Work job)
    with r t obtain nxt w' where j: "doJob E cfg (rcInfos cfg ! t) job (rsWorld s) = (Ret nxt, w')"
      and s': "s' = goto t (Free (stageOf job) nxt) (s\<lparr>rsWorld := w'\<rparr>)"
      by (auto simp: rsStep_def Let_def split: prod.splits outcome.splits)
    have "jobOk E cfg (siSid (rcInfos cfg ! t)) job" using ok Work by simp
    with j t show ?thesis by (cases nxt) (auto simp: s' goto_def dest: doJob_ok)
  next
    case (Free st nxt)
    with ok r t show ?thesis by (cases nxt) (auto simp: rsStep_def goto_def split: if_splits)
  next
    case Select1
    with r t obtain rows err where q: "rsSelectMeta E (rsWorld s) (siSid (rcInfos cfg ! t)) = (rows, err)"
      and s': "s' = goto t (Check1 rows) (s\<lparr>rsErr := err\<rparr>)"
      by (auto simp: rsStep_def split: prod.splits)
    from q have "pcOk E cfg (siSid (rcInfos cfg ! t)) (Check1 rows)" by auto
    with t show ?thesis by (simp add: s' goto_def)
  next
    case Select2
    with r t obtain rows err where q: "rsSelectPipeline E (rsWorld s) (siSid (rcInfos cfg ! t)) = (rows, err)"
      and s': "s' = goto t (Check2 rows) (s\<lparr>rsErr := err\<rparr>)"
      by (auto simp: rsStep_def split: prod.splits)
    from q have "pcOk E cfg (siSid (rcInfos cfg ! t)) (Check2 rows)" by auto
    with t show ?thesis by (simp add: s' goto_def)
  qed (use ok r t in \<open>auto simp: rsStep_def goto_def split: if_splits\<close>)
qed

lemma rsStep_frame:
  assumes "rsStep E cfg t s = Some (Ret s')" and "u \<noteq> t"
  shows "rsPcs s' ! u = rsPcs s ! u"
  using assms by (auto simp: rsStep_def goto_def Let_def split: if_splits rsPc.splits prod.splits outcome.splits)

lemma rsReach_ok:
  "rsReach E cfg w s \<Longrightarrow> t < length (rsPcs s) \<Longrightarrow> pcOk E cfg (siSid (rcInfos cfg ! t)) (rsPcs s ! t)"
proof (induction rule: rsReach.induct)
  case init
  then show ?case by (simp add: rsInit_def)
next
  case (step s u s')
  have "length (rsPcs s') = length (rsPcs s)"
    using rsStep_inv [OF rsReach_inv [OF step(1)] step(2)] rsReach_inv [OF step(1)] by (simp add: rsInv_def)
  with step rsStep_ok [of E cfg t s s'] rsStep_frame [OF step(2), of t] show ?case by (cases "t = u") auto
qed

end
