(* ===== verification/ResealSafe.thy ===== *)
theory ResealSafe
  imports ResealProps
begin

text \<open>
  The theorems about the concurrent run of \<open>Reseal\<close>, with a concrete environment for their witnesses:
  its world is the list of the commands that were executed; sector 7 is in the first table, the query
  for sector 8 fails, and no other sector is known.
\<close>

definition demoMeta :: SectorMeta where
  "demoMeta = \<lparr>SpID = 1, SectorNum = 7, TicketEpoch = 0, TicketValue = [], OrigUnsealedCid = ''u'',
     OrigSealedCid = ''s'', MsgCidPrecommit = [], smSeed = [], PorepProof = []\<rparr>"

definition demoRs :: "string list list rsEnv" where
  "demoRs =
     \<lparr>rsSelectMeta = (\<lambda>w sid. if sid = 7 then ([demoMeta], None)
        else if sid = 8 then ([], Some (errorf ''connection lost'')) else ([], None)),
      rsSelectPipeline = (\<lambda>w sid. ([], None)), rsCidDecode = Inr, rsCidString = (\<lambda>c. c), rsUuidParse = Inr,
      rsCreateCarFile = (\<lambda>w key. (Inr (''car'', \<lparr>txPieceCid = key, txPieceSize = 2048\<rparr>), w)),
      rsCreateUnsealed = (\<lambda>w tx car. (Inr ''unsealed'', w)),
      rsAcquireSector = (\<lambda>w ref. (''/r/unsealed/s-t01-7'', True, None, w)), rsDone = (\<lambda>w ref. w),
      rsRename = (\<lambda>w a b. (None, w)), rsPreCommit1 = (\<lambda>w ref t ps. (Inr ''p1'', w)),
      rsPreCommit2 = (\<lambda>w ref out. (Inr (''u'', ''s''), w)), rsFinalizeSector = (\<lambda>w ref. (None, w)),
      rsCommit1 = (\<lambda>w ref t sd ps cids. Inr ''c1''), rsCommit2 = (\<lambda>w ref out. Inr []),
      rsExpand = Inr, rsStat = (\<lambda>w p. None), rsMkdirAll = (\<lambda>w p. (None, w)),
      rsCommand = (\<lambda>w cmd. ([], None, w @ [cmd])), rsDarwin = False,
      rsPathTypes = [''unsealed'', ''sealed'', ''cache'', ''update'', ''update-cache''],
      rsFTUnsealed = ''unsealed'', rsFTSealed = ''sealed'', rsFTCache = ''cache'',
      rsSectorName = (\<lambda>sid. ''s-t0'' @ show_u64 (Miner sid) @ ''-'' @ show_u64 (Number sid))\<rparr>"

definition demoRsInfo :: "u64 \<Rightarrow> SectorSealInfo" where
  "demoRsInfo sid = \<lparr>siSid = sid, sealType = ''FIN'', isDC = True, carKey = ''u''\<rparr>"

definition demoRsCfg :: "u64 list \<Rightarrow> rsConfig" where
  "demoRsCfg sids = \<lparr>rcInfos = map demoRsInfo sids, rcActor = 1, rcSpt = 8, rcSdir = ''/r'', rcStorageDir = ''/store'',
     rcSmax = 2, rcP1max = 1\<rparr>"

text \<open>The steps of a schedule, one after the other.\<close>

fun rsSched :: "'s rsEnv \<Rightarrow> rsConfig \<Rightarrow> nat list \<Rightarrow> 's reseal \<Rightarrow> 's reseal option" where
  "rsSched E cfg [] s = Some s"
| "rsSched E cfg (t # ts) s =
     (case rsStep E cfg t s of Some (Ret s') \<Rightarrow> rsSched E cfg ts s' | _ \<Rightarrow> None)"

lemma rsSched_reach:
  "rsReach E cfg w s \<Longrightarrow> rsSched E cfg ts s = Some s' \<Longrightarrow> rsReach E cfg w s'"
  by (induction ts arbitrary: s) (auto split: option.splits outcome.splits intro: rsReach.step)

lemmas demo_run_defs = rsInit_def rsStep_def goto_def stageCap_def doJob_def addPiece_def precommit1_def
  precommit2_def demoRs_def demoRsCfg_def demoRsInfo_def demoMeta_def

lemma demo_run_fin:
  "\<exists>s. rsSched demoRs (demoRsCfg [7]) (replicate 13 0) (rsInit (demoRsCfg [7]) []) = Some s \<and>
    length (rsPcs s) = 1 \<and> rsPcs s ! 0 = Work (JobFIN demoMeta)"
  by (simp add: demo_run_defs numeral_eq_Suc Let_def)

section \<open>Throttles and termination\<close>

text \<open>
  C8: In every state that the goroutines can reach, at most one sector is in each of the stages AP, P2
  and FIN, at most \<open>p1max\<close> sectors are in P1, at most \<open>smax\<close> sectors are in progress, and no goroutine
  that frees a place of a throttle ever blocks on it.
\<close>

theorem reseal_throttled:
  assumes "rsReach E cfg w s"
  shows "(\<forall>st. cnt (holdsStage st) (rsPcs s) \<le> (if st = StP1 then rcP1max cfg else 1)) \<and>
    cnt inSector (rsPcs s) \<le> rcSmax cfg \<and>
    (\<forall>t<length (rsPcs s). (rsPcs s ! t = Leave \<or> (\<exists>st nxt. rsPcs s ! t = Free st nxt)) \<longrightarrow>
      rsStep E cfg t s \<noteq> None)"
proof -
  from assms have inv: "rsInv cfg s" by (rule rsReach_inv)
  have leave: "rsStep E cfg t s \<noteq> None" if t: "t < length (rsPcs s)" "rsPcs s ! t = Leave" for t
  proof -
    have "0 < cnt inSector (rsPcs s)" using t by (intro cnt_pos) auto
    then have "rsSectors s \<noteq> 0" using inv by (auto simp: rsInv_def)
    with t show ?thesis by (simp add: rsStep_def)
  qed
  have free: "rsStep E cfg t s \<noteq> None" if "t < length (rsPcs s)" "rsPcs s ! t = Free st nxt" for t st nxt
    using holder_enabled [OF inv that(1), of st] that(2) by simp
  have a: "cnt (holdsStage st) (rsPcs s) \<le> (if st = StP1 then rcP1max cfg else 1)" for st
    using inv unfolding rsInv_def stageCap_def by metis
  have b: "cnt inSector (rsPcs s) \<le> rcSmax cfg" using inv by (auto simp: rsInv_def)
  have c: "rsStep E cfg t s \<noteq> None"
    if "t < length (rsPcs s)" "rsPcs s ! t = Leave \<or> (\<exists>st nxt. rsPcs s ! t = Free st nxt)" for t
    using that(2) leave [OF that(1)] free [OF that(1)] by (elim disjE exE) assumption+
  show ?thesis by (intro conjI allI impI a b c)
qed

theorem reseal_throttled_witness:
  "\<exists>s. rsReach demoRs (demoRsCfg [7]) [] s \<and> rsPcs s ! 0 = Work (JobFIN demoMeta) \<and>
    cnt (holdsStage StFIN) (rsPcs s) \<le> 1"
proof -
  obtain s where s: "rsSched demoRs (demoRsCfg [7]) (replicate 13 0) (rsInit (demoRsCfg [7]) []) = Some s"
    "rsPcs s ! 0 = Work (JobFIN demoMeta)" using demo_run_fin by blast
  from rsSched_reach [OF rsReach.init s(1)] have r: "rsReach demoRs (demoRsCfg [7]) [] s" .
  from reseal_throttled [OF r]
  have "cnt (holdsStage StFIN) (rsPcs s) \<le> (if StFIN = StP1 then rcP1max (demoRsCfg [7]) else 1)" by blast
  then have "cnt (holdsStage StFIN) (rsPcs s) \<le> 1" by simp
  with r s(2) show ?thesis by blast
qed

text \<open>
  C9: The command ends, with room for a sector and for a P1: every run is at most 18 steps per sector
  long, and where it cannot go on, either all goroutines have finished, so \<open>wg.Wait\<close> returns, or the
  next step of one panics and takes the process down. The only panic is that of \<open>addPiece\<close> when
  \<open>AcquireSector\<close> gave no function to release the sector: the deferred \<open>done()\<close> is then nil.
\<close>

theorem reseal_ends:
  assumes "rsReach E cfg w s" and "0 < rcSmax cfg" and "0 < rcP1max cfg"
  shows "(\<forall>n s'. rsRun E cfg n s s' \<longrightarrow> n \<le> 18 * length (rcInfos cfg)) \<and>
    ((\<forall>t. rsStep E cfg t s = None) \<longrightarrow> rsPcs s = replicate (length (rcInfos cfg)) Finished) \<and>
    ((\<forall>t s'. rsStep E cfg t s \<noteq> Some (Ret s')) \<longrightarrow>
       rsPcs s = replicate (length (rcInfos cfg)) Finished \<or> (\<exists>t. rsStep E cfg t s = Some Panic)) \<and>
    (\<forall>t. rsStep E cfg t s = Some Panic \<longrightarrow> (\<exists>m. rsPcs s ! t = Work (JobAP m)) \<and> (\<exists>w1 path e w2.
       rsAcquireSector E w1 (sectorRef (rcActor cfg) (siSid (rcInfos cfg ! t)) (rcSpt cfg)) =
         (path, False, e, w2)))"
proof -
  from assms(1) have inv: "rsInv cfg s" by (rule rsReach_inv)
  then have len: "length (rsPcs s) = length (rcInfos cfg)" by (simp add: rsInv_def)
  have run: "n + rsLeft s' \<le> rsLeft s" if "rsRun E cfg n s s'" for n s'
    using that
  proof (induction rule: rsRun.induct)
    case (step n s s' t s'')
    from rsStep_less [OF step(2)] step.IH show ?case by linarith
  qed simp
  have "rsRank pc \<le> 18" for pc
  proof (cases pc)
    case (Free st nxt)
    then show ?thesis by (cases nxt; cases "the nxt") auto
  next
    case (Want job)
    then show ?thesis by (cases job) auto
  next
    case (Work job)
    then show ?thesis by (cases job) auto
  qed auto
  then have "sum_list (map rsRank pcs) \<le> 18 * length pcs" for pcs
    by (induction pcs) (auto simp: add_mono)
  then have "rsLeft s \<le> 18 * length (rcInfos cfg)" by (metis rsLeft_def len)
  with run have "\<forall>n s'. rsRun E cfg n s s' \<longrightarrow> n \<le> 18 * length (rcInfos cfg)"
    by (meson add_leD1 le_trans)
  moreover have fin: "rsPcs s = replicate (length (rcInfos cfg)) Finished" if "\<forall>t. rsStep E cfg t s = None"
    using run_progress [OF inv assms(2,3) that] by (auto simp: list_eq_iff_nth_eq len)
  moreover have "rsPcs s = replicate (length (rcInfos cfg)) Finished \<or> (\<exists>t. rsStep E cfg t s = Some Panic)"
    if "\<forall>t s'. rsStep E cfg t s \<noteq> Some (Ret s')"
    using that fin rsStep_no_fail by (metis not_None_eq outcome.exhaust)
  moreover have "(\<exists>m. rsPcs s ! t = Work (JobAP m)) \<and> (\<exists>w1 path e w2.
      rsAcquireSector E w1 (sectorRef (rcActor cfg) (siSid (rcInfos cfg ! t)) (rcSpt cfg)) = (path, False, e, w2))"
    if "rsStep E cfg t s = Some Panic" for t
    using rsStep_panics [OF that] by blast
  ultimately show ?thesis by blast
qed

theorem reseal_ends_witness:
  "\<exists>t. rsStep demoRs (demoRsCfg [7]) t (rsInit (demoRsCfg [7]) []) \<noteq> None"
  using reseal_ends [OF rsReach.init [of demoRs "demoRsCfg [7]" "[]"]]
  by (auto simp: demoRsCfg_def rsInit_def)

text \<open>
  Without the flag \<open>smax\<close>, which is then 0, no sector is ever started: every goroutine blocks on
  the unbuffered channel and the command never returns.
\<close>

theorem reseal_without_smax_blocks:
  assumes "rsReach E cfg w s" and "rcSmax cfg = 0"
  shows "s = rsInit cfg w \<and> (\<forall>t. rsStep E cfg t s = None)"
  using assms(1)
proof (induction rule: rsReach.induct)
  case init
  have "rsStep E cfg t (rsInit cfg w) = None" for t
    using assms(2) by (cases "t < length (rcInfos cfg)") (simp_all add: rsStep_def rsInit_def)
  then show ?case by simp
qed simp

theorem reseal_without_smax_blocks_witness:
  "rsStep demoRs (demoRsCfg [7]\<lparr>rcSmax := 0\<rparr>) 0 (rsInit (demoRsCfg [7]\<lparr>rcSmax := 0\<rparr>) []) = None"
  using reseal_without_smax_blocks [OF rsReach.init [of demoRs "demoRsCfg [7]\<lparr>rcSmax := 0\<rparr>" "[]"]] by simp

section \<open>What is checked\<close>

text \<open>
  C7: A sector is finalized only if its database row is the one row that a query gave, and a second
  pre-commit of the sector produced the sealed CID of that row. This holds under every interleaving.
\<close>

theorem reseal_finalizes_checked:
  assumes "rsReach E cfg w s" and "t < length (rsPcs s)" and "rsPcs s ! t = Work (JobFIN m)"
  shows "rowFor E (siSid (rcInfos cfg ! t)) m \<and> sealedAs E cfg (siSid (rcInfos cfg ! t)) m"
  using rsReach_ok [OF assms(1,2)] assms(3) by simp


theorem reseal_finalizes_checked_witness:
  "\<exists>s. rsReach demoRs (demoRsCfg [7]) [] s \<and> rsPcs s ! 0 = Work (JobFIN demoMeta) \<and>
    sealedAs demoRs (demoRsCfg [7]) 7 demoMeta"
proof -
  obtain s where s: "rsSched demoRs (demoRsCfg [7]) (replicate 13 0) (rsInit (demoRsCfg [7]) []) = Some s"
    "length (rsPcs s) = 1" "rsPcs s ! 0 = Work (JobFIN demoMeta)" using demo_run_fin by blast
  from rsSched_reach [OF rsReach.init s(1)] have r: "rsReach demoRs (demoRsCfg [7]) [] s" .
  from reseal_finalizes_checked [OF r _ s(3)] s(2) have "sealedAs demoRs (demoRsCfg [7]) 7 demoMeta"
    by (simp add: demoRsCfg_def demoRsInfo_def)
  with r s(3) show ?thesis by blast
qed


text \<open>
  The queries of two sectors race on the shared variable \<open>err\<close>: the first sector's query fails, the
  second's gives its row. Still there is an order of their steps in which the second sector is given up,
  with the first one's error, and one in which the first goes on to the second table as if it had not failed.
\<close>

theorem reseal_error_race:
  assumes "rcInfos cfg = [i0, i1]" and "2 \<le> rcSmax cfg"
    and "rsSelectMeta E w (siSid i0) = ([], Some e)" and "rsSelectMeta E w (siSid i1) = ([m], None)"
  shows "(\<exists>s. rsReach E cfg w s \<and> rsPcs s ! 1 = Leave) \<and>
    (\<exists>s. rsReach E cfg w s \<and> rsPcs s ! 0 = Select2)"
proof -
  have "\<exists>s. rsSched E cfg [0, 1, 1, 0, 1] (rsInit cfg w) = Some s \<and> rsPcs s ! 1 = Leave"
    using assms by (simp add: rsInit_def rsStep_def goto_def)
  moreover have "\<exists>s. rsSched E cfg [0, 1, 0, 1, 0] (rsInit cfg w) = Some s \<and> rsPcs s ! 0 = Select2"
    using assms by (simp add: rsInit_def rsStep_def goto_def)
  ultimately show ?thesis using rsSched_reach [OF rsReach.init [of E cfg w]] by blast
qed

theorem reseal_error_race_witness:
  "\<exists>s. rsReach demoRs (demoRsCfg [8, 7]) [] s \<and> rsPcs s ! 1 = Leave"
proof -
  have 1: "rcInfos (demoRsCfg [8, 7]) = [demoRsInfo 8, demoRsInfo 7]" "2 \<le> rcSmax (demoRsCfg [8, 7])"
    by (simp_all add: demoRsCfg_def)
  have 2: "rsSelectMeta demoRs [] (siSid (demoRsInfo 8)) = ([], Some (errorf ''connection lost''))"
    "rsSelectMeta demoRs [] (siSid (demoRsInfo 7)) = ([demoMeta], None)"
    by (simp_all add: demoRs_def demoRsInfo_def)
  from reseal_error_race [OF 1 2] show ?thesis by blast
qed

text \<open>
  A CAR file with another piece CID than the database row is not an error: \<open>addPiece\<close> succeeds with
  the zero piece, writes no unsealed file, and the sector goes on to the first pre-commit over that piece.
\<close>

theorem reseal_wrong_piece_goes_on:
  assumes t: "t < length (rsPcs s)" "rsPcs s ! t = Work (JobAP m)" and info: "rcInfos cfg ! t = info"
    and c: "rsCidDecode E (OrigUnsealedCid m) = Inr c"
    and car: "rsCreateCarFile E (rsWorld s) (carKey info) = (Inr (carFile, tx), w')" "txPieceCid tx \<noteq> c"
    and ty: "sealType info \<noteq> ''AP''"
  shows "addPiece E (rsWorld s) info (rcActor cfg) (rcSpt cfg) m = (Ret zeroPieceInfo, w') \<and>
    (\<exists>s'. rsStep E cfg t s = Some (Ret s') \<and> rsWorld s' = w' \<and>
      rsPcs s' ! t = Free StAP (Some (JobP1 m zeroPieceInfo)))"
proof -
  have "addPiece E (rsWorld s) info (rcActor cfg) (rcSpt cfg) m = (Ret zeroPieceInfo, w')"
    using c car by (simp add: addPiece_def Let_def)
  with t info ty show ?thesis by (simp add: rsStep_def doJob_def goto_def)
qed

theorem reseal_wrong_piece_goes_on_witness:
  "addPiece demoRs [] (demoRsInfo 7\<lparr>carKey := ''x''\<rparr>) 1 8 demoMeta = (Ret zeroPieceInfo, [])"
proof -
  let ?cfg = "demoRsCfg [7]\<lparr>rcInfos := [demoRsInfo 7\<lparr>carKey := ''x''\<rparr>]\<rparr>"
  let ?s = "rsInit ?cfg []\<lparr>rsPcs := [Work (JobAP demoMeta)]\<rparr>"
  have w: "rsWorld ?s = []" "rcActor ?cfg = 1" "rcSpt ?cfg = 8" by (simp_all add: rsInit_def demoRsCfg_def)
  have c: "rsCidDecode demoRs (OrigUnsealedCid demoMeta) = Inr ''u''" by (simp add: demoRs_def demoMeta_def)
  have car: "rsCreateCarFile demoRs (rsWorld ?s) (carKey (demoRsInfo 7\<lparr>carKey := ''x''\<rparr>)) =
      (Inr (''car'', \<lparr>txPieceCid = ''x'', txPieceSize = 2048\<rparr>), [])"
    unfolding w by (simp add: demoRs_def)
  from reseal_wrong_piece_goes_on [OF _ _ _ c car, of 0 ?cfg] show ?thesis
    unfolding w by (simp add: demoRsInfo_def)
qed

end
