(* ===== verification/ResealFiles.thy ===== *)
theory ResealFiles
  imports ResealSafe
begin

text \<open>
  Properties of the sequential parts of \<open>cmd/reseal.go\<close> and \<open>cmd/gen.go\<close>: the file of sectors, the
  files of a sector, and the error paths.
\<close>

section \<open>The file of sectors\<close>

text \<open>A text without the characters that end a field, and a line in the format of the file.\<close>

definition plainField :: "string \<Rightarrow> bool" where
  "plainField f \<longleftrightarrow> (\<forall>c\<in>set f. \<not> isSpace c \<and> c \<noteq> CHR '':'')"

definition sealLine :: "SectorSealInfo \<Rightarrow> string \<Rightarrow> string" where
  "sealLine info key =
     show_nat (unat (siSid info)) @ '' '' @ sealType info @ '' '' @
       (if isDC info then ''DC:'' @ key else ''CC'')"

definition sealFile :: "(SectorSealInfo \<times> string) list \<Rightarrow> string" where
  "sealFile entries = concat (map (\<lambda>(info, key). sealLine info key @ [CHR 0x0A]) entries)"

text \<open>An entry that the format can hold.\<close>

definition sealEntry :: "(string \<Rightarrow> goerr + string) \<Rightarrow> SectorSealInfo \<Rightarrow> string \<Rightarrow> bool" where
  "sealEntry uuidParse info key \<longleftrightarrow>
     unat (siSid info) < 2 ^ 63 \<and> plainField (sealType info) \<and> plainField key \<and>
     (if isDC info then uuidParse key = Inr (carKey info) else carKey info = zeroUUID) \<and>
     length (sealLine info key) < MaxScanTokenSize"

lemma plainField_not:
  "plainField f \<Longrightarrow> CHR '' '' \<notin> set f \<and> CHR 0x0A \<notin> set f \<and> CHR 0x0D \<notin> set f \<and> CHR '':'' \<notin> set f"
  by (auto simp: plainField_def isSpace_def)

lemma show_nat_plain: "plainField (show_nat n)"
  by (auto simp: plainField_def isSpace_def dest!: show_nat_digits is_digit_code)

lemma parse_sealLine:
  assumes "sealEntry uuidParse info key"
  shows "parseSealLine uuidParse (sealLine info key) = Ret info"
proof -
  let ?n = "show_nat (unat (siSid info))" and ?f = "if isDC info then ''DC:'' @ key else ''CC''"
  from assms have e: "unat (siSid info) < 2 ^ 63" "plainField (sealType info)" "plainField key"
    "if isDC info then uuidParse key = Inr (carKey info) else carKey info = zeroUUID"
    by (auto simp: sealEntry_def)
  have "splitOn (CHR '' '') (sealLine info key) = [?n, sealType info, ?f]"
    using plainField_not [OF show_nat_plain [of "unat (siSid info)"]] plainField_not [OF e(2)] plainField_not [OF e(3)]
    by (simp add: sealLine_def splitOn_append splitOn_plain)
  moreover have "splitOn (CHR '':'') (''DC:'' @ key) = [''DC'', key]"
    using plainField_not [OF e(3)] by (simp add: splitOn_plain)
  ultimately show ?thesis
    using e(1,4) by (cases "isDC info") (auto simp: parseSealLine_def atoi_show Let_def)
qed

lemma sealLine_shape:
  assumes "sealEntry uuidParse info key"
  shows "CHR 0x0A \<notin> set (sealLine info key)" and "dropCR (sealLine info key) = sealLine info key"
    and "trimSpace (sealLine info key) \<noteq> []"
proof -
  from assms have e: "plainField (sealType info)" "plainField key" by (simp_all add: sealEntry_def)
  note p = plainField_not [OF show_nat_plain [of "unat (siSid info)"]] plainField_not [OF e(1)] plainField_not [OF e(2)]
  show "CHR 0x0A \<notin> set (sealLine info key)" using p by (auto simp: sealLine_def)
  have "CHR 0x0D \<notin> set (sealLine info key)" using p by (auto simp: sealLine_def)
  moreover have "sealLine info key \<noteq> []" by (simp add: sealLine_def)
  ultimately show "dropCR (sealLine info key) = sealLine info key" by (metis dropCR_def last_in_set)
  have "hd (show_nat (unat (siSid info))) \<in> set (sealLine info key)" by (simp add: sealLine_def)
  moreover have "\<not> isSpace (hd (show_nat (unat (siSid info))))"
    using show_nat_plain [of "unat (siSid info)"] by (simp add: plainField_def)
  ultimately show "trimSpace (sealLine info key) \<noteq> []" by (auto simp: trimSpace_empty)
qed

lemma splitOn_sealFile:
  assumes "\<forall>(info, key)\<in>set es. sealEntry u info key"
  shows "splitOn (CHR 0x0A) (sealFile es) = map (\<lambda>(info, key). sealLine info key) es @ [[]]"
  using assms
  by (induction es) (auto simp: sealFile_def splitOn_append sealLine_shape(1))

lemma scan_sealLines:
  assumes "\<forall>(info, key)\<in>set es. sealEntry u info key"
  shows "scanLines (map (\<lambda>(info, key). sealLine info key) es) =
    (map (\<lambda>(info, key). sealLine info key) es, None)"
  using assms
proof (induction es)
  case (Cons e es)
  then show ?case by (cases e) (auto simp: sealLine_shape(2) sealEntry_def)
qed simp

lemma sealInfoLoop_lines:
  assumes "\<forall>(info, key)\<in>set es. sealEntry u info key"
  shows "sealInfoLoop u (map (\<lambda>(info, key). sealLine info key) es) err infos = Ret (infos @ map fst es, err)"
  using assms
proof (induction es arbitrary: infos)
  case (Cons e es)
  obtain info key where e: "e = (info, key)" by (rule prod.exhaust)
  with Cons.prems have "sealEntry u info key" by simp
  with Cons e show ?case using sealLine_shape(3) parse_sealLine by simp
qed simp

text \<open>
  C29: The file of sectors reads back: for entries that the format can hold, reading the file written
  for them, one line each, gives the entries in order and no error.
\<close>

theorem seal_infos_roundtrip:
  assumes "\<forall>(info, key)\<in>set es. sealEntry uuidParse info key"
  shows "ReadSectorSealInfos uuidParse (Inr (sealFile es)) = Ret (map fst es, None)"
  using assms
  by (simp add: ReadSectorSealInfos_def rawLines_def splitOn_sealFile scan_sealLines sealInfoLoop_lines)

theorem seal_infos_roundtrip_witness:
  "ReadSectorSealInfos Inr (Inr (sealFile [(demoRsInfo 7, ''u'')])) = Ret ([demoRsInfo 7], None)"
proof -
  have "length (show_nat 7) = 1" by (simp add: show_nat.simps [of 7])
  then have "sealEntry Inr (demoRsInfo 7) ''u''"
    by (simp add: sealEntry_def demoRsInfo_def plainField_def isSpace_def sealLine_def MaxScanTokenSize_def)
  with seal_infos_roundtrip [of "[(demoRsInfo 7, ''u'')]" Inr] show ?thesis by simp
qed

text \<open>
  A line with a sector number but fewer than three fields, or whose third field is \<open>DC\<close> without a
  colon, makes the reader panic instead of reporting an error; no other line does.
\<close>

theorem seal_line_panics:
  "parseSealLine uuidParse line = Panic \<longleftrightarrow>
    (\<exists>n. atoi (splitOn (CHR '' '') line ! 0) = Inr n) \<and>
    (length (splitOn (CHR '' '') line) < 3 \<or> splitOn (CHR '' '') line ! 2 = ''DC'')"
proof (cases "length (splitOn (CHR '' '') line) < 3")
  case True
  then show ?thesis by (auto simp: parseSealLine_def Let_def split: sum.splits)
next
  case False
  let ?f = "splitOn (CHR '' '') line ! 2"
  have "splitOn (CHR '':'') ?f ! 0 = ''DC'' \<and> length (splitOn (CHR '':'') ?f) \<le> 1 \<longleftrightarrow> ?f = ''DC''"
  proof
    assume a: "splitOn (CHR '':'') ?f ! 0 = ''DC'' \<and> length (splitOn (CHR '':'') ?f) \<le> 1"
    then have "splitOn (CHR '':'') ?f = [''DC'']"
      by (cases "splitOn (CHR '':'') ?f") auto
    then show "?f = ''DC''" using joinOn_split [of "CHR '':''" ?f] by simp
  qed simp
  with False show ?thesis by (auto simp: parseSealLine_def Let_def split: sum.splits)
qed

section \<open>The files of a sector\<close>

text \<open>Commands one after the other, up to the first that fails.\<close>

fun runAll :: "'s rsEnv \<Rightarrow> string list list \<Rightarrow> 's \<Rightarrow> bool \<times> 's" where
  "runAll E [] s = (True, s)"
| "runAll E (cmd # cmds) s =
     (case rsCommand E s cmd of (out, Some err, s') \<Rightarrow> (False, s') | (out, None, s') \<Rightarrow> runAll E cmds s')"

lemma runAll_append:
  "runAll E (cmds @ ds) s = (True, s') \<longleftrightarrow> (\<exists>s1. runAll E cmds s = (True, s1) \<and> runAll E ds s1 = (True, s'))"
  by (induction cmds arbitrary: s) (auto split: prod.splits option.splits)

text \<open>The path of a file of the sector.\<close>

definition sectorPath :: "'s rsEnv \<Rightarrow> string \<Rightarrow> string \<Rightarrow> SectorID \<Rightarrow> string" where
  "sectorPath E dir pt sid = filepathJoin [dir, pt, rsSectorName E sid]"

definition mvCmd :: "'s rsEnv \<Rightarrow> string \<Rightarrow> string \<Rightarrow> string \<Rightarrow> SectorID \<Rightarrow> string list" where
  "mvCmd E sdir storageDir pt sid =
     [''/usr/bin/env'', ''mv'', ''-t'', filepathDir (sectorPath E storageDir pt sid), sectorPath E sdir pt sid]"

lemma sectorPath_base:
  assumes "plainName (rsSectorName E sid)" and "pt \<noteq> []"
  shows "filepathBase (sectorPath E dir pt sid) = rsSectorName E sid"
proof (cases "dir = []")
  case True
  then have "sectorPath E dir pt sid = filepathJoin ([pt] @ [rsSectorName E sid])"
    by (simp add: sectorPath_def filepathJoin_def)
  with base_join [OF assms(1), of "[pt]"] assms(2) show ?thesis by simp
next
  case False
  with base_join [OF assms(1), of "[dir, pt]"] show ?thesis by (simp add: sectorPath_def)
qed

lemma moveFile_sector:
  assumes "plainName (rsSectorName E sid)" and "pt \<noteq> []" and "\<not> rsDarwin E"
    and "\<forall>d pt. rsExpand E (sectorPath E d pt sid) = Inr (sectorPath E d pt sid)"
  shows "moveFile E s (filepathJoin [sdir, pt, rsSectorName E sid]) (filepathJoin [storageDir, pt, rsSectorName E sid])
    = (case rsCommand E s (mvCmd E sdir storageDir pt sid) of
         (out, Some err, s') \<Rightarrow> (Some (errorf_w (''exec mv (stderr: '' @ trimSpace out @ ''): '') err), s')
       | (out, None, s') \<Rightarrow> (None, s'))"
  using assms(3,4) sectorPath_base [OF assms(1,2)]
  by (simp add: moveFile_def mvCmd_def sectorPath_def)

lemma moveTypes_run:
  assumes "plainName (rsSectorName E sid)" and "\<not> rsDarwin E" and "rsFTSealed E \<noteq> []" "rsFTCache E \<noteq> []"
    and "\<forall>d pt. rsExpand E (sectorPath E d pt sid) = Inr (sectorPath E d pt sid)"
  shows "(moveTypes E sdir storageDir (rsSectorName E sid) pts s = (None, s')) \<longleftrightarrow>
    runAll E (map (\<lambda>pt. mvCmd E sdir storageDir pt sid)
      (filter (\<lambda>pt. pt = rsFTSealed E \<or> pt = rsFTCache E) pts)) s = (True, s')"
proof (induction pts arbitrary: s)
  case (Cons pt pts)
  show ?case
  proof (cases "pt = rsFTSealed E \<or> pt = rsFTCache E")
    case True
    then have "pt \<noteq> []" using assms(3,4) by auto
    from moveFile_sector [OF assms(1) this assms(2,5)] True Cons show ?thesis
      by (auto split: prod.split option.split)
  qed (use Cons in simp)
qed simp

text \<open>
  Finalizing a sector succeeds exactly when the sealer does and three commands do, run in this
  order: the sealed file is moved to the storage directory, then the cache, then the unsealed file is
  removed. Nothing is moved before the sealer is done, and nothing is removed before both are moved.
\<close>

theorem finalize_moves_files:
  assumes "plainName (rsSectorName E \<lparr>Miner = actor, Number = sid\<rparr>)" and "\<not> rsDarwin E"
    and "rsFTSealed E \<noteq> []" and "rsFTCache E \<noteq> []"
    and "filter (\<lambda>pt. pt = rsFTSealed E \<or> pt = rsFTCache E) (rsPathTypes E) = [rsFTSealed E, rsFTCache E]"
    and "\<forall>d pt. rsExpand E (sectorPath E d pt \<lparr>Miner = actor, Number = sid\<rparr>) =
      Inr (sectorPath E d pt \<lparr>Miner = actor, Number = sid\<rparr>)"
  shows "finalizeSector E s sid actor spt sdir storageDir = (None, s') \<longleftrightarrow>
    (\<exists>s1. rsFinalizeSector E s (sectorRef actor sid spt) = (None, s1) \<and>
      runAll E
        [mvCmd E sdir storageDir (rsFTSealed E) \<lparr>Miner = actor, Number = sid\<rparr>,
         mvCmd E sdir storageDir (rsFTCache E) \<lparr>Miner = actor, Number = sid\<rparr>,
         [''/usr/bin/env'', ''rm'', sectorPath E sdir (rsFTUnsealed E) \<lparr>Miner = actor, Number = sid\<rparr>]] s1
      = (True, s'))"
proof -
  let ?sid = "\<lparr>Miner = actor, Number = sid\<rparr>"
  have rm: "removeFile E s2 (filepathJoin [sdir, rsFTUnsealed E, rsSectorName E ?sid]) = (None, s') \<longleftrightarrow>
      runAll E [[''/usr/bin/env'', ''rm'', sectorPath E sdir (rsFTUnsealed E) ?sid]] s2 = (True, s')" for s2
    using assms(6) by (auto simp: removeFile_def sectorPath_def split: prod.splits option.splits)
  have "finalizeSector E s sid actor spt sdir storageDir = (None, s') \<longleftrightarrow>
      (\<exists>s1 s2. rsFinalizeSector E s (sectorRef actor sid spt) = (None, s1) \<and>
        moveTypes E sdir storageDir (rsSectorName E ?sid) (rsPathTypes E) s1 = (None, s2) \<and>
        removeFile E s2 (filepathJoin [sdir, rsFTUnsealed E, rsSectorName E ?sid]) = (None, s'))"
    by (auto simp: finalizeSector_def sectorRef_def Let_def split: prod.splits option.splits)
  also have "\<dots> \<longleftrightarrow> (\<exists>s1. rsFinalizeSector E s (sectorRef actor sid spt) = (None, s1) \<and>
      runAll E ([mvCmd E sdir storageDir (rsFTSealed E) ?sid, mvCmd E sdir storageDir (rsFTCache E) ?sid] @
        [[''/usr/bin/env'', ''rm'', sectorPath E sdir (rsFTUnsealed E) ?sid]]) s1 = (True, s'))"
    unfolding moveTypes_run [OF assms(1-4,6)] assms(5) list.map rm runAll_append by blast
  finally show ?thesis by simp
qed


theorem finalize_moves_files_witness:
  "finalizeSector demoRs [] 7 1 8 ''/r'' ''/store'' = (None,
    [[''/usr/bin/env'', ''mv'', ''-t'', ''/store/sealed'', ''/r/sealed/s-t01-7''],
     [''/usr/bin/env'', ''mv'', ''-t'', ''/store/cache'', ''/r/cache/s-t01-7''],
     [''/usr/bin/env'', ''rm'', ''/r/unsealed/s-t01-7'']])"
proof -
  let ?sid = "\<lparr>Miner = 1, Number = 7\<rparr> :: SectorID"
  have n: "rsSectorName demoRs ?sid = ''s-t01-7''"
    by (simp add: demoRs_def show_u64_def) code_simp
  have p: "sectorPath demoRs ''/store'' ''sealed'' ?sid = ''/store/sealed/s-t01-7''"
    "sectorPath demoRs ''/store'' ''cache'' ?sid = ''/store/cache/s-t01-7''"
    "sectorPath demoRs ''/r'' ''sealed'' ?sid = ''/r/sealed/s-t01-7''"
    "sectorPath demoRs ''/r'' ''cache'' ?sid = ''/r/cache/s-t01-7''"
    "sectorPath demoRs ''/r'' ''unsealed'' ?sid = ''/r/unsealed/s-t01-7''"
    unfolding sectorPath_def n by code_simp+
  have d: "filepathDir ''/store/sealed/s-t01-7'' = ''/store/sealed''"
    "filepathDir ''/store/cache/s-t01-7'' = ''/store/cache''" by code_simp+
  have ft: "rsFTSealed demoRs = ''sealed''" "rsFTCache demoRs = ''cache''" "rsFTUnsealed demoRs = ''unsealed''"
    by (simp_all add: demoRs_def)
  have 1: "plainName (rsSectorName demoRs ?sid)" unfolding n by (simp add: plainName_def)
  have 2: "\<not> rsDarwin demoRs" "rsFTSealed demoRs \<noteq> []" "rsFTCache demoRs \<noteq> []"
    "filter (\<lambda>pt. pt = rsFTSealed demoRs \<or> pt = rsFTCache demoRs) (rsPathTypes demoRs) =
      [rsFTSealed demoRs, rsFTCache demoRs]"
    "\<forall>d pt. rsExpand demoRs (sectorPath demoRs d pt ?sid) = Inr (sectorPath demoRs d pt ?sid)"
    by (simp_all add: demoRs_def)
  show ?thesis
    unfolding finalize_moves_files [OF 1 2] mvCmd_def ft p d by (simp add: demoRs_def)
qed

section \<open>Other error paths\<close>

text \<open>
  \<open>addPiece\<close> panics exactly when the sector cannot be acquired with a \<open>done\<close> function: the deferred
  call of a nil function takes the whole process down, also where \<open>AcquireSector\<close> reports an error.
\<close>

theorem add_piece_panics:
  "fst (addPiece E s info actor spt m) = Panic \<longleftrightarrow>
    (\<exists>carFile tx s1 f s2 path aerr s3.
       rsCreateCarFile E s (carKey info) = (Inr (carFile, tx), s1) \<and>
       rsCidDecode E (OrigUnsealedCid m) = Inr (txPieceCid tx) \<and>
       rsCreateUnsealed E s1 tx carFile = (Inr f, s2) \<and>
       rsAcquireSector E s2 (sectorRef actor (siSid info) spt) = (path, False, aerr, s3))"
  by (auto simp: addPiece_def Let_def split: sum.splits prod.splits option.splits if_splits)

text \<open>\<open>gen-c1\<close> reports success for a sector that neither table knows.\<close>

lemma gen_c1_missing_sector:
  assumes "rsSelectMeta E s sid = ([], None)" and "rsSelectPipeline E s sid = ([], None)"
  shows "GenC1 E s padded sectorSize sid actor spt = None"
  using assms by (simp add: GenC1_def Let_def)

end
