(* ===== verification/FieldDef.thy ===== *)
theory FieldDef
  imports GoStd
begin

text \<open>
  How deal fields are stored in SQL columns (\<open>lib/boost/db/fielddef/fielddef.go\<close>) and the deal
  checkpoints (\<open>storagemarket/types/dealcheckpoints/checkpoints.go\<close>). A pointer field is an option,
  \<open>None\<close> for nil; a \<open>sql.NullString\<close> is a string option, \<open>None\<close> when it is not valid. The types of
  third-party packages and their encodings are the record \<open>fieldEnv\<close>.
\<close>

text \<open>A value that a statement binds or a row holds.\<close>

datatype sqlVal =
    SqlNull
  | SqlStr string
  | SqlBytes "u8 list"
  | SqlInt int
  | SqlUint u64
  | SqlBool bool
  | SqlTime time

record ('l, 'g, 'p) fieldEnv =
  feCidString :: "cid \<Rightarrow> string"
  feCidParse :: "string \<Rightarrow> goerr + cid"
  fePeerString :: "string \<Rightarrow> string"
  fePeerUnmarshal :: "string \<Rightarrow> goerr + string"
  feAddrString :: "address \<Rightarrow> string"
  feAddrParse :: "string \<Rightarrow> goerr + address"
  feLabelIsString :: "'l \<Rightarrow> bool"
  feLabelToString :: "'l \<Rightarrow> goerr + string"
  feLabelToBytes :: "'l \<Rightarrow> goerr + u8 list"
  feLabelFromString :: "string \<Rightarrow> goerr + 'l"
  feLabelFromBytes :: "u8 list \<Rightarrow> goerr + 'l"
  feEmptyLabel :: 'l
  feSigMarshal :: "'g \<Rightarrow> goerr + u8 list"
  feSigUnmarshal :: "u8 list \<Rightarrow> goerr + 'g"
  feAsIpld :: "'p \<Rightarrow> goerr + string"
  feBigUndefined :: "string \<Rightarrow> int"

text \<open>\<open>fmt\<close>'s text of a value in single quotes.\<close>

definition quoted :: "string \<Rightarrow> string" where
  "quoted s = [CHR 0x27] @ s @ [CHR 0x27]"

section \<open>Plain fields and CIDs\<close>

definition FieldDef_Marshall :: "sqlVal \<Rightarrow> goerr + sqlVal" where
  "FieldDef_Marshall F = Inr F"

definition CidFieldDef_Marshall :: "('l, 'g, 'p) fieldEnv \<Rightarrow> cid option \<Rightarrow> goerr + sqlVal" where
  "CidFieldDef_Marshall E F = Inr (case F of None \<Rightarrow> SqlNull | Some c \<Rightarrow> SqlStr (feCidString E c))"

text \<open>A null column leaves the field alone; assigning through a nil pointer panics.\<close>

definition CidFieldDef_Unmarshall ::
  "('l, 'g, 'p) fieldEnv \<Rightarrow> string option \<Rightarrow> cid option \<Rightarrow> cid option outcome" where
  "CidFieldDef_Unmarshall E cidStr F =
     (case cidStr of
        None \<Rightarrow> Ret F
      | Some s \<Rightarrow>
          (case feCidParse E s of
             Inl err \<Rightarrow> Fail (errorf_w (''parsing CID from string '' @ quoted s @ '': '') err)
           | Inr c \<Rightarrow> (case F of None \<Rightarrow> Panic | Some _ \<Rightarrow> Ret (Some c))))"

text \<open>Here the field itself is a pointer to a CID, which is replaced.\<close>

definition CidPtrFieldDef_Marshall :: "('l, 'g, 'p) fieldEnv \<Rightarrow> cid option \<Rightarrow> goerr + sqlVal" where
  "CidPtrFieldDef_Marshall E F = Inr (case F of None \<Rightarrow> SqlNull | Some c \<Rightarrow> SqlStr (feCidString E c))"

definition CidPtrFieldDef_Unmarshall ::
  "('l, 'g, 'p) fieldEnv \<Rightarrow> string option \<Rightarrow> cid option \<Rightarrow> goerr + cid option" where
  "CidPtrFieldDef_Unmarshall E cidStr F =
     (case cidStr of
        None \<Rightarrow> Inr F
      | Some s \<Rightarrow>
          (case feCidParse E s of
             Inl err \<Rightarrow> Inl (errorf_w (''parsing CID from string '' @ quoted s @ '': '') err)
           | Inr c \<Rightarrow> Inr (Some c)))"

section \<open>Peer IDs and addresses\<close>

definition PeerIDFieldDef_Marshall :: "('l, 'g, 'p) fieldEnv \<Rightarrow> string option \<Rightarrow> goerr + sqlVal" where
  "PeerIDFieldDef_Marshall E F = Inr (case F of None \<Rightarrow> SqlNull | Some p \<Rightarrow> SqlStr (fePeerString E p))"

definition PeerIDFieldDef_Unmarshall ::
  "('l, 'g, 'p) fieldEnv \<Rightarrow> string option \<Rightarrow> string option \<Rightarrow> string option outcome" where
  "PeerIDFieldDef_Unmarshall E marshalled F =
     (let assign = (\<lambda>p. case F of None \<Rightarrow> Panic | Some _ \<Rightarrow> Ret (Some p)) in
      case marshalled of
        None \<Rightarrow> Ret F
      | Some s \<Rightarrow>
          if s = [] then assign []
          else if s = ''dummy'' then assign s
          else (case fePeerUnmarshal E s of
              Inl err \<Rightarrow> Fail (errorf_w (''parsing peer ID from string '' @ quoted s @ '': '') err)
            | Inr p \<Rightarrow> assign p))"

definition AddrFieldDef_Marshall :: "('l, 'g, 'p) fieldEnv \<Rightarrow> address \<Rightarrow> goerr + sqlVal" where
  "AddrFieldDef_Marshall E F = Inr (SqlStr (feAddrString E F))"

definition AddrFieldDef_Unmarshall :: "('l, 'g, 'p) fieldEnv \<Rightarrow> string \<Rightarrow> goerr + address" where
  "AddrFieldDef_Unmarshall E marshalled =
     (case feAddrParse E marshalled of
        Inl err \<Rightarrow> Inl (errorf_w ''parsing address: '' err) | Inr a \<Rightarrow> Inr a)"

section \<open>Labels\<close>

text \<open>\<open>encoding/hex\<close>.\<close>

definition hexDigit :: "nat \<Rightarrow> char" where
  "hexDigit n = (if n < 10 then char_of (48 + n) else char_of (87 + n))"

definition hexVal :: "char \<Rightarrow> nat option" where
  "hexVal c =
     (let n = of_char c in
      if 48 \<le> n \<and> n \<le> 57 then Some (n - 48)
      else if 97 \<le> n \<and> n \<le> 102 then Some (n - 87)
      else if 65 \<le> n \<and> n \<le> 70 then Some (n - 55) else None)"

fun hexEncode :: "u8 list \<Rightarrow> string" where
  "hexEncode [] = []"
| "hexEncode (b # bs) = hexDigit (unat b div 16) # hexDigit (unat b mod 16) # hexEncode bs"

fun hexDecode :: "string \<Rightarrow> goerr + u8 list" where
  "hexDecode [] = Inr []"
| "hexDecode [c] =
     (case hexVal c of
        None \<Rightarrow> Inl (errorf ''encoding/hex: invalid byte'')
      | Some _ \<Rightarrow> Inl (errorf ''encoding/hex: odd length hex string''))"
| "hexDecode (c # d # cs) =
     (case (hexVal c, hexVal d) of
        (Some a, Some b) \<Rightarrow>
          (case hexDecode cs of Inl err \<Rightarrow> Inl err | Inr bs \<Rightarrow> Inr (of_nat (16 * a + b) # bs))
      | _ \<Rightarrow> Inl (errorf ''encoding/hex: invalid byte''))"

definition LabelFieldDef_Marshall :: "('l, 'g, 'p) fieldEnv \<Rightarrow> 'l option \<Rightarrow> goerr + sqlVal" where
  "LabelFieldDef_Marshall E F =
     (case F of
        None \<Rightarrow> Inr SqlNull
      | Some l \<Rightarrow>
          if feLabelIsString E l then
            (case feLabelToString E l of
               Inl err \<Rightarrow> Inl (errorf_w ''marshalling deal label as string: '' err)
             | Inr s \<Rightarrow> Inr (SqlStr ([CHR 0x27] @ s)))
          else
            (case feLabelToBytes E l of
               Inl err \<Rightarrow> Inl (errorf_w ''marshalling deal label as bytes: '' err)
             | Inr bz \<Rightarrow> Inr (SqlStr (''x'' @ hexEncode bz))))"

definition LabelFieldDef_Unmarshall ::
  "('l, 'g, 'p) fieldEnv \<Rightarrow> string option \<Rightarrow> 'l option \<Rightarrow> 'l option outcome" where
  "LabelFieldDef_Unmarshall E marshalled F =
     (let assign = (\<lambda>l. case F of None \<Rightarrow> Panic | Some _ \<Rightarrow> Ret (Some l)) in
      case marshalled of
        None \<Rightarrow> Ret F
      | Some s \<Rightarrow>
          if s = [] \<or> s = [CHR 0x27] then assign (feEmptyLabel E)
          else if s ! 0 = CHR ''x'' then
            (if length s = 1 then Fail (errorf ''cannot unmarshall empty string to hex'')
             else case hexDecode (drop 1 s) of
                 Inl err \<Rightarrow> Fail (errorf_w (''unmarshalling hex string '' @ s @ '' into bytes: '') err)
               | Inr bz \<Rightarrow>
                   (case feLabelFromBytes E bz of
                      Inl err \<Rightarrow> Fail (errorf_w (''unmarshalling '' @ quoted s @ '' into label: '') err)
                    | Inr l \<Rightarrow> assign l))
          else
            (case feLabelFromString E (drop 1 s) of
               Inl err \<Rightarrow> Fail (errorf_w (''unmarshalling '' @ quoted s @ '' into label: '') err)
             | Inr l \<Rightarrow> assign l))"

definition LabelFieldDefMarshall :: "('l, 'g, 'p) fieldEnv \<Rightarrow> 'l option \<Rightarrow> goerr + sqlVal" where
  "LabelFieldDefMarshall E f = LabelFieldDef_Marshall E f"

definition LabelFieldDefUnmarshall ::
  "('l, 'g, 'p) fieldEnv \<Rightarrow> string option \<Rightarrow> 'l outcome" where
  "LabelFieldDefUnmarshall E marshalled =
     (case LabelFieldDef_Unmarshall E marshalled (Some (feEmptyLabel E)) of
        Panic \<Rightarrow> Panic
      | Fail err \<Rightarrow> Fail err
      | Ret None \<Rightarrow> Panic
      | Ret (Some l) \<Rightarrow> Ret l)"

section \<open>Big integers\<close>

text \<open>
  \<open>SetString\<close> of \<open>math/big\<close> with base 0: a sign, a prefix that gives the base, digits, and underscores
  between digits or after the prefix. \<open>sep\<close> is true when an underscore may follow.
\<close>

definition digitVal :: "char \<Rightarrow> nat option" where
  "digitVal c =
     (let n = of_char c in
      if 48 \<le> n \<and> n \<le> 57 then Some (n - 48)
      else if 97 \<le> n \<and> n \<le> 122 then Some (n - 87)
      else if 65 \<le> n \<and> n \<le> 90 then Some (n - 55) else None)"

fun bigDigits :: "nat \<Rightarrow> bool \<Rightarrow> bool \<Rightarrow> string \<Rightarrow> nat \<Rightarrow> nat option" where
  "bigDigits b sep ok [] acc = (if sep \<and> ok then Some acc else None)"
| "bigDigits b sep ok (c # cs) acc =
     (if c = CHR ''_'' then (if sep then bigDigits b False ok cs acc else None)
      else case digitVal c of
          None \<Rightarrow> None
        | Some d \<Rightarrow> if d < b then bigDigits b True True cs (acc * b + d) else None)"

text \<open>The flag \<open>ok\<close> says that a digit was read; the single prefix 0 is the number 0.\<close>

definition bigNat :: "string \<Rightarrow> nat option" where
  "bigNat s =
     (case s of
        z # c # cs \<Rightarrow>
          if z = CHR ''0'' \<and> (c = CHR ''x'' \<or> c = CHR ''X'') then bigDigits 16 True False cs 0
          else if z = CHR ''0'' \<and> (c = CHR ''b'' \<or> c = CHR ''B'') then bigDigits 2 True False cs 0
          else if z = CHR ''0'' \<and> (c = CHR ''o'' \<or> c = CHR ''O'') then bigDigits 8 True False cs 0
          else if z = CHR ''0'' then bigDigits 8 True True (c # cs) 0
          else bigDigits 10 False False s 0
      | _ \<Rightarrow> bigDigits 10 False False s 0)"

definition bigSetString :: "string \<Rightarrow> int option" where
  "bigSetString s =
     (if s \<noteq> [] \<and> hd s = CHR ''-'' then map_option (\<lambda>n. - int n) (bigNat (tl s))
      else if s \<noteq> [] \<and> hd s = CHR ''+'' then map_option int (bigNat (tl s))
      else map_option int (bigNat s))"

definition BigIntFieldDef_Marshall :: "int option \<Rightarrow> goerr + sqlVal" where
  "BigIntFieldDef_Marshall F = Inr (case F of None \<Rightarrow> SqlNull | Some i \<Rightarrow> SqlStr (show_int i))"

text \<open>A text that is no number leaves an undefined value, and no error.\<close>

definition BigIntFieldDef_Unmarshall ::
  "('l, 'g, 'p) fieldEnv \<Rightarrow> string option \<Rightarrow> int option \<Rightarrow> int option outcome" where
  "BigIntFieldDef_Unmarshall E marshalled F =
     (let assign = (\<lambda>i. case F of None \<Rightarrow> Panic | Some _ \<Rightarrow> Ret (Some i)) in
      case marshalled of
        None \<Rightarrow> assign 0
      | Some s \<Rightarrow> assign (case bigSetString s of Some i \<Rightarrow> i | None \<Rightarrow> feBigUndefined E s))"

section \<open>Checkpoints\<close>

definition checkpointNames :: "(int \<times> string) list" where
  "checkpointNames = [(0, ''Accepted''), (1, ''Transferred''), (2, ''Published''), (3, ''PublishConfirmed''),
     (4, ''AddedPiece''), (5, ''IndexedAndAnnounced''), (6, ''Complete'')]"

definition Checkpoint_String :: "int \<Rightarrow> string" where
  "Checkpoint_String c = (case map_of checkpointNames c of None \<Rightarrow> [] | Some s \<Rightarrow> s)"

definition Checkpoint_FromString :: "string \<Rightarrow> goerr + int" where
  "Checkpoint_FromString str =
     (case map_of (map (\<lambda>(cp, s). (s, cp)) checkpointNames) str of
        None \<Rightarrow> Inl (errorf (''unrecognized checkpoint '' @ str)) | Some cp \<Rightarrow> Inr cp)"

definition CkptFieldDef_Marshall :: "int \<Rightarrow> goerr + sqlVal" where
  "CkptFieldDef_Marshall F = Inr (SqlStr (Checkpoint_String F))"

definition CkptFieldDef_Unmarshall :: "string \<Rightarrow> goerr + int" where
  "CkptFieldDef_Unmarshall marshalled =
     (case Checkpoint_FromString marshalled of
        Inl err \<Rightarrow> Inl (errorf_w (''parsing checkpoint from string '' @ quoted marshalled @ '': '') err)
      | Inr cp \<Rightarrow> Inr cp)"

section \<open>Signatures and signed proposals\<close>

definition SigFieldDef_Marshall :: "('l, 'g, 'p) fieldEnv \<Rightarrow> 'g \<Rightarrow> goerr + sqlVal" where
  "SigFieldDef_Marshall E F = (case feSigMarshal E F of Inl err \<Rightarrow> Inl err | Inr bz \<Rightarrow> Inr (SqlBytes bz))"

definition SigFieldDef_Unmarshall :: "('l, 'g, 'p) fieldEnv \<Rightarrow> u8 list \<Rightarrow> goerr + 'g" where
  "SigFieldDef_Unmarshall E marshalled =
     (case feSigUnmarshal E marshalled of
        Inl err \<Rightarrow> Inl (errorf_w ''parsing signature: '' err) | Inr sig \<Rightarrow> Inr sig)"

definition SignedPropFieldDef_Marshall :: "('l, 'g, 'p) fieldEnv \<Rightarrow> 'p \<Rightarrow> goerr + sqlVal" where
  "SignedPropFieldDef_Marshall E Prop =
     (case feAsIpld E Prop of
        Inl err \<Rightarrow> Inl (errorf_w ''failed to compute signed deal proposal ipld node: '' err)
      | Inr node \<Rightarrow> Inr (SqlStr node))"

definition SignedPropFieldDef_Unmarshall ::
  "('l, 'g, 'p) fieldEnv \<Rightarrow> string \<Rightarrow> cid option \<Rightarrow> goerr + cid option" where
  "SignedPropFieldDef_Unmarshall E marshalled F =
     (case F of
        None \<Rightarrow> Inr None
      | Some _ \<Rightarrow>
          (case feCidParse E marshalled of
             Inl err \<Rightarrow> Inl (errorf_w (''parsing CID from string '' @ quoted marshalled @ '': '') err)
           | Inr c \<Rightarrow> Inr (Some c)))"

section \<open>Round trips\<close>

lemma hexVal_digit: "n < 16 \<Longrightarrow> hexVal (hexDigit n) = Some n"
  by (auto simp: hexVal_def hexDigit_def Let_def take_bit_eq_mod)

lemma hexDecode_encode: "hexDecode (hexEncode bs) = Inr bs"
proof (induction bs)
  case (Cons b bs)
  have "unat b div 16 < 16" using unsigned_less [of b, where ?'a = nat] by simp
  moreover have "16 * (unat b div 16) + unat b mod 16 = unat b" by (rule mult_div_mod_eq)
  ultimately show ?case using Cons by (simp add: hexVal_digit)
qed simp

lemma bigDigits_append:
  "bigDigits 10 sep ok (show_nat n @ cs) acc = bigDigits 10 True True cs (acc * 10 ^ length (show_nat n) + n)"
proof (induction n arbitrary: sep ok cs acc rule: show_nat.induct)
  case (1 n)
  have d: "digitVal (digit k) = Some k" "digit k \<noteq> CHR ''_''" if "k < 10" for k
  proof -
    show "digitVal (digit k) = Some k" using that by (simp add: digitVal_def digit_def take_bit_eq_mod)
    show "digit k \<noteq> CHR ''_''" using digit_code [OF that] that by auto
  qed
  show ?case
  proof (cases "n < 10")
    case True
    then show ?thesis by (simp add: show_nat.simps [of n] d)
  next
    case False
    have "n mod 10 < 10" by simp
    have "10 * (n div 10) + n mod 10 = n" by (rule mult_div_mod_eq)
    with False 1 [OF False] d [OF \<open>n mod 10 < 10\<close>] show ?thesis
      by (simp add: show_nat.simps [of n] algebra_simps)
  qed
qed


lemma show_nat_no_zero: "10 \<le> n \<Longrightarrow> hd (show_nat n) \<noteq> CHR ''0''"
proof (induction n rule: show_nat.induct)
  case (1 n)
  have k: "digit k \<noteq> CHR ''0''" if "0 < k" "k < 10" for k using digit_code [OF that(2)] that by auto
  show ?case
  proof (cases "n div 10 < 10")
    case True
    with 1 k [of "n div 10"] show ?thesis by (simp add: show_nat.simps [of n] show_nat.simps [of "n div 10"])
  next
    case False
    with 1 show ?thesis by (simp add: show_nat.simps [of n])
  qed
qed

lemma bigNat_show: "bigNat (show_nat n) = Some n"
proof (cases "n < 10")
  case True
  with bigDigits_append [of False False n "[]" 0] show ?thesis
    by (simp add: bigNat_def show_nat.simps [of n])
next
  case False
  then have z: "hd (show_nat n) \<noteq> CHR ''0''" by (simp add: show_nat_no_zero)
  have "bigNat s = bigDigits 10 False False s 0" if "hd s \<noteq> CHR ''0''" for s
    using that by (cases s; cases "tl s") (simp_all add: bigNat_def)
  from this [OF z] bigDigits_append [of False False n "[]" 0] show ?thesis by simp
qed

lemma bigSetString_show: "bigSetString (show_int i) = Some i"
proof -
  have "bigSetString (show_nat n) = Some (int n)" for n
    unfolding bigSetString_def bigNat_show using show_nat_head [of n] by simp
  moreover have "bigSetString (CHR ''-'' # show_nat n) = Some (- int n)" for n
    by (simp add: bigSetString_def bigNat_show)
  ultimately show ?thesis by (simp add: show_int_def)
qed

lemma bigint_roundtrip:
  "BigIntFieldDef_Marshall (Some i) = Inr (SqlStr (show_int i)) \<and>
   BigIntFieldDef_Unmarshall E (Some (show_int i)) (Some j) = Ret (Some i)"
  by (simp add: BigIntFieldDef_Marshall_def BigIntFieldDef_Unmarshall_def bigSetString_show)

lemma checkpoint_roundtrip:
  "0 \<le> c \<Longrightarrow> c < 7 \<Longrightarrow> Checkpoint_FromString (Checkpoint_String c) = Inr c"
proof -
  assume "0 \<le> c" "c < 7"
  then have "c \<in> {0, 1, 2, 3, 4, 5, 6}" by auto
  then show ?thesis by (auto simp: Checkpoint_String_def Checkpoint_FromString_def checkpointNames_def)
qed

text \<open>
  The laws of deal labels: a label is a string or bytes, and is made of them again; the empty label is
  that of the empty string.
\<close>

definition label_ok :: "('l, 'g, 'p) fieldEnv \<Rightarrow> bool" where
  "label_ok E \<longleftrightarrow>
     (\<forall>l. if feLabelIsString E l
          then \<exists>s. feLabelToString E l = Inr s \<and> feLabelFromString E s = Inr l
          else \<exists>bz. feLabelToBytes E l = Inr bz \<and> feLabelFromBytes E bz = Inr l) \<and>
     feLabelFromString E [] = Inr (feEmptyLabel E)"

text \<open>
  A deal label that is stored and read back is the same label, whichever of a string and bytes it
  is, with one exception: a label of zero bytes is stored as a single \<open>x\<close>, which is refused on reading.
\<close>

theorem label_roundtrip:
  assumes "label_ok E"
  shows "\<exists>s. LabelFieldDef_Marshall E (Some l) = Inr (SqlStr s) \<and>
    LabelFieldDefUnmarshall E (Some s) =
      (if \<not> feLabelIsString E l \<and> feLabelToBytes E l = Inr []
       then Fail (errorf ''cannot unmarshall empty string to hex'') else Ret l)"
proof (cases "feLabelIsString E l")
  case True
  with assms obtain s where s: "feLabelToString E l = Inr s" "feLabelFromString E s = Inr l"
    unfolding label_ok_def by metis
  with assms have "s = [] \<Longrightarrow> feEmptyLabel E = l" by (auto simp: label_ok_def)
  with True s show ?thesis
    by (auto simp: LabelFieldDef_Marshall_def LabelFieldDefUnmarshall_def LabelFieldDef_Unmarshall_def Let_def)
next
  case False
  with assms obtain bz where bz: "feLabelToBytes E l = Inr bz" "feLabelFromBytes E bz = Inr l"
    unfolding label_ok_def by metis
  have "hexEncode bz = [] \<longleftrightarrow> bz = []" by (cases bz) auto
  with False bz show ?thesis
    by (auto simp: LabelFieldDef_Marshall_def LabelFieldDefUnmarshall_def LabelFieldDef_Unmarshall_def Let_def
        hexDecode_encode)
qed

text \<open>A concrete environment: labels are strings or bytes, and every encoding is the identity.\<close>

definition demoFe :: "(string + u8 list, u8 list, string) fieldEnv" where
  "demoFe =
     \<lparr>feCidString = (\<lambda>c. c), feCidParse = Inr, fePeerString = (\<lambda>p. p), fePeerUnmarshal = Inr,
      feAddrString = (\<lambda>a. a), feAddrParse = Inr, feLabelIsString = (\<lambda>l. case l of Inl _ \<Rightarrow> True | Inr _ \<Rightarrow> False),
      feLabelToString = (\<lambda>l. case l of Inl s \<Rightarrow> Inr s | Inr _ \<Rightarrow> Inl (errorf ''not a string'')),
      feLabelToBytes = (\<lambda>l. case l of Inl _ \<Rightarrow> Inl (errorf ''not bytes'') | Inr bz \<Rightarrow> Inr bz),
      feLabelFromString = (\<lambda>s. Inr (Inl s)), feLabelFromBytes = (\<lambda>bz. Inr (Inr bz)), feEmptyLabel = Inl [],
      feSigMarshal = Inr, feSigUnmarshal = Inr, feAsIpld = Inr, feBigUndefined = (\<lambda>s. 0)\<rparr>"

lemma demoFe_label: "label_ok demoFe"
  by (auto simp: label_ok_def demoFe_def split: sum.splits)

theorem label_roundtrip_witness:
  "LabelFieldDef_Marshall demoFe (Some (Inr [])) = Inr (SqlStr ''x'') \<and>
    LabelFieldDefUnmarshall demoFe (Some ''x'') = Fail (errorf ''cannot unmarshall empty string to hex'')"
  using label_roundtrip [OF demoFe_label, of "Inr []"]
  by (simp add: demoFe_def LabelFieldDef_Marshall_def)

end
