(* ===== verification/DealsDb.thy ===== *)
theory DealsDb
  imports FieldDef
begin

text \<open>
  The SQL database of deals: the generic statements of \<open>lib/boost/db/deals.go\<close> over a set of field
  definitions, and the store of direct deals, \<open>lib/boost/db/directdeals.go\<close>. The database is the record
  \<open>sqlDb\<close> over an opaque state: it gets the text of a statement and the values of its placeholders. The
  fields come in the order in which Go iterates over the map of definitions, any order.
\<close>

record 's sqlDb =
  sqExec :: "'s \<Rightarrow> string \<Rightarrow> sqlVal list \<Rightarrow> goerr option \<times> 's"
  sqQueryRow :: "'s \<Rightarrow> string \<Rightarrow> sqlVal list \<Rightarrow> goerr + sqlVal list"
  sqQuery :: "'s \<Rightarrow> string \<Rightarrow> sqlVal list \<Rightarrow> goerr + sqlVal list list \<times> goerr option"

text \<open>\<open>strings.Join\<close>.\<close>

fun joinStr :: "string \<Rightarrow> string list \<Rightarrow> string" where
  "joinStr sep [] = []"
| "joinStr sep [s] = s"
| "joinStr sep (s # ss) = s @ sep @ joinStr sep ss"

section \<open>deals.go\<close>

text \<open>
  The map of field definitions over field names \<open>'f\<close> and deals \<open>'d\<close>: the value to store, the error of
  scanning a column into the field's pointer, and the assignment of the scanned value to the deal.
\<close>

record ('f, 'd) dealDef =
  dfName :: "'f \<Rightarrow> string"
  dfMarshall :: "'f \<Rightarrow> 'd \<Rightarrow> goerr + sqlVal"
  dfScanErr :: "'f \<Rightarrow> sqlVal \<Rightarrow> goerr option"
  dfUnmarshall :: "'f \<Rightarrow> sqlVal \<Rightarrow> 'd \<Rightarrow> goerr + 'd"

record FilterOptions =
  foCheckpoint :: "string option"
  foIsOffline :: "bool option"
  foTransferType :: "string option"
  foIsVerified :: "bool option"

definition withSearchQuery :: "string list \<Rightarrow> string \<Rightarrow> bool \<Rightarrow> string \<times> sqlVal list" where
  "withSearchQuery flds query0 searchLabel =
     (let query = trimSet {CHR '' '', CHR 0x09, CHR 0x0A} query0;
          quote4 = replicate 4 (CHR 0x27);
          labelWhere = (if searchLabel then ''Label = ('' @ quote4 @ '' || ?) OR '' else []);
          labelArgs = (if searchLabel then [SqlStr query] else [])
      in (''('' @ concat (map (\<lambda>f. f @ '' = ? OR '') flds) @ labelWhere @ '' instr(Error, ?) > 0'' @ '')'',
          map (\<lambda>_. SqlStr query) flds @ labelArgs @ [SqlStr query]))"

fun scanErrs :: "('f, 'd) dealDef \<Rightarrow> ('f \<times> sqlVal) list \<Rightarrow> goerr option" where
  "scanErrs D [] = None"
| "scanErrs D ((f, v) # fvs) = (case dfScanErr D f v of Some err \<Rightarrow> Some err | None \<Rightarrow> scanErrs D fvs)"

definition scannedVal :: "'f list \<Rightarrow> sqlVal list \<Rightarrow> 'f \<Rightarrow> sqlVal" where
  "scannedVal flds vals f = (case map_of (zip flds vals) f of None \<Rightarrow> SqlNull | Some v \<Rightarrow> v)"

fun unmarshallAll :: "('f, 'd) dealDef \<Rightarrow> ('f \<Rightarrow> sqlVal) \<Rightarrow> 'f list \<Rightarrow> 'd \<Rightarrow> goerr + 'd" where
  "unmarshallAll D val [] deal = Inr deal"
| "unmarshallAll D val (f # fs) deal =
     (case dfUnmarshall D f (val f) deal of
        Inl err \<Rightarrow> Inl (errorf_s (''unmarshalling db field '' @ dfName D f @ '': '') err)
      | Inr deal' \<Rightarrow> unmarshallAll D val fs deal')"

text \<open>\<open>order\<close> is the order of the second iteration over the map. A row may be an error, such as no rows.\<close>

definition scanDeal ::
  "('f, 'd) dealDef \<Rightarrow> 'f list \<Rightarrow> 'f list \<Rightarrow> goerr + sqlVal list \<Rightarrow> 'd \<Rightarrow> goerr + 'd" where
  "scanDeal D flds order row deal =
     (case (case row of Inl err \<Rightarrow> Some err | Inr vals \<Rightarrow> scanErrs D (zip flds vals)) of
        Some err \<Rightarrow> Inl (errorf_w ''scanning deal row: '' err)
      | None \<Rightarrow>
          (case row of
             Inl err \<Rightarrow> Inl err
           | Inr vals \<Rightarrow> unmarshallAll D (scannedVal flds vals) order deal))"

fun marshallAll :: "('f, 'd) dealDef \<Rightarrow> 'd \<Rightarrow> 'f list \<Rightarrow> sqlVal list \<Rightarrow> goerr + sqlVal list" where
  "marshallAll D deal [] values = Inr values"
| "marshallAll D deal (f # fs) values =
     (case dfMarshall D f deal of
        Inl err \<Rightarrow> Inl err
      | Inr v \<Rightarrow> marshallAll D deal fs (values @ [v]))"

definition insertQuery :: "string \<Rightarrow> string list \<Rightarrow> string" where
  "insertQuery table names =
     ''INSERT INTO '' @ table @ '' ('' @ joinStr '', '' names @ '') '' @
     ''VALUES ('' @ joinStr '','' (map (\<lambda>_. ''?'') names) @ '')''"

definition insertDeal ::
  "'s sqlDb \<Rightarrow> string \<Rightarrow> ('f, 'd) dealDef \<Rightarrow> 'f list \<Rightarrow> 's \<Rightarrow> 'd \<Rightarrow> goerr option \<times> 's" where
  "insertDeal S table D flds s deal =
     (case marshallAll D deal flds [] of
        Inl err \<Rightarrow> (Some err, s)
      | Inr values \<Rightarrow> sqExec S s (insertQuery table (map (dfName D) flds)) values)"

definition updateQuery :: "string \<Rightarrow> string list \<Rightarrow> string" where
  "updateQuery table names =
     ''UPDATE '' @ table @ '' '' @ ''SET '' @ joinStr '', '' (map (\<lambda>n. n @ '' = ?'') names) @ ''WHERE ID = ?''"

definition updateDeal ::
  "'s sqlDb \<Rightarrow> string \<Rightarrow> ('f, 'd) dealDef \<Rightarrow> 'f list \<Rightarrow> 's \<Rightarrow> 'd \<Rightarrow> string \<Rightarrow> goerr option \<times> 's" where
  "updateDeal S table D flds s deal dealUuid =
     (let flds' = filter (\<lambda>f. dfName D f \<noteq> ''ID'') flds in
      case marshallAll D deal flds' [] of
        Inl err \<Rightarrow> (Some err, s)
      | Inr values \<Rightarrow>
          sqExec S s (updateQuery table (map (dfName D) flds')) (values @ [SqlStr dealUuid]))"

section \<open>Direct deals\<close>

record DirectDeal =
  ddId :: string
  ddCreatedAt :: time
  ddPieceCID :: cid
  ddPieceSize :: u64
  ddClient :: address
  ddProvider :: address
  ddAllocationID :: u64
  ddCleanupData :: bool
  ddInboundFilePath :: string
  ddInboundFileSize :: int
  ddSectorID :: u64
  ddOffset :: u64
  ddLength :: u64
  ddCheckpoint :: int
  ddCheckpointAt :: time
  ddStartEpoch :: int
  ddEndEpoch :: int
  ddErr :: string
  ddRetry :: string
  ddKeepUnsealedCopy :: bool
  ddAnnounceToIPNI :: bool

datatype ddField = FID | FCreatedAt | FPieceCID | FPieceSize | FCleanupData | FClientAddress | FProviderAddress
  | FAllocationID | FStartEpoch | FEndEpoch | FInboundFilePath | FInboundFileSize | FSectorID | FOffset | FLength
  | FCheckpoint | FCheckpointAt | FError | FRetry | FKeepUnsealedCopy | FAnnounceToIPNI

fun ddFieldName :: "ddField \<Rightarrow> string" where
  "ddFieldName FID = ''ID''"
| "ddFieldName FCreatedAt = ''CreatedAt''"
| "ddFieldName FPieceCID = ''PieceCID''"
| "ddFieldName FPieceSize = ''PieceSize''"
| "ddFieldName FCleanupData = ''CleanupData''"
| "ddFieldName FClientAddress = ''ClientAddress''"
| "ddFieldName FProviderAddress = ''ProviderAddress''"
| "ddFieldName FAllocationID = ''AllocationID''"
| "ddFieldName FStartEpoch = ''StartEpoch''"
| "ddFieldName FEndEpoch = ''EndEpoch''"
| "ddFieldName FInboundFilePath = ''InboundFilePath''"
| "ddFieldName FInboundFileSize = ''InboundFileSize''"
| "ddFieldName FSectorID = ''SectorID''"
| "ddFieldName FOffset = ''Offset''"
| "ddFieldName FLength = ''Length''"
| "ddFieldName FCheckpoint = ''Checkpoint''"
| "ddFieldName FCheckpointAt = ''CheckpointAt''"
| "ddFieldName FError = ''Error''"
| "ddFieldName FRetry = ''Retry''"
| "ddFieldName FKeepUnsealedCopy = ''KeepUnsealedCopy''"
| "ddFieldName FAnnounceToIPNI = ''AnnounceToIPNI''"

text \<open>What a pointer of each type has received from a column of the right kind.\<close>

definition asStr :: "sqlVal \<Rightarrow> string" where
  "asStr v = (case v of SqlStr s \<Rightarrow> s | _ \<Rightarrow> [])"
definition asNullStr :: "sqlVal \<Rightarrow> string option" where
  "asNullStr v = (case v of SqlStr s \<Rightarrow> Some s | _ \<Rightarrow> None)"
definition asInt :: "sqlVal \<Rightarrow> int" where
  "asInt v = (case v of SqlInt i \<Rightarrow> i | _ \<Rightarrow> 0)"
definition asUint :: "sqlVal \<Rightarrow> u64" where
  "asUint v = (case v of SqlUint w \<Rightarrow> w | _ \<Rightarrow> 0)"
definition asBool :: "sqlVal \<Rightarrow> bool" where
  "asBool v = (case v of SqlBool b \<Rightarrow> b | _ \<Rightarrow> False)"
definition asTime :: "sqlVal \<Rightarrow> time" where
  "asTime v = (case v of SqlTime t \<Rightarrow> t | _ \<Rightarrow> time_zero)"

lemmas as_defs = asStr_def asNullStr_def asInt_def asUint_def asBool_def asTime_def

fun ddMarshall :: "('l, 'g, 'p) fieldEnv \<Rightarrow> ddField \<Rightarrow> DirectDeal \<Rightarrow> goerr + sqlVal" where
  "ddMarshall E FID d = FieldDef_Marshall (SqlStr (ddId d))"
| "ddMarshall E FCreatedAt d = FieldDef_Marshall (SqlTime (ddCreatedAt d))"
| "ddMarshall E FPieceCID d = CidFieldDef_Marshall E (Some (ddPieceCID d))"
| "ddMarshall E FPieceSize d = FieldDef_Marshall (SqlUint (ddPieceSize d))"
| "ddMarshall E FCleanupData d = FieldDef_Marshall (SqlBool (ddCleanupData d))"
| "ddMarshall E FClientAddress d = AddrFieldDef_Marshall E (ddClient d)"
| "ddMarshall E FProviderAddress d = AddrFieldDef_Marshall E (ddProvider d)"
| "ddMarshall E FAllocationID d = FieldDef_Marshall (SqlUint (ddAllocationID d))"
| "ddMarshall E FStartEpoch d = FieldDef_Marshall (SqlInt (ddStartEpoch d))"
| "ddMarshall E FEndEpoch d = FieldDef_Marshall (SqlInt (ddEndEpoch d))"
| "ddMarshall E FInboundFilePath d = FieldDef_Marshall (SqlStr (ddInboundFilePath d))"
| "ddMarshall E FInboundFileSize d = FieldDef_Marshall (SqlInt (ddInboundFileSize d))"
| "ddMarshall E FSectorID d = FieldDef_Marshall (SqlUint (ddSectorID d))"
| "ddMarshall E FOffset d = FieldDef_Marshall (SqlUint (ddOffset d))"
| "ddMarshall E FLength d = FieldDef_Marshall (SqlUint (ddLength d))"
| "ddMarshall E FCheckpoint d = CkptFieldDef_Marshall (ddCheckpoint d)"
| "ddMarshall E FCheckpointAt d = FieldDef_Marshall (SqlTime (ddCheckpointAt d))"
| "ddMarshall E FError d = FieldDef_Marshall (SqlStr (ddErr d))"
| "ddMarshall E FRetry d = FieldDef_Marshall (SqlStr (ddRetry d))"
| "ddMarshall E FKeepUnsealedCopy d = FieldDef_Marshall (SqlBool (ddKeepUnsealedCopy d))"
| "ddMarshall E FAnnounceToIPNI d = FieldDef_Marshall (SqlBool (ddAnnounceToIPNI d))"

fun ddUnmarshall :: "('l, 'g, 'p) fieldEnv \<Rightarrow> ddField \<Rightarrow> sqlVal \<Rightarrow> DirectDeal \<Rightarrow> goerr + DirectDeal" where
  "ddUnmarshall E FID v d = Inr (d\<lparr>ddId := asStr v\<rparr>)"
| "ddUnmarshall E FCreatedAt v d = Inr (d\<lparr>ddCreatedAt := asTime v\<rparr>)"
| "ddUnmarshall E FPieceCID v d =
     (case CidFieldDef_Unmarshall E (asNullStr v) (Some (ddPieceCID d)) of
        Fail err \<Rightarrow> Inl err | Ret (Some c) \<Rightarrow> Inr (d\<lparr>ddPieceCID := c\<rparr>) | _ \<Rightarrow> Inr d)"
| "ddUnmarshall E FPieceSize v d = Inr (d\<lparr>ddPieceSize := asUint v\<rparr>)"
| "ddUnmarshall E FCleanupData v d = Inr (d\<lparr>ddCleanupData := asBool v\<rparr>)"
| "ddUnmarshall E FClientAddress v d =
     (case AddrFieldDef_Unmarshall E (asStr v) of Inl err \<Rightarrow> Inl err | Inr a \<Rightarrow> Inr (d\<lparr>ddClient := a\<rparr>))"
| "ddUnmarshall E FProviderAddress v d =
     (case AddrFieldDef_Unmarshall E (asStr v) of Inl err \<Rightarrow> Inl err | Inr a \<Rightarrow> Inr (d\<lparr>ddProvider := a\<rparr>))"
| "ddUnmarshall E FAllocationID v d = Inr (d\<lparr>ddAllocationID := asUint v\<rparr>)"
| "ddUnmarshall E FStartEpoch v d = Inr (d\<lparr>ddStartEpoch := asInt v\<rparr>)"
| "ddUnmarshall E FEndEpoch v d = Inr (d\<lparr>ddEndEpoch := asInt v\<rparr>)"
| "ddUnmarshall E FInboundFilePath v d = Inr (d\<lparr>ddInboundFilePath := asStr v\<rparr>)"
| "ddUnmarshall E FInboundFileSize v d = Inr (d\<lparr>ddInboundFileSize := asInt v\<rparr>)"
| "ddUnmarshall E FSectorID v d = Inr (d\<lparr>ddSectorID := asUint v\<rparr>)"
| "ddUnmarshall E FOffset v d = Inr (d\<lparr>ddOffset := asUint v\<rparr>)"
| "ddUnmarshall E FLength v d = Inr (d\<lparr>ddLength := asUint v\<rparr>)"
| "ddUnmarshall E FCheckpoint v d =
     (case CkptFieldDef_Unmarshall (asStr v) of Inl err \<Rightarrow> Inl err | Inr cp \<Rightarrow> Inr (d\<lparr>ddCheckpoint := cp\<rparr>))"
| "ddUnmarshall E FCheckpointAt v d = Inr (d\<lparr>ddCheckpointAt := asTime v\<rparr>)"
| "ddUnmarshall E FError v d = Inr (d\<lparr>ddErr := asStr v\<rparr>)"
| "ddUnmarshall E FRetry v d = Inr (d\<lparr>ddRetry := asStr v\<rparr>)"
| "ddUnmarshall E FKeepUnsealedCopy v d = Inr (d\<lparr>ddKeepUnsealedCopy := asBool v\<rparr>)"
| "ddUnmarshall E FAnnounceToIPNI v d = Inr (d\<lparr>ddAnnounceToIPNI := asBool v\<rparr>)"

definition newDirectDealsAccessor ::
  "('l, 'g, 'p) fieldEnv \<Rightarrow> (ddField \<Rightarrow> sqlVal \<Rightarrow> goerr option) \<Rightarrow> (ddField, DirectDeal) dealDef" where
  "newDirectDealsAccessor E scanErr =
     \<lparr>dfName = ddFieldName, dfMarshall = ddMarshall E, dfScanErr = scanErr, dfUnmarshall = ddUnmarshall E\<rparr>"

text \<open>The zero value of a deal.\<close>

definition zeroDirectDeal :: DirectDeal where
  "zeroDirectDeal =
     \<lparr>ddId = [], ddCreatedAt = time_zero, ddPieceCID = [], ddPieceSize = 0, ddClient = [], ddProvider = [],
      ddAllocationID = 0, ddCleanupData = False, ddInboundFilePath = [], ddInboundFileSize = 0, ddSectorID = 0,
      ddOffset = 0, ddLength = 0, ddCheckpoint = 0, ddCheckpointAt = time_zero, ddStartEpoch = 0, ddEndEpoch = 0,
      ddErr = [], ddRetry = [], ddKeepUnsealedCopy = False, ddAnnounceToIPNI = False\<rparr>"

end
