(* ===== verification/DirectDeals.thy ===== *)
theory DirectDeals
  imports DealsDb
begin

text \<open>
  The store of direct deals, \<open>lib/boost/db/directdeals.go\<close>. \<open>flds\<close> is \<open>directDealsFields\<close>, the field
  names in the order the package's \<open>init\<close> met them; \<open>orders k\<close> is the order in which the fields of
  the \<open>k\<close>-th row are assigned.
\<close>

definition directDealsFieldsStr :: "ddField list \<Rightarrow> string" where
  "directDealsFieldsStr flds = joinStr '', '' (map ddFieldName flds)"

definition dd_scanRow ::
  "(ddField, DirectDeal) dealDef \<Rightarrow> ddField list \<Rightarrow> ddField list \<Rightarrow> goerr + sqlVal list \<Rightarrow> goerr + DirectDeal" where
  "dd_scanRow D flds order row = scanDeal D flds order row zeroDirectDeal"

definition dd_Insert ::
  "'s sqlDb \<Rightarrow> (ddField, DirectDeal) dealDef \<Rightarrow> ddField list \<Rightarrow> 's \<Rightarrow> DirectDeal \<Rightarrow> goerr option \<times> 's" where
  "dd_Insert S D flds s deal = insertDeal S ''DirectDeals'' D flds s deal"

definition dd_Update ::
  "'s sqlDb \<Rightarrow> (ddField, DirectDeal) dealDef \<Rightarrow> ddField list \<Rightarrow> 's \<Rightarrow> DirectDeal \<Rightarrow> goerr option \<times> 's" where
  "dd_Update S D flds s deal = updateDeal S ''DirectDeals'' D flds s deal (ddId deal)"

definition byIDQuery :: "ddField list \<Rightarrow> string" where
  "byIDQuery flds = ''SELECT '' @ directDealsFieldsStr flds @ '' FROM DirectDeals WHERE ID=?''"

definition dd_ByID ::
  "'s sqlDb \<Rightarrow> (ddField, DirectDeal) dealDef \<Rightarrow> ddField list \<Rightarrow> ddField list \<Rightarrow> 's \<Rightarrow> string \<Rightarrow> goerr + DirectDeal" where
  "dd_ByID S D flds order s i = dd_scanRow D flds order (sqQueryRow S s (byIDQuery flds) [SqlStr i])"

section \<open>Listing\<close>

definition listQuery :: "ddField list \<Rightarrow> int \<Rightarrow> int \<Rightarrow> string \<Rightarrow> sqlVal list \<Rightarrow> string \<times> sqlVal list" where
  "listQuery flds offset limit whereClause whereArgs =
     (let qry = ''SELECT '' @ directDealsFieldsStr flds @ '' FROM DirectDeals'';
          qry = (if whereClause \<noteq> [] then qry @ '' WHERE '' @ whereClause else qry);
          qry = qry @ '' ORDER BY CreatedAt DESC''
      in if 0 < limit then
           (if 0 < offset then (qry @ '' LIMIT ?'' @ '' OFFSET ?'', whereArgs @ [SqlInt limit, SqlInt offset])
            else (qry @ '' LIMIT ?'', whereArgs @ [SqlInt limit]))
         else (qry, whereArgs))"

fun dd_scanRows ::
  "(ddField, DirectDeal) dealDef \<Rightarrow> ddField list \<Rightarrow> (nat \<Rightarrow> ddField list) \<Rightarrow> nat \<Rightarrow> sqlVal list list \<Rightarrow>
   DirectDeal list \<Rightarrow> goerr + DirectDeal list" where
  "dd_scanRows D flds orders k [] deals = Inr deals"
| "dd_scanRows D flds orders k (row # rows) deals =
     (case dd_scanRow D flds (orders k) (Inr row) of
        Inl err \<Rightarrow> Inl err
      | Inr deal \<Rightarrow> dd_scanRows D flds orders (Suc k) rows (deals @ [deal]))"

definition dd_list ::
  "'s sqlDb \<Rightarrow> (ddField, DirectDeal) dealDef \<Rightarrow> ddField list \<Rightarrow> (nat \<Rightarrow> ddField list) \<Rightarrow> 's \<Rightarrow> int \<Rightarrow> int \<Rightarrow>
   string \<Rightarrow> sqlVal list \<Rightarrow> goerr + DirectDeal list" where
  "dd_list S D flds orders s offset limit whereClause whereArgs =
     (case listQuery flds offset limit whereClause whereArgs of
        (qry, args) \<Rightarrow>
          (case sqQuery S s qry args of
             Inl err \<Rightarrow> Inl err
           | Inr (rows, rowsErr) \<Rightarrow>
               (case dd_scanRows D flds orders 0 rows [] of
                  Inl err \<Rightarrow> Inl err
                | Inr deals \<Rightarrow> (case rowsErr of Some err \<Rightarrow> Inl err | None \<Rightarrow> Inr deals))))"

definition dd_ByPieceCID where
  "dd_ByPieceCID E S D flds orders s pieceCid =
     dd_list S D flds orders s 0 0 ''PieceCID=?'' [SqlStr (feCidString E pieceCid)]"

definition dd_BySectorID where
  "dd_BySectorID S D flds orders s sectorID =
     dd_list S D flds orders s 0 0 ''SectorID=?'' [SqlUint sectorID]"

definition dd_ActiveByPieceAllocID where
  "dd_ActiveByPieceAllocID E S D flds orders s piece alloc =
     dd_list S D flds orders s 0 0 ''PieceCID=? AND AllocationID=? AND Checkpoint != ?''
       [SqlStr (feCidString E piece), SqlUint alloc, SqlStr (Checkpoint_String 6)]"

definition dd_ListAll where
  "dd_ListAll S D flds orders s = dd_list S D flds orders s 0 0 [] []"

definition dd_ListActive where
  "dd_ListActive S D flds orders s =
     dd_list S D flds orders s 0 0 ''Checkpoint != ?'' [SqlStr (Checkpoint_String 6)]"

definition dd_ListCompleted where
  "dd_ListCompleted S D flds orders s =
     dd_list S D flds orders s 0 0 ''Checkpoint = ?'' [SqlStr (Checkpoint_String 6)]"

definition ddSearchFields :: "string list" where
  "ddSearchFields = [''ID'', ''PieceCID'', ''ClientAddress'', ''ProviderAddress'']"

definition withDirectDealsSearchFilter :: "FilterOptions \<Rightarrow> string \<times> sqlVal list" where
  "withDirectDealsSearchFilter opts =
     (case foCheckpoint opts of
        None \<Rightarrow> ([], [])
      | Some c \<Rightarrow> (''('' @ joinStr '' AND '' [''Checkpoint = ?''] @ '')'', [SqlStr c]))"

definition countQuery :: "string \<Rightarrow> FilterOptions option \<Rightarrow> string \<times> sqlVal list" where
  "countQuery query opts =
     (let qry = ''SELECT count(*) FROM DirectDeals'';
          sq = withSearchQuery ddSearchFields query False;
          (qry, args) = (if query \<noteq> [] then (qry @ '' WHERE '' @ fst sq, snd sq) else (qry, []))
      in case opts of
           None \<Rightarrow> (qry, args)
         | Some f \<Rightarrow>
             (let (filterWhere, filterArgs) = withDirectDealsSearchFilter f in
              if filterWhere \<noteq> [] then
                (qry @ (if query \<noteq> [] then '' AND '' else '' WHERE '') @ filterWhere, args @ filterArgs)
              else (qry, args)))"

text \<open>The first error is that of reading the row, the second that of a column that is no integer.\<close>

definition dd_Count ::
  "'s sqlDb \<Rightarrow> (sqlVal list \<Rightarrow> goerr + int) \<Rightarrow> 's \<Rightarrow> string \<Rightarrow> FilterOptions option \<Rightarrow> goerr + int" where
  "dd_Count S scanInt s query opts =
     (case countQuery query opts of
        (qry, args) \<Rightarrow> (case sqQueryRow S s qry args of Inl err \<Rightarrow> Inl err | Inr vals \<Rightarrow> scanInt vals))"

definition listWhere :: "string \<Rightarrow> FilterOptions option \<Rightarrow> string option \<Rightarrow> string \<times> sqlVal list" where
  "listWhere query opts cursor =
     (let (clause, args) =
            (case cursor of
               None \<Rightarrow> ([], [])
             | Some c \<Rightarrow> (''CreatedAt <= (SELECT CreatedAt FROM Deals WHERE ID = ?)'', [SqlStr c]));
          sq = withSearchQuery ddSearchFields query False;
          (clause, args) =
            (if query \<noteq> [] then ((if clause \<noteq> [] then clause @ '' AND '' else clause) @ fst sq, args @ snd sq)
             else (clause, args))
      in case opts of
           None \<Rightarrow> (clause, args)
         | Some f \<Rightarrow>
             (let clause = (if clause \<noteq> [] then clause @ '' AND '' else clause);
                  (filterWhere, filterArgs) = withDirectDealsSearchFilter f
              in if filterWhere \<noteq> [] then (clause @ filterWhere, args @ filterArgs) else (clause, args)))"

definition dd_List where
  "dd_List S D flds orders s query opts cursor offset limit =
     (case listWhere query opts cursor of
        (clause, args) \<Rightarrow> dd_list S D flds orders s offset limit clause args)"

section \<open>Placeholders\<close>

definition placeholders :: "string \<Rightarrow> nat" where
  "placeholders s = length (filter (\<lambda>c. c = CHR ''?'') s)"

lemma placeholders_simps [simp]:
  "placeholders [] = 0"
  "placeholders (s @ t) = placeholders s + placeholders t"
  "placeholders (c # s) = (if c = CHR ''?'' then Suc (placeholders s) else placeholders s)"
  by (simp_all add: placeholders_def)

lemma placeholders_join:
  "placeholders sep = 0 \<Longrightarrow> placeholders (joinStr sep ss) = sum_list (map placeholders ss)"
  by (induction sep ss rule: joinStr.induct) simp_all

lemma placeholders_fields: "placeholders (directDealsFieldsStr flds) = 0"
proof -
  have "placeholders (ddFieldName f) = 0" for f by (cases f) simp_all
  then have "sum_list (map placeholders (map ddFieldName flds)) = 0" by (induction flds) simp_all
  then show ?thesis by (simp add: directDealsFieldsStr_def placeholders_join)
qed

lemma search_query:
  "placeholders (fst (withSearchQuery ddSearchFields query False))
    = length (snd (withSearchQuery ddSearchFields query False))"
  "fst (withSearchQuery ddSearchFields query False) \<noteq> []"
  "last (fst (withSearchQuery ddSearchFields query False)) = CHR '')''"
  by (simp_all add: withSearchQuery_def ddSearchFields_def Let_def)

lemma search_filter:
  "placeholders (fst (withDirectDealsSearchFilter f)) = length (snd (withDirectDealsSearchFilter f))"
  "fst (withDirectDealsSearchFilter f) = [] \<longleftrightarrow> foCheckpoint f = None"
  "foCheckpoint f \<noteq> None \<Longrightarrow> last (fst (withDirectDealsSearchFilter f)) = CHR '')''"
  by (auto simp: withDirectDealsSearchFilter_def split: option.splits)

lemma list_query_args:
  "placeholders (fst (listQuery flds offset limit clause args)) + length args
    = placeholders clause + length (snd (listQuery flds offset limit clause args))"
  by (simp add: listQuery_def Let_def placeholders_fields)

lemma list_where_args:
  "placeholders (fst (listWhere query opts cursor)) = length (snd (listWhere query opts cursor))"
  by (simp add: listWhere_def Let_def split_beta search_query search_filter split: option.split)

lemma list_where_dangling:
  "fst (listWhere query opts cursor) \<noteq> [] \<and> last (fst (listWhere query opts cursor)) = CHR '' '' \<longleftrightarrow>
    (cursor \<noteq> None \<or> query \<noteq> []) \<and> (\<exists>f. opts = Some f \<and> foCheckpoint f = None)"
  by (auto simp: listWhere_def Let_def split_beta search_query search_filter split: option.split)

lemma count_query_args:
  "placeholders (fst (countQuery query opts)) = length (snd (countQuery query opts))"
  by (simp add: countQuery_def Let_def split_beta search_query search_filter split: option.split)

text \<open>
  The statements that count and list direct deals have as many placeholders as arguments, for every
  query, filter, cursor, offset and limit. The condition of a listing ends with a dangling \<open>AND\<close>,
  which no SQL grammar accepts, exactly when a filter is given that filters nothing and there is a cursor
  or a query before it.
\<close>

theorem direct_deal_queries:
  "(\<exists>qry args. countQuery query opts = (qry, args) \<and> placeholders qry = length args) \<and>
   (\<exists>clause args qry args'.
      listWhere query opts cursor = (clause, args) \<and>
      listQuery flds offset limit clause args = (qry, args') \<and>
      placeholders qry = length args' \<and>
      (clause \<noteq> [] \<and> last clause = CHR '' '' \<longleftrightarrow>
         \<not> (cursor = None \<and> query = []) \<and> (\<exists>f. opts = Some f \<and> foCheckpoint f = None)))"
proof -
  have "placeholders (fst (listQuery flds offset limit (fst (listWhere query opts cursor)) (snd (listWhere query opts cursor))))
      = length (snd (listQuery flds offset limit (fst (listWhere query opts cursor)) (snd (listWhere query opts cursor))))"
    using list_query_args [of flds offset limit "fst (listWhere query opts cursor)" "snd (listWhere query opts cursor)"]
    by (simp add: list_where_args)
  then show ?thesis
    using list_where_dangling [of query opts cursor] by (metis count_query_args prod.exhaust_sel)
qed

end
