(* ===== verification/DirectDealsProps.thy ===== *)
theory DirectDealsProps
  imports DirectDeals
begin

text \<open>
  The store of direct deals refines a map from IDs to deals, for every order in which Go visits the
  fields, when the database does what its insert, update and select statements say.
\<close>

section \<open>Scanning what was stored\<close>

text \<open>The value of a field in its column, and the assignment of one field of a deal to another.\<close>

definition ddRow :: "('l, 'g, 'p) fieldEnv \<Rightarrow> DirectDeal \<Rightarrow> ddField \<Rightarrow> sqlVal" where
  "ddRow E d f = (case ddMarshall E f d of Inl _ \<Rightarrow> SqlNull | Inr v \<Rightarrow> v)"

fun ddCopy :: "ddField \<Rightarrow> DirectDeal \<Rightarrow> DirectDeal \<Rightarrow> DirectDeal" where
  "ddCopy FID d z = z\<lparr>ddId := ddId d\<rparr>"
| "ddCopy FCreatedAt d z = z\<lparr>ddCreatedAt := ddCreatedAt d\<rparr>"
| "ddCopy FPieceCID d z = z\<lparr>ddPieceCID := ddPieceCID d\<rparr>"
| "ddCopy FPieceSize d z = z\<lparr>ddPieceSize := ddPieceSize d\<rparr>"
| "ddCopy FCleanupData d z = z\<lparr>ddCleanupData := ddCleanupData d\<rparr>"
| "ddCopy FClientAddress d z = z\<lparr>ddClient := ddClient d\<rparr>"
| "ddCopy FProviderAddress d z = z\<lparr>ddProvider := ddProvider d\<rparr>"
| "ddCopy FAllocationID d z = z\<lparr>ddAllocationID := ddAllocationID d\<rparr>"
| "ddCopy FStartEpoch d z = z\<lparr>ddStartEpoch := ddStartEpoch d\<rparr>"
| "ddCopy FEndEpoch d z = z\<lparr>ddEndEpoch := ddEndEpoch d\<rparr>"
| "ddCopy FInboundFilePath d z = z\<lparr>ddInboundFilePath := ddInboundFilePath d\<rparr>"
| "ddCopy FInboundFileSize d z = z\<lparr>ddInboundFileSize := ddInboundFileSize d\<rparr>"
| "ddCopy FSectorID d z = z\<lparr>ddSectorID := ddSectorID d\<rparr>"
| "ddCopy FOffset d z = z\<lparr>ddOffset := ddOffset d\<rparr>"
| "ddCopy FLength d z = z\<lparr>ddLength := ddLength d\<rparr>"
| "ddCopy FCheckpoint d z = z\<lparr>ddCheckpoint := ddCheckpoint d\<rparr>"
| "ddCopy FCheckpointAt d z = z\<lparr>ddCheckpointAt := ddCheckpointAt d\<rparr>"
| "ddCopy FError d z = z\<lparr>ddErr := ddErr d\<rparr>"
| "ddCopy FRetry d z = z\<lparr>ddRetry := ddRetry d\<rparr>"
| "ddCopy FKeepUnsealedCopy d z = z\<lparr>ddKeepUnsealedCopy := ddKeepUnsealedCopy d\<rparr>"
| "ddCopy FAnnounceToIPNI d z = z\<lparr>ddAnnounceToIPNI := ddAnnounceToIPNI d\<rparr>"

text \<open>
  What a deal needs to be stored: a known checkpoint, a CID and addresses that are read back from their
  texts, and unsigned numbers that a driver accepts, those below \<open>2^63\<close>.
\<close>

definition ddGood :: "('l, 'g, 'p) fieldEnv \<Rightarrow> DirectDeal \<Rightarrow> bool" where
  "ddGood E d \<longleftrightarrow>
     0 \<le> ddCheckpoint d \<and> ddCheckpoint d < 7 \<and>
     feCidParse E (feCidString E (ddPieceCID d)) = Inr (ddPieceCID d) \<and>
     feAddrParse E (feAddrString E (ddClient d)) = Inr (ddClient d) \<and>
     feAddrParse E (feAddrString E (ddProvider d)) = Inr (ddProvider d) \<and>
     (\<forall>w \<in> {ddPieceSize d, ddAllocationID d, ddSectorID d, ddOffset d, ddLength d}. unat w < 2 ^ 63)"

definition sqlStorable :: "sqlVal \<Rightarrow> bool" where
  "sqlStorable v = (case v of SqlUint w \<Rightarrow> unat w < 2 ^ 63 | _ \<Rightarrow> True)"

lemmas field_defs = FieldDef_Marshall_def CidFieldDef_Marshall_def CidFieldDef_Unmarshall_def
  AddrFieldDef_Marshall_def AddrFieldDef_Unmarshall_def CkptFieldDef_Marshall_def CkptFieldDef_Unmarshall_def
  as_defs

lemma ddMarshall_row: "ddMarshall E f d = Inr (ddRow E d f)"
  by (cases f) (simp_all add: ddRow_def field_defs)

lemma ddRow_ID [simp]: "ddRow E d FID = SqlStr (ddId d)"
  by (simp add: ddRow_def field_defs)

lemma ddRow_storable: "ddGood E d \<Longrightarrow> sqlStorable (ddRow E d f)"
  by (cases f) (simp_all add: ddRow_def field_defs ddGood_def sqlStorable_def)

lemma ddUnmarshall_row: "ddGood E d \<Longrightarrow> ddUnmarshall E f (ddRow E d f) z = Inr (ddCopy f d z)"
  by (cases f) (simp_all add: ddRow_def field_defs ddGood_def checkpoint_roundtrip)

lemma ddCopy_commute: "ddCopy g d z = z \<Longrightarrow> ddCopy g d (ddCopy f d z) = ddCopy f d z"
  by (cases f; cases g; cases z) simp_all

lemma ddCopy_same: "ddCopy f d (ddCopy f d z) = ddCopy f d z"
  by (cases f; cases z) simp_all

lemma ddCopy_all:
  assumes "\<And>f. ddCopy f d z = z"
  shows "z = d"
  using
    assms [of FID] assms [of FCreatedAt] assms [of FPieceCID] assms [of FPieceSize]
    assms [of FCleanupData] assms [of FClientAddress] assms [of FProviderAddress] assms [of FAllocationID]
    assms [of FStartEpoch] assms [of FEndEpoch] assms [of FInboundFilePath] assms [of FInboundFileSize]
    assms [of FSectorID] assms [of FOffset] assms [of FLength] assms [of FCheckpoint]
    assms [of FCheckpointAt] assms [of FError] assms [of FRetry] assms [of FKeepUnsealedCopy]
    assms [of FAnnounceToIPNI]
  by (cases z; cases d) simp

lemma marshallAll_rows:
  "marshallAll (newDirectDealsAccessor E scanErr) d fs vs = Inr (vs @ map (ddRow E d) fs)"
  by (induction fs arbitrary: vs) (simp_all add: newDirectDealsAccessor_def ddMarshall_row)

lemma scanErrs_rows:
  "(\<And>f. scanErr f (r f) = None) \<Longrightarrow>
    scanErrs (newDirectDealsAccessor E scanErr) (zip flds (map r flds)) = None"
  by (induction flds) (simp_all add: newDirectDealsAccessor_def)

lemma unmarshallAll_rows:
  assumes "ddGood E d" "\<And>f. f \<in> set order \<Longrightarrow> val f = ddRow E d f"
  shows "unmarshallAll (newDirectDealsAccessor E scanErr) val order z = Inr (fold (\<lambda>f. ddCopy f d) order z)"
  using assms(2)
  by (induction order arbitrary: z) (simp_all add: newDirectDealsAccessor_def ddUnmarshall_row [OF assms(1)])

lemma fold_copy:
  "ddCopy g d z = z \<or> g \<in> set order \<Longrightarrow> ddCopy g d (fold (\<lambda>f. ddCopy f d) order z) = fold (\<lambda>f. ddCopy f d) order z"
  by (induction order arbitrary: z) (auto simp: ddCopy_commute ddCopy_same)

lemma scannedVal_rows: "f \<in> set flds \<Longrightarrow> scannedVal flds (map r flds) f = r f"
  by (simp add: scannedVal_def map_of_zip_map)

lemma scan_row:
  assumes "ddGood E d" "\<And>f. scanErr f (ddRow E d f) = None" "set flds = UNIV" "set order = UNIV"
  shows "dd_scanRow (newDirectDealsAccessor E scanErr) flds order (Inr (map (ddRow E d) flds)) = Inr d"
proof -
  have "unmarshallAll (newDirectDealsAccessor E scanErr) (scannedVal flds (map (ddRow E d) flds)) order zeroDirectDeal
      = Inr (fold (\<lambda>f. ddCopy f d) order zeroDirectDeal)"
    using assms by (intro unmarshallAll_rows) (simp_all add: scannedVal_rows)
  moreover have "fold (\<lambda>f. ddCopy f d) order zeroDirectDeal = d"
    by (rule ddCopy_all) (simp add: fold_copy assms(4))
  ultimately show ?thesis
    by (simp add: dd_scanRow_def scanDeal_def scanErrs_rows assms(2))
qed

section \<open>The database\<close>

text \<open>
  What the store relies on: \<open>tab s i\<close> is the row of ID \<open>i\<close>, as a function of the columns. The three
  statements act on it: an insert of storable values under a new ID adds the row, an update changes the
  other columns of the row if there is one, and the select gives the columns in the order it names.
\<close>

definition ddTable :: "'s sqlDb \<Rightarrow> ddField list \<Rightarrow> ('s \<Rightarrow> string \<Rightarrow> (ddField \<Rightarrow> sqlVal) option) \<Rightarrow> bool" where
  "ddTable S flds tab \<longleftrightarrow>
     (\<forall>s r i. tab s i = None \<longrightarrow> r FID = SqlStr i \<longrightarrow> (\<forall>f. sqlStorable (r f)) \<longrightarrow>
        (\<exists>s'. sqExec S s (insertQuery ''DirectDeals'' (map ddFieldName flds)) (map r flds) = (None, s') \<and>
              tab s' = (tab s)(i := Some r))) \<and>
     (\<forall>s r i fs. fs = filter (\<lambda>f. ddFieldName f \<noteq> ''ID'') flds \<longrightarrow> (\<forall>f. sqlStorable (r f)) \<longrightarrow>
        (\<exists>s'. sqExec S s (updateQuery ''DirectDeals'' (map ddFieldName fs)) (map r fs @ [SqlStr i]) = (None, s') \<and>
              tab s' = (tab s)(i := map_option (\<lambda>old. r(FID := old FID)) (tab s i)))) \<and>
     (\<forall>s i. sqQueryRow S s (byIDQuery flds) [SqlStr i] =
        (case tab s i of None \<Rightarrow> Inl (errorf ''sql: no rows in result set'') | Some r \<Rightarrow> Inr (map r flds)))"

lemma ddTable_parts:
  assumes "ddTable S flds tab"
  shows "\<forall>s r i. tab s i = None \<longrightarrow> r FID = SqlStr i \<longrightarrow> (\<forall>f. sqlStorable (r f)) \<longrightarrow>
        (\<exists>s'. sqExec S s (insertQuery ''DirectDeals'' (map ddFieldName flds)) (map r flds) = (None, s') \<and>
              tab s' = (tab s)(i := Some r))"
    and "\<forall>s r i fs. fs = filter (\<lambda>f. ddFieldName f \<noteq> ''ID'') flds \<longrightarrow> (\<forall>f. sqlStorable (r f)) \<longrightarrow>
        (\<exists>s'. sqExec S s (updateQuery ''DirectDeals'' (map ddFieldName fs)) (map r fs @ [SqlStr i]) = (None, s') \<and>
              tab s' = (tab s)(i := map_option (\<lambda>old. r(FID := old FID)) (tab s i)))"
    and "\<forall>s i. sqQueryRow S s (byIDQuery flds) [SqlStr i] =
        (case tab s i of None \<Rightarrow> Inl (errorf ''sql: no rows in result set'') | Some r \<Rightarrow> Inr (map r flds))"
  using assms unfolding ddTable_def by - (elim conjE, assumption)+

lemmas ddTableD = ddTable_parts [rule_format]

text \<open>The abstraction: a table of rows holds a map of good deals.\<close>

definition ddHolds ::
  "('l, 'g, 'p) fieldEnv \<Rightarrow> (string \<Rightarrow> (ddField \<Rightarrow> sqlVal) option) \<Rightarrow> (string \<Rightarrow> DirectDeal option) \<Rightarrow> bool" where
  "ddHolds E t m \<longleftrightarrow> t = (\<lambda>i. map_option (ddRow E) (m i)) \<and> (\<forall>i d. m i = Some d \<longrightarrow> ddId d = i \<and> ddGood E d)"

text \<open>Reading a stored deal's columns reports no error.\<close>

definition ddScans :: "('l, 'g, 'p) fieldEnv \<Rightarrow> (ddField \<Rightarrow> sqlVal \<Rightarrow> goerr option) \<Rightarrow> bool" where
  "ddScans E scanErr \<longleftrightarrow> (\<forall>d f. ddGood E d \<longrightarrow> scanErr f (ddRow E d f) = None)"

lemma insert_holds:
  assumes "ddTable S flds tab" "ddHolds E (tab s) m" "ddGood E d" "m (ddId d) = None"
  shows "\<exists>s'. dd_Insert S (newDirectDealsAccessor E scanErr) flds s d = (None, s') \<and>
    ddHolds E (tab s') (m(ddId d \<mapsto> d))"
proof -
  have "tab s (ddId d) = None" using assms(2,4) by (simp add: ddHolds_def)
  from ddTableD(1) [OF assms(1) this, of "ddRow E d"] obtain s' where
    s': "sqExec S s (insertQuery ''DirectDeals'' (map ddFieldName flds)) (map (ddRow E d) flds) = (None, s')"
      "tab s' = (tab s)(ddId d := Some (ddRow E d))"
    using ddRow_storable [OF assms(3)] by auto
  have "dfName (newDirectDealsAccessor E scanErr) = ddFieldName" by (simp add: newDirectDealsAccessor_def)
  with s' assms(2,3) show ?thesis
    by (auto simp: dd_Insert_def insertDeal_def marshallAll_rows ddHolds_def)
qed

lemma update_holds:
  assumes "ddTable S flds tab" "ddHolds E (tab s) m" "ddGood E d"
  shows "\<exists>s'. dd_Update S (newDirectDealsAccessor E scanErr) flds s d = (None, s') \<and>
    ddHolds E (tab s') (if m (ddId d) = None then m else m(ddId d \<mapsto> d))"
proof -
  from ddTableD(2) [OF assms(1) refl, of "ddRow E d" s "ddId d"] obtain s' where
    s': "sqExec S s (updateQuery ''DirectDeals'' (map ddFieldName (filter (\<lambda>f. ddFieldName f \<noteq> ''ID'') flds)))
        (map (ddRow E d) (filter (\<lambda>f. ddFieldName f \<noteq> ''ID'') flds) @ [SqlStr (ddId d)]) = (None, s')"
      "tab s' = (tab s)(ddId d := map_option (\<lambda>old. (ddRow E d)(FID := old FID)) (tab s (ddId d)))"
    using ddRow_storable [OF assms(3)] by auto
  have "dfName (newDirectDealsAccessor E scanErr) = ddFieldName" by (simp add: newDirectDealsAccessor_def)
  with s' have "dd_Update S (newDirectDealsAccessor E scanErr) flds s d = (None, s')"
    by (simp add: dd_Update_def updateDeal_def marshallAll_rows)
  moreover have "ddHolds E (tab s') (if m (ddId d) = None then m else m(ddId d \<mapsto> d))"
    using s'(2) assms(2,3) by (auto simp: ddHolds_def fun_eq_iff)
  ultimately show ?thesis by blast
qed

lemma ByID_holds:
  assumes "ddTable S flds tab" "ddHolds E (tab s) m" "ddScans E scanErr"
    and "set flds = UNIV" "set order = UNIV" "D = newDirectDealsAccessor E scanErr"
  shows "dd_ByID S D flds order s i =
    (case m i of
       None \<Rightarrow> Inl (errorf_w ''scanning deal row: '' (errorf ''sql: no rows in result set''))
     | Some d' \<Rightarrow> Inr d')"
proof (cases "m i")
  case None
  with assms(2) have "tab s i = None" by (simp add: ddHolds_def)
  with None ddTableD(3) [OF assms(1), of s i] show ?thesis
    by (simp add: dd_ByID_def dd_scanRow_def scanDeal_def)
next
  case (Some d')
  with assms(2) have d': "tab s i = Some (ddRow E d')" "ddGood E d'" by (simp_all add: ddHolds_def)
  have "dd_scanRow D flds order (Inr (map (ddRow E d') flds)) = Inr d'"
    unfolding assms(6) by (rule scan_row) (use assms(3-5) d'(2) in \<open>simp_all add: ddScans_def\<close>)
  with d'(1) Some ddTableD(3) [OF assms(1), of s i] show ?thesis
    by (simp add: dd_ByID_def)
qed

text \<open>
  C30: The store of direct deals is a map from IDs to deals. Inserting a deal under a new ID adds it and
  updating one replaces it, an update of a deal that is not there changes nothing and reports no
  error, and looking a deal up by its ID gives back exactly the deal last stored: every one of the
  21 fields, in whatever orders Go visits them.
\<close>

theorem direct_deals_refine_map:
  assumes "ddTable S flds tab" "ddHolds E (tab s) m" "ddScans E scanErr" "ddGood E d"
    and "set flds = UNIV" "set order = UNIV"
    and "D = newDirectDealsAccessor E scanErr"
  shows "(m (ddId d) = None \<longrightarrow>
      (\<exists>s'. dd_Insert S D flds s d = (None, s') \<and> ddHolds E (tab s') (m(ddId d \<mapsto> d)))) \<and>
    (\<exists>s'. dd_Update S D flds s d = (None, s') \<and>
      ddHolds E (tab s') (if m (ddId d) = None then m else m(ddId d \<mapsto> d))) \<and>
    dd_ByID S D flds order s i =
      (case m i of
         None \<Rightarrow> Inl (errorf_w ''scanning deal row: '' (errorf ''sql: no rows in result set''))
       | Some d' \<Rightarrow> Inr d')"
proof -
  from ByID_holds [OF assms(1-3,5-7)] have "dd_ByID S D flds order s i =
      (case m i of
         None \<Rightarrow> Inl (errorf_w ''scanning deal row: '' (errorf ''sql: no rows in result set''))
       | Some d' \<Rightarrow> Inr d')" .
  with insert_holds [OF assms(1,2,4), of scanErr] update_holds [OF assms(1,2,4), of scanErr] show ?thesis
    by (simp add: assms(7))
qed

section \<open>A concrete database\<close>

definition allFields :: "ddField list" where
  "allFields = [FID, FCreatedAt, FPieceCID, FPieceSize, FCleanupData, FClientAddress, FProviderAddress,
     FAllocationID, FStartEpoch, FEndEpoch, FInboundFilePath, FInboundFileSize, FSectorID, FOffset, FLength,
     FCheckpoint, FCheckpointAt, FError, FRetry, FKeepUnsealedCopy, FAnnounceToIPNI]"

text \<open>It keeps the rows in memory and knows the three statements.\<close>

definition memDb :: "(string \<Rightarrow> (ddField \<Rightarrow> sqlVal) option) sqlDb" where
  "memDb =
     (let upd = filter (\<lambda>f. ddFieldName f \<noteq> ''ID'') allFields in
      \<lparr>sqExec = (\<lambda>t q vs.
         if hd q = CHR ''I'' then
           (None, t(asStr (hd vs) := Some (scannedVal allFields vs)))
         else
           (None, t(asStr (last vs) :=
             map_option (\<lambda>old. (scannedVal upd (butlast vs))(FID := old FID)) (t (asStr (last vs)))))),
       sqQueryRow = (\<lambda>t q vs.
         case t (asStr (hd vs)) of
           None \<Rightarrow> Inl (errorf ''sql: no rows in result set'') | Some r \<Rightarrow> Inr (map r allFields)),
       sqQuery = (\<lambda>t q vs. Inr ([], None))\<rparr>)"

lemma allFields_all: "set allFields = UNIV"
proof -
  have "f \<in> set allFields" for f by (cases f) (simp_all add: allFields_def)
  then show ?thesis by auto
qed

lemma scanned_all: "scannedVal allFields (map r allFields) = r"
  by (rule ext) (simp add: scannedVal_rows allFields_all)

lemma scanned_upd:
  "(scannedVal (filter (\<lambda>f. ddFieldName f \<noteq> ''ID'') allFields)
      (map r (filter (\<lambda>f. ddFieldName f \<noteq> ''ID'') allFields)))(FID := x) = r(FID := x)"
proof (rule ext)
  fix f
  have "f \<noteq> FID \<Longrightarrow> ddFieldName f \<noteq> ''ID''" by (cases f) simp_all
  then show "((scannedVal (filter (\<lambda>f. ddFieldName f \<noteq> ''ID'') allFields)
      (map r (filter (\<lambda>f. ddFieldName f \<noteq> ''ID'') allFields)))(FID := x)) f = (r(FID := x)) f"
    by (auto simp: scannedVal_rows allFields_all)
qed

lemma memDb_table: "ddTable memDb allFields (\<lambda>t. t)"
proof -
  have h: "hd allFields = FID" "allFields \<noteq> []" by (simp_all add: allFields_def)
  have q: "hd (insertQuery t n) = CHR ''I''" "hd (updateQuery t n) = CHR ''U''" for t n
    by (simp_all add: insertQuery_def updateQuery_def)
  show ?thesis
    by (auto simp: ddTable_def memDb_def Let_def q hd_map h asStr_def scanned_all scanned_upd)
qed

definition demoDeal :: DirectDeal where
  "demoDeal = zeroDirectDeal\<lparr>ddId := ''a'', ddPieceCID := ''baga'', ddPieceSize := 2048, ddCheckpoint := 4,
     ddStartEpoch := 10, ddErr := ''late'', ddAnnounceToIPNI := True\<rparr>"

theorem direct_deals_refine_map_witness:
  "\<exists>s'. dd_Insert memDb (newDirectDealsAccessor demoFe (\<lambda>f v. None)) allFields (\<lambda>i. None) demoDeal = (None, s') \<and>
    ddHolds demoFe s' [''a'' \<mapsto> demoDeal]"
proof -
  have g: "ddGood demoFe demoDeal" "ddId demoDeal = ''a''"
    by (simp_all add: ddGood_def demoFe_def demoDeal_def zeroDirectDeal_def)
  have h: "ddHolds demoFe (\<lambda>i. None) (\<lambda>i. None)" "ddScans demoFe (\<lambda>f v. None)"
    by (simp_all add: ddHolds_def ddScans_def)
  show ?thesis
    using direct_deals_refine_map [where tab = "\<lambda>t. t", OF memDb_table h g(1) allFields_all allFields_all refl]
    by (simp add: g(2))
qed

end
