(* ===== verification/ConfigFile.thy ===== *)
theory ConfigFile
  imports GoStd
begin

text \<open>
  Rewriting the configuration file: \<open>lib/boost/node/config/update.go\<close> and \<open>doc_util.go\<close>. The TOML
  library, the environment overrides of \<open>envconfig\<close> and the generated documentation are the record
  \<open>cfgEnv\<close> over the type \<open>'c\<close> of configurations; error texts leave out the interpolated
  configurations.
\<close>

text \<open>The configuration of a node: its version, and the other fields as a parameter.\<close>

record 'r Boost =
  ConfigVersion :: int
  BoostRest :: 'r

record DocField =
  dfdName :: string
  dfdType :: string
  dfdComment :: string

record 'c cfgEnv =
  ceEncode :: "'c \<Rightarrow> goerr + string"
  ceDecode :: "string \<Rightarrow> 'c \<Rightarrow> goerr + 'c"
  ceProcess :: "'c \<Rightarrow> goerr + 'c"
  ceDoc :: "string \<Rightarrow> DocField list"
  ceRoot :: string

definition newline :: char where
  "newline = CHR 0x0A"

definition FromReader :: "'c cfgEnv \<Rightarrow> string \<Rightarrow> 'c \<Rightarrow> goerr + 'c" where
  "FromReader E content def =
     (case ceDecode E content def of
        Inl err \<Rightarrow> Inl err
      | Inr cfg \<Rightarrow>
          (case ceProcess E cfg of
             Inl err \<Rightarrow> Inl (errorf_s ''processing env vars overrides: '' err)
           | Inr cfg' \<Rightarrow> Inr cfg'))"

section \<open>Documentation of a field\<close>

fun docPath :: "'c cfgEnv \<Rightarrow> string list \<Rightarrow> DocField list \<Rightarrow> DocField list" where
  "docPath E [] sec = sec"
| "docPath E (e # es) sec =
     (if sec = [] then []
      else docPath E es (case find (\<lambda>f. dfdName f = e) sec of None \<Rightarrow> sec | Some f \<Rightarrow> ceDoc E (dfdType f)))"

definition findDocSect :: "'c cfgEnv \<Rightarrow> string \<Rightarrow> string \<Rightarrow> string \<Rightarrow> DocField option" where
  "findDocSect E root sect name =
     find (\<lambda>df. dfdName df = name) (docPath E (splitOn (CHR ''.'') sect) (ceDoc E root))"

definition findDoc :: "'c cfgEnv \<Rightarrow> string \<Rightarrow> string \<Rightarrow> DocField option" where
  "findDoc E sect name =
     (case findDocSect E (ceRoot E) sect name of
        Some doc \<Rightarrow> Some doc
      | None \<Rightarrow> findDocSect E ''Common'' sect name)"

section \<open>Lines\<close>

text \<open>\<open>strings.Fields\<close>, and the greedy first group of the expression \<open>\[(.+)]\<close> in a text that begins with
  a bracket.\<close>

fun splitSpace :: "string \<Rightarrow> string list" where
  "splitSpace [] = [[]]"
| "splitSpace (x # xs) =
     (if isSpace x then [] # splitSpace xs
      else case splitSpace xs of [] \<Rightarrow> [[x]] | w # ws \<Rightarrow> (x # w) # ws)"

definition stringsFields :: "string \<Rightarrow> string list" where
  "stringsFields s = filter (\<lambda>w. w \<noteq> []) (splitSpace s)"

definition sectionName :: "string \<Rightarrow> string option" where
  "sectionName trimmed =
     (let r = dropWhile (\<lambda>c. c \<noteq> CHR '']'') (rev (tl trimmed)) in
      if length r < 2 then None else Some (rev (tl r)))"

definition leftPad :: "string \<Rightarrow> string" where
  "leftPad line = replicate (length line - length (dropWhile isSpace line)) (CHR '' '')"

definition isSectionLine :: "string \<Rightarrow> bool" where
  "isSectionLine line \<longleftrightarrow> trimSpace line \<noteq> [] \<and> hd (trimSpace line) = CHR ''[''"

definition defaultLines :: "string \<Rightarrow> string set" where
  "defaultLines defStr =
     set (filter (\<lambda>l. l \<noteq> [] \<and> hd l \<noteq> CHR ''#'' \<and> hd l \<noteq> CHR ''['') (map trimSpace (splitOn newline defStr)))"

definition docLines :: "'c cfgEnv \<Rightarrow> string \<Rightarrow> string \<Rightarrow> string \<Rightarrow> string list" where
  "docLines E sect pad name =
     (case findDoc E sect name of
        None \<Rightarrow> []
      | Some doc \<Rightarrow>
          (if dfdComment doc \<noteq> []
           then map (\<lambda>l. pad @ ''# '' @ l) (splitOn newline (dfdComment doc)) @ [pad @ ''#'']
           else []) @
          [pad @ ''# type: '' @ dfdType doc])"

text \<open>The lines that take the place of a line that is no section; \<open>defaults\<close> is \<open>None\<close> without a default
  configuration.\<close>

definition diffLine :: "'c cfgEnv \<Rightarrow> string set option \<Rightarrow> bool \<Rightarrow> string \<Rightarrow> string \<Rightarrow> string list" where
  "diffLine E defaults comment sect line =
     (let lf = stringsFields line;
          found = (case defaults of None \<Rightarrow> False | Some ds \<Rightarrow> trimSpace line \<in> ds)
      in if 1 < length lf \<and> \<not> found \<and> line \<noteq> [] then
           (if comment then docLines E sect (leftPad line) (hd lf) @ [line, []] else [line, []])
         else [])"

definition plainLine :: "'c cfgEnv \<Rightarrow> string set option \<Rightarrow> string \<Rightarrow> string \<Rightarrow> string list" where
  "plainLine E defaults sect line =
     (let pad = leftPad line;
          lf = stringsFields line;
          docs = (if 1 < length lf then docLines E sect pad (hd lf) else []);
          found = (case defaults of None \<Rightarrow> True | Some ds \<Rightarrow> trimSpace line \<in> ds);
          line' = (if found \<and> line \<noteq> [] then pad @ ''#'' @ drop (length pad) line else line)
      in docs @ [line'] @ (if line' \<noteq> [] then [[]] else []))"

fun updateLoop ::
  "'c cfgEnv \<Rightarrow> string set option \<Rightarrow> bool \<Rightarrow> bool \<Rightarrow> nat \<Rightarrow> string \<Rightarrow> string list \<Rightarrow> string list \<Rightarrow>
   goerr + string list" where
  "updateLoop E defaults comment diff i sect [] outLines = Inr outLines"
| "updateLoop E defaults comment diff i sect (line # ls) outLines =
     (if isSectionLine line then
        (case sectionName (trimSpace line) of
           None \<Rightarrow> Inl (errorf (''section didn't match (line '' @ show_nat i @ '')''))
         | Some sect' \<Rightarrow> updateLoop E defaults comment diff (Suc i) sect' ls (outLines @ [line]))
      else updateLoop E defaults comment diff (Suc i) sect ls
        (outLines @ (if diff then diffLine E defaults comment sect line else plainLine E defaults sect line)))"

section \<open>Removing unchanged sections from a difference\<close>

definition bracketLine :: "string \<Rightarrow> bool" where
  "bracketLine l \<longleftrightarrow> l \<noteq> [] \<and> hd l = CHR ''[''"

text \<open>The lines after position \<open>i\<close> before the next one that \<open>P\<close> holds for, and its position.\<close>

fun scanSection :: "(string \<Rightarrow> bool outcome) \<Rightarrow> string list \<Rightarrow> (string list \<times> bool) outcome" where
  "scanSection P [] = Ret ([], False)"
| "scanSection P (l # ls) =
     (case P l of
        Ret True \<Rightarrow> Ret ([], True)
      | Ret False \<Rightarrow>
          (case scanSection P ls of Ret (saved, found) \<Rightarrow> Ret (l # saved, found) | Fail e \<Rightarrow> Fail e | Panic \<Rightarrow> Panic)
      | Fail e \<Rightarrow> Fail e
      | Panic \<Rightarrow> Panic)"

text \<open>The test of the first character of a trimmed line panics for a line of spaces.\<close>

definition trimmedBracket :: "string \<Rightarrow> bool outcome" where
  "trimmedBracket l =
     (if l = [] then Ret False
      else if trimSpace l = [] then Panic else Ret (hd (trimSpace l) = CHR ''[''))"

function cleanupLoop :: "string list \<Rightarrow> nat \<Rightarrow> string list \<Rightarrow> string list outcome" where
  "cleanupLoop sec i res =
     (if length sec \<le> i then Ret (if 1 < length res then res else [])
      else if trimSpace (sec ! i) = [] then cleanupLoop sec (Suc i) res
      else case scanSection trimmedBracket (drop (Suc i) sec) of
          Ret (saved, found) \<Rightarrow>
            (let savedLines = sec ! i # saved;
                 i' = (if found then i + length saved else i);
                 res' = (if length savedLines < 2 then res else res @ savedLines)
             in if \<not> length savedLines < 2 \<and> length res' = length sec then Ret res'
                else cleanupLoop sec (Suc i') res')
        | _ \<Rightarrow> Panic)"
  by pat_completeness auto
termination
  by (relation "measure (\<lambda>(sec, i, res). length sec - i)") auto

declare cleanupLoop.simps [simp del]

definition cleanupSection :: "string list \<Rightarrow> string list outcome" where
  "cleanupSection sec = (if sec = [] then Panic else cleanupLoop sec 1 [sec ! 0])"

text \<open>The number of lines of a section that are headers or blank.\<close>

fun countHeaders :: "string list \<Rightarrow> nat outcome" where
  "countHeaders [] = Ret 0"
| "countHeaders (v # vs) =
     (case trimmedBracket v of
        Ret b \<Rightarrow> (case countHeaders vs of Ret n \<Rightarrow> Ret (if b then Suc n else n) | _ \<Rightarrow> Panic)
      | _ \<Rightarrow> Panic)"

function removeLoop :: "string list \<Rightarrow> nat \<Rightarrow> string list \<Rightarrow> string list outcome" where
  "removeLoop s i result =
     (if length s \<le> i then Ret result
      else if s ! i = [] then removeLoop s (Suc i) result
      else if bracketLine (s ! i) then
        (case scanSection (\<lambda>l. Ret (bracketLine l)) (drop (Suc i) s) of
           Ret (saved, found) \<Rightarrow>
             (let savedLines = s ! i # saved;
                  i' = (if found then i + length saved else i);
                  exit = (length s \<le> i' + length savedLines)
              in case (if length savedLines < 2 then Ret result
                       else case countHeaders savedLines of
                           Ret counter \<Rightarrow>
                             (if counter < length savedLines then
                                (case cleanupSection savedLines of Ret res \<Rightarrow> Ret (result @ res) | _ \<Rightarrow> Panic)
                              else Ret result)
                         | _ \<Rightarrow> Panic) of
                   Ret result' \<Rightarrow> (if exit then Ret result' else removeLoop s (Suc i') result')
                 | _ \<Rightarrow> Panic)
         | _ \<Rightarrow> Panic)
      else removeLoop s (Suc i) (result @ [s ! i]))"
  by pat_completeness auto
termination
  by (relation "measure (\<lambda>(s, i, result). length s - i)") auto

declare removeLoop.simps [simp del]

definition removeLines :: "string list \<Rightarrow> string list outcome" where
  "removeLines s = removeLoop s 0 []"

section \<open>The update\<close>

definition ConfigUpdate :: "'c cfgEnv \<Rightarrow> 'c \<Rightarrow> 'c option \<Rightarrow> bool \<Rightarrow> bool \<Rightarrow> string outcome" where
  "ConfigUpdate E cfgCur cfgDef comment diff =
     (case (case cfgDef of None \<Rightarrow> Inr [] | Some d \<Rightarrow> ceEncode E d) of
        Inl err \<Rightarrow> Fail (errorf_w ''encoding default config: '' err)
      | Inr defStr \<Rightarrow>
     (case ceEncode E cfgCur of
        Inl err \<Rightarrow> Fail (errorf_w ''encoding node config: '' err)
      | Inr nodeStr \<Rightarrow>
          let defaults = (case cfgDef of None \<Rightarrow> None | Some _ \<Rightarrow> Some (defaultLines defStr));
              updated =
                (if comment \<or> diff then
                   (case updateLoop E defaults comment diff 0 [] (splitOn newline nodeStr) [] of
                      Inl err \<Rightarrow> Fail err
                    | Inr outLines \<Rightarrow>
                        (case (if diff then removeLines outLines else Ret outLines) of
                           Ret ls \<Rightarrow> Ret (joinOn newline ls) | Fail err \<Rightarrow> Fail err | Panic \<Rightarrow> Panic))
                 else Ret nodeStr)
          in case updated of
               Ret nodeStr' \<Rightarrow>
                 (case cfgDef of
                    None \<Rightarrow> Ret nodeStr'
                  | Some d \<Rightarrow>
                      (case FromReader E nodeStr' d of
                         Inl err \<Rightarrow> Fail (errorf_w ''parsing updated config: '' err)
                       | Inr cfgUpdated \<Rightarrow>
                           (if cfgCur \<noteq> cfgUpdated
                            then Fail (errorf ''updated config didn't match current config'')
                            else Ret nodeStr')))
             | Fail err \<Rightarrow> Fail err
             | Panic \<Rightarrow> Panic))"

end
