(* ===== verification/ConfigProps.thy ===== *)
theory ConfigProps
  imports ConfigFile
begin

text \<open>
  What the commented configuration file contains: the lines that are in force, which the TOML reader
  does not skip, are those of the encoded configuration that are no line of the encoded defaults.
\<close>

definition activeLine :: "string \<Rightarrow> bool" where
  "activeLine l \<longleftrightarrow> trimSpace l \<noteq> [] \<and> hd (trimSpace l) \<noteq> CHR ''#''"

definition activeLines :: "string \<Rightarrow> string list" where
  "activeLines s = filter activeLine (splitOn newline s)"

section \<open>Lines\<close>

lemma splitOn_no_sep: "l \<in> set (splitOn c s) \<Longrightarrow> c \<notin> set l"
  by (induction s arbitrary: l) (auto split: if_splits list.splits)

lemma trimSpace_pad: "(\<forall>c\<in>set p. isSpace c) \<Longrightarrow> trimSpace (p @ s) = trimSpace s"
  by (simp add: trimSpace_def)

lemma dropWhile_end: "\<not> P c \<Longrightarrow> rev (dropWhile P (rev (c # s))) = c # rev (dropWhile P (rev s))"
  by (simp add: dropWhile_append)

lemma trimSpace_head: "\<not> isSpace c \<Longrightarrow> trimSpace (c # s) = c # rev (dropWhile isSpace (rev s))"
  using dropWhile_end [of isSpace c s] by (simp add: trimSpace_def)

lemma not_space_hash: "\<not> isSpace (CHR ''#'')"
  by (simp add: isSpace_def)

lemma comment_inactive: "(\<forall>c\<in>set p. isSpace c) \<Longrightarrow> \<not> activeLine (p @ CHR ''#'' # s)"
  by (simp add: activeLine_def trimSpace_pad trimSpace_head not_space_hash)

lemma leftPad_space: "c \<in> set (leftPad line) \<Longrightarrow> isSpace c"
  by (auto simp: leftPad_def isSpace_def)

lemma leftPad_no_newline: "newline \<notin> set (leftPad line)"
  by (auto simp: leftPad_def newline_def)

lemma hash_no_newline: "newline \<notin> set (''# type: '')" "newline \<noteq> CHR ''#''" "newline \<noteq> CHR '' ''"
  "newline \<noteq> CHR ''t''" "newline \<noteq> CHR ''y''" "newline \<noteq> CHR ''p''" "newline \<noteq> CHR ''e''" "newline \<noteq> CHR '':''"
  by (simp_all add: newline_def)

lemma blank_inactive [simp]: "\<not> activeLine []"
  by (simp add: activeLine_def trimSpace_def)

definition docTyped :: "'c cfgEnv \<Rightarrow> bool" where
  "docTyped E \<longleftrightarrow> (\<forall>root. \<forall>doc\<in>set (ceDoc E root). newline \<notin> set (dfdType doc))"

lemma docPath_docs: "docTyped E \<Longrightarrow> (\<forall>doc\<in>set sec. newline \<notin> set (dfdType doc)) \<Longrightarrow>
    doc \<in> set (docPath E path sec) \<Longrightarrow> newline \<notin> set (dfdType doc)"
proof (induction E path sec rule: docPath.induct)
  case (2 E e es sec)
  then show ?case
    by (cases "find (\<lambda>f. dfdName f = e) sec") (auto simp: docTyped_def split: if_splits)
qed simp

lemma findDoc_type:
  assumes "docTyped E" "findDoc E sect name = Some doc"
  shows "newline \<notin> set (dfdType doc)"
proof -
  have "newline \<notin> set (dfdType d)" if "findDocSect E root sect name = Some d" for root d
  proof -
    from that have "d \<in> set (docPath E (splitOn (CHR ''.'') sect) (ceDoc E root))"
      unfolding findDocSect_def by (auto simp: find_Some_iff)
    moreover have "\<forall>doc\<in>set (ceDoc E root). newline \<notin> set (dfdType doc)"
      using assms(1) by (simp add: docTyped_def)
    ultimately show ?thesis by (metis docPath_docs assms(1))
  qed
  with assms(2) show ?thesis unfolding findDoc_def by (auto split: option.splits)
qed

lemma docLines_inactive: "filter activeLine (docLines E sect (leftPad line) name) = []"
  using leftPad_space comment_inactive [of "leftPad line"]
  by (auto simp: docLines_def filter_empty_conv split: option.splits)

lemma docLines_no_newline:
  assumes "docTyped E" "l \<in> set (docLines E sect (leftPad line) name)"
  shows "newline \<notin> set l"
  using assms(2) findDoc_type [OF assms(1), of sect name]
  by (auto simp: docLines_def leftPad_no_newline hash_no_newline split: option.splits if_splits
      dest!: splitOn_no_sep)

lemma plainLine_active:
  "filter activeLine (plainLine E (Some ds) sect line) = (if activeLine line \<and> trimSpace line \<notin> ds then [line] else [])"
proof -
  have "\<not> activeLine (leftPad line @ ''#'' @ drop (length (leftPad line)) line)"
    using leftPad_space comment_inactive [of "leftPad line"] by auto
  then show ?thesis by (auto simp: plainLine_def Let_def docLines_inactive)
qed

lemma plainLine_no_newline:
  assumes "docTyped E" "newline \<notin> set line" "l \<in> set (plainLine E (Some ds) sect line)"
  shows "newline \<notin> set l"
proof -
  have "newline \<notin> set (drop n line)" for n using assms(2) by (auto dest: in_set_dropD)
  then show ?thesis
    using assms(2,3) docLines_no_newline [OF assms(1), of l sect line "hd (stringsFields line)"]
    by (auto simp: plainLine_def Let_def leftPad_no_newline hash_no_newline split: if_splits)
qed

lemma section_active: "isSectionLine line \<Longrightarrow> activeLine line"
  by (auto simp: isSectionLine_def activeLine_def)

lemma updateLoop_active:
  assumes "updateLoop E (Some ds) True False i sect ls outLines = Inr out"
  shows "filter activeLine out = filter activeLine outLines @
    filter (\<lambda>l. activeLine l \<and> (isSectionLine l \<or> trimSpace l \<notin> ds)) ls"
  using assms
proof (induction ls arbitrary: i sect outLines)
  case (Cons line ls)
  show ?case
  proof (cases "isSectionLine line")
    case True
    with Cons.prems obtain sect' where
      "updateLoop E (Some ds) True False (Suc i) sect' ls (outLines @ [line]) = Inr out"
      by (auto split: option.splits)
    from Cons.IH [OF this] True show ?thesis by (simp add: section_active)
  next
    case False
    with Cons.prems have
      "updateLoop E (Some ds) True False (Suc i) sect ls (outLines @ plainLine E (Some ds) sect line) = Inr out"
      by simp
    from Cons.IH [OF this] False show ?thesis by (simp add: plainLine_active)
  qed
qed simp

lemma updateLoop_no_newline:
  assumes "docTyped E" "updateLoop E (Some ds) True False i sect ls outLines = Inr out"
    and "\<forall>l\<in>set ls. newline \<notin> set l" "\<forall>l\<in>set outLines. newline \<notin> set l"
  shows "\<forall>l\<in>set out. newline \<notin> set l"
  using assms(2-)
proof (induction ls arbitrary: i sect outLines)
  case (Cons line ls)
  show ?case
  proof (cases "isSectionLine line")
    case True
    with Cons.prems obtain sect' where
      "updateLoop E (Some ds) True False (Suc i) sect' ls (outLines @ [line]) = Inr out"
      by (auto split: option.splits)
    from Cons.IH [OF this] Cons.prems show ?thesis by simp
  next
    case False
    with Cons.prems have
      "updateLoop E (Some ds) True False (Suc i) sect ls (outLines @ plainLine E (Some ds) sect line) = Inr out"
      by simp
    moreover have "newline \<notin> set l" if "l \<in> set (plainLine E (Some ds) sect line)" for l
      by (rule plainLine_no_newline [OF assms(1) _ that]) (use Cons.prems(2) in simp)
    ultimately show ?thesis using Cons.IH Cons.prems(2,3) by (metis Un_iff list.set_intros(2) set_append)
  qed
qed simp

lemma activeLines_join:
  "\<forall>l\<in>set ls. newline \<notin> set l \<Longrightarrow> activeLines (joinOn newline ls) = filter activeLine ls"
  by (cases "ls = []") (simp_all add: activeLines_def splitOn_join)

text \<open>
  C33: A configuration file that \<open>ConfigUpdate\<close> writes with comments parses, over the defaults, to exactly
  the configuration it was given, and the lines in force in it are those of the encoded configuration,
  in their order, but for the lines that some section of the encoded defaults has as well.
\<close>

theorem config_update_content:
  assumes "docTyped E" "ConfigUpdate E cfg (Some def) True False = Ret out"
  shows "FromReader E out def = Inr cfg \<and>
    (\<exists>defStr nodeStr. ceEncode E def = Inr defStr \<and> ceEncode E cfg = Inr nodeStr \<and>
       activeLines out =
         filter (\<lambda>l. isSectionLine l \<or> trimSpace l \<notin> defaultLines defStr) (activeLines nodeStr))"
proof -
  obtain defStr where d: "ceEncode E def = Inr defStr"
    using assms(2) by (auto simp: ConfigUpdate_def split: sum.splits)
  with assms(2) obtain nodeStr where n: "ceEncode E cfg = Inr nodeStr"
    by (auto simp: ConfigUpdate_def split: sum.splits)
  with d assms(2) obtain outLines where
    o: "updateLoop E (Some (defaultLines defStr)) True False 0 [] (splitOn newline nodeStr) [] = Inr outLines"
    by (auto simp: ConfigUpdate_def Let_def split: sum.splits)
  with d n assms(2) have out: "out = joinOn newline outLines" "FromReader E out def = Inr cfg"
    by (auto simp: ConfigUpdate_def Let_def split: sum.splits if_splits)
  have "\<forall>l\<in>set outLines. newline \<notin> set l"
    by (rule updateLoop_no_newline [OF assms(1) o]) (auto dest: splitOn_no_sep)
  then have "activeLines out = filter activeLine outLines"
    by (simp add: out(1) activeLines_join)
  also have "\<dots> = filter (\<lambda>l. isSectionLine l \<or> trimSpace l \<notin> defaultLines defStr) (activeLines nodeStr)"
    using updateLoop_active [OF o] by (simp add: activeLines_def conj_commute)
  finally show ?thesis using d n out(2) by blast
qed

section \<open>A concrete configuration\<close>

text \<open>
  Two sections with a port each; a reader that skips comments, tracks the section and reads \<open>Key = n\<close>;
  the defaults are ports 80 and 31.
\<close>

definition demoEncode :: "(int \<times> int) Boost \<Rightarrow> goerr + string" where
  "demoEncode c =
     Inr (joinOn newline
       [''ConfigVersion = '' @ show_int (ConfigVersion c), [], ''[A]'', ''  Port = '' @ show_int (fst (BoostRest c)),
        [], ''[B]'', ''  Port = '' @ show_int (snd (BoostRest c)), []])"

fun demoRead :: "string \<Rightarrow> string list \<Rightarrow> (int \<times> int) Boost \<Rightarrow> goerr + (int \<times> int) Boost" where
  "demoRead sect [] c = Inr c"
| "demoRead sect (l # ls) c =
     (if isSectionLine l then demoRead (trimSpace l) ls c
      else case atoi (last (stringsFields l)) of
          Inl err \<Rightarrow> Inl err
        | Inr v \<Rightarrow>
            demoRead sect ls
              (if sect = [] then c\<lparr>ConfigVersion := v\<rparr>
               else if sect = ''[A]'' then c\<lparr>BoostRest := (v, snd (BoostRest c))\<rparr>
               else c\<lparr>BoostRest := (fst (BoostRest c), v)\<rparr>))"

definition demoCfgEnv :: "(int \<times> int) Boost cfgEnv" where
  "demoCfgEnv =
     \<lparr>ceEncode = demoEncode, ceDecode = (\<lambda>s c. demoRead [] (activeLines s) c), ceProcess = Inr,
      ceDoc = (\<lambda>root. if root = ''Boost'' then [\<lparr>dfdName = ''A'', dfdType = ''AConfig'', dfdComment = []\<rparr>]
                      else if root = ''AConfig'' then [\<lparr>dfdName = ''Port'', dfdType = ''uint64'', dfdComment = ''The port''\<rparr>]
                      else []),
      ceRoot = ''Boost''\<rparr>"

definition demoBoost :: "int \<Rightarrow> int \<Rightarrow> int \<Rightarrow> (int \<times> int) Boost" where
  "demoBoost v a b = \<lparr>ConfigVersion = v, BoostRest = (a, b)\<rparr>"

lemma demo_docTyped: "docTyped demoCfgEnv"
  by (simp add: docTyped_def demoCfgEnv_def newline_def)


definition demoLines :: "string \<Rightarrow> string \<Rightarrow> string \<Rightarrow> string list" where
  "demoLines v a b =
     [''ConfigVersion = '' @ v, [], ''[A]'', ''  Port = '' @ a, [], ''[B]'', ''  Port = '' @ b, []]"

lemma demo_digits:
  "show_int 0 = ''0''" "show_int 6 = ''6''" "show_int 80 = ''80''" "show_int 90 = ''90''" "show_int 31 = ''31''"
  by code_simp+

lemma demo_encode:
  "ceEncode demoCfgEnv (demoBoost v a b) = Inr (joinOn newline (demoLines (show_int v) (show_int a) (show_int b)))"
  by (simp add: demoCfgEnv_def demoEncode_def demoBoost_def demoLines_def)

lemma demo_split:
  "newline \<notin> set v \<Longrightarrow> newline \<notin> set a \<Longrightarrow> newline \<notin> set b \<Longrightarrow>
    splitOn newline (joinOn newline (demoLines v a b)) = demoLines v a b"
  by (subst splitOn_join) (auto simp: newline_def demoLines_def)

lemmas demo_line_defs = isSectionLine_def trimSpace_def isSpace_def plainLine_def stringsFields_def
  sectionName_def leftPad_def docLines_def findDoc_def findDocSect_def demoCfgEnv_def Let_def

lemma demo_defaults:
  "defaultLines (joinOn newline (demoLines ''0'' ''80'' ''31'')) = {''ConfigVersion = 0'', ''Port = 80'', ''Port = 31''}"
proof -
  have "map trimSpace (demoLines ''0'' ''80'' ''31'') =
      [''ConfigVersion = 0'', [], ''[A]'', ''Port = 80'', [], ''[B]'', ''Port = 31'', []]"
    by (simp add: demoLines_def trimSpace_def isSpace_def)
  moreover have "splitOn newline (joinOn newline (demoLines ''0'' ''80'' ''31'')) = demoLines ''0'' ''80'' ''31''"
    by (rule demo_split) (simp_all add: newline_def)
  ultimately show ?thesis unfolding defaultLines_def by auto
qed

definition demoOut :: "string list" where
  "demoOut = [''ConfigVersion = 6'', [], [], ''[A]'', ''  # The port'', ''  #'', ''  # type: uint64'', ''  Port = 90'',
     [], [], ''[B]'', ''  #Port = 31'', [], []]"

lemma demo_loop:
  "updateLoop demoCfgEnv (Some {''ConfigVersion = 0'', ''Port = 80'', ''Port = 31''}) True False 0 []
     (demoLines ''6'' ''90'' ''31'') [] = Inr demoOut"
  by (simp add: demoLines_def demoOut_def demo_line_defs newline_def)

lemma demo_active: "activeLines (joinOn newline demoOut) = [''ConfigVersion = 6'', ''[A]'', ''  Port = 90'', ''[B]'']"
proof -
  have "activeLines (joinOn newline demoOut) = filter activeLine demoOut"
    by (rule activeLines_join) (simp add: demoOut_def newline_def)
  also have "\<dots> = [''ConfigVersion = 6'', ''[A]'', ''  Port = 90'', ''[B]'']"
    by (simp add: demoOut_def activeLine_def trimSpace_def isSpace_def)
  finally show ?thesis .
qed

lemma demo_read:
  "FromReader demoCfgEnv (joinOn newline demoOut) (demoBoost 0 80 31) = Inr (demoBoost 6 90 31)"
proof -
  have "demoRead [] [''ConfigVersion = 6'', ''[A]'', ''  Port = 90'', ''[B]''] (demoBoost 0 80 31) = Inr (demoBoost 6 90 31)"
    by (simp add: isSectionLine_def trimSpace_def isSpace_def stringsFields_def atoi_def Let_def demoBoost_def)
  then show ?thesis by (simp add: FromReader_def demoCfgEnv_def demo_active)
qed

lemma demo_update:
  "ConfigUpdate demoCfgEnv (demoBoost 6 90 31) (Some (demoBoost 0 80 31)) True False = Ret (joinOn newline demoOut)"
proof -
  have "splitOn newline (joinOn newline (demoLines ''6'' ''90'' ''31'')) = demoLines ''6'' ''90'' ''31''"
    by (rule demo_split) (simp_all add: newline_def)
  then show ?thesis
    by (simp add: ConfigUpdate_def demo_encode demo_digits demo_defaults demo_loop demo_read)
qed

theorem config_update_content_witness:
  "FromReader demoCfgEnv (joinOn newline demoOut) (demoBoost 0 80 31) = Inr (demoBoost 6 90 31) \<and>
   activeLines (joinOn newline demoOut) = [''ConfigVersion = 6'', ''[A]'', ''  Port = 90'', ''[B]'']"
  using config_update_content [OF demo_docTyped demo_update] demo_active by blast

text \<open>
  Here the port of the second section is the default of the first: its line is commented out, and the
  file does not mean the configuration any more.
\<close>

lemma demo_loop_same:
  "updateLoop demoCfgEnv (Some {''ConfigVersion = 0'', ''Port = 80'', ''Port = 31''}) True False 0 []
     (demoLines ''6'' ''90'' ''80'') [] = Inr (demoOut[11 := ''  #Port = 80''])"
  by (simp add: demoLines_def demoOut_def demo_line_defs newline_def numeral_eq_Suc)

lemma demo_update_fails:
  "ConfigUpdate demoCfgEnv (demoBoost 6 90 80) (Some (demoBoost 0 80 31)) True False =
    Fail (errorf ''updated config didn't match current config'')"
proof -
  have s: "splitOn newline (joinOn newline (demoLines ''6'' ''90'' ''80'')) = demoLines ''6'' ''90'' ''80''"
    by (rule demo_split) (simp_all add: newline_def)
  have "activeLines (joinOn newline (demoOut[11 := ''  #Port = 80''])) = filter activeLine (demoOut[11 := ''  #Port = 80''])"
    by (rule activeLines_join) (simp add: demoOut_def newline_def numeral_eq_Suc)
  also have "\<dots> = filter activeLine demoOut"
    by (simp add: demoOut_def activeLine_def trimSpace_def isSpace_def numeral_eq_Suc)
  also have "\<dots> = activeLines (joinOn newline demoOut)"
    by (rule activeLines_join [symmetric]) (simp add: demoOut_def newline_def)
  finally have "FromReader demoCfgEnv (joinOn newline (demoOut[11 := ''  #Port = 80''])) (demoBoost 0 80 31)
      = FromReader demoCfgEnv (joinOn newline demoOut) (demoBoost 0 80 31)"
    by (simp add: FromReader_def demoCfgEnv_def)
  with s show ?thesis
    by (simp add: ConfigUpdate_def demo_encode demo_digits demo_defaults demo_loop_same demo_read) (simp add: demoBoost_def)
qed

end
