(* ===== verification/ConfigMigrate.thy ===== *)
theory ConfigMigrate
  imports ConfigProps
begin

text \<open>
  Migrating the configuration file between versions, \<open>lib/boost/node/config/migrate.go\<close> and the six
  migrations \<open>v0_to_v1.go\<close> to \<open>v5_to_v6.go\<close>, on a model of the file system. A path is the list of its
  components; the repository is not itself below a symbolic link. An operation can also fail for the
  reasons that \<open>fsFails\<close> gives.
\<close>

type_synonym path = "string list"

datatype fsNode = RegFile string | SymLink path | Dir

datatype fsOp = OpRead path | OpWrite path | OpMkdir path | OpStat path | OpRemove path | OpSymlink path

type_synonym fs = "path \<Rightarrow> fsNode option"
type_synonym fsErrs = "fsOp \<Rightarrow> goerr option"

section \<open>The operations of package os\<close>

text \<open>A relative link is resolved from the directory it is in; too many links are an error.\<close>

fun fsResolve :: "nat \<Rightarrow> fs \<Rightarrow> path \<Rightarrow> path option" where
  "fsResolve 0 s p = None"
| "fsResolve (Suc n) s p =
     (case s p of Some (SymLink t) \<Rightarrow> fsResolve n s (butlast p @ t) | _ \<Rightarrow> Some p)"

definition maxLinks :: nat where
  "maxLinks = 40"

definition errNotExist :: goerr where
  "errNotExist = errorf ''no such file or directory''"

text \<open>\<open>os.ReadFile\<close>: the content, or \<open>None\<close> if there is no such file.\<close>

definition fsRead :: "fsErrs \<Rightarrow> fs \<Rightarrow> path \<Rightarrow> goerr + string option" where
  "fsRead F s p =
     (case F (OpRead p) of
        Some err \<Rightarrow> Inl err
      | None \<Rightarrow>
          (case fsResolve maxLinks s p of
             None \<Rightarrow> Inl (errorf ''too many levels of symbolic links'')
           | Some q \<Rightarrow>
               (case s q of
                  None \<Rightarrow> Inr None
                | Some (RegFile c) \<Rightarrow> Inr (Some c)
                | Some _ \<Rightarrow> Inl (errorf ''is a directory''))))"

definition os_ReadFile :: "fsErrs \<Rightarrow> fs \<Rightarrow> path \<Rightarrow> goerr + string" where
  "os_ReadFile F s p =
     (case fsRead F s p of Inl err \<Rightarrow> Inl err | Inr None \<Rightarrow> Inl errNotExist | Inr (Some c) \<Rightarrow> Inr c)"

definition os_WriteFile :: "fsErrs \<Rightarrow> fs \<Rightarrow> path \<Rightarrow> string \<Rightarrow> goerr option \<times> fs" where
  "os_WriteFile F s p content =
     (case F (OpWrite p) of
        Some err \<Rightarrow> (Some err, s)
      | None \<Rightarrow>
          (case fsResolve maxLinks s p of
             None \<Rightarrow> (Some (errorf ''too many levels of symbolic links''), s)
           | Some q \<Rightarrow>
               (if s q = Some Dir then (Some (errorf ''is a directory''), s)
                else if s (butlast q) \<noteq> Some Dir then (Some errNotExist, s)
                else (None, s(q \<mapsto> RegFile content)))))"

fun mkdirAll :: "path list \<Rightarrow> fs \<Rightarrow> goerr option \<times> fs" where
  "mkdirAll [] s = (None, s)"
| "mkdirAll (p # ps) s =
     (case s p of
        None \<Rightarrow> mkdirAll ps (s(p \<mapsto> Dir))
      | Some Dir \<Rightarrow> mkdirAll ps s
      | Some _ \<Rightarrow> (Some (errorf ''not a directory''), s))"

definition os_MkdirAll :: "fsErrs \<Rightarrow> fs \<Rightarrow> path \<Rightarrow> goerr option \<times> fs" where
  "os_MkdirAll F s p =
     (case F (OpMkdir p) of
        Some err \<Rightarrow> (Some err, s)
      | None \<Rightarrow> mkdirAll (map (\<lambda>n. take n p) [0..<Suc (length p)]) s)"

definition os_Stat :: "fsErrs \<Rightarrow> fs \<Rightarrow> path \<Rightarrow> goerr option" where
  "os_Stat F s p =
     (case F (OpStat p) of
        Some err \<Rightarrow> Some err
      | None \<Rightarrow>
          (case fsResolve maxLinks s p of
             None \<Rightarrow> Some (errorf ''too many levels of symbolic links'')
           | Some q \<Rightarrow> (if s q = None then Some errNotExist else None)))"

text \<open>\<open>os.Remove\<close> removes a file, a link or an empty directory.\<close>

definition os_Remove :: "fsErrs \<Rightarrow> (path \<Rightarrow> bool) \<Rightarrow> fs \<Rightarrow> path \<Rightarrow> goerr option \<times> fs" where
  "os_Remove F emptyDir s p =
     (case F (OpRemove p) of
        Some err \<Rightarrow> (Some err, s)
      | None \<Rightarrow>
          (case s p of
             None \<Rightarrow> (Some errNotExist, s)
           | Some Dir \<Rightarrow> (if emptyDir p then (None, s(p := None)) else (Some (errorf ''directory not empty''), s))
           | Some _ \<Rightarrow> (None, s(p := None))))"

definition os_Symlink :: "fsErrs \<Rightarrow> fs \<Rightarrow> path \<Rightarrow> path \<Rightarrow> goerr option \<times> fs" where
  "os_Symlink F s target p =
     (case F (OpSymlink p) of
        Some err \<Rightarrow> (Some err, s)
      | None \<Rightarrow> (if s p \<noteq> None then (Some (errorf ''file exists''), s) else (None, s(p \<mapsto> SymLink target))))"

section \<open>migrate.go\<close>

text \<open>
  The environment of a migration: the configuration library, the defaults, the failures of the file
  system, and the reader of \<open>VersionCfg\<close>: the text over a version, and the environment variables.
\<close>

record 'r migEnv =
  meCfg :: "'r Boost cfgEnv"
  meDefault :: "'r Boost"
  meErrs :: fsErrs
  meEmptyDir :: "fs \<Rightarrow> path \<Rightarrow> bool"
  meDecodeVersion :: "string \<Rightarrow> int \<Rightarrow> goerr + int"
  meProcessVersion :: "int \<Rightarrow> goerr + int"

definition CurrentVersion :: int where
  "CurrentVersion = 6"

text \<open>\<open>FromFile\<close> gives the defaults when there is no file.\<close>

definition FromFile :: "'r migEnv \<Rightarrow> fs \<Rightarrow> path \<Rightarrow> 'r Boost \<Rightarrow> goerr + 'r Boost" where
  "FromFile M s p def =
     (case fsRead (meErrs M) s p of
        Inl err \<Rightarrow> Inl err
      | Inr None \<Rightarrow> Inr def
      | Inr (Some content) \<Rightarrow> FromReader (meCfg M) content def)"

definition versionReader :: "'r migEnv \<Rightarrow> string \<Rightarrow> int \<Rightarrow> goerr + int" where
  "versionReader M content def =
     (case meDecodeVersion M content def of
        Inl err \<Rightarrow> Inl err
      | Inr v \<Rightarrow>
          (case meProcessVersion M v of
             Inl err \<Rightarrow> Inl (errorf_s ''processing env vars overrides: '' err) | Inr v' \<Rightarrow> Inr v'))"

definition versionFromFile :: "'r migEnv \<Rightarrow> fs \<Rightarrow> path \<Rightarrow> goerr + int" where
  "versionFromFile M s p =
     (case fsRead (meErrs M) s p of
        Inl err \<Rightarrow> Inl err
      | Inr None \<Rightarrow> Inr 0
      | Inr (Some content) \<Rightarrow> versionReader M content 0)"

definition migrateTo :: "int \<Rightarrow> 'r migEnv \<Rightarrow> fs \<Rightarrow> path \<Rightarrow> string outcome" where
  "migrateTo n M s cfgPath =
     (case FromFile M s cfgPath (meDefault M) of
        Inl err \<Rightarrow> Fail (errorf_w ''parsing config file: '' err)
      | Inr boostCfg \<Rightarrow>
          (case ConfigUpdate (meCfg M) (boostCfg\<lparr>ConfigVersion := n\<rparr>) (Some (meDefault M)) True False of
             Fail err \<Rightarrow> Fail (errorf_w ''applying configuration: '' err)
           | Panic \<Rightarrow> Panic
           | Ret bz \<Rightarrow> Ret bz))"

definition v0Tov1 :: "'r migEnv \<Rightarrow> fs \<Rightarrow> path \<Rightarrow> string outcome" where
  "v0Tov1 M s cfgPath = migrateTo 1 M s cfgPath"
definition v1Tov2 :: "'r migEnv \<Rightarrow> fs \<Rightarrow> path \<Rightarrow> string outcome" where
  "v1Tov2 M s cfgPath = migrateTo 2 M s cfgPath"
definition v2Tov3 :: "'r migEnv \<Rightarrow> fs \<Rightarrow> path \<Rightarrow> string outcome" where
  "v2Tov3 M s cfgPath = migrateTo 3 M s cfgPath"
definition v3Tov4 :: "'r migEnv \<Rightarrow> fs \<Rightarrow> path \<Rightarrow> string outcome" where
  "v3Tov4 M s cfgPath = migrateTo 4 M s cfgPath"
definition v4Tov5 :: "'r migEnv \<Rightarrow> fs \<Rightarrow> path \<Rightarrow> string outcome" where
  "v4Tov5 M s cfgPath = migrateTo 5 M s cfgPath"
definition v5Tov6 :: "'r migEnv \<Rightarrow> fs \<Rightarrow> path \<Rightarrow> string outcome" where
  "v5Tov6 M s cfgPath = migrateTo 6 M s cfgPath"

definition migrations :: "('r migEnv \<Rightarrow> fs \<Rightarrow> path \<Rightarrow> string outcome) list" where
  "migrations = [v0Tov1, v1Tov2, v2Tov3, v3Tov4, v4Tov5, v5Tov6]"

definition versionFilename :: "int \<Rightarrow> string" where
  "versionFilename v = ''config.toml.'' @ show_int v"

definition makeSymlink :: "'r migEnv \<Rightarrow> fs \<Rightarrow> path \<Rightarrow> int \<Rightarrow> goerr option \<times> fs" where
  "makeSymlink M s cfgPath version =
     (case os_Remove (meErrs M) (meEmptyDir M s) s cfgPath of
        (Some err, s1) \<Rightarrow> (Some (errorf_w ''removing file: '' err), s1)
      | (None, s1) \<Rightarrow>
          (case os_Symlink (meErrs M) s1 [''config'', versionFilename version] cfgPath of
             (Some err, s2) \<Rightarrow> (Some (errorf_w (''creating symlink to '' @ versionFilename version @ '': '') err), s2)
           | (None, s2) \<Rightarrow> (None, s2)))"

text \<open>One turn of the loop of \<open>migrateUp\<close>; a negative version is an index out of range.\<close>

definition migrateStep ::
  "'r migEnv \<Rightarrow> int \<Rightarrow> int \<Rightarrow> path \<Rightarrow> path \<Rightarrow> fs \<Rightarrow> unit outcome \<times> fs" where
  "migrateStep M toVersion oldVersion cfgPath cfgDir s =
     (case os_ReadFile (meErrs M) s cfgPath of
        Inl err \<Rightarrow> (Fail (errorf_w ''reading config file: '' err), s)
      | Inr oldContent \<Rightarrow>
     (case os_WriteFile (meErrs M) s (cfgDir @ [versionFilename oldVersion]) oldContent of
        (Some err, s1) \<Rightarrow> (Fail (errorf_w ''writing config file: '' err), s1)
      | (None, s1) \<Rightarrow>
          if int (length (migrations :: ('r migEnv \<Rightarrow> fs \<Rightarrow> path \<Rightarrow> string outcome) list)) \<le> oldVersion
          then (Fail (errorf ''cannot migrate config file: no migration script defined''), s1)
          else if oldVersion < 0 then (Panic, s1)
          else (case (migrations ! nat oldVersion) M s1 cfgPath of
               Fail err \<Rightarrow> (Fail (errorf_w ''migrating config file: '' err), s1)
             | Panic \<Rightarrow> (Panic, s1)
             | Ret newContent \<Rightarrow>
                 (case os_WriteFile (meErrs M) s1 (cfgDir @ [versionFilename toVersion]) newContent of
                    (Some err, s2) \<Rightarrow> (Fail (errorf_w ''writing config file: '' err), s2)
                  | (None, s2) \<Rightarrow>
                      (case makeSymlink M s2 cfgPath toVersion of
                         (Some err, s3) \<Rightarrow> (Fail err, s3)
                       | (None, s3) \<Rightarrow> (Ret (), s3))))))"

function migrateUp ::
  "'r migEnv \<Rightarrow> int \<Rightarrow> int \<Rightarrow> path \<Rightarrow> path \<Rightarrow> fs \<Rightarrow> unit outcome \<times> fs" where
  "migrateUp M oldVersion toVersion cfgPath cfgDir s =
     (if toVersion \<le> oldVersion then (Ret (), s)
      else case migrateStep M toVersion oldVersion cfgPath cfgDir s of
          (Ret _, s') \<Rightarrow> migrateUp M (oldVersion + 1) toVersion cfgPath cfgDir s'
        | r \<Rightarrow> r)"
  by pat_completeness auto
termination
  by (relation "measure (\<lambda>(M, oldVersion, toVersion, cfgPath, cfgDir, s). nat (toVersion - oldVersion))") auto

declare migrateUp.simps [simp del]

definition migrateDown ::
  "'r migEnv \<Rightarrow> int \<Rightarrow> path \<Rightarrow> path \<Rightarrow> fs \<Rightarrow> goerr option \<times> fs" where
  "migrateDown M toVersion cfgPath cfgDir s =
     (if toVersion = 0 then (None, s)
      else case os_Stat (meErrs M) s (cfgDir @ [versionFilename toVersion]) of
          Some err \<Rightarrow> (Some (errorf_w ''reading file for config version: '' err), s)
        | None \<Rightarrow> makeSymlink M s cfgPath toVersion)"

definition configMigrate :: "'r migEnv \<Rightarrow> path \<Rightarrow> int \<Rightarrow> fs \<Rightarrow> unit outcome \<times> fs" where
  "configMigrate M repoPath toVersion s =
     (let cfgPath = repoPath @ [''config.toml'']; cfgDir = repoPath @ [''config''] in
      case versionFromFile M s cfgPath of
        Inl err \<Rightarrow> (Fail (errorf_w ''parsing config file: '' err), s)
      | Inr v \<Rightarrow>
     (case os_MkdirAll (meErrs M) s cfgDir of
        (Some err, s1) \<Rightarrow> (Fail (errorf_w ''creating config directory: '' err), s1)
      | (None, s1) \<Rightarrow>
     (case (if v < toVersion then migrateUp M v toVersion cfgPath cfgDir s1 else (Ret (), s1)) of
        (Fail err, s2) \<Rightarrow> (Fail (errorf_w ''couldn't migrate config up: '' err), s2)
      | (Panic, s2) \<Rightarrow> (Panic, s2)
      | (Ret _, s2) \<Rightarrow>
          (if toVersion < v then
             (case migrateDown M toVersion cfgPath cfgDir s2 of
                (Some err, s3) \<Rightarrow> (Fail (errorf_w ''couldn't migrate config down: '' err), s3)
              | (None, s3) \<Rightarrow> (Ret (), s3))
           else (Ret (), s2)))))"

definition ConfigMigrate :: "'r migEnv \<Rightarrow> path \<Rightarrow> fs \<Rightarrow> unit outcome \<times> fs" where
  "ConfigMigrate M repoPath s = configMigrate M repoPath CurrentVersion s"

end
