(* ===== verification/ConfigMigrateProps.thy ===== *)
theory ConfigMigrateProps
  imports ConfigMigrate
begin

text \<open>
  What a migration does to the files of the repository: every version between the old and the new one is
  left as a file that means the original configuration, and a migration back finds it.
\<close>

section \<open>Going up\<close>

definition plainConfigDir :: "fs \<Rightarrow> path \<Rightarrow> bool" where
  "plainConfigDir s cfgDir \<longleftrightarrow> (\<forall>n t. s (cfgDir @ [n]) \<noteq> Some (SymLink t))"

lemma versionFilename_eq: "versionFilename v = versionFilename w \<longleftrightarrow> v = w" if "0 \<le> v" "0 \<le> w"
  using that show_nat_inj [of "nat v" "nat w"] by (auto simp: versionFilename_def show_int_def)

lemma fsResolve_cong:
  "(\<And>p t. s' p = Some (SymLink t) \<longleftrightarrow> s p = Some (SymLink t)) \<Longrightarrow> fsResolve n s' p = fsResolve n s p"
proof (induction n s p rule: fsResolve.induct)
  case (2 n s p)
  show ?case
  proof (cases "\<exists>t. s p = Some (SymLink t)")
    case True
    then obtain t where t: "s p = Some (SymLink t)" by blast
    with 2(2) have "s' p = Some (SymLink t)" by simp
    with t 2(1) [OF t refl 2(2)] show ?thesis by simp
  next
    case False
    with 2(2) have "\<nexists>t. s' p = Some (SymLink t)" by simp
    with False show ?thesis by (auto split: option.split fsNode.split)
  qed
qed simp

lemma write_plain:
  assumes "os_WriteFile F s p content = (None, s')" "\<And>t. s p \<noteq> Some (SymLink t)"
  shows "s' = s(p \<mapsto> RegFile content)"
proof -
  have "fsResolve maxLinks s p = Some p"
    using assms(2) by (auto simp: maxLinks_def numeral_eq_Suc split: option.split fsNode.split)
  with assms(1) show ?thesis by (auto simp: os_WriteFile_def split: option.splits if_splits)
qed

text \<open>Writing what a file reads as into a plain file leaves what it reads as.\<close>

lemma read_after_backup:
  assumes "os_ReadFile F s p = Inr c" "\<And>t. s q \<noteq> Some (SymLink t)"
  shows "fsRead F (s(q \<mapsto> RegFile c)) p = Inr (Some c)"
proof -
  have "fsResolve maxLinks (s(q \<mapsto> RegFile c)) p = fsResolve maxLinks s p"
    by (rule fsResolve_cong) (use assms(2) in auto)
  with assms(1) show ?thesis
    by (auto simp: os_ReadFile_def fsRead_def split: option.splits fsNode.splits if_splits)
qed

lemma migrations_length: "length migrations = 6"
  by (simp add: migrations_def)

lemma migrations_nth:
  assumes "0 \<le> v" "v < 6"
  shows "(migrations ! nat v) = migrateTo (v + 1)"
proof -
  from assms have "v \<in> {0, 1, 2, 3, 4, 5}" by auto
  then show ?thesis
    by (auto simp: migrations_def v0Tov1_def v1Tov2_def v2Tov3_def v3Tov4_def v4Tov5_def v5Tov6_def fun_eq_iff
        nat_numeral numeral_eq_Suc)
qed

lemma update_parses:
  "ConfigUpdate E cfg (Some def) True False = Ret out \<Longrightarrow> FromReader E out def = Inr cfg"
  by (auto simp: ConfigUpdate_def Let_def split: sum.splits outcome.splits if_splits)

lemma makeSymlink_links:
  assumes "makeSymlink M s cfgPath v = (None, s')"
  shows "s' = s(cfgPath \<mapsto> SymLink [''config'', versionFilename v])"
  using assms
  by (auto simp: makeSymlink_def os_Remove_def os_Symlink_def split: option.splits prod.splits fsNode.splits if_splits)

text \<open>
  A turn that returns without error: the old version is backed up, the new one means the same
  configuration with the new version, and the link points to it.
\<close>

lemma migrateStep_ret:
  assumes "migrateStep M toV old (repo @ [''config.toml'']) (repo @ [''config'']) s = (Ret u, s')"
    and "plainConfigDir s (repo @ [''config''])" "old < toV"
    and "os_ReadFile (meErrs M) s (repo @ [''config.toml'']) = Inr c"
    and "FromReader (meCfg M) c (meDefault M) = Inr cfg"
  shows "0 \<le> old \<and> old < 6 \<and>
    (\<exists>c'. FromReader (meCfg M) c' (meDefault M) = Inr (cfg\<lparr>ConfigVersion := old + 1\<rparr>) \<and>
      s' = s(repo @ [''config'', versionFilename old] \<mapsto> RegFile c,
             repo @ [''config'', versionFilename toV] \<mapsto> RegFile c',
             repo @ [''config.toml''] \<mapsto> SymLink [''config'', versionFilename toV]))"
proof -
  have plain: "s (repo @ [''config'', n]) \<noteq> Some (SymLink t)" for n t
    using assms(2) by (simp add: plainConfigDir_def)
  obtain s1 where w1: "os_WriteFile (meErrs M) s (repo @ [''config'', versionFilename old]) c = (None, s1)"
    and v: "0 \<le> old" "old < 6"
    using assms(1,4) by (auto simp: migrateStep_def migrations_length split: option.splits prod.splits if_splits)
  have s1: "s1 = s(repo @ [''config'', versionFilename old] \<mapsto> RegFile c)" by (rule write_plain [OF w1 plain])
  have "fsRead (meErrs M) s1 (repo @ [''config.toml'']) = Inr (Some c)"
    unfolding s1 by (rule read_after_backup [OF assms(4) plain])
  then have "FromFile M s1 (repo @ [''config.toml'']) (meDefault M) = Inr cfg"
    by (simp add: FromFile_def assms(5))
  with assms(1,4) w1 v obtain c' s2 where
    u: "ConfigUpdate (meCfg M) (cfg\<lparr>ConfigVersion := old + 1\<rparr>) (Some (meDefault M)) True False = Ret c'"
    and w2: "os_WriteFile (meErrs M) s1 (repo @ [''config'', versionFilename toV]) c' = (None, s2)"
    and l: "makeSymlink M s2 (repo @ [''config.toml'']) toV = (None, s')"
    by (auto simp: migrateStep_def migrations_nth migrateTo_def migrations_length
        split: option.splits prod.splits outcome.splits if_splits)
  have s2: "s2 = s1(repo @ [''config'', versionFilename toV] \<mapsto> RegFile c')"
    by (rule write_plain [OF w2]) (simp add: s1 plain)
  show ?thesis
    using v update_parses [OF u] makeSymlink_links [OF l] by (auto simp: s1 s2)
qed

lemma read_through_link:
  assumes "os_ReadFile F s (repo @ [''config.toml'']) = Inr c"
    and "s' (repo @ [''config.toml'']) = Some (SymLink [''config'', f])"
    and "s' (repo @ [''config'', f]) = Some (RegFile c')"
  shows "os_ReadFile F s' (repo @ [''config.toml'']) = Inr c'"
proof -
  have "F (OpRead (repo @ [''config.toml''])) = None"
    using assms(1) by (auto simp: os_ReadFile_def fsRead_def split: option.splits)
  moreover have "fsResolve maxLinks s' (repo @ [''config.toml'']) = Some (repo @ [''config'', f])"
    using assms(2,3) by (simp add: maxLinks_def numeral_eq_Suc)
  ultimately show ?thesis using assms(3) by (simp add: os_ReadFile_def fsRead_def)
qed

definition versionFile :: "path \<Rightarrow> int \<Rightarrow> path" where
  "versionFile repo v = repo @ [''config'', versionFilename v]"

lemma versionFile_eq: "0 \<le> v \<Longrightarrow> 0 \<le> w \<Longrightarrow> versionFile repo v = versionFile repo w \<longleftrightarrow> v = w"
  by (simp add: versionFile_def versionFilename_eq)

lemma versionFile_link [simp]: "versionFile repo v \<noteq> repo @ [''config.toml'']"
  by (simp add: versionFile_def)

lemma migrateUp_ret:
  assumes "migrateUp M v toV (repo @ [''config.toml'']) (repo @ [''config'']) s = (Ret u, s')"
    and "plainConfigDir s (repo @ [''config''])" "v < toV"
    and "os_ReadFile (meErrs M) s (repo @ [''config.toml'']) = Inr c"
    and "FromReader (meCfg M) c (meDefault M) = Inr cfg"
  shows "0 \<le> v \<and> toV \<le> 6 \<and>
    s' (repo @ [''config.toml'']) = Some (SymLink [''config'', versionFilename toV]) \<and>
    s' (versionFile repo v) = Some (RegFile c) \<and>
    (\<forall>k. v < k \<and> k \<le> toV \<longrightarrow>
       (\<exists>c'. s' (versionFile repo k) = Some (RegFile c') \<and>
          FromReader (meCfg M) c' (meDefault M) = Inr (cfg\<lparr>ConfigVersion := k\<rparr>))) \<and>
    (\<forall>p. p \<noteq> repo @ [''config.toml''] \<and> (\<forall>k. v \<le> k \<and> k \<le> toV \<longrightarrow> p \<noteq> versionFile repo k) \<longrightarrow> s' p = s p)"
  using assms
proof (induction "nat (toV - v)" arbitrary: v s c cfg rule: less_induct)
  case less
  let ?link = "repo @ [''config.toml'']"
  from less.prems(1,3) obtain u1 s1 where
    st: "migrateStep M toV v ?link (repo @ [''config'']) s = (Ret u1, s1)"
    and up: "migrateUp M (v + 1) toV ?link (repo @ [''config'']) s1 = (Ret u, s')"
    by (auto simp: migrateUp.simps [of M v] split: prod.splits outcome.splits)
  from migrateStep_ret [OF st less.prems(2-5)] obtain c1 where
    v: "0 \<le> v" "v < 6" and c1: "FromReader (meCfg M) c1 (meDefault M) = Inr (cfg\<lparr>ConfigVersion := v + 1\<rparr>)"
    and s1: "s1 = s(versionFile repo v \<mapsto> RegFile c, versionFile repo toV \<mapsto> RegFile c1,
             ?link \<mapsto> SymLink [''config'', versionFilename toV])"
    unfolding versionFile_def by blast
  have ne: "versionFile repo v \<noteq> versionFile repo toV" using less.prems(3) v by (simp add: versionFile_eq)
  have at1: "s1 ?link = Some (SymLink [''config'', versionFilename toV])"
    "s1 (versionFile repo toV) = Some (RegFile c1)" "s1 (versionFile repo v) = Some (RegFile c)"
    using ne versionFile_link [of repo toV] versionFile_link [of repo v] by (simp_all add: s1)
  have fr: "s1 p = s p" if "p \<noteq> ?link" "p \<noteq> versionFile repo v" "p \<noteq> versionFile repo toV" for p
    using that by (simp add: s1)
  show ?case
  proof (cases "v + 1 < toV")
    case False
    with less.prems(3) have t: "toV = v + 1" by simp
    with up have "s' = s1" by (simp add: migrateUp.simps)
    have "\<exists>c'. s1 (versionFile repo k) = Some (RegFile c') \<and>
        FromReader (meCfg M) c' (meDefault M) = Inr (cfg\<lparr>ConfigVersion := k\<rparr>)" if "v < k \<and> k \<le> toV" for k
    proof -
      from that t have "k = toV" by simp
      with at1(2) c1 t show ?thesis by simp
    qed
    moreover have "s1 p = s p" if "p \<noteq> ?link \<and> (\<forall>k. v \<le> k \<and> k \<le> toV \<longrightarrow> p \<noteq> versionFile repo k)" for p
      using that t by (intro fr) auto
    ultimately show ?thesis using at1(1,3) v t \<open>s' = s1\<close> by simp
  next
    case True
    have r1: "os_ReadFile (meErrs M) s1 ?link = Inr c1"
      using read_through_link [of "meErrs M" s repo c s1 "versionFilename toV" c1] less.prems(4) at1(1,2)
      by (simp add: versionFile_def)
    have p1: "plainConfigDir s1 (repo @ [''config''])"
      using less.prems(2) by (auto simp: plainConfigDir_def s1 versionFile_def)
    have "nat (toV - (v + 1)) < nat (toV - v)" using less.prems(3) by simp
    note ih = less.hyps [OF this up p1 True r1 c1]
    have "s' (versionFile repo v) = Some (RegFile c)"
      using ih at1(3) v by (auto simp: versionFile_eq)
    moreover have "\<exists>c'. s' (versionFile repo k) = Some (RegFile c') \<and>
        FromReader (meCfg M) c' (meDefault M) = Inr (cfg\<lparr>ConfigVersion := k\<rparr>)" if "v < k" "k \<le> toV" for k
    proof (cases "k = v + 1")
      case True
      with ih c1 show ?thesis by auto
    next
      case False
      with that have "v + 1 < k" by simp
      with ih that show ?thesis by auto
    qed
    moreover have "s' p = s p" if "p \<noteq> ?link" "\<forall>k. v \<le> k \<and> k \<le> toV \<longrightarrow> p \<noteq> versionFile repo k" for p
    proof -
      have "s' p = s1 p" using ih that by auto
      also have "\<dots> = s p" using that less.prems(3) by (intro fr) auto
      finally show ?thesis .
    qed
    ultimately show ?thesis using ih v by blast
  qed
qed

lemma mkdirAll_keeps:
  "mkdirAll ps s = (e, s') \<Longrightarrow> s' p = s p \<or> s p = None \<and> s' p = Some Dir"
proof (induction ps s arbitrary: e s' rule: mkdirAll.induct)
  case (2 q ps s)
  show ?case
  proof (cases "s q")
    case None
    with 2(3) have "mkdirAll ps (s(q \<mapsto> Dir)) = (e, s')" by simp
    from 2(1) [OF None this] None show ?thesis by (cases "p = q") auto
  next
    case (Some n)
    with 2 show ?thesis by (cases n) auto
  qed
qed simp

lemma mkdirAll_dir:
  "mkdirAll ps s = (None, s') \<Longrightarrow> q \<in> set ps \<or> s q = Some Dir \<Longrightarrow> s' q = Some Dir"
proof (induction ps s arbitrary: s' rule: mkdirAll.induct)
  case (2 p ps s)
  show ?case
  proof (cases "s p")
    case None
    with 2(3) have "mkdirAll ps (s(p \<mapsto> Dir)) = (None, s')" by simp
    from 2(1) [OF None this] 2(4) show ?thesis by auto
  next
    case (Some n)
    with 2 show ?thesis by (cases n) auto
  qed
qed simp

lemma mkdirAll_done: "(\<And>q. q \<in> set ps \<Longrightarrow> s q = Some Dir) \<Longrightarrow> mkdirAll ps s = (None, s)"
  by (induction ps s rule: mkdirAll.induct) auto

lemma MkdirAll_there:
  assumes "\<And>n. n \<le> length p \<Longrightarrow> s (take n p) = Some Dir" "F (OpMkdir p) = None"
  shows "os_MkdirAll F s p = (None, s)"
proof -
  have "mkdirAll (map (\<lambda>n. take n p) [0..<Suc (length p)]) s = (None, s)"
    by (rule mkdirAll_done) (auto simp: less_Suc_eq_le assms(1) simp del: upt_Suc)
  with assms(2) show ?thesis by (simp add: os_MkdirAll_def)
qed

lemma MkdirAll_dirs:
  assumes "os_MkdirAll F s p = (None, s')"
  shows "F (OpMkdir p) = None" and "n \<le> length p \<Longrightarrow> s' (take n p) = Some Dir"
    and "s' q = s q \<or> s q = None \<and> s' q = Some Dir"
proof -
  have m: "F (OpMkdir p) = None" "mkdirAll (map (\<lambda>n. take n p) [0..<Suc (length p)]) s = (None, s')"
    using assms by (auto simp: os_MkdirAll_def split: option.splits)
  then show "F (OpMkdir p) = None" by simp
  show "s' (take n p) = Some Dir" if "n \<le> length p"
    by (rule mkdirAll_dir [OF m(2)]) (use that in auto)
  show "s' q = s q \<or> s q = None \<and> s' q = Some Dir" by (rule mkdirAll_keeps [OF m(2)])
qed

lemma read_before_mkdir:
  assumes "os_MkdirAll F s d = (None, s')" "os_ReadFile F s' p = Inr c"
  shows "os_ReadFile F s p = Inr c"
proof -
  have k: "s' q = s q \<or> s q = None \<and> s' q = Some Dir" for q by (rule MkdirAll_dirs(3) [OF assms(1)])
  have "fsResolve maxLinks s' p = fsResolve maxLinks s p"
  proof (rule fsResolve_cong)
    fix q t show "s' q = Some (SymLink t) \<longleftrightarrow> s q = Some (SymLink t)" using k [of q] by auto
  qed
  moreover have "s' q = Some (RegFile c) \<Longrightarrow> s q = Some (RegFile c)" for q using k [of q] by auto
  ultimately show ?thesis
    using assms(2) by (force simp: os_ReadFile_def fsRead_def split: option.splits fsNode.splits sum.splits)
qed

text \<open>The first turn reads the file and parses it over the defaults.\<close>

lemma migrateUp_reads:
  assumes "migrateUp M v toV (repo @ [''config.toml'']) (repo @ [''config'']) s = (Ret u, s')"
    and "plainConfigDir s (repo @ [''config''])" "v < toV"
  shows "\<exists>c cfg. os_ReadFile (meErrs M) s (repo @ [''config.toml'']) = Inr c \<and>
    FromReader (meCfg M) c (meDefault M) = Inr cfg"
proof -
  from assms(1,3) obtain u1 s1 where
    st: "migrateStep M toV v (repo @ [''config.toml'']) (repo @ [''config'']) s = (Ret u1, s1)"
    by (auto simp: migrateUp.simps [of M v] split: prod.splits outcome.splits)
  then obtain c s2 where c: "os_ReadFile (meErrs M) s (repo @ [''config.toml'']) = Inr c"
    and w: "os_WriteFile (meErrs M) s (repo @ [''config'', versionFilename v]) c = (None, s2)"
    and v: "0 \<le> v" "v < 6"
    by (auto simp: migrateStep_def migrations_length split: sum.splits option.splits prod.splits if_splits)
  have plain: "s (repo @ [''config'', n]) \<noteq> Some (SymLink t)" for n t
    using assms(2) by (simp add: plainConfigDir_def)
  have "fsRead (meErrs M) s2 (repo @ [''config.toml'']) = Inr (Some c)"
    unfolding write_plain [OF w plain] by (rule read_after_backup [OF c plain])
  with st c w v obtain cfg where "FromReader (meCfg M) c (meDefault M) = Inr cfg"
    by (auto simp: migrateStep_def migrations_nth migrations_length migrateTo_def FromFile_def
        split: sum.splits option.splits prod.splits outcome.splits if_splits)
  with c show ?thesis by blast
qed

lemma migrate_up_files:
  assumes "configMigrate M repo toV s = (Ret u, s')"
    and "versionFromFile M s (repo @ [''config.toml'']) = Inr v" "v < toV"
    and "plainConfigDir s (repo @ [''config''])"
  shows "\<exists>c cfg. os_ReadFile (meErrs M) s (repo @ [''config.toml'']) = Inr c \<and>
    FromReader (meCfg M) c (meDefault M) = Inr cfg \<and> 0 \<le> v \<and> toV \<le> 6 \<and>
    s' (repo @ [''config.toml'']) = Some (SymLink [''config'', versionFilename toV]) \<and>
    s' (versionFile repo v) = Some (RegFile c) \<and>
    (\<forall>k. v < k \<and> k \<le> toV \<longrightarrow>
       (\<exists>c'. s' (versionFile repo k) = Some (RegFile c') \<and>
          FromReader (meCfg M) c' (meDefault M) = Inr (cfg\<lparr>ConfigVersion := k\<rparr>)))"
    and "n \<le> Suc (length repo) \<Longrightarrow> s' (take n (repo @ [''config''])) = Some Dir"
proof -
  obtain s1 where mk: "os_MkdirAll (meErrs M) s (repo @ [''config'']) = (None, s1)"
    and up: "migrateUp M v toV (repo @ [''config.toml'']) (repo @ [''config'']) s1 = (Ret u, s')"
    using assms(1-3) by (auto simp: configMigrate_def Let_def split: option.splits prod.splits outcome.splits if_splits)
  have "plainConfigDir s1 (repo @ [''config''])"
    using assms(4) MkdirAll_dirs(3) [OF mk] unfolding plainConfigDir_def by (metis fsNode.distinct(6) option.inject)
  note r = migrateUp_reads [OF up this assms(3)] migrateUp_ret [OF up this assms(3)]
  from r(1) obtain c cfg where c: "os_ReadFile (meErrs M) s1 (repo @ [''config.toml'']) = Inr c"
    "FromReader (meCfg M) c (meDefault M) = Inr cfg" by blast
  note r2 = r(2) [OF c]
  from c(2) read_before_mkdir [OF mk c(1)] r2
  show "\<exists>c cfg. os_ReadFile (meErrs M) s (repo @ [''config.toml'']) = Inr c \<and>
    FromReader (meCfg M) c (meDefault M) = Inr cfg \<and> 0 \<le> v \<and> toV \<le> 6 \<and>
    s' (repo @ [''config.toml'']) = Some (SymLink [''config'', versionFilename toV]) \<and>
    s' (versionFile repo v) = Some (RegFile c) \<and>
    (\<forall>k. v < k \<and> k \<le> toV \<longrightarrow>
       (\<exists>c'. s' (versionFile repo k) = Some (RegFile c') \<and>
          FromReader (meCfg M) c' (meDefault M) = Inr (cfg\<lparr>ConfigVersion := k\<rparr>)))"
    by blast
  show "s' (take n (repo @ [''config''])) = Some Dir" if n: "n \<le> Suc (length repo)"
  proof -
    have "take n (repo @ [''config'']) \<noteq> repo @ [''config.toml'']"
      by (cases "n \<le> length repo") (auto dest: arg_cong [where f = length])
    moreover have "take n (repo @ [''config'']) \<noteq> versionFile repo k" for k
      using n by (auto simp: versionFile_def dest: arg_cong [where f = length])
    ultimately have "s' (take n (repo @ [''config''])) = s1 (take n (repo @ [''config'']))"
      using r2 by blast
    also have "\<dots> = Some Dir" by (rule MkdirAll_dirs(2) [OF mk]) (use n in simp)
    finally show ?thesis .
  qed
qed

text \<open>
  C31: A migration up from version \<open>v\<close> that returns without error leaves \<open>config.toml\<close> as a link to the
  file of the new version, the original text as the file of version \<open>v\<close>, and for every later version a
  file that parses to the original configuration with that version number.
\<close>

theorem config_migrate_up:
  assumes "configMigrate M repo toV s = (Ret u, s')"
    and "versionFromFile M s (repo @ [''config.toml'']) = Inr v" "v < toV"
    and "plainConfigDir s (repo @ [''config''])"
  shows "\<exists>c cfg. os_ReadFile (meErrs M) s (repo @ [''config.toml'']) = Inr c \<and>
    FromReader (meCfg M) c (meDefault M) = Inr cfg \<and> 0 \<le> v \<and> toV \<le> 6 \<and>
    s' (repo @ [''config.toml'']) = Some (SymLink [''config'', versionFilename toV]) \<and>
    s' (versionFile repo v) = Some (RegFile c) \<and>
    (\<forall>k. v < k \<and> k \<le> toV \<longrightarrow>
       (\<exists>c'. s' (versionFile repo k) = Some (RegFile c') \<and>
          FromReader (meCfg M) c' (meDefault M) = Inr (cfg\<lparr>ConfigVersion := k\<rparr>)))"
  by (rule migrate_up_files(1) [OF assms])

section \<open>Going down, and staying\<close>

text \<open>Both readers take the version number from a text in the same way, and no version means 0.\<close>

definition versionsAgree :: "'r migEnv \<Rightarrow> bool" where
  "versionsAgree M \<longleftrightarrow>
     (\<forall>content cfg. FromReader (meCfg M) content (meDefault M) = Inr cfg \<longrightarrow>
        versionReader M content 0 = Inr (ConfigVersion cfg))"

text \<open>
  C32: When no call on the file system fails and the configuration directory is a plain one, migrating up from a
  version above 0 and down to it again brings back the text of the original file; and after the migration up, migrating
  to the same version again changes nothing.
\<close>

theorem config_migrate_back:
  assumes "configMigrate M repo toV s = (Ret u, s')"
    and "versionFromFile M s (repo @ [''config.toml'']) = Inr v" "0 < v" "v < toV"
    and "plainConfigDir s (repo @ [''config''])"
    and "versionsAgree M" "meErrs M = (\<lambda>_. None)"
  shows "configMigrate M repo toV s' = (Ret (), s') \<and>
    (\<exists>c s''. os_ReadFile (meErrs M) s (repo @ [''config.toml'']) = Inr c \<and>
      configMigrate M repo v s' = (Ret (), s'') \<and>
      os_ReadFile (meErrs M) s'' (repo @ [''config.toml'']) = Inr c)"
proof -
  let ?link = "repo @ [''config.toml'']"
  note up = migrate_up_files [OF assms(1,2,4,5)]
  from up(1) obtain c cfg where c: "os_ReadFile (meErrs M) s ?link = Inr c"
    and l: "s' ?link = Some (SymLink [''config'', versionFilename toV])"
    and v: "s' (versionFile repo v) = Some (RegFile c)"
    and k: "\<forall>k. v < k \<and> k \<le> toV \<longrightarrow>
       (\<exists>c'. s' (versionFile repo k) = Some (RegFile c') \<and>
          FromReader (meCfg M) c' (meDefault M) = Inr (cfg\<lparr>ConfigVersion := k\<rparr>))" by blast
  from k assms(4) obtain c' where c': "s' (versionFile repo toV) = Some (RegFile c')"
    "FromReader (meCfg M) c' (meDefault M) = Inr (cfg\<lparr>ConfigVersion := toV\<rparr>)" by auto
  have "os_ReadFile (meErrs M) s' ?link = Inr c'"
    using read_through_link [of "meErrs M" s repo c s' "versionFilename toV" c'] c l c'(1)
    by (simp add: versionFile_def)
  then have "fsRead (meErrs M) s' ?link = Inr (Some c')"
    by (auto simp: os_ReadFile_def split: sum.splits option.splits)
  moreover have "versionReader M c' 0 = Inr toV"
    using assms(6) c'(2) by (auto simp: versionsAgree_def)
  ultimately have ver: "versionFromFile M s' ?link = Inr toV" by (simp add: versionFromFile_def)
  have mk: "os_MkdirAll (meErrs M) s' (repo @ [''config'']) = (None, s')"
    by (rule MkdirAll_there) (use up(2) assms(7) in simp_all)
  have stay: "configMigrate M repo toV s' = (Ret (), s')"
    by (simp add: configMigrate_def Let_def ver mk)
  let ?s'' = "s'(?link \<mapsto> SymLink [''config'', versionFilename v])"
  have "makeSymlink M s' ?link v = (None, ?s'')"
    by (simp add: makeSymlink_def os_Remove_def os_Symlink_def assms(7) l)
  moreover have "fsResolve maxLinks s' (repo @ [''config'', versionFilename v]) = Some (repo @ [''config'', versionFilename v])"
    using v by (simp add: maxLinks_def numeral_eq_Suc versionFile_def)
  with v have "os_Stat (meErrs M) s' (repo @ [''config'', versionFilename v]) = None"
    by (simp add: os_Stat_def assms(7) versionFile_def)
  ultimately have "configMigrate M repo v s' = (Ret (), ?s'')"
    using assms(3,4) by (simp add: configMigrate_def Let_def ver mk migrateDown_def)
  moreover have "os_ReadFile (meErrs M) ?s'' ?link = Inr c"
    using read_through_link [of "meErrs M" s repo c ?s'' "versionFilename v" c] c v
    by (simp add: versionFile_def)
  ultimately show ?thesis using stay c by blast
qed

section \<open>A concrete repository\<close>

definition demoMig :: "(int \<times> int) migEnv" where
  "demoMig =
     \<lparr>meCfg = demoCfgEnv, meDefault = demoBoost 0 80 31, meErrs = (\<lambda>_. None), meEmptyDir = (\<lambda>s p. False),
      meDecodeVersion = (\<lambda>s v. map_sum id ConfigVersion (demoRead [] (activeLines s) (demoBoost v 80 31))),
      meProcessVersion = Inr\<rparr>"

definition demoText :: string where
  "demoText = joinOn newline [''ConfigVersion = 5'', ''[A]'', ''  Port = 90'']"

definition demoFs :: fs where
  "demoFs = [[] \<mapsto> Dir, [''r''] \<mapsto> Dir, [''r'', ''config.toml''] \<mapsto> RegFile demoText]"

lemma demo_agree: "versionsAgree demoMig"
  by (auto simp: versionsAgree_def demoMig_def versionReader_def FromReader_def demoCfgEnv_def split: sum.splits)

lemma demo_text: "FromReader demoCfgEnv demoText (demoBoost 0 80 31) = Inr (demoBoost 5 90 31)"
proof -
  have "activeLines demoText = filter activeLine [''ConfigVersion = 5'', ''[A]'', ''  Port = 90'']"
    unfolding demoText_def by (rule activeLines_join) (simp add: newline_def)
  also have "\<dots> = [''ConfigVersion = 5'', ''[A]'', ''  Port = 90'']"
    by (simp add: activeLine_def trimSpace_def isSpace_def)
  finally have a: "activeLines demoText = [''ConfigVersion = 5'', ''[A]'', ''  Port = 90'']" .
  have "demoRead [] [''ConfigVersion = 5'', ''[A]'', ''  Port = 90''] (demoBoost 0 80 31) = Inr (demoBoost 5 90 31)"
    by (simp add: isSectionLine_def trimSpace_def isSpace_def stringsFields_def atoi_def Let_def demoBoost_def)
  with a show ?thesis by (simp add: FromReader_def demoCfgEnv_def)
qed

lemma demo_version: "versionFromFile demoMig demoFs ([''r''] @ [''config.toml'']) = Inr 5"
proof -
  have "versionReader demoMig demoText 0 = Inr 5"
    using demo_agree demo_text by (auto simp: versionsAgree_def demoMig_def demoBoost_def)
  then show ?thesis
    by (simp add: versionFromFile_def fsRead_def demoMig_def demoFs_def maxLinks_def numeral_eq_Suc)
qed

lemma demo_file_names: "versionFilename 5 = ''config.toml.5''" "versionFilename 6 = ''config.toml.6''"
  by code_simp+

lemma demo_migrates: "\<exists>s'. configMigrate demoMig [''r''] 6 demoFs = (Ret (), s')"
proof -
  let ?fs = "demoFs([''r'', ''config''] \<mapsto> Dir)"
  have mk: "os_MkdirAll (meErrs demoMig) demoFs [''r'', ''config''] = (None, ?fs)"
    by (simp add: os_MkdirAll_def demoMig_def demoFs_def upt_rec)
  have up: "ConfigUpdate demoCfgEnv ((demoBoost 5 90 31)\<lparr>ConfigVersion := 6\<rparr>) (Some (demoBoost 0 80 31)) True False
      = Ret (joinOn newline demoOut)"
    using demo_update by (simp add: demoBoost_def)
  have "migrateTo 6 demoMig (?fs([''r'', ''config'', ''config.toml.5''] \<mapsto> RegFile demoText)) [''r'', ''config.toml'']
      = Ret (joinOn newline demoOut)"
    using demo_text up
    by (simp add: migrateTo_def FromFile_def fsRead_def demoMig_def demoFs_def maxLinks_def numeral_eq_Suc)
  moreover have "(migrations ! nat 5 :: (int \<times> int) migEnv \<Rightarrow> _) = migrateTo 6"
    using migrations_nth [of 5] by simp
  ultimately have "\<exists>s'. migrateStep demoMig 6 5 [''r'', ''config.toml''] [''r'', ''config''] ?fs = (Ret (), s')"
    by (simp add: migrateStep_def migrations_length demo_file_names os_ReadFile_def fsRead_def os_WriteFile_def makeSymlink_def
        os_Remove_def os_Symlink_def demoMig_def demoFs_def maxLinks_def numeral_eq_Suc)
  then show ?thesis
    using demo_version mk by (auto simp: configMigrate_def Let_def migrateUp.simps)
qed

lemma demo_plain: "plainConfigDir demoFs ([''r''] @ [''config''])"
  by (simp add: plainConfigDir_def demoFs_def)

theorem config_migrate_up_witness:
  "\<exists>s' c. configMigrate demoMig [''r''] 6 demoFs = (Ret (), s') \<and>
     s' [''r'', ''config.toml''] = Some (SymLink [''config'', ''config.toml.6'']) \<and>
     s' [''r'', ''config'', ''config.toml.5''] = Some (RegFile c)"
proof -
  obtain s' where s': "configMigrate demoMig [''r''] 6 demoFs = (Ret (), s')" using demo_migrates by blast
  with config_migrate_up [OF s' demo_version _ demo_plain] show ?thesis
    by (auto simp: versionFile_def demo_file_names)
qed

theorem config_migrate_back_witness:
  "\<exists>s' s''. configMigrate demoMig [''r''] 6 demoFs = (Ret (), s') \<and>
     configMigrate demoMig [''r''] 5 s' = (Ret (), s'')"
proof -
  obtain s' where s': "configMigrate demoMig [''r''] 6 demoFs = (Ret (), s')" using demo_migrates by blast
  have "meErrs demoMig = (\<lambda>_. None)" by (simp add: demoMig_def)
  with config_migrate_back [OF s' demo_version _ _ demo_plain demo_agree] s' show ?thesis by auto
qed

end
