(* ===== verification/SectorAccess.thy ===== *)
theory SectorAccess
  imports Prelude
begin

text \<open>
  Access to the unsealed copies of sectors, \<open>lib/boost/markets/sectoraccessor/sectoraccessor.go\<close>, and
  the cache of their state, \<open>cachingsa.go\<close>: a call of the cache is a thread with a program counter, and
  one step is one access to the shared cache or to a lock.
\<close>

section \<open>sectoraccessor.go\<close>

record SectorInfo =
  siSealProof :: int
  siCommD :: "cid option"
  siTicketValue :: string
  siActivation :: int
  siExpiration :: int
  siDealWeight :: int
  siVerifiedDealWeight :: int
  siInitialPledge :: int
  siOnTime :: int
  siEarly :: int

record onChainInfo =
  ocSealProof :: int
  ocActivation :: int
  ocExpiration :: int
  ocDealWeight :: int
  ocVerifiedDealWeight :: int
  ocInitialPledge :: int

record SectorRef =
  srMiner :: u64
  srNumber :: u64
  srProofType :: int

text \<open>The sealing node, the chain and the piece provider, for the address of the accessor.\<close>

record 'r saEnv =
  seSectorsStatus :: "u64 \<Rightarrow> bool \<Rightarrow> goerr + SectorInfo"
  seGetInfo :: "u64 \<Rightarrow> goerr + onChainInfo option"
  seExpiration :: "u64 \<Rightarrow> goerr + int \<times> int"
  seActorID :: "goerr + u64"
  seReadPiece :: "SectorRef \<Rightarrow> u64 \<Rightarrow> u64 \<Rightarrow> string \<Rightarrow> cid \<Rightarrow> goerr + 'r \<times> bool"
  seIsUnsealed :: "SectorRef \<Rightarrow> u64 \<Rightarrow> u64 \<Rightarrow> goerr + bool"

text \<open>The second component of the result is the error, which does not keep the first from being set.\<close>

definition sectorsStatus :: "'r saEnv \<Rightarrow> u64 \<Rightarrow> bool \<Rightarrow> goerr + SectorInfo" where
  "sectorsStatus E sid showOnChainInfo =
     (case seSectorsStatus E sid False of
        Inl err \<Rightarrow> Inl err
      | Inr sInfo \<Rightarrow>
          if \<not> showOnChainInfo then Inr sInfo
          else (case seGetInfo E sid of
               Inl err \<Rightarrow> Inl err
             | Inr None \<Rightarrow> Inr sInfo
             | Inr (Some oc) \<Rightarrow>
                 (let sInfo' = sInfo\<lparr>siSealProof := ocSealProof oc, siActivation := ocActivation oc,
                        siExpiration := ocExpiration oc, siDealWeight := ocDealWeight oc,
                        siVerifiedDealWeight := ocVerifiedDealWeight oc, siInitialPledge := ocInitialPledge oc\<rparr>
                  in case seExpiration E sid of
                       Inl _ \<Rightarrow> Inr sInfo'
                     | Inr (onTime, early) \<Rightarrow> Inr (sInfo'\<lparr>siOnTime := onTime, siEarly := early\<rparr>))))"

definition UnsealSectorAt :: "'r saEnv \<Rightarrow> u64 \<Rightarrow> u64 \<Rightarrow> u64 \<Rightarrow> goerr + 'r" where
  "UnsealSectorAt E sectorID pieceOffset len =
     (case sectorsStatus E sectorID False of
        Inl err \<Rightarrow> Inl err
      | Inr si \<Rightarrow>
          (case seActorID E of
             Inl err \<Rightarrow> Inl err
           | Inr mid \<Rightarrow>
               (let ref = \<lparr>srMiner = mid, srNumber = sectorID, srProofType = siSealProof si\<rparr>;
                    commD = (case siCommD si of None \<Rightarrow> [] | Some c \<Rightarrow> c)
                in case seReadPiece E ref pieceOffset len (siTicketValue si) commD of
                     Inl err \<Rightarrow> Inl (errorf_w (''failed to unseal piece from sector '' @ show_u64 sectorID @ '': '') err)
                   | Inr (r, unsealed) \<Rightarrow> Inr r)))"

definition UnsealSector :: "'r saEnv \<Rightarrow> u64 \<Rightarrow> u64 \<Rightarrow> u64 \<Rightarrow> goerr + 'r" where
  "UnsealSector E sectorID pieceOffset len = UnsealSectorAt E sectorID pieceOffset len"

definition IsUnsealed :: "'r saEnv \<Rightarrow> u64 \<Rightarrow> u64 \<Rightarrow> u64 \<Rightarrow> goerr + bool" where
  "IsUnsealed E sectorID ofs len =
     (case sectorsStatus E sectorID True of
        Inl err \<Rightarrow> Inl (errorf_w ''failed to get sector info: '' err)
      | Inr si \<Rightarrow>
          (case seActorID E of
             Inl err \<Rightarrow> Inl err
           | Inr mid \<Rightarrow>
               seIsUnsealed E \<lparr>srMiner = mid, srNumber = sectorID, srProofType = siSealProof si\<rparr> ofs len))"

section \<open>cachingsa.go\<close>

text \<open>A call has a sector, an offset and a length.\<close>

type_synonym csArgs = "u64 \<times> u64 \<times> u64"

datatype csPc =
    CsIdle
  | CsGet1 csArgs
  | CsLock csArgs
  | CsGet2 csArgs
  | CsCall csArgs
  | CsSet u64 bool
  | CsUnlock u64 "goerr + bool"
  | CsReturned u64 "goerr + bool"

record csa =
  csCache :: "string \<Rightarrow> bool option"
  csLocked :: "u64 \<Rightarrow> bool"
  csPcs :: "csPc list"

datatype csAct = CsStart nat csArgs | CsGo nat | CsEvict string

definition stripedLockSize :: u64 where
  "stripedLockSize = 16 * 1024"

definition cacheKey :: "u64 \<Rightarrow> string" where
  "cacheKey sectorID = show_u64 sectorID"

definition stripe :: "u64 \<Rightarrow> u64" where
  "stripe sectorID = sectorID mod stripedLockSize"

definition csTo :: "nat \<Rightarrow> csPc \<Rightarrow> csa \<Rightarrow> csa" where
  "csTo t pc s = s\<lparr>csPcs := (csPcs s)[t := pc]\<rparr>"

text \<open>The next step of a thread, over the accessor of the moment; \<open>None\<close> when it waits or has nothing to do.\<close>

definition csGo :: "(u64 \<Rightarrow> u64 \<Rightarrow> u64 \<Rightarrow> goerr + bool) \<Rightarrow> nat \<Rightarrow> csa \<Rightarrow> csa outcome option" where
  "csGo remote t s =
     (case csPcs s ! t of
        CsGet1 (i, ofs, len) \<Rightarrow>
          (case csCache s (cacheKey i) of
             Some v \<Rightarrow> Some (Ret (csTo t (CsReturned i (Inr v)) s))
           | None \<Rightarrow> Some (Ret (csTo t (CsLock (i, ofs, len)) s)))
      | CsLock (i, ofs, len) \<Rightarrow>
          if csLocked s (stripe i) then None
          else Some (Ret (csTo t (CsGet2 (i, ofs, len)) (s\<lparr>csLocked := (csLocked s)(stripe i := True)\<rparr>)))
      | CsGet2 (i, ofs, len) \<Rightarrow>
          (case csCache s (cacheKey i) of
             Some v \<Rightarrow> Some (Ret (csTo t (CsUnlock i (Inr v)) s))
           | None \<Rightarrow> Some (Ret (csTo t (CsCall (i, ofs, len)) s)))
      | CsCall (i, ofs, len) \<Rightarrow>
          (case remote i ofs len of
             Inr v \<Rightarrow> Some (Ret (csTo t (CsSet i v) s))
           | Inl err \<Rightarrow> Some (Ret (csTo t (CsUnlock i (Inl err)) s)))
      | CsSet i v \<Rightarrow> Some (Ret (csTo t (CsUnlock i (Inr v)) (s\<lparr>csCache := (csCache s)(cacheKey i \<mapsto> v)\<rparr>)))
      | CsUnlock i r \<Rightarrow>
          if csLocked s (stripe i)
          then Some (Ret (csTo t (CsReturned i r) (s\<lparr>csLocked := (csLocked s)(stripe i := False)\<rparr>)))
          else Some Panic
      | _ \<Rightarrow> None)"

fun csStep :: "(u64 \<Rightarrow> u64 \<Rightarrow> u64 \<Rightarrow> goerr + bool) \<Rightarrow> csAct \<Rightarrow> csa \<Rightarrow> csa outcome option" where
  "csStep remote (CsStart t args) s =
     (if t < length (csPcs s) \<and> csPcs s ! t = CsIdle then Some (Ret (csTo t (CsGet1 args) s)) else None)"
| "csStep remote (CsGo t) s = (if t < length (csPcs s) then csGo remote t s else None)"
| "csStep remote (CsEvict k) s = Some (Ret (s\<lparr>csCache := (csCache s)(k := None)\<rparr>))"

definition NewCachingSectorAccessor :: "nat \<Rightarrow> csa" where
  "NewCachingSectorAccessor threads =
     \<lparr>csCache = (\<lambda>_. None), csLocked = (\<lambda>_. False), csPcs = replicate threads CsIdle\<rparr>"

text \<open>The calls of the accessor that a run has made, with their results.\<close>

definition csCallOf :: "(u64 \<Rightarrow> u64 \<Rightarrow> u64 \<Rightarrow> goerr + bool) \<Rightarrow> csAct \<Rightarrow> csa \<Rightarrow> (csArgs \<times> (goerr + bool)) set" where
  "csCallOf remote a s =
     (case a of CsGo t \<Rightarrow> (case csPcs s ! t of CsCall (i, ofs, len) \<Rightarrow> {((i, ofs, len), remote i ofs len)} | _ \<Rightarrow> {})
      | _ \<Rightarrow> {})"

inductive csReach :: "csa \<Rightarrow> (csArgs \<times> (goerr + bool)) set \<Rightarrow> bool" where
  init: "csReach (NewCachingSectorAccessor threads) {}"
| step: "csReach s calls \<Longrightarrow> csStep remote a s = Some (Ret s') \<Longrightarrow> csReach s' (calls \<union> csCallOf remote a s)"

section \<open>The invariant\<close>

fun csHolds :: "csPc \<Rightarrow> u64 option" where
  "csHolds (CsGet2 (i, ofs, len)) = Some (stripe i)"
| "csHolds (CsCall (i, ofs, len)) = Some (stripe i)"
| "csHolds (CsSet i v) = Some (stripe i)"
| "csHolds (CsUnlock i r) = Some (stripe i)"
| "csHolds _ = None"

fun csAnswer :: "csPc \<Rightarrow> (u64 \<times> (goerr + bool)) option" where
  "csAnswer (CsSet i v) = Some (i, Inr v)"
| "csAnswer (CsUnlock i r) = Some (i, r)"
| "csAnswer (CsReturned i r) = Some (i, r)"
| "csAnswer _ = None"

definition csLocks :: "(u64 \<Rightarrow> bool) \<Rightarrow> csPc list \<Rightarrow> bool" where
  "csLocks locked pcs \<longleftrightarrow>
     (\<forall>k. locked k \<longleftrightarrow> (\<exists>t<length pcs. csHolds (pcs ! t) = Some k)) \<and>
     (\<forall>t<length pcs. \<forall>u<length pcs. \<forall>k. csHolds (pcs ! t) = Some k \<longrightarrow> csHolds (pcs ! u) = Some k \<longrightarrow> t = u)"

definition csProven :: "(csArgs \<times> (goerr + bool)) set \<Rightarrow> u64 \<Rightarrow> goerr + bool \<Rightarrow> bool" where
  "csProven calls i r \<longleftrightarrow> (\<exists>ofs len. ((i, ofs, len), r) \<in> calls)"

definition csInv :: "csa \<Rightarrow> (csArgs \<times> (goerr + bool)) set \<Rightarrow> bool" where
  "csInv s calls \<longleftrightarrow>
     csLocks (csLocked s) (csPcs s) \<and>
     (\<forall>i v. csCache s (cacheKey i) = Some v \<longrightarrow> csProven calls i (Inr v)) \<and>
     (\<forall>t<length (csPcs s). \<forall>i r. csAnswer (csPcs s ! t) = Some (i, r) \<longrightarrow> csProven calls i r)"

lemma csProven_mono: "csProven calls i r \<Longrightarrow> csProven (calls \<union> new) i r"
  by (auto simp: csProven_def)

lemma csLocks_keep:
  assumes "csLocks locked pcs" "t < length pcs" "csHolds pc = csHolds (pcs ! t)"
  shows "csLocks locked (pcs[t := pc])"
proof -
  have "csHolds (pcs[t := pc] ! u) = csHolds (pcs ! u)" if "u < length pcs" for u
    using assms(2,3) that by (cases "u = t") auto
  with assms(1) show ?thesis by (auto simp: csLocks_def)
qed

lemma csLocks_lock:
  assumes "csLocks locked pcs" "t < length pcs" "csHolds (pcs ! t) = None" "csHolds pc = Some k" "\<not> locked k"
  shows "csLocks (locked(k := True)) (pcs[t := pc])"
proof -
  have free: "csHolds (pcs ! u) \<noteq> Some k" if "u < length pcs" for u
    using assms(1,5) that by (auto simp: csLocks_def)
  have h: "csHolds (pcs[t := pc] ! u) = (if u = t then Some k else csHolds (pcs ! u))" if "u < length pcs" for u
    using assms(2,4) that by simp
  have "locked j \<longleftrightarrow> (\<exists>u<length pcs. csHolds (pcs ! u) = Some j)" for j
    using assms(1) by (simp add: csLocks_def)
  moreover have "(\<exists>u<length pcs. csHolds (pcs ! u) = Some j) \<longleftrightarrow> (\<exists>u<length pcs. csHolds (pcs[t := pc] ! u) = Some j)"
    if "j \<noteq> k" for j
    using h assms(3) that by (metis option.inject option.distinct(1))
  ultimately have "(locked(k := True)) j \<longleftrightarrow> (\<exists>u<length pcs. csHolds (pcs[t := pc] ! u) = Some j)" for j
    using h [OF assms(2)] assms(2) by (cases "j = k") auto
  moreover have "u = w" if "u < length pcs" "w < length pcs" "csHolds (pcs[t := pc] ! u) = Some j"
    "csHolds (pcs[t := pc] ! w) = Some j" for u w j
    using that h free assms(1) unfolding csLocks_def by (metis option.inject)
  ultimately show ?thesis by (auto simp: csLocks_def)
qed

lemma csLocks_unlock:
  assumes "csLocks locked pcs" "t < length pcs" "csHolds (pcs ! t) = Some k" "csHolds pc = None"
  shows "csLocks (locked(k := False)) (pcs[t := pc])"
proof -
  have only: "u = t" if "u < length pcs" "csHolds (pcs ! u) = Some k" for u
    using assms(1-3) that by (auto simp: csLocks_def)
  have h: "csHolds (pcs[t := pc] ! u) = (if u = t then None else csHolds (pcs ! u))" if "u < length pcs" for u
    using assms(2,4) that by simp
  have "locked j \<longleftrightarrow> (\<exists>u<length pcs. csHolds (pcs ! u) = Some j)" for j
    using assms(1) by (simp add: csLocks_def)
  moreover have "(\<exists>u<length pcs. csHolds (pcs ! u) = Some j) \<longleftrightarrow> (\<exists>u<length pcs. csHolds (pcs[t := pc] ! u) = Some j)"
    if "j \<noteq> k" for j
    using h assms(3) that by (metis option.inject option.distinct(1))
  moreover have "\<nexists>u. u < length pcs \<and> csHolds (pcs[t := pc] ! u) = Some k"
    using h only by (metis option.distinct(1))
  ultimately have "(locked(k := False)) j \<longleftrightarrow> (\<exists>u<length pcs. csHolds (pcs[t := pc] ! u) = Some j)" for j
    by (cases "j = k") auto
  moreover have "u = w" if "u < length pcs" "w < length pcs" "csHolds (pcs[t := pc] ! u) = Some j"
    "csHolds (pcs[t := pc] ! w) = Some j" for u w j
    using that h assms(1) unfolding csLocks_def by (metis option.distinct(1))
  ultimately show ?thesis by (auto simp: csLocks_def)
qed

lemma csInv_update:
  assumes "csInv s calls" "t < length (csPcs s)" "csPcs s' = (csPcs s)[t := pc]"
    and "csLocks (csLocked s') ((csPcs s)[t := pc])"
    and "\<And>i v. csCache s' (cacheKey i) = Some v \<Longrightarrow> csProven (calls \<union> new) i (Inr v)"
    and "\<And>i r. csAnswer pc = Some (i, r) \<Longrightarrow> csProven (calls \<union> new) i r"
  shows "csInv s' (calls \<union> new)"
proof -
  have "csProven (calls \<union> new) i r" if "u < length (csPcs s)" "csAnswer ((csPcs s)[t := pc] ! u) = Some (i, r)" for u i r
    using that assms(1,6) by (cases "u = t") (auto simp: csInv_def intro: csProven_mono)
  with assms(3,4,5) show ?thesis by (simp add: csInv_def)
qed

lemma cacheKey_inj: "cacheKey i = cacheKey j \<longleftrightarrow> i = j"
  using show_u64_inj by (auto simp: cacheKey_def)

lemma csInvD:
  assumes "csInv s calls"
  shows "csLocks (csLocked s) (csPcs s)"
    and "csCache s (cacheKey i) = Some v \<Longrightarrow> csProven (calls \<union> new) i (Inr v)"
    and "t < length (csPcs s) \<Longrightarrow> csAnswer (csPcs s ! t) = Some (i, r) \<Longrightarrow> csProven (calls \<union> new) i r"
    and "t < length (csPcs s) \<Longrightarrow> csHolds (csPcs s ! t) = Some k \<Longrightarrow> csLocked s k"
  using assms csProven_mono unfolding csInv_def csLocks_def by blast+

lemma csTo_simps [simp]:
  "csPcs (csTo t pc s) = (csPcs s)[t := pc]" "csLocked (csTo t pc s) = csLocked s" "csCache (csTo t pc s) = csCache s"
  by (simp_all add: csTo_def)

text \<open>A step that neither locks nor writes to the cache.\<close>

lemma csInv_quiet:
  assumes "csInv s calls" "t < length (csPcs s)" "csHolds pc = csHolds (csPcs s ! t)"
    and "\<And>i r. csAnswer pc = Some (i, r) \<Longrightarrow> csProven (calls \<union> new) i r"
  shows "csInv (csTo t pc s) (calls \<union> new)"
  by (rule csInv_update [OF assms(1,2)])
    (use assms csLocks_keep [OF csInvD(1) [OF assms(1)] assms(2,3)] csInvD(2) [OF assms(1)] in auto)

lemma csGo_inv:
  assumes "csInv s calls" "t < length (csPcs s)" "csGo remote t s = Some (Ret s')"
  shows "csInv s' (calls \<union> csCallOf remote (CsGo t) s)"
proof (cases "csPcs s ! t")
  case (CsGet1 a)
  obtain i ofs len where a: "a = (i, ofs, len)" by (rule prod_cases3)
  show ?thesis
  proof (cases "csCache s (cacheKey i)")
    case None
    with assms(3) CsGet1 a have "s' = csTo t (CsLock (i, ofs, len)) s" by (simp add: csGo_def)
    then show ?thesis using assms(1,2) CsGet1 a by (auto intro!: csInv_quiet)
  next
    case (Some v)
    with assms(3) CsGet1 a have "s' = csTo t (CsReturned i (Inr v)) s" by (simp add: csGo_def)
    then show ?thesis using assms(1,2) CsGet1 a csInvD(2) [OF assms(1) Some] by (auto intro!: csInv_quiet)
  qed
next
  case (CsLock a)
  obtain i ofs len where a: "a = (i, ofs, len)" by (rule prod_cases3)
  with assms(3) CsLock have l: "\<not> csLocked s (stripe i)"
    and s': "s' = csTo t (CsGet2 (i, ofs, len)) (s\<lparr>csLocked := (csLocked s)(stripe i := True)\<rparr>)"
    by (auto simp: csGo_def split: if_splits)
  show ?thesis
    by (rule csInv_update [OF assms(1,2)])
      (use s' csLocks_lock [OF csInvD(1) [OF assms(1)] assms(2) _ _ l] CsLock a csInvD(2) [OF assms(1)] in auto)
next
  case (CsGet2 a)
  obtain i ofs len where a: "a = (i, ofs, len)" by (rule prod_cases3)
  show ?thesis
  proof (cases "csCache s (cacheKey i)")
    case None
    with assms(3) CsGet2 a have "s' = csTo t (CsCall (i, ofs, len)) s" by (simp add: csGo_def)
    then show ?thesis using assms(1,2) CsGet2 a by (auto intro!: csInv_quiet)
  next
    case (Some v)
    with assms(3) CsGet2 a have "s' = csTo t (CsUnlock i (Inr v)) s" by (simp add: csGo_def)
    then show ?thesis using assms(1,2) CsGet2 a csInvD(2) [OF assms(1) Some] by (auto intro!: csInv_quiet)
  qed
next
  case (CsCall a)
  obtain i ofs len where a: "a = (i, ofs, len)" by (rule prod_cases3)
  have p: "csProven (calls \<union> csCallOf remote (CsGo t) s) i (remote i ofs len)"
    using CsCall a by (auto simp: csProven_def csCallOf_def)
  show ?thesis
  proof (cases "remote i ofs len")
    case (Inl err)
    with assms(3) CsCall a have "s' = csTo t (CsUnlock i (Inl err)) s" by (simp add: csGo_def)
    then show ?thesis using assms(1,2) CsCall a p Inl by (auto intro!: csInv_quiet)
  next
    case (Inr v)
    with assms(3) CsCall a have "s' = csTo t (CsSet i v) s" by (simp add: csGo_def)
    then show ?thesis using assms(1,2) CsCall a p Inr by (auto intro!: csInv_quiet)
  qed
next
  case (CsSet i v)
  with assms(3) have s': "s' = csTo t (CsUnlock i (Inr v)) (s\<lparr>csCache := (csCache s)(cacheKey i \<mapsto> v)\<rparr>)"
    by (simp add: csGo_def)
  have p: "csProven (calls \<union> new) i (Inr v)" for new
    by (rule csInvD(3) [OF assms(1,2)]) (simp add: CsSet)
  show ?thesis
    by (rule csInv_update [OF assms(1,2)])
      (use s' csLocks_keep [OF csInvD(1) [OF assms(1)] assms(2)] CsSet p csInvD(2) [OF assms(1)] in
        \<open>auto simp: cacheKey_inj split: if_splits\<close>)
next
  case (CsUnlock i r)
  with assms(3) have s': "s' = csTo t (CsReturned i r) (s\<lparr>csLocked := (csLocked s)(stripe i := False)\<rparr>)"
    by (auto simp: csGo_def split: if_splits)
  have p: "csProven (calls \<union> new) i r" for new
    by (rule csInvD(3) [OF assms(1,2)]) (simp add: CsUnlock)
  show ?thesis
    by (rule csInv_update [OF assms(1,2)])
      (use s' csLocks_unlock [OF csInvD(1) [OF assms(1)] assms(2)] CsUnlock p csInvD(2) [OF assms(1)] in auto)
qed (use assms(3) in \<open>simp_all add: csGo_def\<close>)

lemma csReach_inv: "csReach s calls \<Longrightarrow> csInv s calls"
proof (induction rule: csReach.induct)
  case (init threads)
  show ?case by (simp add: csInv_def csLocks_def NewCachingSectorAccessor_def csProven_def)
next
  case (step s calls remote a s')
  show ?case
  proof (cases a)
    case (CsStart t args)
    with step.hyps(2) have "t < length (csPcs s)" "csPcs s ! t = CsIdle" "s' = csTo t (CsGet1 args) s"
      by (auto split: if_splits)
    moreover have "csHolds (CsGet1 args) = None" "csAnswer (CsGet1 args) = None" by (cases args; simp)+
    ultimately show ?thesis using step.IH by (auto intro!: csInv_quiet)
  next
    case (CsGo t)
    with step show ?thesis by (auto intro: csGo_inv split: if_splits)
  next
    case (CsEvict k)
    with step show ?thesis by (auto simp: csInv_def csCallOf_def split: if_splits)
  qed
qed

text \<open>
  C34: In every reachable state at most one thread is at work on the sectors of a lock, so the expensive
  call is never made twice at a time for a sector, no unlock ever panics, and every answer a caller gets
  is the result of a call of the accessor for its sector that was really made.
\<close>

theorem cached_unsealed_safe:
  assumes "csReach s calls" "t < length (csPcs s)" "u < length (csPcs s)"
  shows "(csPcs s ! t = CsCall (i, ofs, len) \<and> csPcs s ! u = CsCall (i, ofs', len') \<longrightarrow> t = u) \<and>
    csStep remote (CsGo t) s \<noteq> Some Panic \<and>
    (csPcs s ! t = CsReturned i r \<longrightarrow> (\<exists>o' l'. ((i, o', l'), r) \<in> calls))"
proof -
  note inv = csReach_inv [OF assms(1)]
  have "csStep remote (CsGo t) s \<noteq> Some Panic"
    using csInvD(4) [OF inv assms(2)]
    by (auto simp: csGo_def split: csPc.splits option.splits sum.splits if_splits)
  moreover have "t = u" if "csPcs s ! t = CsCall (i, ofs, len)" "csPcs s ! u = CsCall (i, ofs', len')"
    using csInvD(1) [OF inv] assms(2,3) that unfolding csLocks_def by (metis csHolds.simps(2))
  moreover have "\<exists>o' l'. ((i, o', l'), r) \<in> calls" if "csPcs s ! t = CsReturned i r"
    using csInvD(3) [OF inv assms(2), where new = "{}"] that by (simp add: csProven_def)
  ultimately show ?thesis by blast
qed

section \<open>Progress\<close>

fun csRank :: "csPc \<Rightarrow> nat" where
  "csRank (CsGet1 a) = 6"
| "csRank (CsLock a) = 5"
| "csRank (CsGet2 a) = 4"
| "csRank (CsCall a) = 3"
| "csRank (CsSet i v) = 2"
| "csRank (CsUnlock i r) = 1"
| "csRank _ = 0"

definition csWork :: "csa \<Rightarrow> nat" where
  "csWork s = sum_list (map csRank (csPcs s))"

lemma sum_list_update_less:
  "t < length xs \<Longrightarrow> f x < f (xs ! t) \<Longrightarrow> sum_list (map f (xs[t := x])) < (sum_list (map f xs) :: nat)"
  by (induction xs arbitrary: t) (auto split: nat.splits)

lemma csGo_work:
  assumes "csGo remote t s = Some (Ret s')" "t < length (csPcs s)"
  shows "csWork s' < csWork s"
  using assms
  by (cases "csPcs s ! t")
    (auto simp: csGo_def csWork_def intro!: sum_list_update_less split: option.splits sum.splits if_splits)

lemma csGo_holder:
  assumes "csInv s calls" "t < length (csPcs s)" "csHolds (csPcs s ! t) \<noteq> None"
  shows "\<exists>s'. csStep remote (CsGo t) s = Some (Ret s')"
proof -
  from assms(3) obtain k where "csHolds (csPcs s ! t) = Some k" by blast
  with csInvD(4) [OF assms(1,2) this] assms(2) show ?thesis
    by (cases "csPcs s ! t") (auto simp: csGo_def split: option.splits sum.splits if_splits)
qed

text \<open>
  C35: The calls neither deadlock nor run for ever: each step of a thread takes it nearer to its end, by
  at most six steps a call, and as long as some call has not returned some thread can take a step.
\<close>

theorem cached_unsealed_ends:
  assumes "csReach s calls"
  shows "(csStep remote (CsGo t) s = Some (Ret s') \<longrightarrow> csWork s' < csWork s) \<and>
    csWork s \<le> 6 * length (csPcs s) \<and>
    (csWork s \<noteq> 0 \<longrightarrow> (\<exists>u s'. csStep remote (CsGo u) s = Some (Ret s')))"
proof -
  note inv = csReach_inv [OF assms]
  have "csRank pc \<le> 6" for pc by (cases pc) auto
  then have "sum_list (map csRank pcs) \<le> 6 * length pcs" for pcs
    by (induction pcs) (auto simp: add_mono)
  then have bound: "csWork s \<le> 6 * length (csPcs s)" by (simp add: csWork_def)
  have "\<exists>u s'. csStep remote (CsGo u) s = Some (Ret s')" if "csWork s \<noteq> 0"
  proof -
    from that obtain t where t: "t < length (csPcs s)" "csRank (csPcs s ! t) \<noteq> 0"
      by (auto simp: csWork_def in_set_conv_nth)
    show ?thesis
    proof (cases "csGo remote t s")
      case None
      with t obtain i ofs len where "csPcs s ! t = CsLock (i, ofs, len)" "csLocked s (stripe i)"
        by (cases "csPcs s ! t") (auto simp: csGo_def split: option.splits sum.splits if_splits)
      with csInvD(1) [OF inv] obtain u where "u < length (csPcs s)" "csHolds (csPcs s ! u) \<noteq> None"
        unfolding csLocks_def by (metis option.distinct(1))
      with csGo_holder [OF inv] show ?thesis by blast
    next
      case (Some r)
      show ?thesis
      proof (cases "csHolds (csPcs s ! t)")
        case None
        with Some t have "\<exists>s'. csGo remote t s = Some (Ret s')"
          by (cases "csPcs s ! t") (auto simp: csGo_def split: option.splits sum.splits if_splits)
        with t show ?thesis by auto
      next
        case (Some k)
        with csGo_holder [OF inv t(1)] show ?thesis by blast
      qed
    qed
  qed
  with bound csGo_work show ?thesis by (auto split: if_splits)
qed

text \<open>One step of a run, for concrete runs.\<close>

definition demoRemote :: "u64 \<Rightarrow> u64 \<Rightarrow> u64 \<Rightarrow> goerr + bool" where
  "demoRemote i ofs len = Inr (ofs = 0)"

fun csRun :: "csAct list \<Rightarrow> csa \<Rightarrow> csa option" where
  "csRun [] s = Some s"
| "csRun (a # as) s = (case csStep demoRemote a s of Some (Ret s') \<Rightarrow> csRun as s' | _ \<Rightarrow> None)"

lemma csRun_reach: "csRun as s = Some s' \<Longrightarrow> csReach s calls \<Longrightarrow> \<exists>calls'. csReach s' calls'"
proof (induction as arbitrary: s calls)
  case (Cons a as)
  then obtain s1 where "csStep demoRemote a s = Some (Ret s1)" "csRun as s1 = Some s'"
    by (auto split: option.splits outcome.splits)
  with Cons csReach.step show ?case by blast
qed auto

text \<open>
  The cache does not look at the range: after a call for one range of a sector, a call for another
  range of the sector is answered with the state of the first, though the accessor would say otherwise.
\<close>

theorem cached_unsealed_ignores_range:
  "\<exists>s calls s'. csReach s calls \<and> csPcs s ! 1 = CsGet1 (7, 1024, 512) \<and>
     csStep demoRemote (CsGo 1) s = Some (Ret s') \<and> csPcs s' ! 1 = CsReturned 7 (Inr True) \<and>
     demoRemote 7 1024 512 = Inr False"
proof -
  let ?as = "[CsStart 0 (7, 0, 512), CsGo 0, CsGo 0, CsGo 0, CsGo 0, CsGo 0, CsGo 0, CsStart 1 (7, 1024, 512)]"
  have "\<exists>s. csRun ?as (NewCachingSectorAccessor 2) = Some s \<and> csPcs s ! 1 = CsGet1 (7, 1024, 512) \<and>
      csCache s (cacheKey 7) = Some True \<and> length (csPcs s) = 2"
    by (simp add: NewCachingSectorAccessor_def csGo_def csTo_def demoRemote_def numeral_2_eq_2)
  then obtain s where s: "csRun ?as (NewCachingSectorAccessor 2) = Some s" "csPcs s ! 1 = CsGet1 (7, 1024, 512)"
      "csCache s (cacheKey 7) = Some True" "length (csPcs s) = 2" by blast
  from csRun_reach [OF s(1) csReach.init] obtain calls where "csReach s calls" by blast
  moreover have "csStep demoRemote (CsGo 1) s = Some (Ret (csTo 1 (CsReturned 7 (Inr True)) s))"
    using s(2-4) by (simp add: csGo_def)
  moreover have "demoRemote 7 1024 512 = Inr False" by (simp add: demoRemote_def)
  ultimately show ?thesis using s(2,4) by fastforce
qed

theorem cached_unsealed_safe_witness:
  "\<exists>calls. csReach (NewCachingSectorAccessor 2) calls \<and>
    csStep demoRemote (CsGo 0) (NewCachingSectorAccessor 2) \<noteq> Some Panic"
  using cached_unsealed_safe [OF csReach.init [of 2], of 0 1]
    csReach.init [of 2] by (auto simp: NewCachingSectorAccessor_def)

theorem cached_unsealed_ends_witness:
  "\<exists>s. csReach s {} \<and> csWork s \<noteq> 0 \<and> (\<exists>u s'. csStep demoRemote (CsGo u) s = Some (Ret s'))"
proof -
  let ?s = "csTo 0 (CsGet1 (7, 0, 512)) (NewCachingSectorAccessor 2)"
  have "csStep demoRemote (CsStart 0 (7, 0, 512)) (NewCachingSectorAccessor 2) = Some (Ret ?s)"
    by (simp add: NewCachingSectorAccessor_def numeral_2_eq_2)
  from csReach.step [OF csReach.init this] have "csReach ?s {}" by (simp add: csCallOf_def)
  moreover have "csWork ?s \<noteq> 0" by (simp add: csWork_def NewCachingSectorAccessor_def numeral_2_eq_2)
  ultimately show ?thesis using cached_unsealed_ends [of ?s "{}" demoRemote] by blast
qed

end
