(* ===== verification/Harmony.thy ===== *)
theory Harmony
  imports GoStd
begin

text \<open>
  The SQL library \<open>lib/harmonydb\<close>: the statements that are refused inside a transaction, and
  transactions with their rollback and retries (\<open>userfuncs.go\<close>), and the connection settings of \<open>New\<close>
  (\<open>harmonydb.go\<close>). The connection pool is the record \<open>pgx\<close> over an opaque state; the program counters
  of the stack and the codes of the database's errors are parameters.
\<close>

record ('s, 'v) pgx =
  pxExec :: "'s \<Rightarrow> string \<Rightarrow> 'v list \<Rightarrow> (int \<times> goerr option) \<times> 's"
  pxQuery :: "'s \<Rightarrow> string \<Rightarrow> 'v list \<Rightarrow> 'v list list \<times> goerr option"
  pxQueryRow :: "'s \<Rightarrow> string \<Rightarrow> 'v list \<Rightarrow> goerr + 'v list"
  pxBegin :: "'s \<Rightarrow> goerr option \<times> 's"
  pxCommit :: "'s \<Rightarrow> goerr option \<times> 's"
  pxRollback :: "'s \<Rightarrow> goerr option \<times> 's"
  pxCode :: "goerr \<Rightarrow> string option"

definition errTx :: goerr where
  "errTx = errorf ''cannot use a non-transaction func in a transaction''"

section \<open>Statements\<close>

text \<open>
  \<open>frames\<close> are the program counters of the stack above the caller, \<open>btfp\<close> the one that was stored when
  the first transaction began, 0 before.
\<close>

definition usedInTransaction :: "nat list \<Rightarrow> nat \<Rightarrow> bool" where
  "usedInTransaction frames btfp \<longleftrightarrow> btfp \<in> set (take 20 frames)"

definition DB_Exec ::
  "('s, 'v) pgx \<Rightarrow> nat list \<Rightarrow> nat \<Rightarrow> 's \<Rightarrow> string \<Rightarrow> 'v list \<Rightarrow> (int \<times> goerr option) \<times> 's" where
  "DB_Exec P frames btfp s sql args =
     (if usedInTransaction frames btfp then ((0, Some errTx), s) else pxExec P s sql args)"

definition DB_Query ::
  "('s, 'v) pgx \<Rightarrow> nat list \<Rightarrow> nat \<Rightarrow> 's \<Rightarrow> string \<Rightarrow> 'v list \<Rightarrow> 'v list list \<times> goerr option" where
  "DB_Query P frames btfp s sql args =
     (if usedInTransaction frames btfp then ([], Some errTx) else pxQuery P s sql args)"

definition DB_QueryRow ::
  "('s, 'v) pgx \<Rightarrow> nat list \<Rightarrow> nat \<Rightarrow> 's \<Rightarrow> string \<Rightarrow> 'v list \<Rightarrow> goerr + 'v list" where
  "DB_QueryRow P frames btfp s sql args =
     (if usedInTransaction frames btfp then Inl errTx else pxQueryRow P s sql args)"

text \<open>\<open>scanAll\<close> is the scan of all rows into a slice.\<close>

definition DB_Select ::
  "('s, 'v) pgx \<Rightarrow> ('v list list \<Rightarrow> goerr + 'd) \<Rightarrow> nat list \<Rightarrow> nat \<Rightarrow> 's \<Rightarrow> string \<Rightarrow> 'v list \<Rightarrow> goerr + 'd" where
  "DB_Select P scanAll frames btfp s sql args =
     (if usedInTransaction frames btfp then Inl errTx
      else case pxQuery P s sql args of
          (_, Some err) \<Rightarrow> Inl err
        | (rows, None) \<Rightarrow> scanAll rows)"

definition Tx_Select ::
  "('s, 'v) pgx \<Rightarrow> ('v list list \<Rightarrow> goerr + 'd) \<Rightarrow> 's \<Rightarrow> string \<Rightarrow> 'v list \<Rightarrow> goerr + 'd" where
  "Tx_Select P scanAll s sql args =
     (case pxQuery P s sql args of
        (_, Some err) \<Rightarrow> Inl (errorf_w ''scany: query multiple result rows: '' err)
      | (rows, None) \<Rightarrow> scanAll rows)"

definition IsErrUniqueContraint :: "('s, 'v) pgx \<Rightarrow> goerr \<Rightarrow> bool" where
  "IsErrUniqueContraint P err \<longleftrightarrow> pxCode P err = Some ''23505''"

definition IsErrSerialization :: "('s, 'v) pgx \<Rightarrow> goerr \<Rightarrow> bool" where
  "IsErrSerialization P err \<longleftrightarrow> pxCode P err = Some ''40001''"

section \<open>Transactions\<close>

datatype txEvent = TxBegin | TxCommit | TxRollback

text \<open>
  What a transaction gives: whether it was committed and the error, or \<open>None\<close> for a panic of the
  function, which is rolled back and goes on; and the calls of the pool that began and ended it.
\<close>

type_synonym 's txResult = "(bool \<times> goerr option) option \<times> txEvent list \<times> 's"

definition transactionInner ::
  "('s, 'v) pgx \<Rightarrow> ('s \<Rightarrow> (bool \<times> goerr option) option \<times> 's) \<Rightarrow> 's \<Rightarrow> 's txResult" where
  "transactionInner P f s =
     (case pxBegin P s of
        (Some err, s1) \<Rightarrow> (Some (False, Some err), [], s1)
      | (None, s1) \<Rightarrow>
          (let rollback = (\<lambda>r s. case pxRollback P s of
                 (tmp, s') \<Rightarrow> (map_option (\<lambda>(c, err). (c, if tmp = None then err else tmp)) r,
                               [TxBegin, TxRollback], s'))
           in case f s1 of
                (None, s2) \<Rightarrow> rollback None s2
              | (Some (commit, Some err), s2) \<Rightarrow>
                  if commit then (Some (False, Some err), [TxBegin], s2)
                  else rollback (Some (False, Some err)) s2
              | (Some (commit, None), s2) \<Rightarrow>
                  if commit then
                    (case pxCommit P s2 of
                       (Some err, s3) \<Rightarrow> (Some (False, Some err), [TxBegin, TxCommit], s3)
                     | (None, s3) \<Rightarrow> (Some (True, None), [TxBegin, TxCommit], s3))
                  else rollback (Some (False, None)) s2))"

record TransactionOptions =
  RetrySerializationError :: bool
  InitialSerializationErrorRetryWait :: u64

definition defaultTxOptions :: TransactionOptions where
  "defaultTxOptions = \<lparr>RetrySerializationError = False, InitialSerializationErrorRetryWait = 10000000\<rparr>"

definition OptionRetry :: "TransactionOptions \<Rightarrow> TransactionOptions" where
  "OptionRetry o' = o'\<lparr>RetrySerializationError := True\<rparr>"

definition OptionSerialRetryTime :: "u64 \<Rightarrow> TransactionOptions \<Rightarrow> TransactionOptions" where
  "OptionSerialRetryTime d o' = o'\<lparr>InitialSerializationErrorRetryWait := d\<rparr>"

text \<open>
  The retries, at most \<open>fuel\<close> turns; \<open>None\<close> if they do not end in them. The last component holds the
  waits, which wrap around.
\<close>

fun retryLoop ::
  "nat \<Rightarrow> ('s, 'v) pgx \<Rightarrow> ('s \<Rightarrow> (bool \<times> goerr option) option \<times> 's) \<Rightarrow> bool \<Rightarrow> u64 \<Rightarrow> txEvent list \<Rightarrow> u64 list \<Rightarrow>
   's \<Rightarrow> ('s txResult \<times> u64 list) option" where
  "retryLoop 0 P f retry wait evs waits s = None"
| "retryLoop (Suc n) P f retry wait evs waits s =
     (case transactionInner P f s of
        (r, evs', s') \<Rightarrow>
          (case r of
             Some (comm, Some err) \<Rightarrow>
               if retry \<and> IsErrSerialization P err
               then retryLoop n P f retry (wait * 2) (evs @ evs') (waits @ [wait]) s'
               else Some ((r, evs @ evs', s'), waits)
           | _ \<Rightarrow> Some ((r, evs @ evs', s'), waits)))"

definition BeginTransaction ::
  "nat \<Rightarrow> ('s, 'v) pgx \<Rightarrow> nat list \<Rightarrow> nat \<Rightarrow> ('s \<Rightarrow> (bool \<times> goerr option) option \<times> 's) \<Rightarrow>
   (TransactionOptions \<Rightarrow> TransactionOptions) list \<Rightarrow> 's \<Rightarrow> ('s txResult \<times> u64 list) option" where
  "BeginTransaction fuel P frames btfp f opt s =
     (if usedInTransaction frames btfp then Some ((Some (False, Some errTx), [], s), [])
      else let opts = fold (\<lambda>o' opts. o' opts) opt defaultTxOptions in
        retryLoop fuel P f (RetrySerializationError opts) (InitialSerializationErrorRetryWait opts) [] [] s)"

section \<open>Connection settings\<close>

text \<open>\<open>params\<close> are the keys and values in the order in which Go visits the map.\<close>

definition connString :: "string list \<Rightarrow> (string \<times> string) list \<Rightarrow> string \<Rightarrow> string" where
  "connString hosts params schema =
     (if hosts \<noteq> [] then ''host='' @ hd hosts @ '' '' else []) @
     concat (map (\<lambda>(k, v). if trimSpace v \<noteq> [] then k @ ''='' @ v @ '' '' else []) params) @
     ''search_path='' @ schema"

definition schemaOf :: "string \<Rightarrow> string" where
  "schemaOf itest = (if itest \<noteq> [] then ''itest_'' @ itest else ''curio'')"

text \<open>The fallback hosts; taking them of no hosts is an index out of range.\<close>

definition newConfig ::
  "(string \<Rightarrow> goerr option) \<Rightarrow> string list \<Rightarrow> (string \<times> string) list \<Rightarrow> string \<Rightarrow>
   (string \<times> string \<times> string list) outcome" where
  "newConfig parseErr hosts params itest =
     (let conn = connString hosts params (schemaOf itest) in
      case parseErr conn of
        Some err \<Rightarrow> Fail err
      | None \<Rightarrow> if hosts = [] then Panic else Ret (conn, schemaOf itest, tl hosts))"

section \<open>Outcomes of a transaction\<close>

text \<open>
  C36: A transaction reports a commit exactly when it was begun, its function returned true without error
  and the commit succeeded. Whatever the function does, a transaction that was begun is then committed or
  rolled back once, but for one case: a function that returns true together with an error leaves it open.
\<close>

theorem transaction_outcome:
  assumes "transactionInner P f s = (r, evs, s')"
  shows "((\<exists>err. r = Some (True, err)) \<longleftrightarrow>
      (\<exists>s1 s2. pxBegin P s = (None, s1) \<and> f s1 = (Some (True, None), s2) \<and> pxCommit P s2 = (None, s'))) \<and>
    (\<forall>err. r \<noteq> Some (True, Some err)) \<and>
    evs = (case pxBegin P s of
       (Some err, s1) \<Rightarrow> []
     | (None, s1) \<Rightarrow>
         TxBegin # (case fst (f s1) of
             Some (True, None) \<Rightarrow> [TxCommit] | Some (True, Some err) \<Rightarrow> [] | _ \<Rightarrow> [TxRollback]))"
  using assms
  by (auto simp: transactionInner_def Let_def split: prod.splits option.splits if_splits bool.splits)

text \<open>A pool that counts: a commit adds 100, a failed attempt 1.\<close>

definition demoPgx :: "(nat, unit) pgx" where
  "demoPgx =
     \<lparr>pxExec = (\<lambda>s q vs. ((0, None), s)), pxQuery = (\<lambda>s q vs. ([], None)), pxQueryRow = (\<lambda>s q vs. Inr []),
      pxBegin = (\<lambda>s. (None, s)), pxCommit = (\<lambda>s. (None, s + 100)), pxRollback = (\<lambda>s. (None, s + 1)),
      pxCode = (\<lambda>e. if emsg e = ''busy'' then Some ''40001'' else None)\<rparr>"

definition demoTxFun :: "nat \<Rightarrow> (bool \<times> goerr option) option \<times> nat" where
  "demoTxFun s = (if s < 2 then (Some (False, Some (errorf ''busy'')), s) else (Some (True, None), s))"

theorem transaction_outcome_witness:
  "transactionInner demoPgx demoTxFun 2 = (Some (True, None), [TxBegin, TxCommit], 102) \<and>
   (\<exists>s1 s2. pxBegin demoPgx 2 = (None, s1) \<and> demoTxFun s1 = (Some (True, None), s2) \<and>
     pxCommit demoPgx s2 = (None, 102))"
proof -
  have "transactionInner demoPgx demoTxFun 2 = (Some (True, None), [TxBegin, TxCommit], 102)"
    by (simp add: transactionInner_def demoPgx_def demoTxFun_def Let_def)
  with transaction_outcome [OF this] show ?thesis by simp
qed

section \<open>Retries\<close>

text \<open>The state after \<open>n\<close> attempts, and an attempt that fails with a serialization error.\<close>

fun afterAttempts :: "('s, 'v) pgx \<Rightarrow> ('s \<Rightarrow> (bool \<times> goerr option) option \<times> 's) \<Rightarrow> nat \<Rightarrow> 's \<Rightarrow> 's" where
  "afterAttempts P f 0 s = s"
| "afterAttempts P f (Suc n) s = afterAttempts P f n (snd (snd (transactionInner P f s)))"

definition serFails :: "('s, 'v) pgx \<Rightarrow> ('s \<Rightarrow> (bool \<times> goerr option) option \<times> 's) \<Rightarrow> 's \<Rightarrow> bool" where
  "serFails P f s \<longleftrightarrow>
     (case fst (transactionInner P f s) of Some (_, Some err) \<Rightarrow> IsErrSerialization P err | _ \<Rightarrow> False)"

lemma retryLoop_turns:
  assumes "\<forall>i<n. serFails P f (afterAttempts P f i s)" "\<not> serFails P f (afterAttempts P f n s)" "n < fuel"
  shows "\<exists>evs'. retryLoop fuel P f True wait evs waits s =
    Some ((fst (transactionInner P f (afterAttempts P f n s)), evs @ evs', afterAttempts P f (Suc n) s),
      waits @ map (\<lambda>i. wait * 2 ^ i) [0..<n])"
  using assms
proof (induction n arbitrary: fuel wait evs waits s)
  case 0
  obtain r evs' s' where t: "transactionInner P f s = (r, evs', s')" by (rule prod_cases3)
  obtain m where m: "fuel = Suc m" using 0(3) by (cases fuel) auto
  have "\<not> serFails P f s" using 0(2) by simp
  with t m show ?case by (auto simp: serFails_def split: option.splits prod.splits)
next
  case (Suc n)
  obtain r evs' s' where t: "transactionInner P f s = (r, evs', s')" by (rule prod_cases3)
  obtain m where m: "fuel = Suc m" "n < m" using Suc.prems(3) by (cases fuel) auto
  have "serFails P f s" using Suc.prems(1) [rule_format, of 0] by simp
  then obtain comm err where r: "r = Some (comm, Some err)" "IsErrSerialization P err"
    using t by (auto simp: serFails_def split: option.splits)
  have "serFails P f (afterAttempts P f i s')" if "i < n" for i
    using Suc.prems(1) [rule_format, of "Suc i"] that t by simp
  moreover have "\<not> serFails P f (afterAttempts P f n s')" using Suc.prems(2) t by simp
  ultimately obtain evs2 where
    ih: "retryLoop m P f True (wait * 2) (evs @ evs') (waits @ [wait]) s' =
      Some ((fst (transactionInner P f (afterAttempts P f n s')), (evs @ evs') @ evs2, afterAttempts P f (Suc n) s'),
        (waits @ [wait]) @ map (\<lambda>i. wait * 2 * 2 ^ i) [0..<n])"
    using Suc.IH [of s' m "wait * 2" "evs @ evs'" "waits @ [wait]"] m(2) by blast
  have "[wait] @ map (\<lambda>i. wait * 2 * 2 ^ i) [0..<n] = map (\<lambda>i. wait * 2 ^ i) [0..<Suc n]"
    by (simp add: upt_conv_Cons map_Suc_upt [symmetric] ac_simps del: upt_Suc)
  with ih t r m(1) show ?case by (simp del: upt_Suc afterAttempts.simps add: afterAttempts.simps(2) [of P f _ s])
qed

text \<open>
  With the retry option a transaction whose first \<open>n\<close> attempts fail to serialize is tried again until
  the next attempt, whose outcome it returns, and waits \<open>d\<close>, \<open>2 d\<close>, \<open>4 d\<close> and so on between them, in the
  arithmetic of 64 bits; without the option there is one attempt and no wait.
\<close>

theorem transaction_retries:
  assumes "\<not> usedInTransaction frames btfp"
    and "\<forall>i<n. serFails P f (afterAttempts P f i s)" "\<not> serFails P f (afterAttempts P f n s)"
  shows "(\<exists>evs. BeginTransaction (Suc n) P frames btfp f [OptionRetry, OptionSerialRetryTime d] s =
      Some ((fst (transactionInner P f (afterAttempts P f n s)), evs, afterAttempts P f (Suc n) s),
        map (\<lambda>i. d * 2 ^ i) [0..<n])) \<and>
    BeginTransaction 1 P frames btfp f [] s = Some (transactionInner P f s, [])"
proof -
  have "BeginTransaction 1 P frames btfp f [] s = Some (transactionInner P f s, [])"
    using assms(1) by (auto simp: BeginTransaction_def Let_def defaultTxOptions_def split: prod.splits option.splits)
  moreover have "\<exists>evs. BeginTransaction (Suc n) P frames btfp f [OptionRetry, OptionSerialRetryTime d] s =
      Some ((fst (transactionInner P f (afterAttempts P f n s)), evs, afterAttempts P f (Suc n) s),
        map (\<lambda>i. d * 2 ^ i) [0..<n])"
    using retryLoop_turns [OF assms(2,3), of "Suc n" d "[]" "[]"] assms(1)
    by (simp del: retryLoop.simps afterAttempts.simps
        add: BeginTransaction_def Let_def defaultTxOptions_def OptionRetry_def OptionSerialRetryTime_def)
  ultimately show ?thesis by blast
qed

theorem transaction_retries_witness:
  "\<exists>evs. BeginTransaction 3 demoPgx [] 0 demoTxFun [OptionRetry, OptionSerialRetryTime 5] 0 =
    Some ((Some (True, None), evs, 102), [5, 10])"
proof -
  have d: "transactionInner demoPgx demoTxFun 0 = (Some (False, Some (errorf ''busy'')), [TxBegin, TxRollback], 1)"
    "transactionInner demoPgx demoTxFun 1 = (Some (False, Some (errorf ''busy'')), [TxBegin, TxRollback], 2)"
    "transactionInner demoPgx demoTxFun 2 = (Some (True, None), [TxBegin, TxCommit], 102)"
    by (simp_all add: transactionInner_def demoPgx_def demoTxFun_def Let_def)
  have s: "IsErrSerialization demoPgx (errorf ''busy'')" by (simp add: IsErrSerialization_def demoPgx_def)
  have "afterAttempts demoPgx demoTxFun i 0 = i" if "i \<le> 2" for i
    using that d by (auto simp: numeral_2_eq_2 le_Suc_eq)
  then have "\<forall>i<2. serFails demoPgx demoTxFun (afterAttempts demoPgx demoTxFun i 0)"
    "\<not> serFails demoPgx demoTxFun (afterAttempts demoPgx demoTxFun 2 0)"
    using d s by (auto simp: serFails_def numeral_2_eq_2 less_Suc_eq)
  from transaction_retries [OF _ this, of "[]" 0 5] d show ?thesis
    by (simp add: usedInTransaction_def numeral_2_eq_2 numeral_3_eq_3)
qed

end
