(* ===== verification/LdbTypes.thy ===== *)
theory LdbTypes
  imports LdbProps
begin






lemma removeIndex_next [simp]: "lidNext (removeIndex cur p L) = lidNext L"
  by (simp add: removeIndex_def Let_def)

lemma lidRemovePiece_next [simp]: "lidNext (lidRemovePiece p md L) = lidNext L"
  by (simp add: lidRemovePiece_def Let_def)









end
