(* ===== verification/LidClient.thy ===== *)
theory LidClient
  imports LdbService LdbMore "HOL-Library.Sublist"
begin

text \<open>
  The client of the local index directory, \<open>lib/boostd-data/client/client.go\<close>: its methods forward to
  the service over JSON-RPC. The transport is the record \<open>rpcEnv\<close>: what becomes of an error and of a panic of
  the service, and how much of a channel arrives. The functions of the service that its clients
  do not share are the record \<open>lidServer\<close>.
\<close>

type_synonym lidRecord = "goerr + IndexedBlock"

record 'i rpcEnv =
  rpErr :: "goerr \<Rightarrow> goerr"
  rpPanic :: goerr
  rpProgress :: "AddIndexProgress list \<Rightarrow> AddIndexProgress list"
  rpRecords :: "lidRecord list \<Rightarrow> lidRecord list"
  rpCidString :: "cid \<Rightarrow> string"
  rpLoad :: "(cid \<times> u64) list \<Rightarrow> goerr + 'i"

record 's lidServer =
  lsService :: "'s lidService"
  lsAddIndex :: "'s \<Rightarrow> time \<Rightarrow> cid \<Rightarrow> IndexedBlock list \<Rightarrow> bool \<Rightarrow> AddIndexProgress list \<times> 's"
  lsGetIndex :: "'s \<Rightarrow> cid \<Rightarrow> lidRecord list outcome"
  lsIndexedAt :: "'s \<Rightarrow> cid \<Rightarrow> goerr + time"
  lsListPieces :: "'s \<Rightarrow> goerr + cid list"
  lsPiecesCount :: "'s \<Rightarrow> address \<Rightarrow> goerr + nat"
  lsScanProgress :: "'s \<Rightarrow> address \<Rightarrow> goerr + ScanProgressResult"
  lsRemovePieceMetadata :: "'s \<Rightarrow> cid \<Rightarrow> unit outcome \<times> 's"
  lsRemoveIndexes :: "'s \<Rightarrow> cid \<Rightarrow> unit outcome \<times> 's"
  lsFlaggedPiecesList :: "'s \<Rightarrow> FlaggedPiecesListFilter option \<Rightarrow> time option \<Rightarrow> int \<Rightarrow> int \<Rightarrow> goerr + FlaggedPiece list"
  lsFlaggedPiecesCount :: "'s \<Rightarrow> FlaggedPiecesListFilter option \<Rightarrow> goerr + nat"

definition rpcRes :: "'i rpcEnv \<Rightarrow> goerr + 'a \<Rightarrow> goerr + 'a" where
  "rpcRes R r = (case r of Inl err \<Rightarrow> Inl (rpErr R err) | Inr x \<Rightarrow> Inr x)"

definition rpcOpt :: "'i rpcEnv \<Rightarrow> goerr option \<Rightarrow> goerr option" where
  "rpcOpt R e = map_option (rpErr R) e"

definition rpcOut :: "'i rpcEnv \<Rightarrow> 'a outcome \<Rightarrow> 'a outcome" where
  "rpcOut R r = (case r of Ret x \<Rightarrow> Ret x | Fail err \<Rightarrow> Fail (rpErr R err) | Panic \<Rightarrow> Fail (rpPanic R))"

section \<open>The methods\<close>

text \<open>The methods that the piece directory and the doctor use, as the service they see.\<close>

definition bd_GetPieceMetadata :: "'i rpcEnv \<Rightarrow> 's lidService \<Rightarrow> 's \<Rightarrow> cid \<Rightarrow> goerr + Metadata" where
  "bd_GetPieceMetadata R svc s pieceCid = rpcRes R (svcGetPieceMetadata svc s pieceCid)"

definition bd_GetPieceDeals :: "'i rpcEnv \<Rightarrow> 's lidService \<Rightarrow> 's \<Rightarrow> cid \<Rightarrow> goerr + DealInfo list" where
  "bd_GetPieceDeals R svc s pieceCid = rpcRes R (svcGetPieceDeals svc s pieceCid)"

definition bd_IsIndexed :: "'i rpcEnv \<Rightarrow> 's lidService \<Rightarrow> 's \<Rightarrow> cid \<Rightarrow> goerr + bool" where
  "bd_IsIndexed R svc s pieceCid = rpcRes R (svcIsIndexed svc s pieceCid)"

definition bd_IsCompleteIndex :: "'i rpcEnv \<Rightarrow> 's lidService \<Rightarrow> 's \<Rightarrow> cid \<Rightarrow> goerr + bool" where
  "bd_IsCompleteIndex R svc s pieceCid = rpcRes R (svcIsCompleteIndex svc s pieceCid)"

definition bd_GetOffsetSize :: "'i rpcEnv \<Rightarrow> 's lidService \<Rightarrow> 's \<Rightarrow> cid \<Rightarrow> multihash \<Rightarrow> OffsetSize outcome" where
  "bd_GetOffsetSize R svc s pieceCid h = rpcOut R (svcGetOffsetSize svc s pieceCid h)"

definition bd_PiecesContainingMultihash :: "'i rpcEnv \<Rightarrow> 's lidService \<Rightarrow> 's \<Rightarrow> multihash \<Rightarrow> goerr + cid list" where
  "bd_PiecesContainingMultihash R svc s m = rpcRes R (svcPiecesContainingMultihash svc s m)"

definition bd_AddDealForPiece :: "'i rpcEnv \<Rightarrow> 's lidService \<Rightarrow> 's \<Rightarrow> cid \<Rightarrow> DealInfo \<Rightarrow> goerr option \<times> 's" where
  "bd_AddDealForPiece R svc s pieceCid dealInfo = apfst (rpcOpt R) (svcAddDealForPiece svc s pieceCid dealInfo)"

definition bd_RemoveDealForPiece :: "'i rpcEnv \<Rightarrow> 's lidService \<Rightarrow> 's \<Rightarrow> cid \<Rightarrow> string \<Rightarrow> unit outcome \<times> 's" where
  "bd_RemoveDealForPiece R svc s pieceCid dealId = apfst (rpcOut R) (svcRemoveDealForPiece svc s pieceCid dealId)"

definition bd_FlagPiece :: "'i rpcEnv \<Rightarrow> 's lidService \<Rightarrow> 's \<Rightarrow> time \<Rightarrow> cid \<Rightarrow> bool \<Rightarrow> address \<Rightarrow> goerr option \<times> 's" where
  "bd_FlagPiece R svc s now pieceCid hasUnsealedDeal maddr = apfst (rpcOpt R) (svcFlagPiece svc s now pieceCid hasUnsealedDeal maddr)"

definition bd_UnflagPiece :: "'i rpcEnv \<Rightarrow> 's lidService \<Rightarrow> 's \<Rightarrow> cid \<Rightarrow> address \<Rightarrow> goerr option \<times> 's" where
  "bd_UnflagPiece R svc s pieceCid maddr = apfst (rpcOpt R) (svcUnflagPiece svc s pieceCid maddr)"

definition bd_UntrackPiece :: "'i rpcEnv \<Rightarrow> 's lidService \<Rightarrow> 's \<Rightarrow> cid \<Rightarrow> address \<Rightarrow> goerr option \<times> 's" where
  "bd_UntrackPiece R svc s pieceCid maddr = apfst (rpcOpt R) (svcUntrackPiece svc s pieceCid maddr)"

definition bd_NextPiecesToCheck :: "'i rpcEnv \<Rightarrow> 's lidService \<Rightarrow> 's \<Rightarrow> time \<Rightarrow> address \<Rightarrow> (goerr + cid list) \<times> 's" where
  "bd_NextPiecesToCheck R svc s now maddr = apfst (rpcRes R) (svcNextPiecesToCheck svc s now maddr)"

definition bdclient :: "'i rpcEnv \<Rightarrow> 's lidService \<Rightarrow> 's lidService" where
  "bdclient R svc =
     \<lparr>svcGetPieceMetadata = bd_GetPieceMetadata R svc,
      svcGetPieceDeals = bd_GetPieceDeals R svc,
      svcIsIndexed = bd_IsIndexed R svc,
      svcIsCompleteIndex = bd_IsCompleteIndex R svc,
      svcGetOffsetSize = bd_GetOffsetSize R svc,
      svcPiecesContainingMultihash = bd_PiecesContainingMultihash R svc,
      svcAddDealForPiece = bd_AddDealForPiece R svc,
      svcRemoveDealForPiece = bd_RemoveDealForPiece R svc,
      svcFlagPiece = bd_FlagPiece R svc,
      svcUnflagPiece = bd_UnflagPiece R svc,
      svcUntrackPiece = bd_UntrackPiece R svc,
      svcNextPiecesToCheck = bd_NextPiecesToCheck R svc\<rparr>"

lemmas bdclient_defs = bdclient_def bd_GetPieceMetadata_def bd_GetPieceDeals_def bd_IsIndexed_def
  bd_IsCompleteIndex_def bd_GetOffsetSize_def bd_PiecesContainingMultihash_def bd_AddDealForPiece_def bd_RemoveDealForPiece_def
  bd_FlagPiece_def bd_UnflagPiece_def bd_UntrackPiece_def bd_NextPiecesToCheck_def

fun drainRecords :: "lidRecord list \<Rightarrow> IndexedBlock list \<Rightarrow> goerr + IndexedBlock list" where
  "drainRecords [] records = Inr records"
| "drainRecords (Inl err # resp) records = Inl err"
| "drainRecords (Inr r # resp) records = drainRecords resp (records @ [r])"

definition lsRecords :: "'i rpcEnv \<Rightarrow> 's lidServer \<Rightarrow> 's \<Rightarrow> cid \<Rightarrow> goerr + lidRecord list" where
  "lsRecords R srv s pieceCid =
     (case lsGetIndex srv s pieceCid of
        Ret resp \<Rightarrow> Inr (rpRecords R resp) | Fail err \<Rightarrow> Inl (rpErr R err) | Panic \<Rightarrow> Inl (rpPanic R))"

definition bd_GetRecords :: "'i rpcEnv \<Rightarrow> 's lidServer \<Rightarrow> 's \<Rightarrow> cid \<Rightarrow> goerr + IndexedBlock list" where
  "bd_GetRecords R srv s pieceCid =
     (case lsRecords R srv s pieceCid of Inl err \<Rightarrow> Inl err | Inr resp \<Rightarrow> drainRecords resp [])"

definition bd_GetIndex :: "'i rpcEnv \<Rightarrow> 's lidServer \<Rightarrow> 's \<Rightarrow> cid \<Rightarrow> goerr + 'i" where
  "bd_GetIndex R srv s pieceCid =
     (case lsRecords R srv s pieceCid of
        Inl err \<Rightarrow> Inl err
      | Inr resp \<Rightarrow>
          (case drainRecords resp [] of
             Inl err \<Rightarrow> Inl err
           | Inr records \<Rightarrow> rpLoad R (map (\<lambda>r. (Cid r, Offset r)) records)))"

fun drainProgress :: "'i rpcEnv \<Rightarrow> cid \<Rightarrow> AddIndexProgress list \<Rightarrow> goerr option" where
  "drainProgress R pieceCid [] = None"
| "drainProgress R pieceCid (resp # respch) =
     (if Err resp \<noteq> [] then
        Some (errorf (''add index with piece cid '' @ rpCidString R pieceCid @ '': '' @ Err resp))
      else drainProgress R pieceCid respch)"

definition bd_AddIndex ::
  "'i rpcEnv \<Rightarrow> 's lidServer \<Rightarrow> 's \<Rightarrow> time \<Rightarrow> cid \<Rightarrow> IndexedBlock list \<Rightarrow> bool \<Rightarrow> goerr option \<times> 's" where
  "bd_AddIndex R srv s now pieceCid records isCompleteIndex =
     (case lsAddIndex srv s now pieceCid records isCompleteIndex of
        (sent, s') \<Rightarrow> (drainProgress R pieceCid (rpProgress R sent), s'))"

definition bd_IndexedAt :: "'i rpcEnv \<Rightarrow> 's lidServer \<Rightarrow> 's \<Rightarrow> cid \<Rightarrow> goerr + time" where
  "bd_IndexedAt R srv s pieceCid = rpcRes R (lsIndexedAt srv s pieceCid)"

definition bd_RemovePieceMetadata :: "'i rpcEnv \<Rightarrow> 's lidServer \<Rightarrow> 's \<Rightarrow> cid \<Rightarrow> unit outcome \<times> 's" where
  "bd_RemovePieceMetadata R srv s pieceCid = apfst (rpcOut R) (lsRemovePieceMetadata srv s pieceCid)"

definition bd_RemoveIndexes :: "'i rpcEnv \<Rightarrow> 's lidServer \<Rightarrow> 's \<Rightarrow> cid \<Rightarrow> unit outcome \<times> 's" where
  "bd_RemoveIndexes R srv s pieceCid = apfst (rpcOut R) (lsRemoveIndexes srv s pieceCid)"

definition bd_ListPieces :: "'i rpcEnv \<Rightarrow> 's lidServer \<Rightarrow> 's \<Rightarrow> goerr + cid list" where
  "bd_ListPieces R srv s = rpcRes R (lsListPieces srv s)"

definition bd_PiecesCount :: "'i rpcEnv \<Rightarrow> 's lidServer \<Rightarrow> 's \<Rightarrow> address \<Rightarrow> goerr + nat" where
  "bd_PiecesCount R srv s maddr = rpcRes R (lsPiecesCount srv s maddr)"

definition bd_ScanProgress :: "'i rpcEnv \<Rightarrow> 's lidServer \<Rightarrow> 's \<Rightarrow> address \<Rightarrow> goerr + ScanProgressResult" where
  "bd_ScanProgress R srv s maddr = rpcRes R (lsScanProgress srv s maddr)"

definition bd_FlaggedPiecesList ::
  "'i rpcEnv \<Rightarrow> 's lidServer \<Rightarrow> 's \<Rightarrow> FlaggedPiecesListFilter option \<Rightarrow> time option \<Rightarrow> int \<Rightarrow> int \<Rightarrow>
    goerr + FlaggedPiece list" where
  "bd_FlaggedPiecesList R srv s flt cursor ofs limit = rpcRes R (lsFlaggedPiecesList srv s flt cursor ofs limit)"

definition bd_FlaggedPiecesCount ::
  "'i rpcEnv \<Rightarrow> 's lidServer \<Rightarrow> 's \<Rightarrow> FlaggedPiecesListFilter option \<Rightarrow> goerr + nat" where
  "bd_FlaggedPiecesCount R srv s flt = rpcRes R (lsFlaggedPiecesCount srv s flt)"

section \<open>The LevelDB store behind the client\<close>

definition ldbServer :: "'s world \<Rightarrow> ('s \<times> checker) lidServer" where
  "ldbServer W =
     \<lparr>lsService = ldbService W,
      lsAddIndex = (\<lambda>s now p records full. apsnd (\<lambda>t. (t, snd s)) (Store_AddIndex W (fst s) now p records full)),
      lsGetIndex = (\<lambda>s p. case Store_GetIndex W (fst s) p of
         Ret rs \<Rightarrow> Ret (map Inr rs) | Fail err \<Rightarrow> Fail err | Panic \<Rightarrow> Panic),
      lsIndexedAt = (\<lambda>s p. Store_IndexedAt W (fst s) p),
      lsListPieces = (\<lambda>s. Store_ListPieces W (fst s)),
      lsPiecesCount = (\<lambda>s a. Store_PiecesCount W (fst s) a),
      lsScanProgress = (\<lambda>s a. Store_ScanProgress W (fst s) (snd s) a),
      lsRemovePieceMetadata = (\<lambda>s p. apsnd (\<lambda>t. (t, snd s)) (Store_RemovePieceMetadata W (fst s) p)),
      lsRemoveIndexes = (\<lambda>s p. apsnd (\<lambda>t. (t, snd s)) (Store_RemoveIndexes W (fst s) p)),
      lsFlaggedPiecesList = (\<lambda>s flt cursor ofs limit. Store_FlaggedPiecesList W (fst s) (snd s) flt cursor ofs limit),
      lsFlaggedPiecesCount = (\<lambda>s flt. Store_FlaggedPiecesCount W (fst s) flt)\<rparr>"

lemma drainRecords_Inr: "drainRecords (map Inr rs) acc = Inr (acc @ rs)"
  by (induction rs arbitrary: acc) auto

lemma drainProgress_None: "drainProgress R p sent = None \<longleftrightarrow> (\<forall>r\<in>set sent. Err r = [])"
  by (induction sent) auto

section \<open>The contract of the service over the client\<close>

text \<open>
  An error that crosses the RPC boundary keeps its text and nothing else is promised of it; that is why the
  callers look for \<open>not found\<close> in the text. The contract of the service survives.
\<close>

locale rpc_service = lid_service svc invar flagged
  for svc :: "'s lidService" and invar :: "'s \<Rightarrow> bool" and flagged :: "'s \<Rightarrow> address \<Rightarrow> cid \<Rightarrow> bool option" +
  fixes R :: "'i rpcEnv"
  assumes rpc_text: "emsg (rpErr R err) = emsg err"
begin

lemma rpcRes_Inr [simp]: "rpcRes R r = Inr x \<longleftrightarrow> r = Inr x"
  by (auto simp: rpcRes_def split: sum.split)

lemma rpcRes_Inl: "rpcRes R r = Inl e \<Longrightarrow> \<exists>err. r = Inl err \<and> emsg e = emsg err"
  by (auto simp: rpcRes_def rpc_text split: sum.splits)

lemma client_ops:
  "svcGetPieceMetadata (bdclient R svc) s = (\<lambda>p. rpcRes R (svcGetPieceMetadata svc s p))"
  "svcIsIndexed (bdclient R svc) s = (\<lambda>p. rpcRes R (svcIsIndexed svc s p))"
  "svcFlagPiece (bdclient R svc) s now p huc a = apfst (rpcOpt R) (svcFlagPiece svc s now p huc a)"
  "svcUnflagPiece (bdclient R svc) s p a = apfst (rpcOpt R) (svcUnflagPiece svc s p a)"
  "svcUntrackPiece (bdclient R svc) s p a = apfst (rpcOpt R) (svcUntrackPiece svc s p a)"
  "svcNextPiecesToCheck (bdclient R svc) s now a = apfst (rpcRes R) (svcNextPiecesToCheck svc s now a)"
  by (simp_all add: bdclient_defs fun_eq_iff)

end

sublocale rpc_service \<subseteq> client: lid_service "bdclient R svc" invar flagged
proof (unfold_locales, goal_cases)
  case (1 s now p huc a e s')
  obtain e1 t where f: "svcFlagPiece svc s now p huc a = (e1, t)" by (rule prod.exhaust)
  from flag [OF 1(1) f] f 1(2) show ?case by (auto simp: client_ops rpcOpt_def)
next
  case (2 s p a e s')
  obtain e1 t where f: "svcUnflagPiece svc s p a = (e1, t)" by (rule prod.exhaust)
  from unflag [OF 2(1) f] f 2(2) show ?case by (auto simp: client_ops rpcOpt_def)
next
  case (3 s p a e s')
  obtain e1 t where f: "svcUntrackPiece svc s p a = (e1, t)" by (rule prod.exhaust)
  from untrack [OF 3(1) f] f 3(2) show ?case by (auto simp: client_ops rpcOpt_def)
next
  case (4 s now a r s')
  obtain r1 t where f: "svcNextPiecesToCheck svc s now a = (r1, t)" by (rule prod.exhaust)
  from next_pieces [OF 4(1) f] f 4(2) show ?case by (auto simp: client_ops)
next
  case (5 s p err)
  then obtain err1 where "svcGetPieceMetadata svc s p = Inl err1" "emsg err = emsg err1"
    using rpcRes_Inl unfolding client_ops by blast
  with metadata_total [OF 5(1)] show ?case by simp
next
  case (6 s p)
  from indexed_total [OF this] show ?case by (auto simp: client_ops)
qed

context rpc_service
begin

lemma client_doctor:
  assumes "invar s" and "drIDFromAddress D maddr = Inr mid"
    and "drChainHead D = None" and "drGetClaims D maddr = Inr claims"
    and "svcNextPiecesToCheck (bdclient R svc) s now maddr = (Inr ps, s1)"
    and "doctorIteration (bdclient R svc) D maddr (Some lu) now s = (e, s')"
  shows "e = None \<and> invar s' \<and>
    (\<forall>a q. flagged s' a q =
      (if a = maddr \<and> q \<in> set ps then
         verdict D maddr mid lu claims
           (case svcGetPieceMetadata svc s q of Inl _ \<Rightarrow> None | Inr md \<Rightarrow> Some md)
           (svcIsIndexed svc s q = Inr True) (flagged s maddr q)
       else flagged s a q))"
proof -
  have md: "(case svcGetPieceMetadata (bdclient R svc) s q of Inl _ \<Rightarrow> None | Inr md \<Rightarrow> Some md) =
      (case svcGetPieceMetadata svc s q of Inl _ \<Rightarrow> None | Inr md \<Rightarrow> Some md)" for q
    by (simp add: client_ops rpcRes_def split: sum.split)
  have ix: "svcIsIndexed (bdclient R svc) s q = Inr True \<longleftrightarrow> svcIsIndexed svc s q = Inr True" for q
    by (simp add: client_ops)
  from client.doctorIteration_ok [OF assms] show ?thesis unfolding md ix .
qed

end

text \<open>A transport that gives back the text of an error, and delivers channels whole.\<close>

definition textRpc :: "unit rpcEnv" where
  "textRpc = \<lparr>rpErr = (\<lambda>e. GoErr (emsg e) []), rpPanic = errorf ''panic in rpc method'', rpProgress = (\<lambda>ps. ps),
     rpRecords = (\<lambda>rs. rs), rpCidString = (\<lambda>c. c), rpLoad = (\<lambda>_. Inr ())\<rparr>"

interpretation ldb_rpc: rpc_service "ldbService W" "ldbInv W view listing" "ldbFlagged W view" textRpc
  for W :: "'s world" and view listing
  by unfold_locales (simp add: textRpc_def)

text \<open>
  C11: The doctor works over the RPC client as it does in the process: with a transport that keeps the text of
  errors, one turn on a LevelDB store behind the client brings the flags in line with the pieces.
\<close>

theorem doctor_over_rpc:
  assumes msg: "\<forall>err. emsg (rpErr R err) = emsg err"
    and "ldbInv W view listing s" and "drIDFromAddress D maddr = Inr mid"
    and "drChainHead D = None" and "drGetClaims D maddr = Inr claims"
    and "svcNextPiecesToCheck (bdclient R (ldbService W)) s now maddr = (Inr ps, s1)"
    and "doctorIteration (bdclient R (ldbService W)) D maddr (Some lu) now s = (e, s')"
  shows "e = None \<and> ldbInv W view listing s' \<and>
    (\<forall>a q. ldbFlagged W view s' a q =
      (if a = maddr \<and> q \<in> set ps then
         verdict D maddr mid lu claims
           (case svcGetPieceMetadata (ldbService W) s q of Inl _ \<Rightarrow> None | Inr md \<Rightarrow> Some md)
           (svcIsIndexed (ldbService W) s q = Inr True) (ldbFlagged W view s maddr q)
       else ldbFlagged W view s a q))"
proof -
  have rpc: "rpc_service (ldbService W) (ldbInv W view listing) (ldbFlagged W view) R"
    using ldb.lid_service_axioms msg by (auto intro!: rpc_service.intro rpc_service_axioms.intro)
  from rpc_service.client_doctor [OF rpc assms(2-)] show ?thesis .
qed

text \<open>The witness runs one turn on a piece that is in the store but in no state that the sector list knows.\<close>

theorem doctor_over_rpc_witness:
  "\<exists>s'. ldbFlagged demoWorld map_of s' ''m'' ''p'' = Some False"
proof -
  let ?s = "(demo2, initChecker)" and ?c = "bdclient textRpc (ldbService demoWorld)"
  have inv: "ldbInv demoWorld map_of demoListing ?s" by (simp add: ldbInv_def demo_ok demo2_lid(1))
  have msg: "\<forall>err. emsg (rpErr textRpc err) = emsg err" by (simp add: textRpc_def)
  have md: "svcGetPieceMetadata (ldbService demoWorld) ?s ''p'' =
      Inr \<lparr>Version = ''1'', IndexedAt = 5, CompleteIndex = False, Deals = [demoDeal]\<rparr>"
    by (simp add: ldbService_def GetPieceMetadata_lid [OF demo_ok demo2_lid(1)] demo2_lid(2) Metadata.defs)
  obtain ps ck where c: "Store_NextPiecesToCheck demoWorld demo2 initChecker 0 ''m'' = (Inr ps, ck)"
    and p: "''p'' \<in> set ps"
    using scanCalls_demo2
    by (cases "Store_NextPiecesToCheck demoWorld demo2 initChecker 0 ''m''") (auto split: sum.splits)
  have n: "svcNextPiecesToCheck ?c ?s 0 ''m'' = (Inr ps, (demo2, ck))"
    using c by (simp add: bdclient_defs ldbService_def rpcRes_def)
  obtain e s' where it: "doctorIteration ?c demoDoctor ''m'' (Some demoLu) 0 ?s = (e, s')"
    by (rule prod.exhaust)
  have "ldbFlagged demoWorld map_of s' ''m'' ''p'' = Some False"
    using doctor_over_rpc [OF msg inv _ _ _ n it, of 1 "[]"] p
    by (simp add: demoDoctor_def md verdict_def demoDeal_def demoLu_def dealSector_def)
  then show ?thesis by blast
qed

section \<open>Adding and reading an index over the client\<close>

text \<open>
  C12: An index of distinct multihashes, sent through the client for a piece that a LevelDB store, reached by
  calls of the store, does not know yet, comes back through it: \<open>AddIndex\<close> reports success,
  whatever part of the progress arrives, and \<open>GetRecords\<close> returns one record per block with its offset
  and size, when the channel of records arrives whole. The CIDs do not come back as they were sent: each
  is the raw CIDv1 of the multihash of its block.
\<close>

theorem lid_client_roundtrip:
  assumes "world_ok W view listing" and "ldb_reachable W view s"
    and "lidPieces (lid_of W view s) p = None" and "lidNext (lid_of W view s) = Some n"
    and "distinct (map (\<lambda>r. cidHash W (Cid r)) records)"
    and part: "\<forall>ps. set (rpProgress R ps) \<subseteq> set ps" and whole: "\<forall>rs. rpRecords R rs = rs"
  shows "\<exists>s' out. bd_AddIndex R (ldbServer W) (s, ck) now p records full = (None, s') \<and>
    bd_GetRecords R (ldbServer W) s' p = Inr out \<and> length out = length records \<and>
    set out = (\<lambda>r. r\<lparr>Cid := cidNewV1Raw W (cidHash W (Cid r))\<rparr>) ` set records"
proof -
  obtain sent s' where a: "Store_AddIndex W s now p records full = (sent, s')" by (rule prod.exhaust)
  from ldb_reachable_inv [OF assms(1,2)] have wf: "wf_store W view s" by blast
  from Store_AddIndex_refines [OF assms(1) wf assms(4) a] have "\<forall>r\<in>set sent. Err r = []"
    by (auto simp: sendProgress_def)
  with part have "drainProgress R p (rpProgress R sent) = None" by (auto simp: drainProgress_None)
  with a have ad: "bd_AddIndex R (ldbServer W) (s, ck) now p records full = (None, (s', ck))"
    by (simp add: bd_AddIndex_def ldbServer_def)
  from GetIndex_after_add [OF assms(1-4) a assms(5)] obtain out where
    o: "Store_GetIndex W s' p = Ret out" "length out = length records"
      "set out = (\<lambda>r. r\<lparr>Cid := cidNewV1Raw W (cidHash W (Cid r))\<rparr>) ` set records" by blast
  from o(1) whole have "bd_GetRecords R (ldbServer W) (s', ck) p = Inr out"
    by (simp add: bd_GetRecords_def lsRecords_def ldbServer_def drainRecords_Inr)
  with ad o(2,3) show ?thesis by blast
qed

theorem lid_client_roundtrip_witness:
  "\<exists>s' out. bd_AddIndex textRpc (ldbServer demoWorld) (demo0, initChecker) 5 ''p'' [demoBlock] True = (None, s') \<and>
    bd_GetRecords textRpc (ldbServer demoWorld) s' ''p'' = Inr out \<and> length out = 1"
  using lid_client_roundtrip [OF demo_ok demo0_reachable, of "''p''" 100 "[demoBlock]" textRpc initChecker 5 True]
  by (simp add: demo0_lid textRpc_def) blast

text \<open>
  \<open>AddIndex\<close> of the client reports success exactly when no error arrived. A connection that is lost before the
  service fails closes the channel early, and the failure is reported as success.
\<close>

theorem lid_client_add_index_cut:
  "fst (bd_AddIndex R srv s now p records full) = None \<longleftrightarrow>
    (\<forall>r\<in>set (rpProgress R (fst (lsAddIndex srv s now p records full))). Err r = [])"
  by (simp add: bd_AddIndex_def drainProgress_None split: prod.split)

end
