(* ===== verification/Accessors.thy ===== *)
theory Accessors
  imports PieceDirProps GoStd
begin

text \<open>
  The accessor of several miners, \<open>lib/boost/cmd/lib/api.go\<close>, through which the piece directory reads
  pieces, and the versions of the node APIs, \<open>lib/boost/api/version.go\<close>. The RPC clients, the storage
  library and the sector accessors they give are the record \<open>apiEnv\<close>; a connection is a number.
\<close>

section \<open>version.go\<close>

type_synonym u32 = "32 word"

definition majorOnlyMask :: u32 where "majorOnlyMask = 0xff0000"
definition minorOnlyMask :: u32 where "minorOnlyMask = 0x00ff00"
definition patchOnlyMask :: u32 where "patchOnlyMask = 0x0000ff"
definition minorMask :: u32 where "minorMask = 0xffff00"

definition newVer :: "u8 \<Rightarrow> u8 \<Rightarrow> u8 \<Rightarrow> u32" where
  "newVer major minor patch = push_bit 16 (ucast major) OR push_bit 8 (ucast minor) OR ucast patch"

definition Version_Ints :: "u32 \<Rightarrow> u32 \<times> u32 \<times> u32" where
  "Version_Ints v = (drop_bit 16 (v AND majorOnlyMask), drop_bit 8 (v AND minorOnlyMask), v AND patchOnlyMask)"

definition Version_String :: "u32 \<Rightarrow> string" where
  "Version_String v =
     (case Version_Ints v of
        (vmj, vmi, vp) \<Rightarrow> show_nat (unat vmj) @ ''.'' @ show_nat (unat vmi) @ ''.'' @ show_nat (unat vp))"

definition EqMajorMinor :: "u32 \<Rightarrow> u32 \<Rightarrow> bool" where
  "EqMajorMinor v v2 \<longleftrightarrow> v AND minorMask = v2 AND minorMask"

lemma byte_high_bit: "8 \<le> n \<Longrightarrow> \<not> bit (w :: u8) n"
  by (auto dest: bit_imp_le_length)

lemma newVer_bit:
  "bit (newVer a b c) n \<longleftrightarrow>
    (if n < 8 then bit c n else if n < 16 then bit b (n - 8) else if n < 24 then bit a (n - 16) else False)"
  by (cases "n < 32") (auto simp: newVer_def bit_simps byte_high_bit dest: bit_imp_le_length)

lemma Version_Ints_newVer: "Version_Ints (newVer a b c) = (ucast a, ucast b, ucast c)"
proof -
  have m: "majorOnlyMask = push_bit 16 (mask 8)" "minorOnlyMask = push_bit 8 (mask 8)" "patchOnlyMask = mask 8"
    by (simp_all add: majorOnlyMask_def minorOnlyMask_def patchOnlyMask_def mask_eq_exp_minus_1 push_bit_eq_mult)
  show ?thesis
    unfolding Version_Ints_def m
    by (auto intro!: bit_word_eqI simp: bit_simps newVer_bit byte_high_bit; rule ccontr; simp add: byte_high_bit)
qed

lemma EqMajorMinor_newVer: "EqMajorMinor (newVer a b c) (newVer a' b' c') \<longleftrightarrow> a = a' \<and> b = b'"
proof -
  have m: "minorMask = push_bit 8 (mask 16)"
    by (simp add: minorMask_def mask_eq_exp_minus_1 push_bit_eq_mult)
  have bits: "bit (newVer a b c AND minorMask) n \<longleftrightarrow>
      (8 \<le> n \<and> n < 16 \<and> bit b (n - 8)) \<or> (16 \<le> n \<and> n < 24 \<and> bit a (n - 16))" for a b c n
    unfolding m by (auto simp: bit_simps newVer_bit byte_high_bit)
  have "a = a' \<and> b = b'" if eq: "newVer a b c AND minorMask = newVer a' b' c' AND minorMask"
  proof
    show "a = a'"
    proof (rule bit_word_eqI)
      fix n assume "n < LENGTH(8)"
      with arg_cong [OF eq, of "\<lambda>w. bit w (n + 16)"] show "bit a n = bit a' n" unfolding bits by simp
    qed
    show "b = b'"
    proof (rule bit_word_eqI)
      fix n assume "n < LENGTH(8)"
      with arg_cong [OF eq, of "\<lambda>w. bit w (n + 8)"] show "bit b n = bit b' n" unfolding bits by simp
    qed
  qed
  moreover have "newVer a b c AND minorMask = newVer a b c' AND minorMask"
    by (rule bit_word_eqI) (simp add: bits)
  ultimately show ?thesis unfolding EqMajorMinor_def by (metis bits bit_word_eqI)
qed

section \<open>The node APIs\<close>

text \<open>
  \<open>aeDialArgs\<close> and \<open>aeAuth\<close> are the address for a version of the API and the token of an endpoint
  (\<open>cliutil.ParseApiInfo\<close>); \<open>aeConnect n\<close> is the result of the \<open>n\<close>-th attempt to connect.
  \<open>aeAccessor\<close> is the sector accessor over a connection, a token and a miner.
\<close>

record 'r apiEnv =
  aeDialArgs :: "string \<Rightarrow> string \<Rightarrow> goerr + string"
  aeAuth :: "string \<Rightarrow> string"
  aeConnect :: "nat \<Rightarrow> string \<Rightarrow> string \<Rightarrow> goerr option"
  aeVersion :: "nat \<Rightarrow> goerr + u32"
  aeMinerAPIVersion0 :: u32
  aeFullAPIVersion1 :: u32
  aeActor :: "nat \<Rightarrow> goerr + address"
  aeLock :: "goerr option"
  aeSetStorage :: "goerr option"
  aeNewLocal :: "nat \<Rightarrow> goerr option"
  aeAccessor :: "nat \<Rightarrow> string \<Rightarrow> address \<Rightarrow> 'r sectorAccessor"

text \<open>The number of attempts made, the connections opened, and the closers called, in order.\<close>

record apiWorld =
  awAttempts :: nat
  awOpened :: "nat list"
  awClosed :: "nat list"

definition dial :: "'r apiEnv \<Rightarrow> string \<Rightarrow> string \<Rightarrow> apiWorld \<Rightarrow> (goerr + nat) \<times> apiWorld" where
  "dial E addr auth w =
     (let n = awAttempts w; w' = w\<lparr>awAttempts := Suc n\<rparr> in
      case aeConnect E n addr auth of
        Some err \<Rightarrow> (Inl err, w')
      | None \<Rightarrow> (Inr n, w'\<lparr>awOpened := awOpened w @ [n]\<rparr>))"

definition GetFullNodeApi :: "'r apiEnv \<Rightarrow> string \<Rightarrow> apiWorld \<Rightarrow> (goerr + nat) \<times> apiWorld" where
  "GetFullNodeApi E ai w =
     (let ai = trimPrefix (trimSpace ai) ''FULLNODE_API_INFO='' in
      case aeDialArgs E ai ''v1'' of
        Inl err \<Rightarrow> (Inl (errorf_w ''could not get DialArgs: '' err), w)
      | Inr addr \<Rightarrow>
          (case dial E addr (aeAuth E ai) w of
             (Inl err, w') \<Rightarrow> (Inl (errorf_w ''creating full node service API: '' err), w')
           | (Inr n, w') \<Rightarrow> (Inr n, w')))"

definition FullAPIVersion1 :: u32 where "FullAPIVersion1 = newVer 2 3 0"

definition CheckFullNodeApiVersion :: "'r apiEnv \<Rightarrow> nat \<Rightarrow> goerr option" where
  "CheckFullNodeApiVersion E fnapi =
     (case aeVersion E fnapi of
        Inl err \<Rightarrow> Some (errorf_w ''checking full node service API version: '' err)
      | Inr v \<Rightarrow>
          if \<not> EqMajorMinor v (aeFullAPIVersion1 E) then
            Some (errorf (''full node service API version didn't match (expected '' @ Version_String FullAPIVersion1 @
              '', remote '' @ Version_String v @ '')''))
          else None)"

definition GetMinerApi :: "'r apiEnv \<Rightarrow> string \<Rightarrow> apiWorld \<Rightarrow> (goerr + nat) \<times> apiWorld" where
  "GetMinerApi E ai w =
     (let ai = trimPrefix (trimSpace ai) ''MINER_API_INFO='' in
      case aeDialArgs E ai ''v0'' of
        Inl err \<Rightarrow> (Inl (errorf_w ''could not get DialArgs: '' err), w)
      | Inr addr \<Rightarrow>
          (case dial E addr (aeAuth E ai) w of
             (Inl err, w') \<Rightarrow> (Inl (errorf_w ''creating miner service API: '' err), w')
           | (Inr n, w') \<Rightarrow>
               (case aeVersion E n of
                  Inl err \<Rightarrow> (Inl (errorf_w ''checking miner service API version: '' err), w')
                | Inr v \<Rightarrow>
                    if \<not> EqMajorMinor v (aeMinerAPIVersion0 E) then
                      (Inl (errorf (''miner service API version didn't match (expected '' @
                         Version_String (aeMinerAPIVersion0 E) @ '', remote '' @ Version_String v @ '')'')), w')
                    else (Inr n, w'))))"

text \<open>The value of the header \<open>Authorization\<close>.\<close>

definition StorageAuthWithURL :: "string \<Rightarrow> goerr + string" where
  "StorageAuthWithURL apiInfo =
     (let s = splitOn (CHR '':'') apiInfo in
      if length s \<noteq> 2 then Inl (errorf ''unexpected format of `apiInfo`'')
      else Inr (''Bearer '' @ s ! 0))"

section \<open>The accessor\<close>

text \<open>Both maps of the code, \<open>readers\<close> and \<open>sas\<close>; a reader wraps the accessor.\<close>

record 'r mma =
  mmInfos :: "string list"
  mmReaders :: "address \<Rightarrow> 'r sectorAccessor option"
  mmSas :: "address \<Rightarrow> 'r sectorAccessor option"
  mmClosers :: "nat list"
  mmCloseOnce :: bool

definition NewMultiMinerAccessor :: "string list \<Rightarrow> 'r mma" where
  "NewMultiMinerAccessor storageApiInfos =
     \<lparr>mmInfos = storageApiInfos, mmReaders = Map.empty, mmSas = Map.empty, mmClosers = [], mmCloseOnce = False\<rparr>"

definition CreateSectorAccessor ::
  "'r apiEnv \<Rightarrow> string \<Rightarrow> apiWorld \<Rightarrow> (goerr + address \<times> 'r sectorAccessor \<times> nat) \<times> apiWorld" where
  "CreateSectorAccessor E storageApiInfo w =
     (case StorageAuthWithURL storageApiInfo of
        Inl err \<Rightarrow> (Inl (errorf_w ''parsing storage API endpoint: '' err), w)
      | Inr sauth \<Rightarrow>
          (case GetMinerApi E storageApiInfo w of
             (Inl err, w') \<Rightarrow> (Inl (errorf_w ''getting miner API: '' err), w')
           | (Inr n, w') \<Rightarrow>
               (case aeActor E n of
                  Inl err \<Rightarrow> (Inl (errorf_w ''getting miner actor address: '' err), w')
                | Inr maddr \<Rightarrow>
                    (case aeLock E of
                       Some err \<Rightarrow> (Inl (errorf_w ''locking mem repo: '' err), w')
                     | None \<Rightarrow>
                         (case aeSetStorage E of
                            Some err \<Rightarrow> (Inl (errorf_w ''set storage config: '' err), w')
                          | None \<Rightarrow>
                              (case aeNewLocal E n of
                                 Some err \<Rightarrow> (Inl (errorf_w ''creating new local store: '' err), w')
                               | None \<Rightarrow> (Inr (maddr, aeAccessor E n sauth maddr, n), w')))))))"

definition MM_Close :: "'r mma \<Rightarrow> apiWorld \<Rightarrow> 'r mma \<times> apiWorld" where
  "MM_Close a w =
     (if mmCloseOnce a then (a, w)
      else (a\<lparr>mmCloseOnce := True\<rparr>, w\<lparr>awClosed := awClosed w @ mmClosers a\<rparr>))"

fun startLoop :: "'r apiEnv \<Rightarrow> string list \<Rightarrow> 'r mma \<Rightarrow> apiWorld \<Rightarrow> goerr option \<times> 'r mma \<times> apiWorld" where
  "startLoop E [] a w = (None, a, w)"
| "startLoop E (apiInfo # infos) a w =
     (case CreateSectorAccessor E apiInfo w of
        (Inl err, w') \<Rightarrow>
          (Some (errorf_w (''creating sector accessor for endpoint '' @ [CHR 0x27] @ apiInfo @ [CHR 0x27] @ '': '') err), MM_Close a w')
      | (Inr (maddr, sa, closer), w') \<Rightarrow>
          startLoop E infos
            (a\<lparr>mmSas := (mmSas a)(maddr \<mapsto> sa), mmReaders := (mmReaders a)(maddr \<mapsto> sa),
               mmClosers := mmClosers a @ [closer]\<rparr>) w')"

definition MM_Start :: "'r apiEnv \<Rightarrow> 'r mma \<Rightarrow> apiWorld \<Rightarrow> goerr option \<times> 'r mma \<times> apiWorld" where
  "MM_Start E a w =
     startLoop E (mmInfos a) (a\<lparr>mmSas := Map.empty, mmReaders := Map.empty, mmClosers := []\<rparr>) w"

definition MM_GetReader ::
  "'r mma \<Rightarrow> (u64 \<Rightarrow> u64) \<Rightarrow> address \<Rightarrow> u64 \<Rightarrow> u64 \<Rightarrow> u64 \<Rightarrow> goerr + 'r" where
  "MM_GetReader a unpad minerAddr sid ofs len =
     (case mmReaders a minerAddr of
        None \<Rightarrow> Inl (errorf (''get reader: no endpoint registered for miner '' @ minerAddr))
      | Some pr \<Rightarrow> SA_GetReader pr unpad sid ofs len)"

definition MM_UnsealSectorAt ::
  "'r mma \<Rightarrow> address \<Rightarrow> u64 \<Rightarrow> u64 \<Rightarrow> u64 \<Rightarrow> goerr + 'r" where
  "MM_UnsealSectorAt a minerAddr sid ofs len =
     (case mmSas a minerAddr of
        None \<Rightarrow> Inl (errorf (''read sector: no endpoint registered for miner '' @ minerAddr))
      | Some sa \<Rightarrow> saUnsealSectorAt sa sid ofs len)"

definition MM_IsUnsealed ::
  "'r mma \<Rightarrow> address \<Rightarrow> u64 \<Rightarrow> u64 \<Rightarrow> u64 \<Rightarrow> goerr + bool" where
  "MM_IsUnsealed a minerAddr sid ofs len =
     (case mmSas a minerAddr of
        None \<Rightarrow> Inl (errorf (''is unsealed: no endpoint registered for miner '' @ minerAddr))
      | Some sa \<Rightarrow> saIsUnsealed sa sid ofs len)"

section \<open>Connections\<close>

lemma GetMinerApi_conns:
  assumes "GetMinerApi E ai w = (r, w')"
  shows "awClosed w' = awClosed w \<and> awAttempts w \<le> awAttempts w' \<and>
    (awOpened w' = awOpened w \<or> awOpened w' = awOpened w @ [awAttempts w] \<and> awAttempts w < awAttempts w') \<and>
    (\<forall>n. r = Inr n \<longrightarrow> n = awAttempts w \<and> awOpened w' = awOpened w @ [awAttempts w])"
  using assms
  by (auto simp: GetMinerApi_def dial_def Let_def split: sum.splits option.splits if_splits)

lemma CreateSectorAccessor_conns:
  assumes "CreateSectorAccessor E ai w = (r, w')"
  shows "awClosed w' = awClosed w \<and> awAttempts w \<le> awAttempts w' \<and>
    (awOpened w' = awOpened w \<or> awOpened w' = awOpened w @ [awAttempts w] \<and> awAttempts w < awAttempts w') \<and>
    (\<forall>m sa n. r = Inr (m, sa, n) \<longrightarrow> n = awAttempts w \<and> awOpened w' = awOpened w @ [awAttempts w])"
proof (cases "StorageAuthWithURL ai")
  case (Inl err)
  with assms show ?thesis by (auto simp: CreateSectorAccessor_def)
next
  case (Inr sauth)
  obtain r1 w1 where g: "GetMinerApi E ai w = (r1, w1)" by (rule prod.exhaust)
  from assms Inr g have "w' = w1" and "\<forall>m sa n. r = Inr (m, sa, n) \<longrightarrow> r1 = Inr n"
    by (auto simp: CreateSectorAccessor_def split: sum.splits option.splits)
  with GetMinerApi_conns [OF g] show ?thesis by auto
qed

lemma startLoop_conns:
  assumes "startLoop E infos a w = (e, a', w')" "\<not> mmCloseOnce a"
    and "mmClosers a = awOpened w" "awClosed w = []" "distinct (awOpened w)" "\<forall>n\<in>set (awOpened w). n < awAttempts w"
  shows "distinct (awOpened w') \<and>
    (e = None \<longrightarrow> mmClosers a' = awOpened w' \<and> awClosed w' = [] \<and> \<not> mmCloseOnce a') \<and>
    (e \<noteq> None \<longrightarrow> mmCloseOnce a' \<and> awClosed w' = mmClosers a' \<and>
       (\<exists>leak. length leak \<le> 1 \<and> awOpened w' = awClosed w' @ leak))"
  using assms
proof (induction infos arbitrary: a w)
  case (Cons info infos)
  obtain r w1 where c: "CreateSectorAccessor E info w = (r, w1)" by (rule prod.exhaust)
  note conns = CreateSectorAccessor_conns [OF c]
  have d: "distinct (awOpened w1)" "\<forall>n\<in>set (awOpened w1). n < awAttempts w1"
    using conns Cons.prems(5,6) by fastforce+
  show ?case
  proof (cases r)
    case (Inl err)
    with Cons.prems c conns d show ?thesis by (auto simp: MM_Close_def)
  next
    case (Inr x)
    then obtain m sa n where x: "r = Inr (m, sa, n)" by (cases x) auto
    let ?a = "a\<lparr>mmSas := (mmSas a)(m \<mapsto> sa), mmReaders := (mmReaders a)(m \<mapsto> sa), mmClosers := mmClosers a @ [n]\<rparr>"
    have "startLoop E infos ?a w1 = (e, a', w')" using Cons.prems(1) c x by simp
    from Cons.IH [OF this] show ?thesis using Cons.prems(2-4) conns d x by auto
  qed
qed auto

lemma startLoop_opened:
  "startLoop E infos a w = (e, a', w') \<Longrightarrow> set (awOpened w) \<subseteq> set (awOpened w')"
proof (induction infos arbitrary: a w)
  case (Cons info infos)
  obtain r w1 where c: "CreateSectorAccessor E info w = (r, w1)" by (rule prod.exhaust)
  have sub: "set (awOpened w) \<subseteq> set (awOpened w1)" using CreateSectorAccessor_conns [OF c] by auto
  show ?case
  proof (cases r)
    case (Inl err)
    with Cons.prems c sub show ?thesis by (auto simp: MM_Close_def split: if_splits)
  next
    case (Inr x)
    with Cons c sub show ?thesis by (cases x) fastforce
  qed
qed simp

text \<open>An accessor that an endpoint gives for a miner, over a connection among \<open>ns\<close>.\<close>

definition endpointFor :: "'r apiEnv \<Rightarrow> nat list \<Rightarrow> address \<Rightarrow> 'r sectorAccessor \<Rightarrow> string \<Rightarrow> bool" where
  "endpointFor E ns m sa info \<longleftrightarrow>
     (\<exists>n\<in>set ns. \<exists>token. aeActor E n = Inr m \<and> StorageAuthWithURL info = Inr token \<and> sa = aeAccessor E n token m)"

lemma endpointFor_mono: "endpointFor E ns m sa info \<Longrightarrow> set ns \<subseteq> set ns' \<Longrightarrow> endpointFor E ns' m sa info"
  unfolding endpointFor_def by blast

lemma CreateSectorAccessor_endpoint:
  assumes "CreateSectorAccessor E info w = (Inr (m, sa, n), w')"
  shows "endpointFor E (awOpened w') m sa info"
proof -
  have "n \<in> set (awOpened w')" using CreateSectorAccessor_conns [OF assms] by auto
  then show ?thesis
    using assms unfolding endpointFor_def
    by (intro bexI [of _ n]) (auto simp: CreateSectorAccessor_def split: sum.splits option.splits prod.splits)
qed

lemma startLoop_registered:
  assumes "startLoop E infos a w = (None, a', w')" "mmReaders a = mmSas a"
  shows "mmReaders a' = mmSas a' \<and> (\<forall>m. mmSas a m \<noteq> None \<longrightarrow> mmSas a' m \<noteq> None) \<and>
    (\<forall>m sa. mmSas a' m = Some sa \<longrightarrow> mmSas a m = Some sa \<or> (\<exists>info\<in>set infos. endpointFor E (awOpened w') m sa info)) \<and>
    (\<forall>info\<in>set infos. \<exists>m sa. endpointFor E (awOpened w') m sa info \<and> mmSas a' m \<noteq> None)"
  using assms
proof (induction infos arbitrary: a w)
  case (Cons info infos)
  obtain r w1 where c: "CreateSectorAccessor E info w = (r, w1)" by (rule prod.exhaust)
  with Cons.prems(1) obtain m sa n where r: "r = Inr (m, sa, n)"
    by (cases r) auto
  let ?a = "a\<lparr>mmSas := (mmSas a)(m \<mapsto> sa), mmReaders := (mmReaders a)(m \<mapsto> sa), mmClosers := mmClosers a @ [n]\<rparr>"
  have l: "startLoop E infos ?a w1 = (None, a', w')" using Cons.prems(1) c r by simp
  have e: "endpointFor E (awOpened w') m sa info"
    by (rule endpointFor_mono [OF CreateSectorAccessor_endpoint startLoop_opened [OF l]]) (use c r in simp)
  have "mmReaders ?a = mmSas ?a" using Cons.prems(2) by simp
  note ih = Cons.IH [OF l this]
  have reg: "mmSas a' x \<noteq> None" if "mmSas ?a x \<noteq> None" for x
    using ih that by blast
  show ?case
  proof (intro conjI allI ballI impI)
    show "mmReaders a' = mmSas a'" using ih by blast
    show "mmSas a' x \<noteq> None" if "mmSas a x \<noteq> None" for x using reg [of x] that by simp
    show "mmSas a x = Some sx \<or> (\<exists>i\<in>set (info # infos). endpointFor E (awOpened w') x sx i)"
      if "mmSas a' x = Some sx" for x sx
    proof -
      from ih that have "mmSas ?a x = Some sx \<or> (\<exists>i\<in>set infos. endpointFor E (awOpened w') x sx i)" by blast
      with e show ?thesis by (auto split: if_splits)
    qed
    show "\<exists>x sx. endpointFor E (awOpened w') x sx i \<and> mmSas a' x \<noteq> None" if "i \<in> set (info # infos)" for i
      using that ih e reg [of m] by auto
  qed
qed simp

text \<open>
  C19: Starting the accessor of several miners, from scratch: when it succeeds, readers and accessors agree, every
  one of them belongs to an endpoint, every endpoint has its miner registered, and closing it closes each
  connection once, however often it is closed. When an endpoint fails, the connections of the
  accessors before it are closed, and at most one is left open: that of the endpoint that failed.
\<close>

theorem multi_miner_start:
  assumes "awOpened w = []" "awClosed w = []"
    and "MM_Start E (NewMultiMinerAccessor infos) w = (e, a, w')"
  shows "(e = None \<longrightarrow>
      mmReaders a = mmSas a \<and>
      (\<forall>m sa. mmSas a m = Some sa \<longrightarrow> (\<exists>info\<in>set infos. endpointFor E (awOpened w') m sa info)) \<and>
      (\<forall>info\<in>set infos. \<exists>m sa. endpointFor E (awOpened w') m sa info \<and> mmSas a m \<noteq> None) \<and>
      awClosed (snd (MM_Close a w')) = awOpened w' \<and> distinct (awOpened w') \<and>
      (case MM_Close a w' of (a2, w2) \<Rightarrow> MM_Close a2 w2 = (a2, w2))) \<and>
    (e \<noteq> None \<longrightarrow> (\<exists>leak. length leak \<le> 1 \<and> awOpened w' = awClosed w' @ leak) \<and> MM_Close a w' = (a, w'))"
proof -
  let ?a = "NewMultiMinerAccessor infos"
  have l: "startLoop E infos (?a\<lparr>mmSas := Map.empty, mmReaders := Map.empty, mmClosers := []\<rparr>) w = (e, a, w')"
    using assms(3) by (simp add: MM_Start_def NewMultiMinerAccessor_def)
  have c: "distinct (awOpened w') \<and>
    (e = None \<longrightarrow> mmClosers a = awOpened w' \<and> awClosed w' = [] \<and> \<not> mmCloseOnce a) \<and>
    (e \<noteq> None \<longrightarrow> mmCloseOnce a \<and> awClosed w' = mmClosers a \<and>
       (\<exists>leak. length leak \<le> 1 \<and> awOpened w' = awClosed w' @ leak))"
    using startLoop_conns [OF l] assms(1,2) unfolding NewMultiMinerAccessor_def by fastforce
  show ?thesis
  proof (cases e)
    case None
    with l have "startLoop E infos (?a\<lparr>mmSas := Map.empty, mmReaders := Map.empty, mmClosers := []\<rparr>) w = (None, a, w')"
      by simp
    from startLoop_registered [OF this] have "mmReaders a = mmSas a"
      "\<forall>m sa. mmSas a m = Some sa \<longrightarrow> (\<exists>info\<in>set infos. endpointFor E (awOpened w') m sa info)"
      "\<forall>info\<in>set infos. \<exists>m sa. endpointFor E (awOpened w') m sa info \<and> mmSas a m \<noteq> None" by simp_all
    with c None show ?thesis by (auto simp: MM_Close_def)
  next
    case (Some err)
    with c show ?thesis by (auto simp: MM_Close_def)
  qed
qed

section \<open>Reading pieces through an accessor\<close>

text \<open>
  What the piece directory gets from its reader: a reader over a part of a sector only if it is \<open>backed\<close>.
\<close>

locale piece_reader =
  fixes E :: "('r, 'g) pdEnv"
    and backed :: "address \<Rightarrow> u64 \<Rightarrow> u64 \<Rightarrow> u64 \<Rightarrow> 'r \<Rightarrow> bool"
  assumes reader_backed: "getReader E m sid ofs len = Inr r \<Longrightarrow> backed m sid ofs len r"
begin

lemma piece_backed:
  assumes "PD_GetPieceReader svc E s p = Inr r"
  shows "\<exists>deals dl. svcGetPieceDeals svc s p = Inr deals \<and> dl \<in> set deals \<and>
    backed (MinerAddr dl) (SectorID dl) (PieceOffset dl) (PieceLength dl) r"
proof -
  from assms obtain deals where d: "svcGetPieceDeals svc s p = Inr deals" "readerLoop E 0 deals [] = Inr r"
    by (auto simp: PD_GetPieceReader_def PD_GetPieceDeals_def split: sum.splits if_splits)
  from readerLoop_Inr [THEN iffD1, OF d(2)] obtain dl where
    "dl \<in> set deals" "dealReader E dl = Inr r" by (metis in_set_conv_decomp)
  with d(1) reader_backed show ?thesis by blast
qed

end

text \<open>A reader of the accessor comes from the accessor registered for the miner, and from an unsealed copy.\<close>

definition mmBacked ::
  "'r mma \<Rightarrow> (u64 \<Rightarrow> u64) \<Rightarrow> address \<Rightarrow> u64 \<Rightarrow> u64 \<Rightarrow> u64 \<Rightarrow> 'r \<Rightarrow> bool" where
  "mmBacked a unpad m sid ofs len r \<longleftrightarrow>
     (\<exists>sa. mmReaders a m = Some sa \<and> saIsUnsealed sa sid (unpad ofs) (unpad len) = Inr True \<and>
        saUnsealSectorAt sa sid (unpad ofs) (unpad len) = Inr r)"

definition readsOver :: "'r mma \<Rightarrow> ('r, 'g) pdEnv \<Rightarrow> bool" where
  "readsOver a E \<longleftrightarrow> getReader E = MM_GetReader a (unpadded E)"

lemma MM_GetReader_backed: "MM_GetReader a unpad m sid ofs len = Inr r \<Longrightarrow> mmBacked a unpad m sid ofs len r"
  by (auto simp: MM_GetReader_def SA_GetReader_def mmBacked_def split: option.splits sum.splits if_splits)

interpretation mm_reader: piece_reader "E\<lparr>getReader := MM_GetReader a (unpadded E)\<rparr>" "mmBacked a (unpadded E)"
  for a :: "'r mma" and E :: "('r, 'g) pdEnv"
  by unfold_locales (simp add: MM_GetReader_backed)

text \<open>
  The reader \<open>r\<close> of a piece is over a sector of one of the piece's deals, and the accessor registered
  for the deal's miner reports the deal's part of that sector as unsealed.
\<close>

definition openedUnsealed ::
  "'s lidService \<Rightarrow> 'r mma \<Rightarrow> ('r, 'g) pdEnv \<Rightarrow> 's \<Rightarrow> cid \<Rightarrow> 'r \<Rightarrow> bool" where
  "openedUnsealed svc a E s p r \<longleftrightarrow>
     (\<exists>deals dl sa. svcGetPieceDeals svc s p = Inr deals \<and> dl \<in> set deals \<and> mmReaders a (MinerAddr dl) = Some sa \<and>
        saIsUnsealed sa (SectorID dl) (unpadded E (PieceOffset dl)) (unpadded E (PieceLength dl)) = Inr True \<and>
        saUnsealSectorAt sa (SectorID dl) (unpadded E (PieceOffset dl)) (unpadded E (PieceLength dl)) = Inr r)"

lemma readsOver_openedUnsealed:
  assumes "readsOver a E" "PD_GetPieceReader svc E s p = Inr r"
  shows "openedUnsealed svc a E s p r"
proof -
  have "E\<lparr>getReader := MM_GetReader a (unpadded E)\<rparr> = E"
    using assms(1) by (cases E) (simp add: readsOver_def)
  with mm_reader.piece_backed [where a = a and E = E and svc = svc and s = s and p = p and r = r] assms(2)
  obtain deals dl where "svcGetPieceDeals svc s p = Inr deals" "dl \<in> set deals"
    "mmBacked a (unpadded E) (MinerAddr dl) (SectorID dl) (PieceOffset dl) (PieceLength dl) r" by auto
  then show ?thesis unfolding openedUnsealed_def mmBacked_def by blast
qed

text \<open>
  C5: Whatever shared readers the cache holds, opened at the moments \<open>H\<close> over accessors of several
  miners, and whatever other callers do to the cache meanwhile, a block that the blockstore gives out is
  either the digest of an identity CID, and then only when the lookup of its pieces failed, or it was read
  at the recorded offset, with the multihash asked for, from a reader of a piece that the index lists for
  it. That reader was opened at one of the moments of \<open>H\<close>, possibly an earlier one, over a sector that
  its registered miner then reported as unsealed, under a deal of the piece; and what the call leaves in
  the cache comes from the same moments.
\<close>

theorem blocks_from_unsealed_copies:
  assumes "\<And>E' s'. (E', s') \<in> H \<Longrightarrow> \<exists>a. readsOver a E'" and "(E, s) \<in> H" and "sharedReach svc H cache"
    and "\<And>i cache. sharedReach svc H cache \<Longrightarrow> sharedReach svc H (cacheBefore (turns i) cache)"
    and "PD_BlockstoreGet svc E s turns c cache = (res, cache')"
  shows "sharedReach svc H cache' \<and>
    (\<forall>data. res = Ret data \<longrightarrow>
      (\<exists>err. svcPiecesContainingMultihash svc s (pdCidHash E c) = Inl err \<and> isIdentity E c = Inr (True, data)) \<or>
      (\<exists>ps p E' s' r os bufferSize readCid.
        svcPiecesContainingMultihash svc s (pdCidHash E c) = Inr ps \<and> p \<in> set ps \<and> (E', s') \<in> H \<and>
        (\<exists>a. readsOver a E' \<and> openedUnsealed svc a E' s' p r) \<and>
        svcGetOffsetSize svc s p (pdCidHash E c) = Ret os \<and>
        readNode E r (Offset os) bufferSize = Inr (readCid, data) \<and> pdCidHash E readCid = pdCidHash E c))"
proof -
  have "turnsKeep (sharedReach svc H) turns" using assms(4) by (simp add: turnsKeep_def)
  note read = blockstore_get_read [OF this assms(2,3,5)]
  show ?thesis
  proof (cases "\<exists>ps p data. svcPiecesContainingMultihash svc s (pdCidHash E c) = Inr ps \<and> p \<in> set ps \<and>
      res = Ret data \<and> blockRead svc H E s c p data")
    case True
    then obtain ps p data where p: "svcPiecesContainingMultihash svc s (pdCidHash E c) = Inr ps" "p \<in> set ps"
      "res = Ret data" "blockRead svc H E s c p data" by blast
    from p(4) obtain E' s' r os readCid n where b: "(E', s') \<in> H" "PD_GetPieceReader svc E' s' p = Inr r"
      "svcGetOffsetSize svc s p (pdCidHash E c) = Ret os" "readNode E r (Offset os) n = Inr (readCid, data)"
      "pdCidHash E readCid = pdCidHash E c" unfolding blockRead_def by (elim exE conjE)
    from assms(1) [OF b(1)] obtain a where a: "readsOver a E'" by (elim exE)
    note o = readsOver_openedUnsealed [OF a b(2)]
    show ?thesis
    proof (intro conjI allI impI disjI2)
      show "sharedReach svc H cache'" by (rule conjunct1 [OF read])
      fix data' assume "res = Ret data'"
      with p(3) have d: "data' = data" by simp
      show "\<exists>ps p E' s' r os bufferSize readCid.
        svcPiecesContainingMultihash svc s (pdCidHash E c) = Inr ps \<and> p \<in> set ps \<and> (E', s') \<in> H \<and>
        (\<exists>a. readsOver a E' \<and> openedUnsealed svc a E' s' p r) \<and>
        svcGetOffsetSize svc s p (pdCidHash E c) = Ret os \<and>
        readNode E r (Offset os) bufferSize = Inr (readCid, data') \<and> pdCidHash E readCid = pdCidHash E c"
        unfolding d by (intro exI conjI, rule p(1), rule p(2), rule b(1), rule a, rule o, rule b(3), rule b(4), rule b(5))
    qed
  next
    case False
    with read have "sharedReach svc H cache'" "\<And>data. res = Ret data \<Longrightarrow>
      \<exists>err. svcPiecesContainingMultihash svc s (pdCidHash E c) = Inl err \<and> isIdentity E c = Inr (True, data)"
      by fast+
    then show ?thesis by (intro conjI allI impI disjI1)
  qed
qed

section \<open>Concrete accessors\<close>

text \<open>Two endpoints, the second of which serves another version of the API.\<close>

definition demoApi :: "unit apiEnv" where
  "demoApi =
     \<lparr>aeDialArgs = (\<lambda>ai v. Inr ai), aeAuth = (\<lambda>ai. ai), aeConnect = (\<lambda>n addr auth. None),
      aeVersion = (\<lambda>n. Inr (if n = 0 then newVer 1 5 1 else newVer 1 6 0)), aeMinerAPIVersion0 = newVer 1 5 0,
      aeFullAPIVersion1 = newVer 2 3 0, aeActor = (\<lambda>n. Inr ''f01''), aeLock = None, aeSetStorage = None,
      aeNewLocal = (\<lambda>n. None),
      aeAccessor = (\<lambda>n token m. \<lparr>saIsUnsealed = (\<lambda>_ _ _. Inr True), saUnsealSectorAt = (\<lambda>_ _ _. Inr ())\<rparr>)\<rparr>"

theorem multi_miner_start_witness:
  "\<exists>err a. MM_Start demoApi (NewMultiMinerAccessor [''a:b'', ''c:d'']) \<lparr>awAttempts = 0, awOpened = [], awClosed = []\<rparr> =
      (Some err, a, \<lparr>awAttempts = 2, awOpened = [0, 1], awClosed = [0]\<rparr>) \<and>
    MM_Close a \<lparr>awAttempts = 2, awOpened = [0, 1], awClosed = [0]\<rparr> = (a, \<lparr>awAttempts = 2, awOpened = [0, 1], awClosed = [0]\<rparr>)"
proof -
  let ?w = "\<lparr>awAttempts = 0, awOpened = [], awClosed = []\<rparr>"
  let ?infos = "[''a:b'', ''c:d'']"
  have "\<exists>err a. MM_Start demoApi (NewMultiMinerAccessor ?infos) ?w =
      (Some err, a, \<lparr>awAttempts = 2, awOpened = [0, 1], awClosed = [0]\<rparr>)"
    by (simp add: MM_Start_def NewMultiMinerAccessor_def CreateSectorAccessor_def StorageAuthWithURL_def GetMinerApi_def
        dial_def demoApi_def trimSpace_def isSpace_def trimPrefix_def EqMajorMinor_newVer MM_Close_def Let_def)
  then obtain err a where s: "MM_Start demoApi (NewMultiMinerAccessor ?infos) ?w =
      (Some err, a, \<lparr>awAttempts = 2, awOpened = [0, 1], awClosed = [0]\<rparr>)" by blast
  with multi_miner_start [OF _ _ s] show ?thesis by simp
qed

definition demoMm :: "unit mma" where
  "demoMm =
     (let sa = \<lparr>saIsUnsealed = (\<lambda>_ _ _. Inr True), saUnsealSectorAt = (\<lambda>_ _ _. Inr ())\<rparr> in
      \<lparr>mmInfos = [], mmReaders = (\<lambda>m. Some sa), mmSas = (\<lambda>m. Some sa), mmClosers = [], mmCloseOnce = False\<rparr>)"

theorem blocks_from_unsealed_copies_witness:
  "let E = demoPd\<lparr>getReader := MM_GetReader demoMm (unpadded demoPd)\<rparr> in
   \<exists>a. readsOver a E \<and> openedUnsealed (ldbService demoWorld) a E (demo2, initChecker) ''p'' ()"
proof -
  let ?svc = "ldbService demoWorld" and ?s = "(demo2, initChecker)"
  let ?E = "demoPd\<lparr>getReader := MM_GetReader demoMm (unpadded demoPd)\<rparr>"
  let ?H = "{(?E, ?s)}"
  have h: "pdCidHash ?E ''blk'' = ''blk''" by (simp add: demoPd_def)
  have ps: "svcPiecesContainingMultihash ?svc ?s (pdCidHash ?E ''blk'') = Inr [''p'']"
    unfolding h by (simp add: ldbService_def PiecesContaining_lid [OF demo_ok demo2_lid(1)] demo2_lid(4))
  have rd: "PD_GetPieceReader ?svc ?E ?s ''p'' = Inr ()"
    by (simp add: PD_GetPieceReader_def PD_GetPieceDeals_def ldbService_def demoMm_def MM_GetReader_def SA_GetReader_def Let_def
        GetPieceDeals_lid [OF demo_ok demo2_lid(1)] demo2_lid(2))
  have "svcGetOffsetSize ?svc ?s ''p'' ''blk'' = Ret \<lparr>Offset = 7, Size = 300\<rparr>"
    by (simp add: ldbService_def GetOffsetSize_lid [OF demo_ok demo2_lid(1)] demo2_lid(2,3))
  then have "blockFromPiece ?svc ?E ?s ''blk'' \<lparr>cacheBefore = (\<lambda>cache. cache), turnCtx = None\<rparr> ''p'' Map.empty =
      (Ret ''abc'', [''p'' \<mapsto> Inr ()])"
    by (simp add: blockFromPiece_def PD_GetSharedPieceReader_def rd Let_def h) (simp add: demoPd_def)
  with ps have get: "PD_BlockstoreGet ?svc ?E ?s calmTurns ''blk'' Map.empty = (Ret ''abc'', [''p'' \<mapsto> Inr ()])"
    by (simp add: PD_BlockstoreGet_def)
  have over: "readsOver demoMm ?E" by (simp add: readsOver_def)
  have keep: "sharedReach ?svc ?H cache \<Longrightarrow> sharedReach ?svc ?H (cacheBefore (calmTurns i) cache)" for i cache
    by simp
  have "\<exists>a. readsOver a E'" if "(E', s') \<in> ?H" for E' s' using that over by auto
  from blocks_from_unsealed_copies [OF this _ sharedReach.start keep get] ps
  show ?thesis by auto
qed

end
