(* ===== verification/CassMigrate.thy ===== *)
theory CassMigrate
  imports Prelude "HOL-Library.List_Lexorder" "HOL-Library.Char_ord"
begin

text \<open>
  The migrations of the Cassandra database, \<open>lib/boostd-data/yugabyte/cassmigrate/migrate.go\<close>: a
  migration is a named function on the database, an opaque state, and its statements are the record
  \<open>cassDb\<close>. \<open>sort.Strings\<close> is the lexicographic order of the bytes.
\<close>

record 's cassDb =
  cdCreate :: "'s \<Rightarrow> goerr option \<times> 's"
  cdNames :: "'s \<Rightarrow> string list \<times> goerr option"
  cdInsert :: "string \<Rightarrow> 's \<Rightarrow> goerr option \<times> 's"

type_synonym 's migration = "string \<times> ('s \<Rightarrow> goerr option \<times> 's)"

definition writeComplete :: "'s cassDb \<Rightarrow> string \<Rightarrow> 's \<Rightarrow> goerr option \<times> 's" where
  "writeComplete D migName s =
     (case cdInsert D migName s of
        (Some err, s') \<Rightarrow> (Some (errorf_w ''writing migration completion: '' err), s')
      | (None, s') \<Rightarrow> (None, s'))"

definition mismatch :: "nat \<Rightarrow> string \<Rightarrow> string \<Rightarrow> goerr" where
  "mismatch i want got =
     errorf (''migrations order mismatch with db: at position '' @ show_nat i @ '' expected '' @ want @ '' but got '' @ got)"

fun migrateLoop :: "'s cassDb \<Rightarrow> string list \<Rightarrow> nat \<Rightarrow> 's migration list \<Rightarrow> 's \<Rightarrow> goerr option \<times> 's" where
  "migrateLoop D applied i [] s = (None, s)"
| "migrateLoop D applied i ((migName, mfn) # migs) s =
     (if i < length applied then
        (if migName \<noteq> applied ! i then (Some (mismatch i (applied ! i) migName), s)
         else migrateLoop D applied (Suc i) migs s)
      else case mfn s of
          (Some err, s') \<Rightarrow> (Some (errorf_s (''running migration '' @ migName @ '': '') err), s')
        | (None, s') \<Rightarrow>
            (case writeComplete D migName s' of
               (Some err, s'') \<Rightarrow> (Some err, s'')
             | (None, s'') \<Rightarrow> migrateLoop D applied (Suc i) migs s''))"

definition executeMigrations :: "'s cassDb \<Rightarrow> 's migration list \<Rightarrow> string list \<Rightarrow> 's \<Rightarrow> goerr option \<times> 's" where
  "executeMigrations D migs appliedMigrations s = migrateLoop D (sort appliedMigrations) 0 migs s"

definition cassMigrate :: "'s cassDb \<Rightarrow> 's migration list \<Rightarrow> 's \<Rightarrow> goerr option \<times> 's" where
  "cassMigrate D migs s =
     (case cdCreate D s of
        (Some err, s1) \<Rightarrow> (Some (errorf_w ''creating migration_version table: '' err), s1)
      | (None, s1) \<Rightarrow>
          (case cdNames D s1 of
             (_, Some err) \<Rightarrow> (Some (errorf_w ''getting migrations from migration_version: '' err), s1)
           | (appliedMigrations, None) \<Rightarrow> executeMigrations D migs appliedMigrations s1))"

section \<open>The table of completed migrations\<close>

text \<open>
  What the migrations rely on: \<open>completed s\<close> is the set of names in the table. Creating a table that is there
  and the migrations themselves leave it alone, the select lists it, each name once, and an insert adds
  its name or fails and adds nothing.
\<close>

definition cassTable :: "'s cassDb \<Rightarrow> 's migration list \<Rightarrow> ('s \<Rightarrow> string set) \<Rightarrow> bool" where
  "cassTable D migs completed \<longleftrightarrow>
     (\<forall>s e s'. cdCreate D s = (e, s') \<longrightarrow> completed s' = completed s) \<and>
     (\<forall>s ns. cdNames D s = (ns, None) \<longrightarrow> set ns = completed s \<and> distinct ns) \<and>
     (\<forall>n s e s'. cdInsert D n s = (e, s') \<longrightarrow> completed s' = (if e = None then insert n (completed s) else completed s)) \<and>
     (\<forall>n f s e s'. (n, f) \<in> set migs \<longrightarrow> f s = (e, s') \<longrightarrow> completed s' = completed s)"

lemma cassTable_parts:
  assumes "cassTable D migs completed"
  shows "\<forall>s e s'. cdCreate D s = (e, s') \<longrightarrow> completed s' = completed s"
    and "\<forall>s ns. cdNames D s = (ns, None) \<longrightarrow> set ns = completed s \<and> distinct ns"
    and "\<forall>n s e s'. cdInsert D n s = (e, s') \<longrightarrow> completed s' = (if e = None then insert n (completed s) else completed s)"
    and "\<forall>n f s e s'. (n, f) \<in> set migs \<longrightarrow> f s = (e, s') \<longrightarrow> completed s' = completed s"
  using assms unfolding cassTable_def by - (elim conjE, assumption)+

lemmas cassTableD = cassTable_parts [rule_format]

section \<open>The loop\<close>

lemma migrateLoop_skip:
  assumes "\<forall>j<length migs. fst (migs ! j) = applied ! (i + j)" "i + length migs \<le> length applied"
  shows "migrateLoop D applied i (migs @ rest) s = migrateLoop D applied (i + length migs) rest s"
  using assms
proof (induction migs arbitrary: i)
  case (Cons m migs)
  have "\<forall>j<length migs. fst (migs ! j) = applied ! (Suc i + j)"
  proof (intro allI impI)
    fix j assume "j < length migs"
    then show "fst (migs ! j) = applied ! (Suc i + j)" using Cons.prems(1) [rule_format, of "Suc j"] by simp
  qed
  from Cons.IH [OF this] Cons.prems have
    "migrateLoop D applied (Suc i) (migs @ rest) s = migrateLoop D applied (Suc i + length migs) rest s" by simp
  moreover have "fst m = applied ! i" using Cons.prems(1) [rule_format, of 0] by simp
  ultimately show ?case using Cons.prems(2) by (cases m) simp
qed simp

lemma migrateLoop_bad:
  assumes "j < length migs" "i + j < length applied" "fst (migs ! j) \<noteq> applied ! (i + j)"
  shows "\<exists>err. migrateLoop D applied i migs s = (Some err, s)"
  using assms
proof (induction migs arbitrary: i j)
  case (Cons m migs)
  show ?case
  proof (cases "fst m = applied ! i")
    case True
    with Cons.prems(3) obtain k where k: "j = Suc k" by (cases j) auto
    with Cons.IH [of k "Suc i"] Cons.prems True show ?thesis by (cases m) auto
  next
    case False
    with Cons.prems(2) show ?thesis by (cases m) auto
  qed
qed simp

text \<open>
  What running migrations means: each function is run on the state that the one before has left, and its
  name is recorded after it. \<open>stopsAt\<close> is the end of a run with \<open>migs\<close> still to do: there are none, or the first of
  them has failed, or it has run and could not be recorded.
\<close>

fun runRecorded :: "'s cassDb \<Rightarrow> 's migration list \<Rightarrow> 's \<Rightarrow> 's option" where
  "runRecorded D [] s = Some s"
| "runRecorded D ((n, f) # migs) s =
     (case f s of
        (Some err, s1) \<Rightarrow> None
      | (None, s1) \<Rightarrow> (case cdInsert D n s1 of (Some err, s2) \<Rightarrow> None | (None, s2) \<Rightarrow> runRecorded D migs s2))"

definition stopsAt :: "'s cassDb \<Rightarrow> 's migration list \<Rightarrow> 's \<Rightarrow> goerr option \<Rightarrow> 's \<Rightarrow> bool" where
  "stopsAt D migs s e s' \<longleftrightarrow>
     (case migs of
        [] \<Rightarrow> e = None \<and> s' = s
      | (n, f) # rest \<Rightarrow> e \<noteq> None \<and>
          (case f s of (Some err, s1) \<Rightarrow> s' = s1 | (None, s1) \<Rightarrow> \<exists>err. cdInsert D n s1 = (Some err, s')))"

lemma migrateLoop_run:
  assumes "cassTable D all completed" "set migs \<subseteq> set all" "length applied \<le> i"
    and "migrateLoop D applied i migs s = (e, s')"
  shows "\<exists>k s1. k \<le> length migs \<and> completed s' = completed s \<union> fst ` set (take k migs) \<and>
    runRecorded D (take k migs) s = Some s1 \<and> stopsAt D (drop k migs) s1 e s'"
  using assms(2-)
proof (induction migs arbitrary: i s)
  case Nil
  then show ?case by (simp add: stopsAt_def)
next
  case (Cons m migs)
  obtain n f where m: "m = (n, f)" by (rule prod.exhaust)
  obtain e1 s1 where f: "f s = (e1, s1)" by (rule prod.exhaust)
  have c1: "completed s1 = completed s"
    using cassTableD(4) [OF assms(1), of n f s e1 s1] f Cons.prems(1) m by auto
  show ?case
  proof (cases e1)
    case (Some err)
    with Cons.prems(2,3) m f have "e \<noteq> None" "s' = s1" by auto
    with c1 m f Some show ?thesis by (intro exI [of _ 0] exI [of _ s]) (auto simp: stopsAt_def)
  next
    case None
    obtain e2 s2 where w: "cdInsert D n s1 = (e2, s2)" by (rule prod.exhaust)
    have c2: "completed s2 = (if e2 = None then insert n (completed s) else completed s)"
      using cassTableD(3) [OF assms(1) w] c1 by simp
    show ?thesis
    proof (cases e2)
      case (Some err)
      with None Cons.prems(2,3) m f w have "e \<noteq> None" "s' = s2" by (auto simp: writeComplete_def)
      with c2 Some None m f w show ?thesis by (intro exI [of _ 0] exI [of _ s]) (auto simp: stopsAt_def)
    next
      case e2: None
      with None Cons.prems(2,3) m f w have "migrateLoop D applied (Suc i) migs s2 = (e, s')"
        by (auto simp: writeComplete_def)
      with Cons.IH [of "Suc i" s2] Cons.prems(1,2) obtain k s3 where
        "k \<le> length migs" "completed s' = completed s2 \<union> fst ` set (take k migs)"
        "runRecorded D (take k migs) s2 = Some s3" "stopsAt D (drop k migs) s3 e s'" by auto
      with c2 e2 None m f w show ?thesis by (intro exI [of _ "Suc k"] exI [of _ s3]) auto
    qed
  qed
qed

lemma sort_names:
  assumes "sorted xs" "distinct xs" "set ns = set xs" "distinct ns"
  shows "sort ns = (xs :: string list)"
  by (rule sorted_distinct_set_unique) (use assms in simp_all)

text \<open>
  When the names of the migrations are in strictly increasing order and the first \<open>k\<close> of them are
  complete, a migration goes on from there.
\<close>

lemma cassMigrate_resumes:
  assumes "cassTable D migs completed" "cassMigrate D migs s = (e, s')"
    and "sorted (map fst migs)" "distinct (map fst migs)"
    and "k \<le> length migs" "completed s = set (take k (map fst migs))" and e0: "cassMigrate D [] s = (e0, s0)"
  shows "completed s0 = completed s \<and>
    (if e0 \<noteq> None then e = e0 \<and> s' = s0
     else \<exists>k' s1. k \<le> k' \<and> k' \<le> length migs \<and> completed s' = set (take k' (map fst migs)) \<and>
       runRecorded D (take (k' - k) (drop k migs)) s0 = Some s1 \<and> stopsAt D (drop k' migs) s1 e s')"
proof -
  obtain e1 s1 where c: "cdCreate D s = (e1, s1)" by (rule prod.exhaust)
  have c1: "completed s1 = set (take k (map fst migs))"
    using cassTableD(1) [OF assms(1) c] assms(6) by simp
  obtain ns e2 where n: "cdNames D s1 = (ns, e2)" by (rule prod.exhaust)
  show ?thesis
  proof (cases "e1 = None \<and> e2 = None")
    case False
    then have "e \<noteq> None \<and> e = e0 \<and> s' = s1 \<and> s0 = s1" using assms(2) c n e0
      by (auto simp: cassMigrate_def split: option.splits)
    with c1 assms(6) show ?thesis by auto
  next
    case True
    with assms(2) c n have ex: "executeMigrations D migs ns s1 = (e, s')" by (simp add: cassMigrate_def)
    have s0: "e0 = None" "s0 = s1" using e0 c n True by (simp_all add: cassMigrate_def executeMigrations_def)
    have ns: "set ns = completed s1" "distinct ns" using cassTableD(2) [OF assms(1)] n True by auto
    have st: "sort ns = take k (map fst migs)"
      by (rule sort_names) (use assms(3,4) c1 ns in \<open>simp_all add: sorted_wrt_take distinct_take\<close>)
    have len: "length (take k (map fst migs)) = k" using assms(5) by simp
    have "migrateLoop D (sort ns) 0 (take k migs @ drop k migs) s1 = migrateLoop D (sort ns) (0 + length (take k migs)) (drop k migs) s1"
      by (rule migrateLoop_skip) (use assms(5) st in simp_all)
    with ex assms(5) have "migrateLoop D (sort ns) k (drop k migs) s1 = (e, s')"
      by (simp add: executeMigrations_def)
    from migrateLoop_run [OF assms(1) set_drop_subset _ this] st len obtain j t where
      j: "j \<le> length migs - k" "completed s' = completed s1 \<union> fst ` set (take j (drop k migs))"
        "runRecorded D (take j (drop k migs)) s1 = Some t" "stopsAt D (drop j (drop k migs)) t e s'" by auto
    have "take (k + j) (map fst migs) = take k (map fst migs) @ map fst (take j (drop k migs))"
      by (simp add: take_add take_map drop_map)
    with j(2) c1 have "completed s' = set (take (k + j) (map fst migs))" by simp
    moreover have "drop (k + j) migs = drop j (drop k migs)" by (simp add: add.commute)
    ultimately have "\<exists>k' t. k \<le> k' \<and> k' \<le> length migs \<and> completed s' = set (take k' (map fst migs)) \<and>
        runRecorded D (take (k' - k) (drop k migs)) s1 = Some t \<and> stopsAt D (drop k' migs) t e s'"
      using j assms(5) by (intro exI [of _ "k + j"] exI [of _ t]) (simp del: drop_drop)
    with s0 c1 assms(6) show ?thesis by simp
  qed
qed

text \<open>
  When every migration is complete, migrating again succeeds without running any exactly when the
  names are in increasing order: names out of order are taken for another history.
\<close>

theorem cass_migrate_again:
  assumes "cassTable D migs completed" "cdCreate D s = (None, s1)" "cdNames D s1 = (ns, None)"
    and "distinct (map fst migs)" "completed s = set (map fst migs)"
  shows "(cassMigrate D migs s = (None, s1) \<longleftrightarrow> sorted (map fst migs)) \<and>
    (\<not> sorted (map fst migs) \<longrightarrow> (\<exists>err. cassMigrate D migs s = (Some err, s1)))"
proof -
  have "completed s1 = set (map fst migs)" using cassTableD(1) [OF assms(1,2)] assms(5) by simp
  then have ns: "set ns = set (map fst migs)" "distinct ns"
    using cassTableD(2) [OF assms(1,3)] by auto
  have len: "length (sort ns) = length migs"
    using ns assms(4) by (metis distinct_card length_map length_sort)
  have m: "cassMigrate D migs s = migrateLoop D (sort ns) 0 migs s1"
    using assms(2,3) by (simp add: cassMigrate_def executeMigrations_def)
  show ?thesis
  proof (cases "sorted (map fst migs)")
    case True
    have "sort ns = map fst migs" by (rule sort_names [OF True assms(4) ns])
    then have "migrateLoop D (sort ns) 0 (migs @ []) s1 = migrateLoop D (sort ns) (0 + length migs) [] s1"
      by (intro migrateLoop_skip) auto
    with True m show ?thesis by simp
  next
    case False
    then have "map fst migs \<noteq> sort ns" by auto
    then obtain j where "j < length migs" "fst (migs ! j) \<noteq> sort ns ! j"
      using len by (auto simp: list_eq_iff_nth_eq)
    with migrateLoop_bad [of j migs 0 "sort ns" D s1] len obtain err where
      "migrateLoop D (sort ns) 0 migs s1 = (Some err, s1)" by auto
    with m False show ?thesis by simp
  qed
qed

section \<open>A concrete database\<close>

text \<open>The state is the list of completed names; the second migration fails.\<close>

definition demoCass :: "string list cassDb" where
  "demoCass = \<lparr>cdCreate = (\<lambda>s. (None, s)), cdNames = (\<lambda>s. (s, if distinct s then None else Some (errorf ''duplicate''))),
     cdInsert = (\<lambda>n s. (None, n # s))\<rparr>"

definition demoMigs :: "string list migration list" where
  "demoMigs = [(''a1'', \<lambda>s. (None, s)), (''a2'', \<lambda>s. (Some (errorf ''no''), s))]"

lemma demoCass_table: "cassTable demoCass migs (\<lambda>s. set s)"
  if "\<forall>m\<in>set migs. \<forall>s. snd (snd m s) = s" for migs
proof -
  have keeps: "s' = s" if "(n, f) \<in> set migs" "f s = (e, s')" for n f s e s'
    using \<open>\<forall>m\<in>set migs. \<forall>s. snd (snd m s) = s\<close> that by (metis snd_conv)
  then show ?thesis by (auto simp: cassTable_def demoCass_def split: if_splits dest!: keeps)
qed

theorem cass_migrate_again_witness:
  "\<exists>err. cassMigrate demoCass [(''b'', \<lambda>s. (None, s)), (''a'', \<lambda>s. (None, s))] [''a'', ''b''] = (Some err, [''a'', ''b''])"
proof -
  have t: "cassTable demoCass [(''b'', \<lambda>s. (None, s)), (''a'', \<lambda>s. (None, s))] (\<lambda>s. set s)"
    by (rule demoCass_table) auto
  have "cdCreate demoCass [''a'', ''b''] = (None, [''a'', ''b''])" "cdNames demoCass [''a'', ''b''] = ([''a'', ''b''], None)"
    by (simp_all add: demoCass_def)
  from cass_migrate_again [OF t this] show ?thesis by (auto simp: less_eq_char_def)
qed

end
