(* ===== verification/YbSetup.thy ===== *)
theory YbSetup
  imports CassMigrate GoStd
begin

text \<open>
  Starting the YugabyteDB store and migrating its databases: \<open>yugabyte/setup.go\<close>, \<open>yugabyte/migrator.go\<close>,
  \<open>Store.Start\<close> of \<open>yugabyte/service.go\<close> and \<open>yugabyte/migrations/migrations.go\<close>. The drivers, the migration
  tool and the URL parser are the record \<open>ybNet\<close> over an opaque state; sessions, pools and databases are
  numbers, a parsed URL is of type \<open>'u\<close> and its query a map.
\<close>

record ('s, 'u) ybNet =
  ynSession :: "string list \<Rightarrow> nat \<Rightarrow> string \<Rightarrow> 's \<Rightarrow> (goerr + nat) \<times> 's"
  ynCql :: "nat \<Rightarrow> string \<Rightarrow> 's \<Rightarrow> goerr option \<times> 's"
  ynPool :: "string \<Rightarrow> 's \<Rightarrow> (goerr + nat) \<times> 's"
  ynSqlOpen :: "string \<Rightarrow> 's \<Rightarrow> goerr + nat"
  ynCountTracker :: "nat \<Rightarrow> 's \<Rightarrow> goerr + int"
  ynSetDialect :: "string \<Rightarrow> goerr option"
  ynVersion :: "nat \<Rightarrow> 's \<Rightarrow> goerr + int"
  ynUp :: "nat \<Rightarrow> address \<Rightarrow> bool \<Rightarrow> 's \<Rightarrow> goerr option \<times> 's"
  ynUrlParse :: "string \<Rightarrow> goerr + 'u"
  ynUrlQuery :: "'u \<Rightarrow> string \<Rightarrow> string list option"
  ynUrlSetQuery :: "'u \<Rightarrow> (string \<Rightarrow> string list option) \<Rightarrow> 'u"
  ynUrlString :: "'u \<Rightarrow> string"
  ynCass :: "nat \<Rightarrow> 's cassDb"

record ybConn =
  ycHosts :: "string list"
  ycConnectString :: string
  ycCQLTimeout :: nat

definition defaultKeyspace :: string where "defaultKeyspace = ''idx''"

section \<open>setup.go\<close>

definition scriptBlanks :: "char set" where
  "scriptBlanks = {CHR 0x0A, CHR '' '', CHR 0x09}"

fun execLines :: "string list \<Rightarrow> (string \<Rightarrow> 's \<Rightarrow> goerr option \<times> 's) \<Rightarrow> 's \<Rightarrow> goerr option \<times> 's" where
  "execLines [] exec s = (None, s)"
| "execLines (line # lines) exec s =
     (let line = trimSet scriptBlanks line in
      if line = [] then execLines lines exec s
      else case exec line s of
          (Some err, s') \<Rightarrow> (Some (errorf_w (''executing'' @ [CHR 0x0A] @ line @ [CHR 0x0A]) err), s')
        | (None, s') \<Rightarrow> execLines lines exec s')"

definition execScript :: "string \<Rightarrow> (string \<Rightarrow> 's \<Rightarrow> goerr option \<times> 's) \<Rightarrow> 's \<Rightarrow> goerr option \<times> 's" where
  "execScript cqlstr exec s = execLines (splitOn (CHR '';'') cqlstr) exec s"

text \<open>The store; \<open>ysOnce\<close> is \<open>startOnce\<close>. The migrator of the store is never used.\<close>

record ybStore =
  ysSettings :: ybConn
  ysKeyspace :: string
  ysSession :: "nat option"
  ysDb :: "nat option"
  ysOnce :: bool

definition newYbStore :: "ybConn \<Rightarrow> string option \<Rightarrow> ybStore" where
  "newYbStore settings ks =
     \<lparr>ysSettings = settings, ysKeyspace = (case ks of None \<Rightarrow> defaultKeyspace | Some k \<Rightarrow> k),
      ysSession = None, ysDb = None, ysOnce = False\<rparr>"

text \<open>The cluster built here has the default keyspace of the driver, none.\<close>

definition Yb_CreateKeyspace :: "('s, 'u) ybNet \<Rightarrow> ybStore \<Rightarrow> 's \<Rightarrow> goerr option \<times> 's" where
  "Yb_CreateKeyspace N st s =
     (case ynSession N (ycHosts (ysSettings st)) (ycCQLTimeout (ysSettings st)) [] s of
        (Inl err, s1) \<Rightarrow> (Some (errorf_w ''creating yugabyte cluster: '' err), s1)
      | (Inr session, s1) \<Rightarrow>
          ynCql N session (''CREATE KEYSPACE IF NOT EXISTS '' @ ysKeyspace st @
            '' WITH REPLICATION = { 'class' : 'SimpleStrategy', 'replication_factor' : 1 }'') s1)"

definition Yb_execCQL :: "('s, 'u) ybNet \<Rightarrow> ybStore \<Rightarrow> string \<Rightarrow> 's \<Rightarrow> (goerr option \<times> 's) outcome" where
  "Yb_execCQL N st qry s = (case ysSession st of None \<Rightarrow> Panic | Some session \<Rightarrow> Ret (ynCql N session qry s))"

section \<open>service.go: Start\<close>

definition ybStartBody :: "('s, 'u) ybNet \<Rightarrow> ybStore \<Rightarrow> 's \<Rightarrow> goerr option \<times> ybStore \<times> 's" where
  "ybStartBody N st s =
     (case Yb_CreateKeyspace N st s of
        (Some err, s1) \<Rightarrow> (Some (errorf_w (''creating cassandra keyspace '' @ ysKeyspace st @ '': '') err), st, s1)
      | (None, s1) \<Rightarrow>
          (case ynSession N (ycHosts (ysSettings st)) (ycCQLTimeout (ysSettings st)) (ysKeyspace st) s1 of
             (Inl err, s2) \<Rightarrow> (Some (errorf_w ''creating yugabyte cluster: '' err), st, s2)
           | (Inr session, s2) \<Rightarrow>
               (let st = st\<lparr>ysSession := Some session\<rparr> in
                case ynPool N (ycConnectString (ysSettings st)) s2 of
                  (Inl err, s3) \<Rightarrow> (Some (errorf_w ''connecting to database: '' err), st, s3)
                | (Inr db, s3) \<Rightarrow> (None, st\<lparr>ysDb := Some db\<rparr>, s3))))"

text \<open>\<open>startErr\<close> is a variable of the call: the calls after the first do not run the body.\<close>

definition Yb_Start :: "('s, 'u) ybNet \<Rightarrow> ybStore \<Rightarrow> 's \<Rightarrow> goerr option \<times> ybStore \<times> 's" where
  "Yb_Start N st s =
     (if ysOnce st then (None, st, s) else ybStartBody N (st\<lparr>ysOnce := True\<rparr>) s)"

section \<open>migrations.go and migrator.go\<close>

definition pgMigrate :: "('s, 'u) ybNet \<Rightarrow> nat \<Rightarrow> address \<Rightarrow> 's \<Rightarrow> goerr option \<times> 's" where
  "pgMigrate N sqldb minerAddr s =
     (case ynCountTracker N sqldb s of
        Inl err \<Rightarrow> (Some (errorf_w ''getting number of rows in PieceTracker table: '' err), s)
      | Inr rows \<Rightarrow>
          (case ynSetDialect N ''postgres'' of
             Some err \<Rightarrow> (Some err, s)
           | None \<Rightarrow>
               (case ynVersion N sqldb s of
                  Inl err \<Rightarrow> (Some err, s)
                | Inr beforeVer \<Rightarrow>
                    (case ynUp N sqldb minerAddr (0 < rows) s of
                       (Some err, s') \<Rightarrow> (Some err, s')
                     | (None, s') \<Rightarrow>
                         (case ynVersion N sqldb s' of
                            Inl err \<Rightarrow> (Some err, s')
                          | Inr afterVer \<Rightarrow> (None, s'))))))"

definition strippedKeys :: "string list" where
  "strippedKeys =
     [''load_balance'', ''yb_servers_refresh_interval'', ''failed-host-reconnect-delay-secs'',
      ''fallback-to-topology-keys-only'', ''topology_keys'']"

definition StripLoadBalance :: "('s, 'u) ybNet \<Rightarrow> string \<Rightarrow> goerr + string" where
  "StripLoadBalance N connectString =
     (case ynUrlParse N connectString of
        Inl err \<Rightarrow> Inl (errorf_w ''parsing connect-string for migrator: '' err)
      | Inr u \<Rightarrow>
          (let q = fold (\<lambda>k q. q(k := None)) strippedKeys (ynUrlQuery N u) in
           Inr (ynUrlString N (ynUrlSetQuery N u q))))"

record migrator =
  mgSettings :: ybConn
  mgMinerAddr :: address
  mgKeyspace :: string

definition NewMigrator :: "ybConn \<Rightarrow> address \<Rightarrow> (migrator \<Rightarrow> migrator) list \<Rightarrow> migrator" where
  "NewMigrator settings minerAddr opts =
     fold (\<lambda>opt m. opt m) opts \<lparr>mgSettings = settings, mgMinerAddr = minerAddr, mgKeyspace = defaultKeyspace\<rparr>"

definition WithCassandraKeyspaceOpt :: "string \<Rightarrow> migrator \<Rightarrow> migrator" where
  "WithCassandraKeyspaceOpt ks m = m\<lparr>mgKeyspace := ks\<rparr>"

definition Migrator_Migrate :: "('s, 'u) ybNet \<Rightarrow> 's migration list \<Rightarrow> migrator \<Rightarrow> 's \<Rightarrow> goerr option \<times> 's" where
  "Migrator_Migrate N migs m s =
     (case StripLoadBalance N (ycConnectString (mgSettings m)) of
        Inl err \<Rightarrow> (Some err, s)
      | Inr c \<Rightarrow>
          (case ynSqlOpen N c s of
             Inl err \<Rightarrow> (Some (errorf_w (''opening postgres connection to '' @ ycConnectString (mgSettings m) @ '': '') err), s)
           | Inr sqldb \<Rightarrow>
               (case ynSession N (ycHosts (mgSettings m)) (ycCQLTimeout (mgSettings m)) (mgKeyspace m) s of
                  (Inl err, s1) \<Rightarrow> (Some (errorf_w ''opening cassandra connection to hosts: '' err), s1)
                | (Inr session, s1) \<Rightarrow>
                    (case pgMigrate N sqldb (mgMinerAddr m) s1 of
                       (Some err, s2) \<Rightarrow> (Some (errorf_w ''running postgres migrations: '' err), s2)
                     | (None, s2) \<Rightarrow>
                         (case cassMigrate (ynCass N session) migs s2 of
                            (Some err, s3) \<Rightarrow> (Some (errorf_w ''running cassandra migrations: '' err), s3)
                          | (None, s3) \<Rightarrow> (None, s3))))))"

section \<open>Starting the store\<close>

lemma ybStartBody_result:
  assumes "ybStartBody N st s = (e, st', s')" "ysSession st = None" "ysDb st = None"
  shows "(e = None \<longleftrightarrow> ysSession st' \<noteq> None \<and> ysDb st' \<noteq> None) \<and> ysOnce st' = ysOnce st"
  using assms
  by (auto simp: ybStartBody_def Let_def split: prod.splits sum.splits option.splits)

text \<open>
  C17: Only the first \<open>Start\<close> of a store does anything: it reports success exactly when both the session and the
  pool are there. Every later call reports success, also after a failure, although the store then stays
  without a session or without a pool, and a statement on the missing session panics.
\<close>

theorem yb_start_once:
  assumes "Yb_Start N (newYbStore settings ks) s = (e, st, s1)"
  shows "(e = None \<longleftrightarrow> ysSession st \<noteq> None \<and> ysDb st \<noteq> None) \<and>
    (\<forall>s2. Yb_Start N st s2 = (None, st, s2)) \<and>
    (ysSession st = None \<longrightarrow> (\<forall>qry s2. Yb_execCQL N st qry s2 = Panic))"
proof -
  have "ybStartBody N ((newYbStore settings ks)\<lparr>ysOnce := True\<rparr>) s = (e, st, s1)"
    using assms by (simp add: Yb_Start_def newYbStore_def)
  from ybStartBody_result [OF this] show ?thesis
    by (simp add: Yb_Start_def newYbStore_def Yb_execCQL_def)
qed

section \<open>Scripts\<close>

text \<open>Running statements one after the other, up to the first that fails.\<close>

fun runAll :: "string list \<Rightarrow> (string \<Rightarrow> 's \<Rightarrow> goerr option \<times> 's) \<Rightarrow> 's \<Rightarrow> bool \<times> 's" where
  "runAll [] exec s = (True, s)"
| "runAll (q # qs) exec s =
     (case exec q s of (Some _, s') \<Rightarrow> (False, s') | (None, s') \<Rightarrow> runAll qs exec s')"

lemma execLines_runAll:
  "(fst (execLines ls exec s) = None, snd (execLines ls exec s)) =
    runAll (filter (\<lambda>q. q \<noteq> []) (map (trimSet scriptBlanks) ls)) exec s"
  by (induction ls arbitrary: s) (auto simp: Let_def split: prod.splits option.splits)

theorem exec_script_statements:
  assumes "stmts \<noteq> []" "\<forall>q\<in>set stmts. CHR '';'' \<notin> set q" "\<forall>q\<in>set stmts. trimSet scriptBlanks q = q"
  shows "(fst (execScript (joinOn (CHR '';'') stmts) exec s) = None, snd (execScript (joinOn (CHR '';'') stmts) exec s)) =
    runAll (filter (\<lambda>q. q \<noteq> []) stmts) exec s"
proof -
  have "map (trimSet scriptBlanks) stmts = stmts" using assms(3) by (simp add: map_idI)
  with execLines_runAll [of stmts exec s] show ?thesis
    by (simp add: execScript_def splitOn_join [OF assms(1,2)])
qed

theorem exec_script_statements_witness:
  "fst (execScript ''a;b'' (\<lambda>q log. (None, log @ [q])) []) = None \<and>
    snd (execScript ''a;b'' (\<lambda>q log. (None, log @ [q])) []) = [''a'', ''b'']"
  using exec_script_statements [of "[''a'', ''b'']" "\<lambda>q log. (None, log @ [q])" "[]"]
  by (simp add: trimSet_def scriptBlanks_def)

section \<open>Connection strings\<close>

lemma fold_remove: "fold (\<lambda>k q. q(k := None)) ks q x = (if x \<in> set ks then None else q x)"
  by (induction ks arbitrary: q) auto

text \<open>With a parser that reads back what it writes, stripping removes the driver's parameters and no other.\<close>

theorem strip_load_balance:
  assumes "ynUrlParse N c = Inr u"
    and "\<forall>u q. ynUrlQuery N (ynUrlSetQuery N u q) = q" and "\<forall>u. ynUrlParse N (ynUrlString N u) = Inr u"
  shows "\<exists>c' u'. StripLoadBalance N c = Inr c' \<and> ynUrlParse N c' = Inr u' \<and>
    (\<forall>k. ynUrlQuery N u' k = (if k \<in> set strippedKeys then None else ynUrlQuery N u k))"
  using assms by (auto simp: StripLoadBalance_def Let_def fold_remove)

section \<open>Migrating\<close>

text \<open>
  What \<open>Migrate\<close> relies on, for any session: the table of completed Cassandra migrations, which connecting and
  the Postgres migrations leave alone.
\<close>

definition migrateEnv :: "('s, 'u) ybNet \<Rightarrow> 's migration list \<Rightarrow> ('s \<Rightarrow> string set) \<Rightarrow> bool" where
  "migrateEnv N migs completed \<longleftrightarrow>
     (\<forall>n. cassTable (ynCass N n) migs completed) \<and>
     (\<forall>hosts timeout ks s r s'. ynSession N hosts timeout ks s = (r, s') \<longrightarrow> completed s' = completed s) \<and>
     (\<forall>n a b s e s'. ynUp N n a b s = (e, s') \<longrightarrow> completed s' = completed s)"

lemma pgMigrate_completed:
  assumes "migrateEnv N migs completed" "pgMigrate N sqldb a s = (e, s')"
  shows "completed s' = completed s"
proof -
  have "s' = s \<or> (\<exists>b e1. ynUp N sqldb a b s = (e1, s'))"
    using assms(2) unfolding pgMigrate_def by (auto split: sum.splits option.splits prod.splits)
  with assms(1) show ?thesis unfolding migrateEnv_def by blast
qed

text \<open>Before the Cassandra migrations nothing depends on them, and no name gets recorded.\<close>

lemma Migrator_split:
  assumes env: "migrateEnv N all completed"
  obtains (before) err t where "completed t = completed s" "\<And>migs. Migrator_Migrate N migs m s = (Some err, t)"
  | (after) session s2 where "completed s2 = completed s" "\<And>migs. Migrator_Migrate N migs m s =
      apfst (map_option (errorf_w ''running cassandra migrations: '')) (cassMigrate (ynCass N session) migs s2)"
proof (cases "StripLoadBalance N (ycConnectString (mgSettings m))")
  case (Inl err)
  then show ?thesis using before [of s err] by (simp add: Migrator_Migrate_def)
next
  case c: (Inr c)
  show ?thesis
  proof (cases "ynSqlOpen N c s")
    case (Inl err)
    then show ?thesis using before [OF refl] c by (simp add: Migrator_Migrate_def)
  next
    case db: (Inr sqldb)
    obtain r1 s1 where ss: "ynSession N (ycHosts (mgSettings m)) (ycCQLTimeout (mgSettings m)) (mgKeyspace m) s = (r1, s1)"
      by (rule prod.exhaust)
    have s1: "completed s1 = completed s" using env ss unfolding migrateEnv_def by blast
    obtain e2 s2 where pg: "pgMigrate N sqldb (mgMinerAddr m) s1 = (e2, s2)" by (rule prod.exhaust)
    have s2: "completed s2 = completed s" using pgMigrate_completed [OF env pg] s1 by simp
    show ?thesis
    proof (cases r1)
      case (Inl err)
      then show ?thesis using before [OF s1] c db ss by (simp add: Migrator_Migrate_def)
    next
      case session: (Inr session)
      show ?thesis
      proof (cases e2)
        case (Some err)
        then show ?thesis using before [OF s2] c db ss session pg by (simp add: Migrator_Migrate_def)
      next
        case None
        show ?thesis
        proof (rule after [OF s2])
          fix migs
          show "Migrator_Migrate N migs m s =
              apfst (map_option (errorf_w ''running cassandra migrations: '')) (cassMigrate (ynCass N session) migs s2)"
            using c db ss session pg None by (simp add: Migrator_Migrate_def split: prod.split option.split)
        qed
      qed
    qed
  qed
qed

text \<open>
  C18: Migrating goes on where an earlier run stopped. Let the names of the Cassandra migrations be distinct and in increasing
  order, and the first \<open>k\<close> of them complete, and let \<open>s0\<close> be what migrating without Cassandra migrations leads to. When
  that fails, in the Postgres migrations or while connecting, the result is the same and the \<open>k\<close> stay as they are. Otherwise the
  functions of the migrations from \<open>k\<close> on are run from \<open>s0\<close>, in order, each recorded after it has run and none of the
  first \<open>k\<close> again: all of them when the run succeeds, and when it fails those before the one that
  failed or could not be recorded. The completed ones are then the recorded ones.
\<close>

theorem migrator_resumes:
  assumes env: "migrateEnv N migs completed" and r: "Migrator_Migrate N migs m s = (e, s')"
    and names: "sorted (map fst migs)" "distinct (map fst migs)"
    and k: "k \<le> length migs" "completed s = set (take k (map fst migs))"
    and r0: "Migrator_Migrate N [] m s = (e0, s0)"
  shows "completed s0 = completed s \<and>
    (if e0 \<noteq> None then e = e0 \<and> s' = s0
     else \<exists>session k' s1. k \<le> k' \<and> k' \<le> length migs \<and> completed s' = set (take k' (map fst migs)) \<and>
       runRecorded (ynCass N session) (take (k' - k) (drop k migs)) s0 = Some s1 \<and>
       stopsAt (ynCass N session) (drop k' migs) s1 e s' \<and> (e = None \<longrightarrow> k' = length migs))"
proof (rule Migrator_split [OF env, of s m])
  fix err t
  assume "completed t = completed s" "\<And>migs. Migrator_Migrate N migs m s = (Some err, t)"
  with r r0 show ?thesis by auto
next
  fix session s2
  assume s2: "completed s2 = completed s" and all: "\<And>migs. Migrator_Migrate N migs m s =
      apfst (map_option (errorf_w ''running cassandra migrations: '')) (cassMigrate (ynCass N session) migs s2)"
  obtain e3 s3 where cm: "cassMigrate (ynCass N session) migs s2 = (e3, s3)" by (rule prod.exhaust)
  obtain e4 s4 where cm0: "cassMigrate (ynCass N session) [] s2 = (e4, s4)" by (rule prod.exhaust)
  let ?w = "map_option (errorf_w ''running cassandra migrations: '')"
  have e: "e = ?w e3" "s' = s3" "e0 = ?w e4" "s0 = s4" using r r0 all cm cm0 by simp_all
  have stops: "stopsAt D migs s1 (?w x) t \<longleftrightarrow> stopsAt D migs s1 x t" for D migs s1 x t
    by (simp add: stopsAt_def split: list.split)
  have len: "stopsAt D (drop k' migs) s1 None t \<Longrightarrow> k' \<le> length migs \<Longrightarrow> k' = length migs" for D k' s1 t
    by (cases "drop k' migs") (auto simp: stopsAt_def)
  have ct: "cassTable (ynCass N session) migs completed" using env unfolding migrateEnv_def by blast
  have "completed s2 = set (take k (map fst migs))" using s2 k(2) by simp
  note res = cassMigrate_resumes [OF ct cm names k(1) this cm0]
  show ?thesis
  proof (cases "e4 = None")
    case True
    with res obtain k' s1 where k': "k \<le> k'" "k' \<le> length migs" "completed s3 = set (take k' (map fst migs))"
      "runRecorded (ynCass N session) (take (k' - k) (drop k migs)) s4 = Some s1"
      "stopsAt (ynCass N session) (drop k' migs) s1 e3 s3" by auto
    have "completed s0 = completed s" "e0 = None" using res s2 e True by simp_all
    moreover have "stopsAt (ynCass N session) (drop k' migs) s1 e s'" using k'(5) by (simp add: e stops)
    moreover have "e = None \<longrightarrow> k' = length migs" using len k'(2,5) by (auto simp: e)
    moreover have "completed s' = set (take k' (map fst migs))"
      "runRecorded (ynCass N session) (take (k' - k) (drop k migs)) s0 = Some s1" using k'(3,4) e by simp_all
    moreover have "\<not> e0 \<noteq> None" using e True by simp
    note if_not_P [OF this]
    ultimately show ?thesis using k'(1,2) by metis
  qed (use res s2 e in simp)
qed

section \<open>A concrete server\<close>

text \<open>The pool cannot be opened; the second Cassandra migration fails.\<close>

definition demoNet :: "(string list, string) ybNet" where
  "demoNet =
     \<lparr>ynSession = (\<lambda>hosts timeout ks s. (Inr 1, s)), ynCql = (\<lambda>n q s. (None, s)),
      ynPool = (\<lambda>c s. (Inl (errorf ''refused''), s)), ynSqlOpen = (\<lambda>c s. Inr 2), ynCountTracker = (\<lambda>n s. Inr 0),
      ynSetDialect = (\<lambda>d. None), ynVersion = (\<lambda>n s. Inr 1), ynUp = (\<lambda>n a b s. (None, s)),
      ynUrlParse = (\<lambda>c. Inr c), ynUrlQuery = (\<lambda>u k. None), ynUrlSetQuery = (\<lambda>u q. u), ynUrlString = (\<lambda>u. u),
      ynCass = (\<lambda>n. demoCass)\<rparr>"

definition demoSettings :: ybConn where
  "demoSettings = \<lparr>ycHosts = [''h''], ycConnectString = ''c'', ycCQLTimeout = 0\<rparr>"

theorem yb_start_once_witness:
  "\<exists>err st. Yb_Start demoNet (newYbStore demoSettings None) [] = (Some err, st, []) \<and> ysDb st = None \<and>
    Yb_Start demoNet st [] = (None, st, [])"
proof -
  obtain e st s1 where r: "Yb_Start demoNet (newYbStore demoSettings None) [] = (e, st, s1)"
    by (rule prod_cases3)
  then have "e \<noteq> None" "s1 = []"
    by (auto simp: Yb_Start_def newYbStore_def ybStartBody_def Yb_CreateKeyspace_def demoNet_def Let_def)
  moreover have "ysDb st = None"
    using r by (auto simp: Yb_Start_def newYbStore_def ybStartBody_def Yb_CreateKeyspace_def demoNet_def Let_def)
  ultimately show ?thesis using yb_start_once [OF r] r by auto
qed

theorem migrator_resumes_witness:
  "\<exists>e s1. stopsAt demoCass (drop (length s1) demoMigs) s1 e
      (snd (Migrator_Migrate demoNet demoMigs (NewMigrator demoSettings ''f01'' []) [])) \<and>
    runRecorded demoCass (take (length s1) demoMigs) [] = Some s1"
proof -
  have "cassTable demoCass demoMigs (\<lambda>s. set s)" by (rule demoCass_table) (auto simp: demoMigs_def)
  then have env: "migrateEnv demoNet demoMigs (\<lambda>s. set s)" by (simp add: migrateEnv_def demoNet_def)
  obtain e s' where m: "Migrator_Migrate demoNet demoMigs (NewMigrator demoSettings ''f01'' []) [] = (e, s')"
    by (rule prod.exhaust)
  obtain e0 s0 where m0: "Migrator_Migrate demoNet [] (NewMigrator demoSettings ''f01'' []) [] = (e0, s0)"
    by (rule prod.exhaust)
  then have "e0 = None" "s0 = []"
    by (auto simp: Migrator_Migrate_def StripLoadBalance_def pgMigrate_def cassMigrate_def executeMigrations_def
        demoNet_def demoCass_def demoSettings_def NewMigrator_def Let_def split: if_splits)
  moreover have "sorted (map fst demoMigs)" by (simp add: demoMigs_def less_char_def)
  ultimately obtain k' s1 where "k' \<le> length demoMigs" "runRecorded demoCass (take k' demoMigs) [] = Some s1"
    "stopsAt demoCass (drop k' demoMigs) s1 e s'"
    using migrator_resumes [OF env m _ _ _ _ m0, of 0] by (auto simp: demoMigs_def demoNet_def)
  moreover have "length s1 = k'" using calculation(1,2) by (auto simp: demoMigs_def le_Suc_eq demoCass_def numeral_2_eq_2)
  ultimately show ?thesis using m by (intro exI [of _ e] exI [of _ s1]) simp
qed

end
