(* ===== verification/SectorDb.thy ===== *)
theory SectorDb
  imports SectorState DealsDb
begin

text \<open>
  The table of sector states, \<open>lib/boost/db/sectors.go\<close>, over the SQL database of \<open>DealsDb\<close>, and the sector state
  manager on it. \<open>SealState\<close> is a string in the code: a row is read as it is, \<open>stateOf\<close> gives the four states.
\<close>

section \<open>sectors.go\<close>

definition stateText :: "SealState \<Rightarrow> string" where
  "stateText st = (case st of SealStateSealed \<Rightarrow> ''Sealed'' | SealStateUnsealed \<Rightarrow> ''Unsealed''
     | SealStateRemoved \<Rightarrow> ''Removed'' | SealStateCache \<Rightarrow> ''Cache'')"

definition stateOf :: "string \<Rightarrow> SealState option" where
  "stateOf t = (if t = ''Sealed'' then Some SealStateSealed else if t = ''Unsealed'' then Some SealStateUnsealed
     else if t = ''Removed'' then Some SealStateRemoved else if t = ''Cache'' then Some SealStateCache else None)"

lemma stateOf_text [simp]: "stateOf (stateText st) = Some st"
  by (cases st) (simp_all add: stateText_def stateOf_def)

record sectorRow =
  srSectorID :: SectorID
  srUpdatedAt :: time
  srSealState :: string

definition sdListQuery :: string where
  "sdListQuery = ''SELECT MinerID, SectorID, UpdatedAt, SealState FROM SectorState''"

definition sdUpdateQuery :: string where
  "sdUpdateQuery = ''REPLACE INTO SectorState (MinerID, SectorID, UpdatedAt, SealState) VALUES (?, ?, ?, ?)''"

text \<open>\<open>scan\<close> reads the columns of a row into the struct.\<close>

fun sdScanRows :: "(sqlVal list \<Rightarrow> goerr + sectorRow) \<Rightarrow> sqlVal list list \<Rightarrow> sectorRow list \<Rightarrow> goerr + sectorRow list" where
  "sdScanRows scan [] states = Inr states"
| "sdScanRows scan (r # rs) states =
     (case scan r of Inl err \<Rightarrow> Inl err | Inr state \<Rightarrow> sdScanRows scan rs (states @ [state]))"

definition SDB_List :: "'s sqlDb \<Rightarrow> (sqlVal list \<Rightarrow> goerr + sectorRow) \<Rightarrow> 's \<Rightarrow> goerr + sectorRow list" where
  "SDB_List D scan s =
     (case sqQuery D s sdListQuery [] of
        Inl err \<Rightarrow> Inl err
      | Inr (rows, rowsErr) \<Rightarrow>
          (case sdScanRows scan rows [] of
             Inl err \<Rightarrow> Inl err
           | Inr states \<Rightarrow> (case rowsErr of Some err \<Rightarrow> Inl err | None \<Rightarrow> Inr states)))"

definition SDB_Update :: "'s sqlDb \<Rightarrow> time \<Rightarrow> 's \<Rightarrow> SectorID \<Rightarrow> string \<Rightarrow> goerr option \<times> 's" where
  "SDB_Update D now s sectorID sealState =
     sqExec D s sdUpdateQuery [SqlUint (Miner sectorID), SqlUint (Number sectorID), SqlTime now, SqlStr sealState]"

section \<open>The manager on the table\<close>

text \<open>The sector state manager that keeps its rows in the table; it writes states of its own only.\<close>

definition ssmOn ::
  "'s sqlDb \<Rightarrow> (sqlVal list \<Rightarrow> goerr + sectorRow) \<Rightarrow> time \<Rightarrow> 's ssmEnv \<Rightarrow> 's ssmEnv" where
  "ssmOn D scan now E =
     E\<lparr>sdbList := (\<lambda>s. case SDB_List D scan s of
          Inl err \<Rightarrow> Inl err
        | Inr rows \<Rightarrow> Inr (map (\<lambda>r. \<lparr>rowSector = srSectorID r, rowSealState = the (stateOf (srSealState r))\<rparr>) rows)),
       sdbUpdate := (\<lambda>s sid st. SDB_Update D now s sid (stateText st))\<rparr>"

text \<open>
  What the statements mean, for a table with the primary key \<open>(MinerID, SectorID)\<close> that holds states of the manager only:
  the select gives the rows in some order, \<open>REPLACE INTO\<close> writes the row of its key or fails and changes nothing.
\<close>

definition ssTable ::
  "'s sqlDb \<Rightarrow> (sqlVal list \<Rightarrow> goerr + sectorRow) \<Rightarrow> ('s \<Rightarrow> SectorID \<Rightarrow> SealState option) \<Rightarrow> bool" where
  "ssTable D scan view \<longleftrightarrow>
     (\<forall>s rows. sqQuery D s sdListQuery [] = Inr (rows, None) \<longrightarrow>
        (\<exists>rs. map scan rows = map Inr rs \<and> distinct (map srSectorID rs) \<and>
           (\<forall>sid st. view s sid = Some st \<longleftrightarrow> (\<exists>r\<in>set rs. srSectorID r = sid \<and> srSealState r = stateText st)) \<and>
           (\<forall>r\<in>set rs. \<exists>st. srSealState r = stateText st))) \<and>
     (\<forall>s sid t st e s'. sqExec D s sdUpdateQuery
          [SqlUint (Miner sid), SqlUint (Number sid), SqlTime t, SqlStr (stateText st)] = (e, s') \<longrightarrow>
        view s' = (if e = None then (view s)(sid \<mapsto> st) else view s))"

lemma ssTable_list:
  "ssTable D scan view \<Longrightarrow> sqQuery D s sdListQuery [] = Inr (rows, None) \<Longrightarrow>
    \<exists>rs. map scan rows = map Inr rs \<and> distinct (map srSectorID rs) \<and>
      (\<forall>sid st. view s sid = Some st \<longleftrightarrow> (\<exists>r\<in>set rs. srSectorID r = sid \<and> srSealState r = stateText st)) \<and>
      (\<forall>r\<in>set rs. \<exists>st. srSealState r = stateText st)"
  unfolding ssTable_def by blast

lemma ssTable_update:
  "ssTable D scan view \<Longrightarrow>
    sqExec D s sdUpdateQuery [SqlUint (Miner sid), SqlUint (Number sid), SqlTime t, SqlStr (stateText st)] = (e, s') \<Longrightarrow>
    view s' = (if e = None then (view s)(sid \<mapsto> st) else view s)"
  unfolding ssTable_def by blast

lemma sdScanRows_all: "map scan rows = map Inr rs \<Longrightarrow> sdScanRows scan rows acc = Inr (acc @ rs)"
  by (induction rows arbitrary: rs acc) auto

lemma SDB_List_rows:
  assumes t: "ssTable D scan view" and l: "SDB_List D scan s = Inr rows"
  shows "distinct (map srSectorID rows) \<and> (\<forall>r\<in>set rows. \<exists>st. srSealState r = stateText st) \<and>
    (\<forall>sid st. view s sid = Some st \<longleftrightarrow> (\<exists>r\<in>set rows. srSectorID r = sid \<and> srSealState r = stateText st))"
proof -
  from l obtain raw where raw: "sqQuery D s sdListQuery [] = Inr (raw, None)" "sdScanRows scan raw [] = Inr rows"
    by (auto simp: SDB_List_def split: sum.splits option.splits)
  from ssTable_list [OF t raw(1)] obtain rs where rs: "map scan raw = map Inr rs" "distinct (map srSectorID rs)"
    "\<forall>sid st. view s sid = Some st \<longleftrightarrow> (\<exists>r\<in>set rs. srSectorID r = sid \<and> srSealState r = stateText st)"
    "\<forall>r\<in>set rs. \<exists>st. srSealState r = stateText st" by blast
  from sdScanRows_all [OF rs(1), of "[]"] raw(2) have "rows = rs" by simp
  with rs show ?thesis by simp
qed

lemma ssmOn_ok:
  assumes t: "ssTable D scan view"
  shows "sdb_ok (ssmOn D scan now E) view"
proof -
  let ?f = "\<lambda>r. \<lparr>rowSector = srSectorID r, rowSealState = the (stateOf (srSealState r))\<rparr>"
  have "distinct (map rowSector rows') \<and> rowsMap rows' = view s"
    if "sdbList (ssmOn D scan now E) s = Inr rows'" for s rows'
  proof -
    from that obtain rows where l: "SDB_List D scan s = Inr rows" and r': "rows' = map ?f rows"
      by (auto simp: ssmOn_def split: sum.splits)
    note rows = SDB_List_rows [OF t l]
    have m: "map rowSector rows' = map srSectorID rows" by (simp add: r' o_def)
    have "rowsMap rows' sid = Some st \<longleftrightarrow> view s sid = Some st" for sid st
    proof -
      have "rowsMap rows' sid = Some st \<longleftrightarrow> (sid, st) \<in> set (map (\<lambda>r. (rowSector r, rowSealState r)) rows')"
        unfolding rowsMap_def by (rule map_of_eq_Some_iff) (simp add: o_def m rows)
      also have "\<dots> \<longleftrightarrow> (\<exists>r\<in>set rows. srSectorID r = sid \<and> the (stateOf (srSealState r)) = st)"
        by (auto simp: r')
      also have "\<dots> \<longleftrightarrow> (\<exists>r\<in>set rows. srSectorID r = sid \<and> srSealState r = stateText st)"
        using rows by (metis option.sel stateOf_text)
      finally show ?thesis using rows by simp
    qed
    then have "rowsMap rows' sid = view s sid" for sid by (metis not_None_eq)
    with m rows show ?thesis by auto
  qed
  then show ?thesis
    using ssTable_update [OF t] unfolding sdb_ok_def ssmOn_def SDB_Update_def by simp
qed

text \<open>
  The sector state manager over its SQL table: a refresh that succeeds leaves the rows in agreement with lotus, in whatever
  order the update map is walked, and the list read afterwards has one row per sector with the state of that
  sector; a failed statement is reported and leaves its row alone.
\<close>

theorem sector_table_agrees:
  assumes t: "ssTable D scan view"
    and r: "checkForUpdates (ssmOn D scan now0 E) redeclare maddr now order d = (Inr ssu, d')"
    and order: "\<forall>sid. Updates ssu sid \<noteq> None \<longrightarrow> sid \<in> set order"
    and l: "SDB_List D scan d' = Inr rows"
  shows "\<exists>locs. storageList E redeclare = Inr locs \<and> distinct (map srSectorID rows) \<and>
    (\<forall>sid st. nextState (view d sid) (bestCopy (concat locs) sid) = Some st \<longleftrightarrow>
       (\<exists>row\<in>set rows. srSectorID row = sid \<and> srSealState row = stateText st))"
proof -
  have "storageList (ssmOn D scan now0 E) redeclare = storageList E redeclare" by (simp add: ssmOn_def)
  with check_for_updates_agrees_aux [OF ssmOn_ok [OF t] r order] obtain locs where
    "storageList E redeclare = Inr locs" "\<forall>sid. view d' sid = nextState (view d sid) (bestCopy (concat locs) sid)"
    by auto
  with SDB_List_rows [OF t l] show ?thesis by (intro exI [of _ locs]) simp
qed

section \<open>A concrete table\<close>

fun sectorScan :: "sqlVal list \<Rightarrow> goerr + sectorRow" where
  "sectorScan [SqlUint m, SqlUint n, SqlTime t, SqlStr st] =
     Inr \<lparr>srSectorID = \<lparr>Miner = m, Number = n\<rparr>, srUpdatedAt = t, srSealState = st\<rparr>"
| "sectorScan _ = Inl (errorf ''sql: scan error'')"

fun sectorReplace :: "(SectorID \<times> SealState) list \<Rightarrow> sqlVal list \<Rightarrow> (SectorID \<times> SealState) list" where
  "sectorReplace s [SqlUint m, SqlUint n, SqlTime t, SqlStr st] =
     (case stateOf st of None \<Rightarrow> s | Some x \<Rightarrow> AList.update \<lparr>Miner = m, Number = n\<rparr> x s)"
| "sectorReplace s _ = s"

definition sectorMemDb :: "(SectorID \<times> SealState) list sqlDb" where
  "sectorMemDb =
     \<lparr>sqExec = (\<lambda>s q vs. (None, sectorReplace s vs)), sqQueryRow = (\<lambda>s q vs. Inl (errorf ''no rows'')),
      sqQuery = (\<lambda>s q vs. Inr (map (\<lambda>(k, v). [SqlUint (Miner k), SqlUint (Number k), SqlTime 0, SqlStr (stateText v)])
        (AList.clearjunk s), None))\<rparr>"

lemma stateText_inj [simp]: "stateText a = stateText b \<longleftrightarrow> a = b"
  by (metis option.inject stateOf_text)

lemma sectorMemDb_table: "ssTable sectorMemDb sectorScan map_of"
proof -
  let ?row = "\<lambda>(k, v). \<lparr>srSectorID = k, srUpdatedAt = 0, srSealState = stateText v\<rparr>"
  have "\<exists>rs. map sectorScan rows = map Inr rs \<and> distinct (map srSectorID rs) \<and>
      (\<forall>sid st. map_of s sid = Some st \<longleftrightarrow> (\<exists>r\<in>set rs. srSectorID r = sid \<and> srSealState r = stateText st)) \<and>
      (\<forall>r\<in>set rs. \<exists>st. srSealState r = stateText st)"
    if "sqQuery sectorMemDb s sdListQuery [] = Inr (rows, None)" for s rows
  proof (rule exI, intro conjI allI ballI)
    let ?rs = "map ?row (AList.clearjunk s)"
    from that have rows: "rows = map (\<lambda>(k, v). [SqlUint (Miner k), SqlUint (Number k), SqlTime 0, SqlStr (stateText v)])
        (AList.clearjunk s)" by (simp add: sectorMemDb_def)
    show "map sectorScan rows = map Inr ?rs" by (simp add: rows split_def)
    have ids: "map srSectorID ?rs = map fst (AList.clearjunk s)" by (simp add: split_def)
    then show "distinct (map srSectorID ?rs)" by (simp only: distinct_clearjunk)
    show "map_of s sid = Some st \<longleftrightarrow> (\<exists>r\<in>set ?rs. srSectorID r = sid \<and> srSealState r = stateText st)" for sid st
      unfolding map_of_clearjunk [of s, symmetric] map_of_eq_Some_iff [OF distinct_clearjunk] by force
    show "\<exists>st. srSealState r = stateText st" if "r \<in> set ?rs" for r using that by auto
  qed
  then show ?thesis
    unfolding ssTable_def by (auto simp: sectorMemDb_def update_conv')
qed

lemma sectorMemDb_list: "\<exists>rows. SDB_List sectorMemDb sectorScan d = Inr rows"
proof -
  let ?row = "\<lambda>(k, v). \<lparr>srSectorID = k, srUpdatedAt = 0, srSealState = stateText v\<rparr>"
  have "map sectorScan (map (\<lambda>(k, v). [SqlUint (Miner k), SqlUint (Number k), SqlTime 0, SqlStr (stateText v)])
      (AList.clearjunk d)) = map Inr (map ?row (AList.clearjunk d))" by (simp add: split_def)
  then have "SDB_List sectorMemDb sectorScan d = Inr (map ?row (AList.clearjunk d))"
    by (simp only: SDB_List_def sectorMemDb_def sqlDb.simps sum.case prod.case sdScanRows_all append.simps option.case)
  then show ?thesis by blast
qed

lemma demo_table_check:
  "\<exists>d'. checkForUpdates (ssmOn sectorMemDb sectorScan now0 demoSsm) False ''m'' 9 [newSector, oldSector]
    [(oldSector, SealStateSealed)] = (Inr demoSsu, d')"
proof -
  let ?E = "ssmOn sectorMemDb sectorScan now0 demoSsm" and ?d = "[(oldSector, SealStateSealed)]"
  have l: "sdbList ?E ?d = sdbList demoSsm ?d"
    by (simp add: ssmOn_def SDB_List_def sectorMemDb_def demoSsm_def)
  have ref: "refreshState ?E False ''m'' 9 ?d = refreshState demoSsm False ''m'' 9 ?d"
    unfolding refreshState_def l by (simp add: ssmOn_def demoSsm_def)
  have ap: "fst (applyUpdates ?E u sids d) = None" for u sids d
    by (induction sids arbitrary: d) (auto simp: ssmOn_def SDB_Update_def sectorMemDb_def split: option.split)
  show ?thesis
    using ap [of "Updates demoSsu" "[newSector, oldSector]" ?d]
    by (cases "applyUpdates ?E (Updates demoSsu) [newSector, oldSector] ?d") (simp add: checkForUpdates_def ref demo_refresh)
qed

lemma demo_old_removed:
  "storageList demoSsm False = Inr locs \<Longrightarrow>
    nextState (map_of [(oldSector, SealStateSealed)] oldSector) (bestCopy (concat locs) oldSector) = Some SealStateRemoved"
  by (auto simp: demoSsm_def nextState_def bestCopy_def oldSector_def)

theorem sector_table_agrees_witness:
  "\<exists>d' rows. SDB_List sectorMemDb sectorScan d' = Inr rows \<and>
    (\<exists>row\<in>set rows. srSectorID row = oldSector \<and> srSealState row = stateText SealStateRemoved)"
proof -
  obtain d' rows where c: "checkForUpdates (ssmOn sectorMemDb sectorScan 5 demoSsm) False ''m'' 9 [newSector, oldSector]
      [(oldSector, SealStateSealed)] = (Inr demoSsu, d')" and rows: "SDB_List sectorMemDb sectorScan d' = Inr rows"
    using demo_table_check sectorMemDb_list by blast
  from sector_table_agrees [OF sectorMemDb_table c demo_order rows] demo_old_removed rows show ?thesis by blast
qed

end
