(* ===== verification/NodeOptions.thy ===== *)
theory NodeOptions
  imports ConfigMigrateProps
begin

text \<open>
  Building the node: the functional options of \<open>node/options.go\<close> and the node of \<open>node/builder.go\<close> as
  \<open>cmd/index.go\<close> builds it. An option changes the settings and the world (an opaque \<open>'w\<close>, the file system when
  the repository is on disk) and gives an error or panics. Constructors are named, not run: running
  them is the dependency injection library, the parameter \<open>fxStart\<close>.
\<close>

section \<open>Settings and options\<close>

text \<open>An \<open>invoke\<close> number, a \<open>special\<close> number, or the name of the type that is provided.\<close>

datatype nodeKey = InvokeKey nat | SpecialKey nat | TypeKey string

datatype ('l, 'cfg) nodeCtor = Ctor string | LockedCtor 'l | CfgCtor string 'cfg

record ('l, 'cfg) Settings =
  stModules :: "nodeKey \<Rightarrow> ('l, 'cfg) nodeCtor option"
  stInvokes :: "('l, 'cfg) nodeCtor option list"
  stNodeType :: string
  stBase :: bool
  stConfig :: bool
  stLite :: bool

type_synonym ('l, 'cfg, 'w) nodeOption =
  "('l, 'cfg) Settings \<times> 'w \<Rightarrow> unit outcome \<times> ('l, 'cfg) Settings \<times> 'w"

fun Options :: "('l, 'cfg, 'w) nodeOption list \<Rightarrow> ('l, 'cfg, 'w) nodeOption" where
  "Options [] x = (Ret (), x)"
| "Options (opt # opts) x =
     (case opt x of (Ret _, x') \<Rightarrow> Options opts x' | (Fail err, x') \<Rightarrow> (Fail err, x') | (Panic, x') \<Rightarrow> (Panic, x'))"

definition ErrorOpt :: "goerr \<Rightarrow> ('l, 'cfg, 'w) nodeOption" where
  "ErrorOpt err x = (Fail err, x)"

definition ApplyIf ::
  "(('l, 'cfg) Settings \<Rightarrow> bool) \<Rightarrow> ('l, 'cfg, 'w) nodeOption list \<Rightarrow> ('l, 'cfg, 'w) nodeOption" where
  "ApplyIf check opts x = (if check (fst x) then Options opts x else (Ret (), x))"

definition IfOpt :: "bool \<Rightarrow> ('l, 'cfg, 'w) nodeOption list \<Rightarrow> ('l, 'cfg, 'w) nodeOption" where
  "IfOpt b opts = ApplyIf (\<lambda>s. b) opts"

text \<open>Storing an invoke beyond the array panics.\<close>

definition Override :: "nodeKey \<Rightarrow> ('l, 'cfg) nodeCtor \<Rightarrow> ('l, 'cfg, 'w) nodeOption" where
  "Override typ c x =
     (case typ of
        InvokeKey i \<Rightarrow>
          if i < length (stInvokes (fst x))
          then (Ret (), (fst x)\<lparr>stInvokes := (stInvokes (fst x))[i := Some c]\<rparr>, snd x)
          else (Panic, x)
      | _ \<Rightarrow> (Ret (), (fst x)\<lparr>stModules := (stModules (fst x))(typ \<mapsto> c)\<rparr>, snd x))"

definition Unset :: "nodeKey \<Rightarrow> ('l, 'cfg, 'w) nodeOption" where
  "Unset typ x =
     (case typ of
        InvokeKey i \<Rightarrow>
          if i < length (stInvokes (fst x))
          then (Ret (), (fst x)\<lparr>stInvokes := (stInvokes (fst x))[i := None]\<rparr>, snd x)
          else (Panic, x)
      | _ \<Rightarrow> (Ret (), (fst x)\<lparr>stModules := (stModules (fst x))(typ := None)\<rparr>, snd x))"

section \<open>builder.go\<close>

definition InitJournalKey :: nodeKey where "InitJournalKey = InvokeKey 0"
definition CheckFDLimit :: nodeKey where "CheckFDLimit = InvokeKey 1"
definition StartJobKey :: nodeKey where "StartJobKey = InvokeKey 2"
definition nInvokes :: nat where "nInvokes = 3"

definition defaultOpts :: "('l, 'cfg, 'w) nodeOption list" where
  "defaultOpts =
     [Override (TypeKey ''journal.DisabledEvents'') (Ctor ''journal.EnvDisabledEvents''),
      Override (TypeKey ''journal.Journal'') (Ctor ''modules.OpenFilesystemJournal''),
      Override (TypeKey ''*alerting.Alerting'') (Ctor ''alerting.NewAlertingSystem''),
      Override CheckFDLimit (Ctor ''modules.CheckFdLimit''),
      Override (TypeKey ''helpers.MetricsCtx'') (Ctor ''metrics.CtxScope'')]"

definition BoostNode :: "('l, 'cfg, 'w) nodeOption" where
  "BoostNode = Options
     [Override (TypeKey ''dtypes.MinerAddress'') (Ctor ''modules.MinerAddress''),
      Override (TypeKey ''dtypes.MinerID'') (Ctor ''modules.MinerID''),
      Override (TypeKey ''*sql.DB'') (Ctor ''modules.NewBoostDB''),
      Override (TypeKey ''*db.DirectDealsDB'') (Ctor ''modules.NewDirectDealsDB'')]"

definition Base :: "('l, 'cfg, 'w) nodeOption" where
  "Base = Options
     [\<lambda>x. (Ret (), (fst x)\<lparr>stBase := True\<rparr>, snd x),
      ApplyIf stConfig [ErrorOpt (errorf ''the Base() option must be set before Config option'')],
      BoostNode]"

definition ConfigCommon :: "'cfg \<Rightarrow> ('l, 'cfg, 'w) nodeOption" where
  "ConfigCommon cfg = Options
     [\<lambda>x. (Ret (), (fst x)\<lparr>stConfig := True\<rparr>, snd x),
      Override (TypeKey ''dtypes.MetadataDS'') (CfgCtor ''modules.Datastore'' cfg)]"

definition ConfigBoost :: "'cfg \<Rightarrow> ('l, 'cfg, 'w) nodeOption" where
  "ConfigBoost cfg = Options
     [ConfigCommon cfg,
      Override (TypeKey ''*bdclient.Store'') (CfgCtor ''modules.NewPieceDirectoryStore'' cfg),
      Override (TypeKey ''*lib.MultiMinerAccessor'') (CfgCtor ''modules.NewMultiminerSectorAccessor'' cfg),
      Override (TypeKey ''*piecedirectory.PieceDirectory'') (CfgCtor ''modules.NewPieceDirectory'' cfg),
      Override StartJobKey (Ctor ''startJob'')]"

definition BoostAPI :: "('l, 'cfg, 'w) nodeOption" where
  "BoostAPI = Options
     [ApplyIf stConfig [ErrorOpt (errorf ''the StorageMiner option must be set before Config option'')],
      \<lambda>x. (Ret (), (fst x)\<lparr>stNodeType := ''Boost''\<rparr>, snd x)]"

text \<open>
  A repository: \<open>reConfig\<close> gives no configuration when it is not a \<open>*config.Boost\<close>. The lock is not released when
  a later step fails.
\<close>

record ('l, 'cfg, 'w) repoEnv =
  reLock :: "string \<Rightarrow> 'w \<Rightarrow> (goerr + 'l) \<times> 'w"
  reIsMem :: bool
  reMigrate :: "'l \<Rightarrow> 'w \<Rightarrow> unit outcome \<times> 'w"
  reConfig :: "'l \<Rightarrow> 'w \<Rightarrow> goerr + 'cfg option"

definition RepoOpt :: "('l, 'cfg, 'w) repoEnv \<Rightarrow> ('l, 'cfg, 'w) nodeOption" where
  "RepoOpt R x =
     (case reLock R (stNodeType (fst x)) (snd x) of
        (Inl err, w1) \<Rightarrow> (Fail err, fst x, w1)
      | (Inr lr, w1) \<Rightarrow>
          (case (if \<not> reIsMem R then reMigrate R lr w1 else (Ret (), w1)) of
             (Fail err, w2) \<Rightarrow> (Fail (errorf_w ''migrating config: '' err), fst x, w2)
           | (Panic, w2) \<Rightarrow> (Panic, fst x, w2)
           | (Ret _, w2) \<Rightarrow>
               (case reConfig R lr w2 of
                  Inl err \<Rightarrow> (Fail err, fst x, w2)
                | Inr None \<Rightarrow> (Fail (errorf ''invalid config type from repo, expected *config.Boost''), fst x, w2)
                | Inr (Some cfg) \<Rightarrow>
                    Options [Override (TypeKey ''repo.LockedRepo'') (LockedCtor lr), ConfigBoost cfg] (fst x, w2))))"

definition newSettings :: "('l, 'cfg) Settings" where
  "newSettings =
     \<lparr>stModules = Map.empty, stInvokes = replicate nInvokes None, stNodeType = [], stBase = False, stConfig = False,
      stLite = False\<rparr>"

definition applyNew :: "('l, 'cfg, 'w) nodeOption list \<Rightarrow> 'w \<Rightarrow> unit outcome \<times> ('l, 'cfg) Settings \<times> 'w" where
  "applyNew opts w = Options [Options defaultOpts, Options opts] (newSettings, w)"

text \<open>The modules go to the library as a set, the invokes in their order, without the empty ones.\<close>

definition NodeNew ::
  "((nodeKey \<Rightarrow> ('l, 'cfg) nodeCtor option) \<Rightarrow> ('l, 'cfg) nodeCtor list \<Rightarrow> 'w \<Rightarrow> goerr option \<times> 'w) \<Rightarrow>
    ('l, 'cfg, 'w) nodeOption list \<Rightarrow> 'w \<Rightarrow> unit outcome \<times> 'w" where
  "NodeNew fxStart opts w =
     (case applyNew opts w of
        (Fail err, s, w1) \<Rightarrow> (Fail (errorf_w ''applying node options failed: '' err), w1)
      | (Panic, s, w1) \<Rightarrow> (Panic, w1)
      | (Ret _, s, w1) \<Rightarrow>
          (case fxStart (stModules s) (map the (filter (\<lambda>c. c \<noteq> None) (stInvokes s))) w1 of
             (Some err, w2) \<Rightarrow> (Fail (errorf_w ''starting node: '' err), w2)
           | (None, w2) \<Rightarrow> (Ret (), w2)))"

section \<open>index.go\<close>

definition indexOptions :: "('l, 'cfg, 'w) repoEnv \<Rightarrow> ('l, 'cfg, 'w) nodeOption list" where
  "indexOptions R =
     [BoostAPI, Override (TypeKey ''dtypes.ShutdownChan'') (Ctor ''shutdownChan''), Base, RepoOpt R,
      Override (TypeKey ''v1api.FullNode'') (Ctor ''fullnodeApi'')]"

section \<open>Sequences of options\<close>

lemma Options_append:
  "Options (xs @ ys) x = (case Options xs x of (Ret _, x') \<Rightarrow> Options ys x' | (Fail err, x') \<Rightarrow> (Fail err, x') | (Panic, x') \<Rightarrow> (Panic, x'))"
  by (induction xs arbitrary: x) (simp_all split: prod.split outcome.split)

lemma Options_nested: "Options [Options xs, Options ys] x = Options (xs @ ys) x"
  by (auto simp: Options_append split: prod.split outcome.split)

lemmas node_keys = InitJournalKey_def CheckFDLimit_def StartJobKey_def nInvokes_def
lemmas node_options = defaultOpts_def BoostNode_def Base_def ConfigCommon_def ConfigBoost_def BoostAPI_def ApplyIf_def
  ErrorOpt_def Override_def newSettings_def node_keys

text \<open>The modules of the index node.\<close>

definition indexModules :: "'l \<Rightarrow> 'cfg \<Rightarrow> (nodeKey \<times> ('l, 'cfg) nodeCtor) list" where
  "indexModules lr cfg = map (apfst TypeKey)
     [(''journal.DisabledEvents'', Ctor ''journal.EnvDisabledEvents''), (''journal.Journal'', Ctor ''modules.OpenFilesystemJournal''),
      (''*alerting.Alerting'', Ctor ''alerting.NewAlertingSystem''), (''helpers.MetricsCtx'', Ctor ''metrics.CtxScope''),
      (''dtypes.ShutdownChan'', Ctor ''shutdownChan''), (''dtypes.MinerAddress'', Ctor ''modules.MinerAddress''),
      (''dtypes.MinerID'', Ctor ''modules.MinerID''), (''*sql.DB'', Ctor ''modules.NewBoostDB''),
      (''*db.DirectDealsDB'', Ctor ''modules.NewDirectDealsDB''), (''repo.LockedRepo'', LockedCtor lr),
      (''dtypes.MetadataDS'', CfgCtor ''modules.Datastore'' cfg), (''*bdclient.Store'', CfgCtor ''modules.NewPieceDirectoryStore'' cfg),
      (''*lib.MultiMinerAccessor'', CfgCtor ''modules.NewMultiminerSectorAccessor'' cfg),
      (''*piecedirectory.PieceDirectory'', CfgCtor ''modules.NewPieceDirectory'' cfg), (''v1api.FullNode'', Ctor ''fullnodeApi'')]"

text \<open>The settings when the repository is reached: everything before it succeeds.\<close>

definition beforeRepo :: "('l, 'cfg) Settings" where
  "beforeRepo = newSettings\<lparr>stNodeType := ''Boost'', stBase := True,
     stInvokes := [None, Some (Ctor ''modules.CheckFdLimit''), None],
     stModules := map_of (map (apfst TypeKey)
       [(''journal.DisabledEvents'', Ctor ''journal.EnvDisabledEvents''), (''journal.Journal'', Ctor ''modules.OpenFilesystemJournal''),
        (''*alerting.Alerting'', Ctor ''alerting.NewAlertingSystem''), (''helpers.MetricsCtx'', Ctor ''metrics.CtxScope''),
        (''dtypes.ShutdownChan'', Ctor ''shutdownChan''), (''dtypes.MinerAddress'', Ctor ''modules.MinerAddress''),
        (''dtypes.MinerID'', Ctor ''modules.MinerID''), (''*sql.DB'', Ctor ''modules.NewBoostDB''),
        (''*db.DirectDealsDB'', Ctor ''modules.NewDirectDealsDB'')])\<rparr>"

lemma before_repo:
  "Options (defaultOpts @ [BoostAPI, Override (TypeKey ''dtypes.ShutdownChan'') (Ctor ''shutdownChan''), Base]) (newSettings, w) =
    (Ret (), beforeRepo, w)"
  by (simp add: node_options beforeRepo_def numeral_eq_Suc fun_eq_iff)

lemma after_repo:
  "Options [Override (TypeKey ''repo.LockedRepo'') (LockedCtor lr), ConfigBoost cfg] (beforeRepo, w) =
    (Ret (), beforeRepo\<lparr>stConfig := True,
       stInvokes := [None, Some (Ctor ''modules.CheckFdLimit''), Some (Ctor ''startJob'')],
       stModules := (map_of (indexModules lr cfg))(TypeKey ''v1api.FullNode'' := None)\<rparr>, w)"
  by (simp add: node_options beforeRepo_def indexModules_def numeral_eq_Suc fun_eq_iff)

definition indexSettings :: "'l \<Rightarrow> 'cfg \<Rightarrow> ('l, 'cfg) Settings" where
  "indexSettings lr cfg =
     \<lparr>stModules = map_of (indexModules lr cfg),
      stInvokes = [None, Some (Ctor ''modules.CheckFdLimit''), Some (Ctor ''startJob'')],
      stNodeType = ''Boost'', stBase = True, stConfig = True, stLite = False\<rparr>"

lemma last_option:
  "Override (TypeKey ''v1api.FullNode'') (Ctor ''fullnodeApi'') (beforeRepo\<lparr>stConfig := True,
       stInvokes := [None, Some (Ctor ''modules.CheckFdLimit''), Some (Ctor ''startJob'')],
       stModules := (map_of (indexModules lr cfg))(TypeKey ''v1api.FullNode'' := None)\<rparr>, w) =
    (Ret (), indexSettings lr cfg, w)"
  by (simp add: Override_def indexSettings_def beforeRepo_def newSettings_def fun_eq_iff) (simp add: indexModules_def)

lemma applyNew_index:
  "applyNew (indexOptions R) w =
    (case RepoOpt R (beforeRepo, w) of
       (Ret _, s, w') \<Rightarrow> Override (TypeKey ''v1api.FullNode'') (Ctor ''fullnodeApi'') (s, w')
     | (Fail err, x) \<Rightarrow> (Fail err, x) | (Panic, x) \<Rightarrow> (Panic, x))"
proof -
  have split: "defaultOpts @ indexOptions R =
      (defaultOpts @ [BoostAPI, Override (TypeKey ''dtypes.ShutdownChan'') (Ctor ''shutdownChan''), Base]) @
      [RepoOpt R, Override (TypeKey ''v1api.FullNode'') (Ctor ''fullnodeApi'')]"
    by (simp add: indexOptions_def)
  have "fst (Override (TypeKey k) c x) = Ret ()" for k and c :: "('l, 'cfg) nodeCtor" and x :: "('l, 'cfg) Settings \<times> 'w"
    by (simp add: Override_def)
  then have fin: "Options [Override (TypeKey k) c] x = Override (TypeKey k) c x"
    for k and c :: "('l, 'cfg) nodeCtor" and x :: "('l, 'cfg) Settings \<times> 'w"
    by (cases "Override (TypeKey k) c x") (simp add: Override_def)
  show ?thesis
    unfolding applyNew_def Options_nested split Options_append [of "defaultOpts @ _"] before_repo
    by (simp add: fin split: prod.split outcome.split)
qed

lemma RepoOpt_config: "RepoOpt R x = (Ret u, y) \<Longrightarrow> stConfig (fst y)"
  by (auto simp: RepoOpt_def ConfigBoost_def ConfigCommon_def Override_def node_keys
      split: prod.splits sum.splits option.splits outcome.splits if_splits)

lemma Base_config: "stConfig (fst x) \<Longrightarrow> fst (Options [Base] x) \<noteq> Ret ()"
  by (simp add: Base_def ApplyIf_def ErrorOpt_def)

lemma index_node_run:
  "case applyNew (indexOptions R) w of
      (Ret _, s, w') \<Rightarrow> \<exists>lr w1 cfg. reLock R ''Boost'' w = (Inr lr, w1) \<and>
         (if reIsMem R then (Ret (), w1) else reMigrate R lr w1) = (Ret (), w') \<and>
         reConfig R lr w' = Inr (Some cfg) \<and> s = indexSettings lr cfg
    | (Fail err, s, w') \<Rightarrow>
         (case reLock R ''Boost'' w of
            (Inl e, w1) \<Rightarrow> err = e
          | (Inr lr, w1) \<Rightarrow>
              (\<exists>e. \<not> reIsMem R \<and> reMigrate R lr w1 = (Fail e, w')) \<or>
              ((if reIsMem R then (Ret (), w1) else reMigrate R lr w1) = (Ret (), w') \<and>
               (\<forall>cfg. reConfig R lr w' \<noteq> Inr (Some cfg))))
    | (Panic, s, w') \<Rightarrow> \<exists>lr w1. reLock R ''Boost'' w = (Inr lr, w1) \<and> \<not> reIsMem R \<and> reMigrate R lr w1 = (Panic, w')"
proof -
  have nt: "stNodeType beforeRepo = ''Boost''" by (simp add: beforeRepo_def)
  show ?thesis
    unfolding applyNew_index RepoOpt_def fst_conv snd_conv nt after_repo
    by (auto simp: last_option split: prod.splits sum.splits option.splits outcome.splits if_splits)
qed

lemma index_node_ret:
  "applyNew (indexOptions R) w = (Ret u, s, w') \<Longrightarrow> \<exists>lr w1 cfg. reLock R ''Boost'' w = (Inr lr, w1) \<and>
     (if reIsMem R then (Ret (), w1) else reMigrate R lr w1) = (Ret (), w') \<and>
     reConfig R lr w' = Inr (Some cfg) \<and> s = indexSettings lr cfg"
  using index_node_run [of R w] by simp

text \<open>
  The node of the index command: its options succeed exactly when the repository is locked as \<open>Boost\<close>, its
  configuration is migrated (unless it is in memory) and read, in this order. Then the library gets exactly the fifteen
  modules below, the last option for a type, and runs the check of the file limit before the job. The only panic
  is one of the migration. A \<open>Base\<close> after the repository is refused.
\<close>

theorem index_node_settings:
  "(case applyNew (indexOptions R) w of
      (Ret _, s, w') \<Rightarrow> \<exists>lr w1 cfg. reLock R ''Boost'' w = (Inr lr, w1) \<and>
         (if reIsMem R then (Ret (), w1) else reMigrate R lr w1) = (Ret (), w') \<and>
         reConfig R lr w' = Inr (Some cfg) \<and> s = indexSettings lr cfg
    | (Fail err, s, w') \<Rightarrow>
         (case reLock R ''Boost'' w of
            (Inl e, w1) \<Rightarrow> err = e
          | (Inr lr, w1) \<Rightarrow>
              (\<exists>e. \<not> reIsMem R \<and> reMigrate R lr w1 = (Fail e, w')) \<or>
              ((if reIsMem R then (Ret (), w1) else reMigrate R lr w1) = (Ret (), w') \<and>
               (\<forall>cfg. reConfig R lr w' \<noteq> Inr (Some cfg))))
    | (Panic, s, w') \<Rightarrow> \<exists>lr w1. reLock R ''Boost'' w = (Inr lr, w1) \<and> \<not> reIsMem R \<and> reMigrate R lr w1 = (Panic, w')) \<and>
   fst (applyNew [BoostAPI, RepoOpt R, Base] w) \<noteq> Ret ()"
proof (rule conjI, rule index_node_run)
  have e: "defaultOpts @ [BoostAPI, RepoOpt R, Base] = (defaultOpts @ [BoostAPI, RepoOpt R]) @ [Base]" by simp
  have c: "stConfig (fst x)" if "Options (defaultOpts @ [BoostAPI, RepoOpt R]) (newSettings, w) = (Ret u, x)" for u x
  proof -
    from that obtain y z where "RepoOpt R y = (Ret u, z)" "Options [] z = (Ret u, x)"
      unfolding Options_append [of "defaultOpts @ [BoostAPI]" "[RepoOpt R]", simplified]
      by (auto split: prod.splits outcome.splits)
    with RepoOpt_config [of R y u z] show ?thesis by simp
  qed
  show "fst (applyNew [BoostAPI, RepoOpt R, Base] w) \<noteq> Ret ()"
    unfolding applyNew_def Options_nested e Options_append [of "defaultOpts @ [BoostAPI, RepoOpt R]" "[Base]"]
    using c by (auto simp: Base_config simp del: Options.simps split: prod.split outcome.split)
qed

section \<open>The index node on a file repository\<close>

text \<open>
  C37: When the options of the index node succeed on a repository on disk with a configuration of an earlier version, the
  configuration file is then a link to the one of the current version, which means what the old one meant, the old text is
  kept, and the constructors of the node get the configuration that was read after the migration.
\<close>

theorem index_node_migrates_config:
  assumes n: "applyNew (indexOptions R) s = (Ret u, st, s')" and disk: "\<not> reIsMem R"
    and m: "reMigrate R = (\<lambda>lr. ConfigMigrate M repo)"
    and lock: "reLock R ''Boost'' s = (Inr lr, s1)"
    and v: "versionFromFile M s1 (repo @ [''config.toml'']) = Inr v" "v < CurrentVersion"
    and plain: "plainConfigDir s1 (repo @ [''config''])"
  shows "\<exists>c old cfg c'. os_ReadFile (meErrs M) s1 (repo @ [''config.toml'']) = Inr c \<and>
    FromReader (meCfg M) c (meDefault M) = Inr old \<and>
    s' (repo @ [''config.toml'']) = Some (SymLink [''config'', versionFilename CurrentVersion]) \<and>
    s' (versionFile repo v) = Some (RegFile c) \<and> s' (versionFile repo CurrentVersion) = Some (RegFile c') \<and>
    FromReader (meCfg M) c' (meDefault M) = Inr (old\<lparr>ConfigVersion := CurrentVersion\<rparr>) \<and>
    reConfig R lr s' = Inr (Some cfg) \<and> st = indexSettings lr cfg"
proof -
  from n lock disk m obtain cfg where r: "ConfigMigrate M repo s1 = (Ret (), s')"
    "reConfig R lr s' = Inr (Some cfg)" "st = indexSettings lr cfg"
    using index_node_ret [OF n] by auto
  from migrate_up_files(1) [OF r(1) [unfolded ConfigMigrate_def] v plain] r(2,3) v(2) show ?thesis by blast
qed

definition demoRepo :: "(unit, unit, fs) repoEnv" where
  "demoRepo = \<lparr>reLock = (\<lambda>t s. (Inr (), s)), reIsMem = False, reMigrate = (\<lambda>lr. ConfigMigrate demoMig [''r'']),
     reConfig = (\<lambda>lr s. Inr (Some ()))\<rparr>"

theorem index_node_migrates_config_witness:
  "\<exists>s'. applyNew (indexOptions demoRepo) demoFs = (Ret (), indexSettings () (), s') \<and>
    s' [''r'', ''config.toml''] = Some (SymLink [''config'', ''config.toml.6''])"
proof -
  obtain s' where s': "configMigrate demoMig [''r''] 6 demoFs = (Ret (), s')" using demo_migrates by blast
  have nt: "stNodeType beforeRepo = ''Boost''" by (simp add: beforeRepo_def)
  have n: "applyNew (indexOptions demoRepo) demoFs = (Ret (), indexSettings () (), s')"
    unfolding applyNew_index RepoOpt_def fst_conv snd_conv nt after_repo
    by (simp add: demoRepo_def ConfigMigrate_def CurrentVersion_def s' after_repo last_option del: Options.simps)
  have "versionFromFile demoMig demoFs ([''r''] @ [''config.toml'']) = Inr 5"
    using demo_version by simp
  from index_node_migrates_config [OF n _ _ _ this _ demo_plain] n show ?thesis
    by (auto simp: demoRepo_def CurrentVersion_def demo_file_names)
qed

end
