(* ===== verification/IndexJob.thy ===== *)
theory IndexJob
  imports DirectDealsProps Accessors
begin

text \<open>
  What the index node does when it starts: the job of \<open>node/builder.go\<close> over the store of direct deals and the piece
  directory, and the lifecycle hooks of \<open>lib/boost/node/modules/piecedirectory.go\<close> and \<open>lib/boostd-data/svc/svc.go\<close>
  that start the index service, its client and the accessor of the miners.
\<close>

section \<open>builder.go: the job\<close>

definition jobIdText :: string where
  "jobIdText = ''a1c9f6e2-027d-490a-83b5-ee23e24147cf''"

definition jobDealInfo :: "DirectDeal \<Rightarrow> DealInfo" where
  "jobDealInfo d =
     \<lparr>DealUuid = ddId d, IsLegacy = False, ChainDealID = ddAllocationID d, MinerAddr = ddProvider d,
      SectorID = ddSectorID d, PieceOffset = ddOffset d, PieceLength = ddLength d,
      CarLength = word_of_int (ddInboundFileSize d), IsDirectDeal = True\<rparr>"

text \<open>The deal comes from the database (\<open>byID\<close>); nothing of the job writes to the index.\<close>

definition nodeJob ::
  "(string \<Rightarrow> goerr + string) \<Rightarrow> (string \<Rightarrow> goerr + DirectDeal) \<Rightarrow> 's lidService \<Rightarrow> ('r, 'g) pdEnv \<Rightarrow> 's \<Rightarrow> goerr option" where
  "nodeJob uuidParse byID svc E s =
     (case uuidParse jobIdText of
        Inl err \<Rightarrow> Some err
      | Inr jobId \<Rightarrow>
          (case byID jobId of
             Inl err \<Rightarrow> Some err
           | Inr deal \<Rightarrow>
               (case PD_TxAddDealForPiece svc E s (ddPieceCID deal) (jobDealInfo deal) of
                  Some err \<Rightarrow> Some err
                | None \<Rightarrow> None)))"

section \<open>svc.go\<close>

datatype lidBackend = BackendYugabyte | BackendLevelDB string

text \<open>
  The calls that the hooks make, over an opaque state: making a directory, listening, starting a store, and dialing a
  service. \<open>hkServe\<close> starts the server of the listener.
\<close>

record 'w hookEnv =
  hkMkdirAll :: "string \<Rightarrow> 'w \<Rightarrow> goerr option \<times> 'w"
  hkListen :: "string \<Rightarrow> 'w \<Rightarrow> goerr option \<times> 'w"
  hkStoreStart :: "lidBackend \<Rightarrow> 'w \<Rightarrow> goerr option \<times> 'w"
  hkServe :: "lidBackend \<Rightarrow> 'w \<Rightarrow> 'w"
  hkDial :: "string \<Rightarrow> 'w \<Rightarrow> goerr option \<times> 'w"

definition MakeLevelDBDir :: "'w hookEnv \<Rightarrow> string \<Rightarrow> 'w \<Rightarrow> (goerr + string) \<times> 'w" where
  "MakeLevelDBDir H repoPath w =
     (let repoPath = filepathJoin [repoPath, ''lid'', ''leveldb''] in
      case hkMkdirAll H repoPath w of
        (Some err, w') \<Rightarrow> (Inl (errorf_w (''creating leveldb repo directory '' @ repoPath @ '': '') err), w')
      | (None, w') \<Rightarrow> (Inr repoPath, w'))"

definition NewLevelDB :: "'w hookEnv \<Rightarrow> string \<Rightarrow> 'w \<Rightarrow> (goerr + lidBackend) \<times> 'w" where
  "NewLevelDB H repoPath w =
     (if repoPath \<noteq> [] then
        (case MakeLevelDBDir H repoPath w of
           (Inl err, w') \<Rightarrow> (Inl err, w')
         | (Inr repoPath, w') \<Rightarrow> (Inr (BackendLevelDB repoPath), w'))
      else (Inr (BackendLevelDB []), w))"

definition Service_Start :: "'w hookEnv \<Rightarrow> lidBackend \<Rightarrow> string \<Rightarrow> 'w \<Rightarrow> goerr option \<times> 'w" where
  "Service_Start H impl addr w =
     (case hkListen H addr w of
        (Some err, w1) \<Rightarrow> (Some (errorf_w ''setting up listener for local index directory service: '' err), w1)
      | (None, w1) \<Rightarrow>
          (case hkStoreStart H impl w1 of
             (Some err, w2) \<Rightarrow> (Some (errorf_w ''starting local index directory service: '' err), w2)
           | (None, w2) \<Rightarrow> (None, hkServe H impl w2)))"

section \<open>modules/piecedirectory.go\<close>

record lidConfig =
  lcServiceApiInfo :: string
  lcEmbeddedServicePort :: u64
  lcYugabyteEnabled :: bool
  lcLeveldbEnabled :: bool
  lcRepoPath :: string
  lcGraphsyncStorageAccessApiInfo :: "string list"
  lcSectorIndexApiInfo :: string

definition pieceStoreStart :: "'w hookEnv \<Rightarrow> lidConfig \<Rightarrow> 'w \<Rightarrow> goerr option \<times> 'w" where
  "pieceStoreStart H cfg w =
     (if lcServiceApiInfo cfg \<noteq> [] then hkDial H (lcServiceApiInfo cfg) w
      else
        let port = lcEmbeddedServicePort cfg in
        if port = 0 then
          (Some (errorf (''starting local index directory client:'' @
             ''either LocalIndexDirectory.ServiceApiInfo must be defined or '' @
             ''LocalIndexDirectory.EmbeddedServicePort must be non-zero'')), w)
        else
          let (bdsvc, w1) =
            (if lcYugabyteEnabled cfg then (Inr BackendYugabyte, w)
             else if lcLeveldbEnabled cfg then
               (case NewLevelDB H (lcRepoPath cfg) w of
                  (Inl err, w1) \<Rightarrow> (Inl (errorf_w ''creating leveldb local index directory: '' err), w1)
                | (Inr b, w1) \<Rightarrow> (Inr b, w1))
             else (Inl (errorf ''starting local index directory client: neither yugabyte nor leveldb is enabled in config''), w))
          in case bdsvc of
               Inl err \<Rightarrow> (Some err, w1)
             | Inr impl \<Rightarrow>
                 (let addr = ''localhost:'' @ show_int (sint port) in
                  case Service_Start H impl addr w1 of
                    (Some err, w2) \<Rightarrow> (Some (errorf_w ''starting local index directory service: '' err), w2)
                  | (None, w2) \<Rightarrow> hkDial H (''ws://'' @ addr) w2))"

definition accessorEndpoints :: "lidConfig \<Rightarrow> string list" where
  "accessorEndpoints cfg =
     (let storageApiInfos = lcGraphsyncStorageAccessApiInfo cfg in
      if length storageApiInfos = 0 then [lcSectorIndexApiInfo cfg] else storageApiInfos)"

definition NewMultiminerSectorAccessor :: "lidConfig \<Rightarrow> 'r mma" where
  "NewMultiminerSectorAccessor cfg = NewMultiMinerAccessor (accessorEndpoints cfg)"

text \<open>The hook of the piece directory; starting the directory itself starts its reader cache and cannot fail.\<close>

definition pieceDirStart :: "'r apiEnv \<Rightarrow> 'r mma \<Rightarrow> apiWorld \<Rightarrow> goerr option \<times> 'r mma \<times> apiWorld" where
  "pieceDirStart A sa w =
     (case MM_Start A sa w of
        (Some err, sa', w') \<Rightarrow> (Some (errorf_w ''starting piece directory: connecting to miners: '' err), sa', w')
      | (None, sa', w') \<Rightarrow> (None, sa', w'))"

definition pieceDirStop :: "'r mma \<Rightarrow> apiWorld \<Rightarrow> 'r mma \<times> apiWorld" where
  "pieceDirStop sa w = MM_Close sa w"

section \<open>What the job reads\<close>

definition parsesPiece :: "('r, 'g) pdEnv \<Rightarrow> u64 \<Rightarrow> 'r \<Rightarrow> bool" where
  "parsesPiece E len r \<longleftrightarrow>
     (\<exists>recs. parsePieceWithDataSegmentIndex E (unpadded E len) r = Inr recs) \<or>
     (\<exists>recs. seekStart E r 0 = None \<and> parseRecordsFromCar E r None = Inr recs)"

lemma addIndexForPiece_None:
  "addIndexForPiece E p dl = None \<longleftrightarrow> (\<exists>r. dealReader E dl = Inr r \<and> parsesPiece E (PieceLength dl) r)"
  by (auto simp: addIndexForPiece_def parsesPiece_def split: sum.split option.split)

lemma MM_GetReader_Inr:
  "MM_GetReader a unpad m sid ofs len = Inr r \<longleftrightarrow>
    (\<exists>sa. mmReaders a m = Some sa \<and> saIsUnsealed sa sid (unpad ofs) (unpad len) = Inr True \<and>
       saUnsealSectorAt sa sid (unpad ofs) (unpad len) = Inr r)"
  by (auto simp: MM_GetReader_def SA_GetReader_def split: option.split sum.split)

text \<open>
  C38: The job of the index node succeeds exactly when the deal with its ID is in the database, the index service answers for
  the piece and the index operation for the piece succeeds. One that the job runs itself succeeds exactly when the
  miner of the deal has an endpoint that reports the deal's part of its sector as unsealed and gives a reader over it,
  and the piece parses, with its data segment index or as one CAR; the part is the one that was stored with the deal.
  When another call is indexing the piece the job takes over that one's result, and it fails when its context is done first.
\<close>

theorem index_job_reads_deal:
  assumes db: "ddTable S flds tab" "ddHolds F (tab db) m" "ddScans F scanErr"
      "set flds = UNIV" "set order = UNIV" "D = newDirectDealsAccessor F scanErr"
    and E: "E = E0\<lparr>getReader := MM_GetReader a (unpadded E0)\<rparr>"
    and uuid: "uuidParse jobIdText = Inr jobIdText"
  shows "nodeJob uuidParse (dd_ByID S D flds order db) svc E s = None \<longleftrightarrow>
    (\<exists>d indexed. m jobIdText = Some d \<and> svcIsIndexed svc s (ddPieceCID d) = Inr indexed \<and>
       (case idxTurn E (ddPieceCID d) (jobDealInfo d) of
          RunsIt \<Rightarrow> \<exists>sa r. mmReaders a (ddProvider d) = Some sa \<and>
            saIsUnsealed sa (ddSectorID d) (unpadded E (ddOffset d)) (unpadded E (ddLength d)) = Inr True \<and>
            saUnsealSectorAt sa (ddSectorID d) (unpadded E (ddOffset d)) (unpadded E (ddLength d)) = Inr r \<and>
            parsesPiece E (ddLength d) r
        | JoinsOp opErr \<Rightarrow> opErr = None
        | CtxDone err \<Rightarrow> False))"
proof (cases "m jobIdText")
  case None
  with ByID_holds [OF db, of jobIdText] uuid show ?thesis by (simp add: nodeJob_def)
next
  case (Some d)
  have u: "unpadded E = unpadded E0" by (simp add: E)
  have tx: "PD_TxAddDealForPiece svc E s (ddPieceCID d) (jobDealInfo d) = None \<longleftrightarrow>
      (\<exists>indexed. svcIsIndexed svc s (ddPieceCID d) = Inr indexed) \<and>
      addIndexForPieceThrottled E (ddPieceCID d) (jobDealInfo d) = None"
    by (auto simp: PD_TxAddDealForPiece_def split: sum.split option.split)
  have rd: "dealReader E (jobDealInfo d) = MM_GetReader a (unpadded E) (ddProvider d) (ddSectorID d) (ddOffset d) (ddLength d)"
    by (simp add: E jobDealInfo_def)
  have len: "PieceLength (jobDealInfo d) = ddLength d" by (simp add: jobDealInfo_def)
  have n: "nodeJob uuidParse (dd_ByID S D flds order db) svc E s = PD_TxAddDealForPiece svc E s (ddPieceCID d) (jobDealInfo d)"
    using ByID_holds [OF db, of jobIdText] uuid Some by (simp add: nodeJob_def split: option.split)
  show ?thesis
  proof (cases "idxTurn E (ddPieceCID d) (jobDealInfo d)")
    case RunsIt
    then have "addIndexForPieceThrottled E (ddPieceCID d) (jobDealInfo d) = None \<longleftrightarrow>
        addIndexForPiece E (ddPieceCID d) (jobDealInfo d) = None" by (simp add: addIndexForPieceThrottled_def)
    then show ?thesis
      unfolding n tx addIndexForPiece_None rd MM_GetReader_Inr unfolding len using Some RunsIt by auto
  next
    case (JoinsOp r)
    with Some show ?thesis unfolding n tx by (simp add: addIndexForPieceThrottled_def)
  next
    case (CtxDone err)
    with Some show ?thesis unfolding n tx by (simp add: addIndexForPieceThrottled_def)
  qed
qed

section \<open>Starting the index service\<close>

definition chosenBackend :: "lidConfig \<Rightarrow> lidBackend option" where
  "chosenBackend cfg =
     (if lcYugabyteEnabled cfg then Some BackendYugabyte
      else if lcLeveldbEnabled cfg then
        Some (BackendLevelDB (if lcRepoPath cfg = [] then [] else filepathJoin [lcRepoPath cfg, ''lid'', ''leveldb'']))
      else None)"

text \<open>
  The start hook of the index client: with an external service it only dials that one. Otherwise it fails, having done
  nothing, without a port or a backend; and it succeeds exactly when the chosen backend, YugabyteDB if both
  are enabled, has its directory, the listener, the store and the connection to it, in this order.
\<close>

theorem piece_store_start:
  assumes "pieceStoreStart H cfg w = (e, w')"
  shows "(lcServiceApiInfo cfg \<noteq> [] \<longrightarrow> (e, w') = hkDial H (lcServiceApiInfo cfg) w) \<and>
    (lcServiceApiInfo cfg = [] \<and> (lcEmbeddedServicePort cfg = 0 \<or> chosenBackend cfg = None) \<longrightarrow> e \<noteq> None \<and> w' = w) \<and>
    (lcServiceApiInfo cfg = [] \<and> e = None \<longrightarrow>
      (\<exists>impl w1 w2 w3. chosenBackend cfg = Some impl \<and>
        (if lcYugabyteEnabled cfg \<or> lcRepoPath cfg = [] then w1 = w
         else hkMkdirAll H (filepathJoin [lcRepoPath cfg, ''lid'', ''leveldb'']) w = (None, w1)) \<and>
        hkListen H (''localhost:'' @ show_int (sint (lcEmbeddedServicePort cfg))) w1 = (None, w2) \<and>
        hkStoreStart H impl w2 = (None, w3) \<and>
        hkDial H (''ws://localhost:'' @ show_int (sint (lcEmbeddedServicePort cfg))) (hkServe H impl w3) = (None, w')))"
  using assms
  by (auto simp: pieceStoreStart_def chosenBackend_def NewLevelDB_def MakeLevelDBDir_def Service_Start_def Let_def
      split: if_splits option.splits sum.splits prod.splits)

section \<open>A concrete node\<close>

definition jobDeal :: DirectDeal where
  "jobDeal = zeroDirectDeal\<lparr>ddId := jobIdText, ddProvider := ''m'', ddSectorID := 3, ddLength := 128\<rparr>"

theorem index_job_reads_deal_witness:
  "nodeJob Inr (dd_ByID memDb (newDirectDealsAccessor demoFe (\<lambda>f v. None)) allFields allFields
      [jobIdText \<mapsto> ddRow demoFe jobDeal]) (ldbService demoWorld)
      (demoPd\<lparr>getReader := MM_GetReader demoMm (unpadded demoPd)\<rparr>) (demo2, initChecker) = None"
proof -
  let ?m = "[jobIdText \<mapsto> jobDeal]" and ?E = "demoPd\<lparr>getReader := MM_GetReader demoMm (unpadded demoPd)\<rparr>"
  have g: "ddGood demoFe jobDeal" by (simp add: ddGood_def demoFe_def jobDeal_def zeroDirectDeal_def)
  have h: "ddHolds demoFe [jobIdText \<mapsto> ddRow demoFe jobDeal] ?m"
    using g by (auto simp: ddHolds_def jobDeal_def fun_eq_iff)
  have sc: "ddScans demoFe (\<lambda>f v. None)" by (simp add: ddScans_def)
  obtain b where ix: "svcIsIndexed (ldbService demoWorld) (demo2, initChecker) (ddPieceCID jobDeal) = Inr b"
    using IsIndexed_lid [OF demo_ok demo2_lid(1)] by (auto simp: ldbService_def)
  have ps: "parsesPiece ?E (ddLength jobDeal) ()"
    by (auto simp: parsesPiece_def parseRecordsFromCar_def demoPd_def errors_Is_def)
  have turn: "idxTurn ?E p dl = RunsIt" for p dl by (simp add: demoPd_def)
  have sa: "\<exists>sa. mmReaders demoMm m = Some sa \<and> saIsUnsealed sa n o' l = Inr True \<and> saUnsealSectorAt sa n o' l = Inr ()"
    for m n o' l by (simp add: demoMm_def Let_def)
  show ?thesis
    using index_job_reads_deal [where tab = "\<lambda>t. t" and uuidParse = Inr and svc = "ldbService demoWorld" and
        s = "(demo2, initChecker)", OF memDb_table h sc allFields_all allFields_all refl refl refl] ix ps sa turn by fastforce
qed

definition demoHooks :: "unit hookEnv" where
  "demoHooks = \<lparr>hkMkdirAll = (\<lambda>p w. (None, w)), hkListen = (\<lambda>a w. (None, w)), hkStoreStart = (\<lambda>b w. (None, w)),
     hkServe = (\<lambda>b w. w), hkDial = (\<lambda>a w. (None, w))\<rparr>"

definition demoLidConfig :: lidConfig where
  "demoLidConfig = \<lparr>lcServiceApiInfo = [], lcEmbeddedServicePort = 8042, lcYugabyteEnabled = True,
     lcLeveldbEnabled = True, lcRepoPath = ''r'', lcGraphsyncStorageAccessApiInfo = [], lcSectorIndexApiInfo = ''a:b''\<rparr>"

theorem piece_store_start_witness:
  "pieceStoreStart demoHooks demoLidConfig () = (None, ()) \<and> chosenBackend demoLidConfig = Some BackendYugabyte"
proof -
  have s: "pieceStoreStart demoHooks demoLidConfig () = (None, ())"
    by (simp add: pieceStoreStart_def demoHooks_def demoLidConfig_def Service_Start_def Let_def)
  from piece_store_start [OF s] have "\<exists>impl. chosenBackend demoLidConfig = Some impl"
    by (auto simp: demoLidConfig_def)
  with s show ?thesis by (simp add: chosenBackend_def demoLidConfig_def)
qed

end
