(* ===== verification/BoostConfig.thy ===== *)
theory BoostConfig
  imports IndexJob IndexThrottle ConfigMigrateProps
begin

text \<open>
  The configuration of \<open>lib/boost/node/config/types.go\<close>, its default of \<open>def.go\<close>, and what the node takes from it:
  the settings of the index service and of the piece directory. Together the records are the part \<open>cfgRest\<close> of the
  configuration whose version \<open>ConfigFile\<close> migrates. The structures of lotus are type parameters; a \<open>Duration\<close>
  is its nanoseconds.
\<close>

section \<open>types.go\<close>

type_synonym duration = int

definition second :: duration where "second = 1000000000"
definition hour :: duration where "hour = 60 * minute"

text \<open>
  The structures of lotus: its API (with a listen address and a timeout), libp2p, pubsub and backup settings, and the
  amounts of FIL.
\<close>

record ('api, 'backup, 'libp2p, 'pubsub) CommonConfig =
  cmAPI :: 'api
  cmBackup :: 'backup
  cmLibp2p :: 'libp2p
  cmPubsub :: 'pubsub

record WalletsConfig =
  wlMiner :: string
  wlPublishStorageDeals :: string
  wlDealCollateral :: string
  wlPledgeCollateral :: string

record GraphqlConfig =
  gqListenAddress :: string
  gqPort :: u64

record TracingConfig =
  trEnabled :: bool
  trServiceName :: string
  trEndpoint :: string

record DealmakingConfig =
  dmConsiderOnlineStorageDeals :: bool
  dmConsiderOfflineStorageDeals :: bool
  dmConsiderOnlineRetrievalDeals :: bool
  dmConsiderOfflineRetrievalDeals :: bool
  dmConsiderVerifiedStorageDeals :: bool
  dmConsiderUnverifiedStorageDeals :: bool
  dmPieceCidBlocklist :: "cid list"
  dmExpectedSealDuration :: duration
  dmMaxDealStartDelay :: duration
  dmMaxProviderCollateralMultiplier :: u64
  dmMaxStagingDealsBytes :: int
  dmMaxStagingDealsPercentPerHost :: u64
  dmStartEpochSealingBuffer :: u64
  dmDealProposalLogDuration :: duration
  dmFilter :: string
  dmIsUnsealedCacheExpiry :: duration
  dmMaxTransferDuration :: duration
  dmRemoteCommp :: bool
  dmMaxConcurrentLocalCommp :: u64
  dmDealLogDurationDays :: int
  dmSealingPipelineCacheTimeout :: duration
  dmFundsTaggingEnabled :: bool

record ContractDealsConfig =
  cdEnabled :: bool
  cdAllowlistContracts :: "string list"
  cdFrom :: string

record IndexProviderAnnounceConfig =
  ianAnnounceOverHttp :: bool
  ianDirectAnnounceURLs :: "string list"

record IndexProviderHttpPublisherConfig =
  ihpEnabled :: bool
  ihpPublicHostname :: string
  ihpPort :: int
  ihpWithLibp2p :: bool

record IndexProviderConfig =
  ipEnable :: bool
  ipEntriesCacheCapacity :: int
  ipEntriesChunkSize :: int
  ipTopicName :: string
  ipPurgeCacheOnStart :: bool
  ipWebHost :: string
  ipAnnounce :: IndexProviderAnnounceConfig
  ipHttpPublisher :: IndexProviderHttpPublisherConfig
  ipDataTransferPublisher :: bool

record StorageConfig =
  scParallelFetchLimit :: int
  scStorageListRefreshDuration :: duration
  scRedeclareOnStorageListRefresh :: bool

record MonitoringConfig =
  moMpoolAlertEpochs :: int

record LocalIndexDirectoryYugabyteConfig =
  lyEnabled :: bool
  lyConnectString :: string
  lyHosts :: "string list"

record LocalIndexDirectoryLeveldbConfig =
  llEnabled :: bool

record LocalIndexDirectoryConfig =
  liYugabyte :: LocalIndexDirectoryYugabyteConfig
  liLeveldb :: LocalIndexDirectoryLeveldbConfig
  liParallelAddIndexLimit :: int
  liAddIndexConcurrency :: int
  liEmbeddedServicePort :: u64
  liServiceApiInfo :: string
  liServiceRPCTimeout :: duration
  liEnablePieceDoctor :: bool
  liLidCleanupInterval :: duration

record HttpDownloadConfig =
  hdHttpTransferMaxConcurrentDownloads :: u64
  hdHttpTransferStallCheckPeriod :: duration
  hdHttpTransferStallTimeout :: duration
  hdNChunks :: int
  hdAllowPrivateIPs :: bool

record GraphsyncRetrievalConfig =
  grSimultaneousTransfersForRetrieval :: u64
  grRetrievalLogDuration :: duration
  grStalledRetrievalTimeout :: duration
  grGraphsyncStorageAccessApiInfo :: "string list"
  grRetrievalFilter :: string

record BitswapRetrievalConfig =
  brBitswapPeerID :: string
  brBitswapPublicAddresses :: "string list"
  brBitswapPrivKeyFile :: string

record HTTPRetrievalConfig =
  hrHTTPRetrievalMultiaddr :: string

record RetrievalConfig =
  reGraphsync :: GraphsyncRetrievalConfig
  reBitswap :: BitswapRetrievalConfig
  reHTTP :: HTTPRetrievalConfig

record 'fil DealPublishConfig =
  dpManualDealPublish :: bool
  dpPublishMsgPeriod :: duration
  dpMaxDealsPerPublishMsg :: u64
  dpMaxPublishDealsFee :: 'fil

text \<open>All of a \<open>Boost\<close> but its version.\<close>

record ('common, 'fil) cfgRest =
  bcCommon :: 'common
  bcStorage :: StorageConfig
  bcSealerApiInfo :: string
  bcSectorIndexApiInfo :: string
  bcDealmaking :: DealmakingConfig
  bcDealpublish :: "'fil DealPublishConfig"
  bcWallets :: WalletsConfig
  bcGraphql :: GraphqlConfig
  bcMonitoring :: MonitoringConfig
  bcTracing :: TracingConfig
  bcLocalIndexDirectory :: LocalIndexDirectoryConfig
  bcContractDeals :: ContractDealsConfig
  bcHttpDownload :: HttpDownloadConfig
  bcRetrievals :: RetrievalConfig
  bcIndexProvider :: IndexProviderConfig

section \<open>def.go\<close>

definition DefaultAddIndexConcurrency :: int where "DefaultAddIndexConcurrency = 8"

text \<open>\<open>init\<close> reads \<open>LOTUS_MAX_TRAVERSAL_LINKS\<close>, a decimal number of 64 bits; any other value keeps the default.\<close>

definition MaxTraversalLinks :: "string \<Rightarrow> u64" where
  "MaxTraversalLinks env =
     (case (if env = [] then None else atoiDigits env 0) of
        None \<Rightarrow> 32 * push_bit 20 1
      | Some n \<Rightarrow> if n < 2 ^ 64 then word_of_int n else 32 * push_bit 20 1)"

text \<open>The values of lotus structures with the given fields and the others zero; \<open>MustParseFIL\<close> of a constant.\<close>

record ('api, 'backup, 'libp2p, 'pubsub, 'fil) lotusConfig =
  loAPI :: "string \<Rightarrow> duration \<Rightarrow> 'api"
  loBackup :: 'backup
  loLibp2p :: "string list \<Rightarrow> string list \<Rightarrow> string list \<Rightarrow> nat \<Rightarrow> nat \<Rightarrow> duration \<Rightarrow> 'libp2p"
  loPubsub :: 'pubsub
  loMustParseFIL :: "string \<Rightarrow> 'fil"

definition defCommon ::
  "('api, 'backup, 'libp2p, 'pubsub, 'fil) lotusConfig \<Rightarrow> ('api, 'backup, 'libp2p, 'pubsub) CommonConfig" where
  "defCommon L =
     \<lparr>cmAPI = loAPI L ''/ip4/127.0.0.1/tcp/1288/http'' (30 * second), cmBackup = loBackup L,
      cmLibp2p = loLibp2p L [''/ip4/0.0.0.0/tcp/0'', ''/ip6/::/tcp/0''] [] [] 150 180 (20 * second),
      cmPubsub = loPubsub L\<rparr>"

definition DefaultSimultaneousTransfers :: u64 where "DefaultSimultaneousTransfers = 20"

definition DefaultBoost ::
  "('api, 'backup, 'libp2p, 'pubsub, 'fil) lotusConfig \<Rightarrow>
    (('api, 'backup, 'libp2p, 'pubsub) CommonConfig, 'fil) cfgRest Boost" where
  "DefaultBoost L =
     \<lparr>ConfigVersion = 0, BoostRest =
       \<lparr>bcCommon = defCommon L,
        bcStorage = \<lparr>scParallelFetchLimit = 10, scStorageListRefreshDuration = hour * 1, scRedeclareOnStorageListRefresh = True\<rparr>,
        bcSealerApiInfo = [], bcSectorIndexApiInfo = [],
        bcDealmaking =
          \<lparr>dmConsiderOnlineStorageDeals = True, dmConsiderOfflineStorageDeals = True, dmConsiderOnlineRetrievalDeals = True,
           dmConsiderOfflineRetrievalDeals = True, dmConsiderVerifiedStorageDeals = True,
           dmConsiderUnverifiedStorageDeals = True, dmPieceCidBlocklist = [], dmExpectedSealDuration = hour * 24,
           dmMaxDealStartDelay = hour * 24 * 14, dmMaxProviderCollateralMultiplier = 2, dmMaxStagingDealsBytes = 0,
           dmMaxStagingDealsPercentPerHost = 0, dmStartEpochSealingBuffer = 480, dmDealProposalLogDuration = hour * 24,
           dmFilter = [], dmIsUnsealedCacheExpiry = 5 * minute, dmMaxTransferDuration = 24 * 3600 * second,
           dmRemoteCommp = False, dmMaxConcurrentLocalCommp = 1, dmDealLogDurationDays = 30,
           dmSealingPipelineCacheTimeout = 30 * second, dmFundsTaggingEnabled = True\<rparr>,
        bcDealpublish =
          \<lparr>dpManualDealPublish = False, dpPublishMsgPeriod = hour, dpMaxDealsPerPublishMsg = 8,
           dpMaxPublishDealsFee = loMustParseFIL L ''0.05''\<rparr>,
        bcWallets = \<lparr>wlMiner = [], wlPublishStorageDeals = [], wlDealCollateral = [], wlPledgeCollateral = []\<rparr>,
        bcGraphql = \<lparr>gqListenAddress = ''127.0.0.1'', gqPort = 8080\<rparr>,
        bcMonitoring = \<lparr>moMpoolAlertEpochs = 30\<rparr>,
        bcTracing = \<lparr>trEnabled = False, trServiceName = ''boostd'', trEndpoint = []\<rparr>,
        bcLocalIndexDirectory =
          \<lparr>liYugabyte = \<lparr>lyEnabled = False, lyConnectString = [], lyHosts = []\<rparr>, liLeveldb = \<lparr>llEnabled = False\<rparr>,
           liParallelAddIndexLimit = 4, liAddIndexConcurrency = DefaultAddIndexConcurrency, liEmbeddedServicePort = 8042,
           liServiceApiInfo = [], liServiceRPCTimeout = 15 * minute, liEnablePieceDoctor = True,
           liLidCleanupInterval = 6 * hour\<rparr>,
        bcContractDeals =
          \<lparr>cdEnabled = False, cdAllowlistContracts = [], cdFrom = ''0x0000000000000000000000000000000000000000''\<rparr>,
        bcHttpDownload =
          \<lparr>hdHttpTransferMaxConcurrentDownloads = 20, hdHttpTransferStallCheckPeriod = 30 * second,
           hdHttpTransferStallTimeout = 5 * minute, hdNChunks = 5, hdAllowPrivateIPs = False\<rparr>,
        bcRetrievals =
          \<lparr>reGraphsync =
             \<lparr>grSimultaneousTransfersForRetrieval = DefaultSimultaneousTransfers, grRetrievalLogDuration = hour * 24,
              grStalledRetrievalTimeout = second * 30, grGraphsyncStorageAccessApiInfo = [], grRetrievalFilter = []\<rparr>,
           reBitswap = \<lparr>brBitswapPeerID = [], brBitswapPublicAddresses = [], brBitswapPrivKeyFile = []\<rparr>,
           reHTTP = \<lparr>hrHTTPRetrievalMultiaddr = []\<rparr>\<rparr>,
        bcIndexProvider =
          \<lparr>ipEnable = True, ipEntriesCacheCapacity = 1024, ipEntriesChunkSize = 16384, ipTopicName = [],
           ipPurgeCacheOnStart = False, ipWebHost = ''cid.contact'',
           ipAnnounce = \<lparr>ianAnnounceOverHttp = False, ianDirectAnnounceURLs = [''https://cid.contact/ingest/announce'']\<rparr>,
           ipHttpPublisher = \<lparr>ihpEnabled = False, ihpPublicHostname = [], ihpPort = 3104, ihpWithLibp2p = False\<rparr>,
           ipDataTransferPublisher = False\<rparr>\<rparr>\<rparr>"

text \<open>A \<open>Duration\<close> is written and read as text by \<open>time\<close>; an error leaves the old value.\<close>

definition Duration_UnmarshalText :: "(string \<Rightarrow> goerr + duration) \<Rightarrow> duration \<Rightarrow> string \<Rightarrow> goerr option \<times> duration" where
  "Duration_UnmarshalText parseDuration dur t =
     (case parseDuration t of Inl err \<Rightarrow> (Some err, dur) | Inr d \<Rightarrow> (None, d))"

definition Duration_MarshalText :: "(duration \<Rightarrow> string) \<Rightarrow> duration \<Rightarrow> goerr + string" where
  "Duration_MarshalText durationString dur = Inr (durationString dur)"

section \<open>What the node takes from the configuration\<close>

text \<open>The part of the configuration that the index service and the accessor of the miners use.\<close>

definition lidConfigOf :: "('common, 'fil) cfgRest Boost \<Rightarrow> string \<Rightarrow> lidConfig" where
  "lidConfigOf cfg path =
     (let c = BoostRest cfg; li = bcLocalIndexDirectory c in
      \<lparr>lcServiceApiInfo = liServiceApiInfo li, lcEmbeddedServicePort = liEmbeddedServicePort li,
       lcYugabyteEnabled = lyEnabled (liYugabyte li), lcLeveldbEnabled = llEnabled (liLeveldb li), lcRepoPath = path,
       lcGraphsyncStorageAccessApiInfo = grGraphsyncStorageAccessApiInfo (reGraphsync (bcRetrievals c)),
       lcSectorIndexApiInfo = bcSectorIndexApiInfo c\<rparr>)"

text \<open>
  \<open>NewPieceDirectory\<close>: the throttle and the settings. The reader cache, which lives 30 seconds and holds 128 readers, is
  the theory \<open>ReaderCache\<close>. Making a channel of a negative size panics.
\<close>

record pdSettings =
  addIndexConcurrency :: int

definition WithAddIndexConcurrency :: "int \<Rightarrow> pdSettings \<Rightarrow> pdSettings" where
  "WithAddIndexConcurrency c s = s\<lparr>addIndexConcurrency := c\<rparr>"

definition NewPieceDirectory :: "int \<Rightarrow> (pdSettings \<Rightarrow> pdSettings) list \<Rightarrow> nat \<Rightarrow> (throttle \<times> pdSettings) outcome" where
  "NewPieceDirectory addIndexThrottleSize opts threads =
     (if addIndexThrottleSize < 0 then Panic
      else
        let s = fold (\<lambda>opt s. opt s) opts \<lparr>addIndexConcurrency = DefaultAddIndexConcurrency\<rparr>;
            s = (if addIndexConcurrency s = 0 then s\<lparr>addIndexConcurrency := DefaultAddIndexConcurrency\<rparr> else s)
        in Ret (thInit (nat addIndexThrottleSize) threads, s))"

definition pieceDirOf :: "('common, 'fil) cfgRest Boost \<Rightarrow> nat \<Rightarrow> (throttle \<times> pdSettings) outcome" where
  "pieceDirOf cfg threads =
     (let li = bcLocalIndexDirectory (BoostRest cfg) in
      NewPieceDirectory (liParallelAddIndexLimit li) [WithAddIndexConcurrency (liAddIndexConcurrency li)] threads)"

lemma slotCount_zero: "slotCount pcs = 0 \<Longrightarrow> t < length pcs \<Longrightarrow> \<not> holdsSlot (pcs ! t)"
  using slotCount_pos [of t pcs] by auto

inductive thRuns :: "(cid \<Rightarrow> DealInfo \<Rightarrow> goerr option) \<Rightarrow> throttle \<Rightarrow> throttle \<Rightarrow> bool" for idx where
  refl: "thRuns idx s s"
| step: "thRuns idx s s' \<Longrightarrow> thStep idx a s' = Some (Ret s'') \<Longrightarrow> thRuns idx s s''"

lemma thStep_cap: "thStep idx a s = Some (Ret s') \<Longrightarrow> thCap s' = thCap s"
  by (cases a) (auto simp: thGo_def thCall_def thCancel_def setPc_def Let_def
    split: if_splits option.splits thPc.splits)

lemma thRuns_cap: "thRuns idx s s' \<Longrightarrow> thCap s' = thCap s"
  by (induction rule: thRuns.induct) (auto dest: thStep_cap)

lemma thRuns_reachable: "thRuns idx s s' \<Longrightarrow> thReachable s \<Longrightarrow> thReachable s'"
  by (induction rule: thRuns.induct) (auto intro: thReachable.step)

text \<open>
  C39: The limit of parallel index operations, from the configuration to the throttle: a negative limit panics; with limit 0 no
  operation ever runs, and a caller that owns one is blocked until its context is cancelled; with a positive
  limit at most that many run, and one can start whenever fewer do. A concurrency of 0 means the default of 8.
\<close>

theorem piece_directory_limit:
  assumes "liParallelAddIndexLimit (bcLocalIndexDirectory (BoostRest cfg)) = limit"
  shows "(limit < 0 \<longrightarrow> pieceDirOf cfg threads = Panic) \<and>
    (0 \<le> limit \<longrightarrow> (\<exists>s0 st. pieceDirOf cfg threads = Ret (s0, st) \<and> addIndexConcurrency st \<noteq> 0 \<and>
      (\<forall>idx s. thRuns idx s0 s \<longrightarrow>
        int (cnt holdsSlot (thPcs s)) \<le> limit \<and>
        (\<forall>t p dl n. t < length (thPcs s) \<and> thPcs s ! t = Queued p dl n \<longrightarrow>
          (thStep idx (Go t) s \<noteq> None \<longleftrightarrow> int (cnt holdsSlot (thPcs s)) < limit)))))"
proof -
  have inv: "thCap s = nat limit" "thSlots s = cnt holdsSlot (thPcs s)" "thSlots s \<le> thCap s"
    if "thRuns idx (thInit (nat limit) threads) s" for idx s
  proof -
    from thReachable_inv [OF thRuns_reachable [OF that thReachable.init]] have "thInv s" .
    from thInvD(1,2) [OF this] thRuns_cap [OF that]
    show "thCap s = nat limit" "thSlots s = cnt holdsSlot (thPcs s)" "thSlots s \<le> thCap s"
      by (simp_all add: slotCount_def thInit_def)
  qed
  obtain st where st: "0 \<le> limit \<Longrightarrow> pieceDirOf cfg threads = Ret (thInit (nat limit) threads, st)"
      "addIndexConcurrency st \<noteq> 0"
    using assms that by (cases "liAddIndexConcurrency (bcLocalIndexDirectory (BoostRest cfg)) = 0")
      (auto simp: pieceDirOf_def NewPieceDirectory_def WithAddIndexConcurrency_def DefaultAddIndexConcurrency_def Let_def)
  have "limit < 0 \<Longrightarrow> pieceDirOf cfg threads = Panic"
    using assms by (simp add: pieceDirOf_def NewPieceDirectory_def Let_def)
  moreover have "int (cnt holdsSlot (thPcs s)) \<le> limit \<and>
      (\<forall>t p dl n. t < length (thPcs s) \<and> thPcs s ! t = Queued p dl n \<longrightarrow>
        (thStep idx (Go t) s \<noteq> None \<longleftrightarrow> int (cnt holdsSlot (thPcs s)) < limit))"
    if "0 \<le> limit" "thRuns idx (thInit (nat limit) threads) s" for idx s
    using inv [OF that(2)] that(1) by (auto simp: thGo_def)
  ultimately show ?thesis using st by blast
qed

text \<open>
  The default configuration: the index service cannot start, since neither backend is enabled, and says so
  having done nothing; with the LevelDB backend enabled it starts an own service on port 8042. Sector data
  is read from the sector index API.
\<close>

lemma default_config_index:
  fixes L :: "('api, 'backup, 'libp2p, 'pubsub, 'fil) lotusConfig"
  defines "cfg \<equiv> DefaultBoost L"
  shows "fst (pieceStoreStart H (lidConfigOf cfg path) w) \<noteq> None"
    and "snd (pieceStoreStart H (lidConfigOf cfg path) w) = w"
    and "accessorEndpoints (lidConfigOf cfg path) = [[]]"
    and "lcEmbeddedServicePort (lidConfigOf cfg path) = 8042"
    and "pieceDirOf cfg threads = Ret (thInit 4 threads, \<lparr>addIndexConcurrency = 8\<rparr>)"
  by (simp_all add: cfg_def DefaultBoost_def lidConfigOf_def pieceStoreStart_def accessorEndpoints_def pieceDirOf_def
      NewPieceDirectory_def WithAddIndexConcurrency_def DefaultAddIndexConcurrency_def Let_def)

definition unitLotus :: "(unit, unit, unit, unit, unit) lotusConfig" where
  "unitLotus = \<lparr>loAPI = (\<lambda>_ _. ()), loBackup = (), loLibp2p = (\<lambda>_ _ _ _ _ _. ()), loPubsub = (), loMustParseFIL = (\<lambda>_. ())\<rparr>"

theorem piece_directory_limit_witness:
  "\<exists>s0 st. pieceDirOf (DefaultBoost unitLotus) 2 = Ret (s0, st) \<and> int (cnt holdsSlot (thPcs s0)) \<le> 4"
proof -
  have "liParallelAddIndexLimit (bcLocalIndexDirectory (BoostRest (DefaultBoost unitLotus))) = 4"
    by (simp add: DefaultBoost_def)
  from piece_directory_limit [OF this, of 2] show ?thesis using thRuns.refl by fastforce
qed

end
