(* ===== verification/PieceDirCalls.thy ===== *)
theory PieceDirCalls
  imports LidClient
begin

text \<open>
  The calls of \<open>lib/boost/piecedirectory/piecedirectory.go\<close> that go through to the index client: listings, counts, the scan
  progress, lookups, and the index of a piece as an iterable one. The client is the one of \<open>LidClient\<close> over a
  service \<open>lidServer\<close>.
\<close>

definition PD_FlaggedPiecesList ::
  "'i rpcEnv \<Rightarrow> 's lidServer \<Rightarrow> 's \<Rightarrow> FlaggedPiecesListFilter option \<Rightarrow> time option \<Rightarrow> int \<Rightarrow> int \<Rightarrow>
    goerr + FlaggedPiece list" where
  "PD_FlaggedPiecesList R srv s flt cursor ofs limit = bd_FlaggedPiecesList R srv s flt cursor ofs limit"

definition PD_FlaggedPiecesCount ::
  "'i rpcEnv \<Rightarrow> 's lidServer \<Rightarrow> 's \<Rightarrow> FlaggedPiecesListFilter option \<Rightarrow> goerr + nat" where
  "PD_FlaggedPiecesCount R srv s flt = bd_FlaggedPiecesCount R srv s flt"

definition PD_PiecesCount :: "'i rpcEnv \<Rightarrow> 's lidServer \<Rightarrow> 's \<Rightarrow> address \<Rightarrow> goerr + nat" where
  "PD_PiecesCount R srv s maddr = bd_PiecesCount R srv s maddr"

definition PD_ListPieces :: "'i rpcEnv \<Rightarrow> 's lidServer \<Rightarrow> 's \<Rightarrow> goerr + cid list" where
  "PD_ListPieces R srv s = bd_ListPieces R srv s"

definition PD_ScanProgress :: "'i rpcEnv \<Rightarrow> 's lidServer \<Rightarrow> 's \<Rightarrow> address \<Rightarrow> goerr + ScanProgressResult" where
  "PD_ScanProgress R srv s maddr = bd_ScanProgress R srv s maddr"

definition PD_GetOffsetSize :: "'i rpcEnv \<Rightarrow> 's lidServer \<Rightarrow> 's \<Rightarrow> cid \<Rightarrow> multihash \<Rightarrow> OffsetSize outcome" where
  "PD_GetOffsetSize R srv s pieceCid h = bd_GetOffsetSize R (lsService srv) s pieceCid h"

definition PD_PiecesContainingMultihash :: "'i rpcEnv \<Rightarrow> 's lidServer \<Rightarrow> 's \<Rightarrow> multihash \<Rightarrow> goerr + cid list" where
  "PD_PiecesContainingMultihash R srv s m = bd_PiecesContainingMultihash R (lsService srv) s m"

text \<open>\<open>asIterable\<close> is the type switch on \<open>carindex.IterableIndex\<close>.\<close>

definition PD_GetIterableIndex ::
  "('i \<Rightarrow> 'j option) \<Rightarrow> 'i rpcEnv \<Rightarrow> 's lidServer \<Rightarrow> 's \<Rightarrow> cid \<Rightarrow> goerr + 'j" where
  "PD_GetIterableIndex asIterable R srv s pieceCid =
     (case bd_GetIndex R srv s pieceCid of
        Inl err \<Rightarrow> Inl err
      | Inr idx \<Rightarrow>
          (case asIterable idx of
             Some concrete \<Rightarrow> Inr concrete
           | None \<Rightarrow> Inl (errorf ''expected index to be MultihashIndexSorted'')))"

section \<open>Over the LevelDB store\<close>

text \<open>The layers that a forwarded call goes through.\<close>

lemmas [go_defs] = PD_ListPieces_def PD_PiecesCount_def PD_GetOffsetSize_def PD_PiecesContainingMultihash_def
  bd_ListPieces_def bd_PiecesCount_def bd_GetOffsetSize_def bd_PiecesContainingMultihash_def
  ldbServer_def ldbService_def Store_ListPieces_def Store_PiecesCount_def

lemma rpc_ok: "rpcOut R r = Ret x \<longleftrightarrow> r = Ret x" "rpcRes R r' = Inr x' \<longleftrightarrow> r' = Inr x'"
  by (simp_all add: rpcOut_def rpcRes_def split: outcome.split sum.split)

text \<open>
  C2: What the piece directory reads of a LevelDB store through the client, after any sequence of calls in which
  deals were added to indexed pieces only: the list holds every piece once, the count of a
  miner is that of the listed pieces with a deal on it, and a multihash has an offset and size in a
  piece exactly when the piece is among those that contain it. The proviso is needed for the last part: a deal for a
  piece that was never indexed gives it cursor 0, whose records such pieces share
  (\<open>ldb_deal_before_index_shares_cursor\<close>).
\<close>

theorem directory_reads_agree:
  assumes ok: "world_ok W view listing" and run: "ldb_reachable W view s"
  shows "(\<exists>ps. PD_ListPieces R (ldbServer W) (s, ck) = Inr ps \<and> distinct ps \<and>
      (\<forall>p. p \<in> set ps \<longleftrightarrow> lidPieces (lid_of W view s) p \<noteq> None) \<and>
      (\<forall>a. PD_PiecesCount R (ldbServer W) (s, ck) a = Inr (length (filter (\<lambda>p.
         case lidPieces (lid_of W view s) p of Some md \<Rightarrow> hasDealWith a (Deals md) | None \<Rightarrow> False) ps)))) \<and>
    (\<forall>p h. (\<exists>os. PD_GetOffsetSize R (ldbServer W) (s, ck) p h = Ret os) \<longleftrightarrow>
      (\<exists>ps. PD_PiecesContainingMultihash R (ldbServer W) (s, ck) h = Inr ps \<and> p \<in> set ps))"
proof
  from ldb_reachable_inv [OF ok run] have wf: "wf_store W view s" by blast
  from piecesIn_ex [OF ok wf] obtain ps where ps: "piecesIn W view listing s ps" by blast
  then have d: "distinct (map fst ps)" and m: "\<And>c md. (c, md) \<in> set ps \<longleftrightarrow> lidPieces (lid_of W view s) c = Some md"
    by (auto simp: piecesIn_def)
  have "length (filter (\<lambda>(c, md). hasDealWith a (Deals md)) ps) = length (filter (\<lambda>p.
      case lidPieces (lid_of W view s) p of Some md \<Rightarrow> hasDealWith a (Deals md) | None \<Rightarrow> False) (map fst ps))" for a
  proof -
    have "filter (\<lambda>(c, md). hasDealWith a (Deals md)) ps = filter ((\<lambda>p.
        case lidPieces (lid_of W view s) p of Some md \<Rightarrow> hasDealWith a (Deals md) | None \<Rightarrow> False) \<circ> fst) ps"
    proof (rule filter_cong [OF refl], clarify)
      fix c md assume "(c, md) \<in> set ps"
      then have "lidPieces (lid_of W view s) c = Some md" by (simp add: m)
      then show "hasDealWith a (Deals md) = ((\<lambda>p. case lidPieces (lid_of W view s) p of
          Some md \<Rightarrow> hasDealWith a (Deals md) | None \<Rightarrow> False) \<circ> fst) (c, md)" by simp
    qed
    then show ?thesis by (simp add: filter_map)
  qed
  moreover have "p \<in> set (map fst ps) \<longleftrightarrow> lidPieces (lid_of W view s) p \<noteq> None" for p
    using m by force
  ultimately show "\<exists>ps. PD_ListPieces R (ldbServer W) (s, ck) = Inr ps \<and> distinct ps \<and>
      (\<forall>p. p \<in> set ps \<longleftrightarrow> lidPieces (lid_of W view s) p \<noteq> None) \<and>
      (\<forall>a. PD_PiecesCount R (ldbServer W) (s, ck) a = Inr (length (filter (\<lambda>p.
         case lidPieces (lid_of W view s) p of Some md \<Rightarrow> hasDealWith a (Deals md) | None \<Rightarrow> False) ps)))"
    using DB_ListPieces_lid [OF ok ps] DB_PiecesCount_lid [OF ok wf ps] d
    by (intro exI [of _ "map fst ps"]) (simp add: go_defs rpcRes_def)
  show "\<forall>p h. (\<exists>os. PD_GetOffsetSize R (ldbServer W) (s, ck) p h = Ret os) \<longleftrightarrow>
      (\<exists>ps. PD_PiecesContainingMultihash R (ldbServer W) (s, ck) h = Inr ps \<and> p \<in> set ps)"
    using ldb_lookup_coherent [OF ok run]
    by (simp add: go_defs rpc_ok)
qed

theorem directory_reads_agree_witness:
  "PD_ListPieces textRpc (ldbServer demoWorld) (demo1, initChecker) = Inr [''p''] \<and>
    PD_PiecesCount textRpc (ldbServer demoWorld) (demo1, initChecker) ''q'' = Inr 0 \<and>
    (\<exists>ps. PD_PiecesContainingMultihash textRpc (ldbServer demoWorld) (demo1, initChecker) ''blk'' = Inr ps \<and> ''p'' \<in> set ps)"
proof -
  note agree = directory_reads_agree [OF demo_ok demo1_reachable, of textRpc initChecker]
  from conjunct1 [OF agree] obtain ps where ps: "PD_ListPieces textRpc (ldbServer demoWorld) (demo1, initChecker) = Inr ps"
      "distinct ps" "\<And>p. p \<in> set ps \<longleftrightarrow> lidPieces (lid_of demoWorld map_of demo1) p \<noteq> None"
      "PD_PiecesCount textRpc (ldbServer demoWorld) (demo1, initChecker) ''q'' = Inr (length (filter (\<lambda>p.
         case lidPieces (lid_of demoWorld map_of demo1) p of Some md \<Rightarrow> hasDealWith ''q'' (Deals md) | None \<Rightarrow> False) ps))"
    by blast
  have "set ps = {''p''}" using ps(3) demo1_lid(2,3) by (metis is_singletonI' is_singleton_def option.distinct(1) singletonD singletonI subsetI subset_antisym)
  with ps(2) have "ps = [''p'']" by (rule distinct_singleton_list [rotated])
  moreover have "Store_GetOffsetSize demoWorld demo1 ''p'' ''blk'' = Ret \<lparr>Offset = 7, Size = 300\<rparr>"
    by (simp add: GetOffsetSize_lid [OF demo_ok demo1_wf] demo1_lid)
  then have "\<exists>os. PD_GetOffsetSize textRpc (ldbServer demoWorld) (demo1, initChecker) ''p'' ''blk'' = Ret os"
    by (simp add: go_defs rpcOut_def)
  ultimately show ?thesis using ps(1,4) conjunct2 [OF agree] by (simp add: demo1_lid)
qed

text \<open>
  The index of a piece after \<open>AddIndex\<close>, as the directory hands it out: what \<open>index.Load\<close> makes of exactly the added blocks,
  one entry each with its offset, or the error that this is not an index to iterate over.
\<close>

theorem iterable_index_after_add:
  assumes "world_ok W view listing" and "ldb_reachable W view s"
    and "lidPieces (lid_of W view s) p = None" and "lidNext (lid_of W view s) = Some n"
    and "distinct (map (\<lambda>r. cidHash W (Cid r)) records)"
    and whole: "\<forall>rs. rpRecords R rs = rs" and load: "\<forall>xs. rpLoad R xs = Inr (idx xs)"
  shows "\<exists>xs. PD_GetIterableIndex asIterable R (ldbServer W)
      (snd (bd_AddIndex R (ldbServer W) (s, ck) now p records full)) p =
        (case asIterable (idx xs) of Some i \<Rightarrow> Inr i
         | None \<Rightarrow> Inl (errorf ''expected index to be MultihashIndexSorted'')) \<and>
    length xs = length records \<and> set xs = (\<lambda>r. (cidNewV1Raw W (cidHash W (Cid r)), Offset r)) ` set records"
proof -
  obtain sent s' where a: "Store_AddIndex W s now p records full = (sent, s')" by (rule prod.exhaust)
  from GetIndex_after_add [OF assms(1-4) a assms(5)] obtain out where
    o: "Store_GetIndex W s' p = Ret out" "length out = length records"
      "set out = (\<lambda>r. r\<lparr>Cid := cidNewV1Raw W (cidHash W (Cid r))\<rparr>) ` set records" by blast
  let ?xs = "map (\<lambda>r. (Cid r, Offset r)) out"
  have "bd_GetIndex R (ldbServer W) (s', ck) p = Inr (idx ?xs)"
    using o(1) whole load by (simp add: bd_GetIndex_def lsRecords_def ldbServer_def drainRecords_Inr)
  moreover have "snd (bd_AddIndex R (ldbServer W) (s, ck) now p records full) = (s', ck)"
    using a by (simp add: bd_AddIndex_def ldbServer_def)
  moreover have "set ?xs = (\<lambda>r. (cidNewV1Raw W (cidHash W (Cid r)), Offset r)) ` set records"
    using o(3) by (auto simp: image_iff)
  ultimately show ?thesis using o(2) by (intro exI [of _ ?xs]) (simp add: PD_GetIterableIndex_def)
qed

end
