(* ===== verification/NodeModules.thy ===== *)
theory NodeModules
  imports GoStd "HOL-Library.Multiset"
begin

text \<open>
  Modules around the node: the API secret, memory watchdog and configuration access of \<open>lib/boost/node/modules\<close>
  (\<open>core.go\<close>, \<open>storageminer.go\<close>, \<open>storage.go\<close>), the SQLite database and its backup (\<open>lib/boost/db/db.go\<close>), the URL of a
  transfer (\<open>transport/httptransport/util\<close>, \<open>storagemarket/types\<close>), the miner's address and sector size
  (\<open>lib/util/util.go\<close>) and the shutdown of \<open>node/shutdown.go\<close>. The stores, drivers and node APIs they call are parameters.
\<close>

section \<open>core.go: the API secret\<close>

record KeyInfo =
  kiType :: string
  kiPrivateKey :: string

definition JWTSecretName :: string where "JWTSecretName = ''auth-jwt-private''"
definition KTJwtHmacSecret :: string where "KTJwtHmacSecret = ''jwt-hmac-secret''"

text \<open>
  The key store and the locked repository over an opaque state; \<open>seSign\<close> signs the payload with all permissions,
  \<open>seNotFound\<close> is \<open>errors.Is(err, types.ErrKeyInfoNotFound)\<close>.
\<close>

record ('alg, 'w) secretEnv =
  seGet :: "string \<Rightarrow> 'w \<Rightarrow> goerr + KeyInfo"
  sePut :: "string \<Rightarrow> KeyInfo \<Rightarrow> 'w \<Rightarrow> goerr option \<times> 'w"
  seSetAPIToken :: "string \<Rightarrow> 'w \<Rightarrow> goerr option \<times> 'w"
  seNotFound :: "goerr \<Rightarrow> bool"
  seRandom :: "nat \<Rightarrow> goerr + string"
  seHS256 :: "string \<Rightarrow> 'alg"
  seSign :: "'alg \<Rightarrow> goerr + string"

definition APISecret :: "('alg, 'w) secretEnv \<Rightarrow> 'w \<Rightarrow> (goerr + 'alg) \<times> 'w" where
  "APISecret E w =
     (case seGet E JWTSecretName w of
        Inr key \<Rightarrow> (Inr (seHS256 E (kiPrivateKey key)), w)
      | Inl err \<Rightarrow>
          if seNotFound E err then
            (case seRandom E 32 of
               Inl err \<Rightarrow> (Inl err, w)
             | Inr sk \<Rightarrow>
                 let key = \<lparr>kiType = KTJwtHmacSecret, kiPrivateKey = sk\<rparr> in
                 (case sePut E JWTSecretName key w of
                    (Some err, w1) \<Rightarrow> (Inl (errorf_w ''writing API secret: '' err), w1)
                  | (None, w1) \<Rightarrow>
                      (case seSign E (seHS256 E (kiPrivateKey key)) of
                         Inl err \<Rightarrow> (Inl err, w1)
                       | Inr cliToken \<Rightarrow>
                           (case seSetAPIToken E cliToken w1 of
                              (Some err, w2) \<Rightarrow> (Inl err, w2)
                            | (None, w2) \<Rightarrow> (Inr (seHS256 E (kiPrivateKey key)), w2)))))
          else (Inl (errorf_w ''could not get JWT Token: '' err), w))"

text \<open>What the key store and the repository promise: \<open>keys\<close> are the stored keys, \<open>token\<close> is the stored API token.\<close>

definition secretStore ::
  "('alg, 'w) secretEnv \<Rightarrow> ('w \<Rightarrow> string \<Rightarrow> KeyInfo option) \<Rightarrow> ('w \<Rightarrow> string option) \<Rightarrow> bool" where
  "secretStore E keys token \<longleftrightarrow>
     (\<forall>w n. case keys w n of Some k \<Rightarrow> seGet E n w = Inr k
        | None \<Rightarrow> (\<exists>err. seGet E n w = Inl err \<and> seNotFound E err)) \<and>
     (\<forall>n k w e w'. sePut E n k w = (e, w') \<longrightarrow>
        token w' = token w \<and> keys w' = (if e = None then (keys w)(n \<mapsto> k) else keys w)) \<and>
     (\<forall>t w e w'. seSetAPIToken E t w = (e, w') \<longrightarrow>
        keys w' = keys w \<and> token w' = (if e = None then Some t else token w))"

text \<open>
  C40: The API secret of the node: a stored key is used as it is and nothing is written. Without one, success means a
  new key of 32 random bytes is stored together with the token signed with it. A failure
  leaves the token as it was, and either nothing is stored, or the key is: then every later call succeeds without a
  token being written.
\<close>

theorem api_secret_once:
  assumes store: "secretStore E keys token" and run: "APISecret E w = (r, w')"
  shows "case keys w JWTSecretName of
      Some k \<Rightarrow> r = Inr (seHS256 E (kiPrivateKey k)) \<and> w' = w
    | None \<Rightarrow>
        (case r of
           Inr alg \<Rightarrow> \<exists>sk t. seRandom E 32 = Inr sk \<and> alg = seHS256 E sk \<and> seSign E alg = Inr t \<and>
             keys w' = (keys w)(JWTSecretName \<mapsto> \<lparr>kiType = KTJwtHmacSecret, kiPrivateKey = sk\<rparr>) \<and> token w' = Some t
         | Inl err \<Rightarrow> token w' = token w \<and>
             (keys w' = keys w \<or> (\<exists>alg. APISecret E w' = (Inr alg, w'))))"
proof -
  note store = store [unfolded secretStore_def]
  have get: "keys v n = Some k \<Longrightarrow> seGet E n v = Inr k"
      "keys v n = None \<Longrightarrow> \<exists>err. seGet E n v = Inl err \<and> seNotFound E err" for v n k
    using spec [OF spec [OF conjunct1 [OF store], of v], of n] by auto
  have put: "token v' = token v \<and> keys v' = (if e = None then (keys v)(n \<mapsto> k) else keys v)"
      if "sePut E n k v = (e, v')" for n k v e v'
    using conjunct1 [OF conjunct2 [OF store]] that by blast
  have tok: "keys v' = keys v \<and> token v' = (if e = None then Some t else token v)"
      if "seSetAPIToken E t v = (e, v')" for t v e v'
    using conjunct2 [OF conjunct2 [OF store]] that by blast
  have again: "keys v JWTSecretName = Some k \<Longrightarrow> \<exists>alg. APISecret E v = (Inr alg, v)" for v k
    using get(1) [of v JWTSecretName k] by (simp add: APISecret_def)
  show ?thesis
  proof (cases "keys w JWTSecretName")
    case (Some k)
    with get(1) [OF Some] run show ?thesis by (simp add: APISecret_def)
  next
    case None
    then obtain err where "seGet E JWTSecretName w = Inl err" "seNotFound E err" using get(2) by blast
    then have "APISecret E w = (case seRandom E 32 of
        Inl err \<Rightarrow> (Inl err, w)
      | Inr sk \<Rightarrow>
          (case sePut E JWTSecretName \<lparr>kiType = KTJwtHmacSecret, kiPrivateKey = sk\<rparr> w of
             (Some err, w1) \<Rightarrow> (Inl (errorf_w ''writing API secret: '' err), w1)
           | (None, w1) \<Rightarrow>
               (case seSign E (seHS256 E sk) of
                  Inl err \<Rightarrow> (Inl err, w1)
                | Inr cliToken \<Rightarrow>
                    (case seSetAPIToken E cliToken w1 of
                       (Some err, w2) \<Rightarrow> (Inl err, w2)
                     | (None, w2) \<Rightarrow> (Inr (seHS256 E sk), w2)))))"
      by (simp add: APISecret_def Let_def split: sum.split prod.split option.split)
    with None run again show ?thesis
      by (auto dest!: put tok split: sum.splits prod.splits option.splits)
  qed
qed

definition demoSecret :: "(string, KeyInfo option \<times> string option) secretEnv" where
  "demoSecret =
     \<lparr>seGet = (\<lambda>n w. case fst w of Some k \<Rightarrow> if n = JWTSecretName then Inr k else Inl (errorf ''no key'')
          | None \<Rightarrow> Inl (errorf ''no key'')),
      sePut = (\<lambda>n k w. if n = JWTSecretName then (None, (Some k, snd w)) else (Some (errorf ''name''), w)),
      seSetAPIToken = (\<lambda>t w. (Some (errorf ''disk full''), w)), seNotFound = (\<lambda>e. e = errorf ''no key''),
      seRandom = (\<lambda>n. Inr (replicate n CHR ''x'')), seHS256 = (\<lambda>k. k), seSign = (\<lambda>a. Inr ''tok'')\<rparr>"

theorem api_secret_once_witness:
  "\<exists>e alg w'. APISecret demoSecret (None, None) = (Inl e, w') \<and> APISecret demoSecret w' = (Inr alg, w') \<and> snd w' = None"
proof -
  let ?keys = "\<lambda>w n. if n = JWTSecretName then fst w else None"
  have st: "secretStore demoSecret ?keys snd"
    by (auto simp: secretStore_def demoSecret_def fun_eq_iff split: option.split)
  obtain w' where run: "APISecret demoSecret (None, None) = (Inl (errorf ''disk full''), w')" "fst w' \<noteq> None"
    by (simp add: APISecret_def demoSecret_def Let_def)
  from api_secret_once [OF st run(1)] run(2) show ?thesis
    using run(1) by (auto simp: fun_eq_iff split: if_splits)
qed

section \<open>core.go: the memory watchdog\<close>

datatype watchdogKind = WdDisabled | WdHeap | WdCgroup | WdSystem | WdNone

text \<open>The result says which watchdog runs, with its stop hook; \<open>None\<close> from a driver means that it has started.\<close>

definition MemoryWatchdog ::
  "(string \<Rightarrow> string) \<Rightarrow> u64 \<Rightarrow> (u64 \<Rightarrow> goerr option) \<Rightarrow> goerr option \<Rightarrow> goerr option \<Rightarrow> watchdogKind" where
  "MemoryWatchdog getenv maxHeap heapDriven cgroupDriven systemDriven =
     (if getenv ''LOTUS_DISABLE_WATCHDOG'' = ''1'' then WdDisabled
      else if maxHeap \<noteq> 0 \<and> heapDriven maxHeap = None then WdHeap
      else if cgroupDriven = None then WdCgroup
      else if systemDriven = None then WdSystem
      else WdNone)"

section \<open>storageminer.go and storage.go\<close>

text \<open>A configuration that is not a \<open>*config.Boost\<close> is \<open>None\<close>.\<close>

definition readCfg :: "(goerr + 'cfg option) \<Rightarrow> goerr + 'cfg" where
  "readCfg config =
     (case config of
        Inl err \<Rightarrow> Inl err
      | Inr None \<Rightarrow> Inl (errorf ''expected address of config.Boost'')
      | Inr (Some cfg) \<Rightarrow> Inr cfg)"

text \<open>
  \<open>SetConfig\<close> calls the function on the configuration it holds and writes the result; the two errors are combined.
\<close>

definition mutateCfg ::
  "(('cfg option \<Rightarrow> 'cfg option) \<Rightarrow> 'w \<Rightarrow> goerr option \<times> 'cfg option \<times> 'w) \<Rightarrow> (goerr \<Rightarrow> goerr \<Rightarrow> goerr) \<Rightarrow>
    ('cfg \<Rightarrow> 'cfg) \<Rightarrow> 'w \<Rightarrow> goerr option \<times> 'w" where
  "mutateCfg setConfig combine mutator w =
     (case setConfig (map_option mutator) w of
        (setConfigErr, held, w') \<Rightarrow>
          let typeErr = (if held = None then Some (errorf ''expected boost config'') else None) in
          ((case (typeErr, setConfigErr) of
              (Some a, Some b) \<Rightarrow> Some (combine a b)
            | (Some a, None) \<Rightarrow> Some a
            | (None, e) \<Rightarrow> e), w'))"

text \<open>The signature of a client: a contract address authenticates by a call of the contract.\<close>

record Message =
  msFrom :: address
  msTo :: address
  msNonce :: nat
  msMethod :: nat
  msParams :: string

record verifyEnv =
  veAccountKey :: "address \<Rightarrow> goerr + address"
  veAddrString :: "address \<Rightarrow> string"
  veSigsVerify :: "string \<Rightarrow> address \<Rightarrow> string \<Rightarrow> goerr option"
  veMarshalParams :: "string \<Rightarrow> string \<Rightarrow> goerr + string"
  veMethodNum :: "string \<Rightarrow> goerr + nat"
  veStateCall :: "Message \<Rightarrow> goerr + int"
  veMarketActor :: address

definition verifyContractSignature :: "verifyEnv \<Rightarrow> string \<Rightarrow> address \<Rightarrow> string \<Rightarrow> goerr + bool" where
  "verifyContractSignature V sig a input =
     (case veMarshalParams V sig input of
        Inl err \<Rightarrow> Inl err
      | Inr params \<Rightarrow>
          (case veMethodNum V ''AuthenticateMessage'' of
             Inl err \<Rightarrow> Inl err
           | Inr method \<Rightarrow>
               (case veStateCall V \<lparr>msFrom = veMarketActor V, msTo = a, msNonce = 1, msMethod = method, msParams = params\<rparr> of
                  Inl err \<Rightarrow> Inl (errorf_w (''state call to '' @ veAddrString V a @ '' returned an error: '') err)
                | Inr exitCode \<Rightarrow> Inr (exitCode = 0))))"

text \<open>The second component of Go's result is the error; with an error the first is false.\<close>

definition VerifySignature :: "verifyEnv \<Rightarrow> string \<Rightarrow> address \<Rightarrow> string \<Rightarrow> goerr + bool" where
  "VerifySignature V sig a input =
     (case veAccountKey V a of
        Inl err \<Rightarrow> Inl err
      | Inr a \<Rightarrow>
          let clientAddr = veAddrString V a in
          if 2 \<le> length clientAddr \<and> (take 2 clientAddr = ''t4'' \<or> take 2 clientAddr = ''f4'')
          then verifyContractSignature V sig a input
          else (case veSigsVerify V sig a input of None \<Rightarrow> Inr True | Some err \<Rightarrow> Inl err))"

text \<open>
  A signature is accepted exactly when the account key is known and, for a contract, the simulated call exits with 0,
  for any other account the local verification succeeds; a wrong signature of the latter is an error, not false.
\<close>

lemma VerifySignature_True:
  "VerifySignature V sig a input = Inr True \<longleftrightarrow>
    (\<exists>k. veAccountKey V a = Inr k \<and>
      (if hasPrefix (veAddrString V k) ''t4'' \<or> hasPrefix (veAddrString V k) ''f4''
       then (\<exists>ps m. veMarshalParams V sig input = Inr ps \<and> veMethodNum V ''AuthenticateMessage'' = Inr m \<and>
         veStateCall V \<lparr>msFrom = veMarketActor V, msTo = k, msNonce = 1, msMethod = m, msParams = ps\<rparr> = Inr 0)
       else veSigsVerify V sig k input = None))"
proof -
  have "(2 \<le> length s \<and> (take 2 s = ''t4'' \<or> take 2 s = ''f4'')) = (hasPrefix s ''t4'' \<or> hasPrefix s ''f4'')" for s
    by (cases s; cases "tl s") auto
  then show ?thesis
    by (auto simp: VerifySignature_def verifyContractSignature_def Let_def split: sum.splits option.splits)
qed

text \<open>The metadata datastore, wrapped with a log directory unless the log is disabled.\<close>

definition Datastore ::
  "(string \<Rightarrow> 'w \<Rightarrow> (goerr + 'd) \<times> 'w) \<Rightarrow> ('d \<Rightarrow> string \<Rightarrow> 'w \<Rightarrow> (goerr + 'b) \<times> 'w) \<Rightarrow> string \<Rightarrow> bool \<Rightarrow> 'w \<Rightarrow>
    (goerr + 'b) \<times> 'w" where
  "Datastore openDs wrap path disableLog w =
     (case openDs ''/metadata'' w of
        (Inl err, w1) \<Rightarrow> (Inl err, w1)
      | (Inr mds, w1) \<Rightarrow>
          let logdir = (if \<not> disableLog then filepathJoin [path, ''kvlog/metadata''] else []) in
          (case wrap mds logdir w1 of
             (Inl err, w2) \<Rightarrow> (Inl (errorf_w ''opening backupds: '' err), w2)
           | (Inr bds, w2) \<Rightarrow> (Inr bds, w2)))"

end
