(* ===== verification/NodeUtil.thy ===== *)
theory NodeUtil
  imports GoStd "HOL-Library.Multiset"
begin

text \<open>
  The SQLite databases and their backup (\<open>lib/boost/db/db.go\<close>, \<open>NewBoostDB\<close> and \<open>NewLogsSqlDB\<close> of
  \<open>lib/boost/node/modules/storageminer.go\<close>), the URL of a transfer (\<open>transport/httptransport/util\<close>,
  \<open>storagemarket/types/types.go\<close>), the miner's address and sector size (\<open>lib/util/util.go\<close>), and the shutdown of
  \<open>node/shutdown.go\<close>. The driver, the URL libraries and the node APIs are parameters.
\<close>

section \<open>db.go\<close>

definition DealsDBName :: string where "DealsDBName = ''boost.db''"
definition LogsDBName :: string where "LogsDBName = ''boost.logs.db''"

text \<open>
  The driver over an opaque state: databases \<open>'d\<close>, connections \<open>'c\<close>, the SQLite connection \<open>'r\<close> below one (\<open>None\<close> when it
  is of another driver) and backups \<open>'b\<close>. Page counts are C integers.
\<close>

record ('d, 'c, 'r, 'b, 'w) sqliteEnv =
  sqOpen :: "string \<Rightarrow> 'w \<Rightarrow> (goerr + 'd) \<times> 'w"
  sqSetMaxOpenConns :: "'d \<Rightarrow> nat \<Rightarrow> 'w \<Rightarrow> 'w"
  sqPing :: "'d \<Rightarrow> 'w \<Rightarrow> goerr option \<times> 'w"
  sqConn :: "'d \<Rightarrow> 'w \<Rightarrow> (goerr + 'c) \<times> 'w"
  sqCloseConn :: "'c \<Rightarrow> 'w \<Rightarrow> 'w"
  sqCloseDB :: "'d \<Rightarrow> 'w \<Rightarrow> 'w"
  sqRaw :: "'c \<Rightarrow> 'r option"
  sqBackup :: "'r \<Rightarrow> string \<Rightarrow> 'r \<Rightarrow> string \<Rightarrow> 'w \<Rightarrow> (goerr + 'b) \<times> 'w"
  sqStep :: "'b \<Rightarrow> int \<Rightarrow> 'w \<Rightarrow> (goerr + bool) \<times> 'w"
  sqPageCount :: "'b \<Rightarrow> 'w \<Rightarrow> int"
  sqRemaining :: "'b \<Rightarrow> 'w \<Rightarrow> int"
  sqFinish :: "'b \<Rightarrow> 'w \<Rightarrow> goerr option \<times> 'w"

definition SqlDB :: "('d, 'c, 'r, 'b, 'w) sqliteEnv \<Rightarrow> string \<Rightarrow> 'w \<Rightarrow> (goerr + 'd) \<times> 'w" where
  "SqlDB Q dbPath w =
     (case sqOpen Q (''file:'' @ dbPath) w of
        (Inl err, w') \<Rightarrow> (Inl err, w')
      | (Inr db, w') \<Rightarrow> (Inr db, sqSetMaxOpenConns Q db 1 w'))"

definition NewBoostDB :: "('d, 'c, 'r, 'b, 'w) sqliteEnv \<Rightarrow> string \<Rightarrow> 'w \<Rightarrow> (goerr + 'd) \<times> 'w" where
  "NewBoostDB Q path = SqlDB Q (filepathJoin [path, DealsDBName @ ''?cache=shared''])"

definition NewLogsSqlDB :: "('d, 'c, 'r, 'b, 'w) sqliteEnv \<Rightarrow> string \<Rightarrow> 'w \<Rightarrow> (goerr + 'd) \<times> 'w" where
  "NewLogsSqlDB Q path = SqlDB Q (filepathJoin [path, LogsDBName @ ''?cache=shared''])"

text \<open>The page counts after the first step of a backup, which copies nothing, and after the last.\<close>

definition initialError :: "int \<Rightarrow> int \<Rightarrow> goerr option" where
  "initialError initialPageCount initialRemaining =
     (if initialPageCount \<le> 0 then
        Some (errorf (''unexpected initial page count value: '' @ show_int initialPageCount))
      else if initialRemaining \<le> 0 then
        Some (errorf (''unexpected initial remaining value: '' @ show_int initialRemaining))
      else if initialRemaining \<noteq> initialPageCount then
        Some (errorf (''initial remaining value '' @ show_int initialRemaining @
          '' differs from the initial page count value '' @ show_int initialPageCount))
      else None)"

definition finalError :: "int \<Rightarrow> int \<Rightarrow> int \<Rightarrow> goerr option" where
  "finalError initialPageCount finalPageCount finalRemaining =
     (if finalPageCount \<noteq> initialPageCount then
        Some (errorf (''final page count '' @ show_int initialPageCount @
          '' differs from the initial page count '' @ show_int finalPageCount))
      else if finalRemaining \<noteq> 0 then Some (errorf (''unexpected remaining value: '' @ show_int finalRemaining))
      else None)"

definition backupPages :: "('d, 'c, 'r, 'b, 'w) sqliteEnv \<Rightarrow> 'b \<Rightarrow> 'w \<Rightarrow> goerr option \<times> 'w" where
  "backupPages Q b w =
     (case sqStep Q b 0 w of
        (Inl err, w1) \<Rightarrow> (Some (errorf_w ''unable to perform an initial 0-page backup step: '' err), w1)
      | (Inr True, w1) \<Rightarrow> (Some (errorf ''backup is unexpectedly done''), w1)
      | (Inr False, w1) \<Rightarrow>
          let initialPageCount = sqPageCount Q b w1 in
          (case initialError initialPageCount (sqRemaining Q b w1) of
             Some err \<Rightarrow> (Some err, w1)
           | None \<Rightarrow>
               (case sqStep Q b (- 1) w1 of
                  (Inl err, w2) \<Rightarrow> (Some (errorf_w ''failed to perform a backup step: '' err), w2)
                | (Inr False, w2) \<Rightarrow> (Some (errorf ''backup is unexpectedly not done''), w2)
                | (Inr True, w2) \<Rightarrow>
                    (case finalError initialPageCount (sqPageCount Q b w2) (sqRemaining Q b w2) of
                       Some err \<Rightarrow> (Some err, w2)
                     | None \<Rightarrow>
                         (case sqFinish Q b w2 of
                            (Some err, w3) \<Rightarrow> (Some (errorf_w ''error finishing backup: '' err), w3)
                          | (None, w3) \<Rightarrow> (None, w3))))))"

definition backupRaw :: "('d, 'c, 'r, 'b, 'w) sqliteEnv \<Rightarrow> 'c \<Rightarrow> 'c \<Rightarrow> 'w \<Rightarrow> goerr option \<times> 'w" where
  "backupRaw Q destConn srcConn w =
     (case sqRaw Q destConn of
        None \<Rightarrow> (Some (errorf (''can'' @ [CHR 0x27] @ ''t convert destination connection to SQLiteConn'')), w)
      | Some dest \<Rightarrow>
          (case sqRaw Q srcConn of
             None \<Rightarrow> (Some (errorf (''can'' @ [CHR 0x27] @ ''t convert source connection to SQLiteConn'')), w)
           | Some src \<Rightarrow>
               (case sqBackup Q dest ''main'' src ''main'' w of
                  (Inl err, w1) \<Rightarrow> (Some (errorf_w ''error initializing SQLite backup: '' err), w1)
                | (Inr b, w1) \<Rightarrow> backupPages Q b w1)))"

text \<open>The deferred calls close the source connection, the destination connection and the destination, in this order.\<close>

definition SqlBackup :: "('d, 'c, 'r, 'b, 'w) sqliteEnv \<Rightarrow> 'd \<Rightarrow> string \<Rightarrow> string \<Rightarrow> 'w \<Rightarrow> goerr option \<times> 'w" where
  "SqlBackup Q srcDB dstDir dbFileName w =
     (case SqlDB Q (filepathJoin [dstDir, dbFileName @ ''?cache=shared'']) w of
        (Inl err, w1) \<Rightarrow> (Some (errorf_w ''failed to open source sql db for backup: '' err), w1)
      | (Inr dstDB, w1) \<Rightarrow>
          apsnd (sqCloseDB Q dstDB)
            (case sqPing Q dstDB w1 of
               (Some err, w2) \<Rightarrow> (Some (errorf_w ''failed to open destination sql db for backup: '' err), w2)
             | (None, w2) \<Rightarrow>
                 (case sqConn Q dstDB w2 of
                    (Inl err, w3) \<Rightarrow> (Some err, w3)
                  | (Inr destConn, w3) \<Rightarrow>
                      apsnd (sqCloseConn Q destConn)
                        (case sqConn Q srcDB w3 of
                           (Inl err, w4) \<Rightarrow> (Some err, w4)
                         | (Inr srcConn, w4) \<Rightarrow> apsnd (sqCloseConn Q srcConn) (backupRaw Q destConn srcConn w4)))))"

text \<open>
  What the driver promises: \<open>opens\<close> are the open databases and connections, \<open>pages\<close> the pages that a SQLite connection
  sees. A backup step with \<open>-1\<close> that is done with nothing remaining has copied all pages.
\<close>

definition sqliteOk ::
  "('d, 'c, 'r, 'b, 'w) sqliteEnv \<Rightarrow> ('w \<Rightarrow> ('d + 'c) multiset) \<Rightarrow> ('w \<Rightarrow> 'r \<Rightarrow> 'p) \<Rightarrow> bool" where
  "sqliteOk Q opens pages \<longleftrightarrow>
     (\<forall>f w r w'. sqOpen Q f w = (r, w') \<longrightarrow> opens w' = (case r of Inl _ \<Rightarrow> opens w | Inr d \<Rightarrow> add_mset (Inl d) (opens w))) \<and>
     (\<forall>d w r w'. sqConn Q d w = (r, w') \<longrightarrow> opens w' = (case r of Inl _ \<Rightarrow> opens w | Inr c \<Rightarrow> add_mset (Inr c) (opens w))) \<and>
     (\<forall>d n w. opens (sqSetMaxOpenConns Q d n w) = opens w) \<and>
     (\<forall>d w. opens (snd (sqPing Q d w)) = opens w) \<and>
     (\<forall>r n r' n' w. opens (snd (sqBackup Q r n r' n' w)) = opens w) \<and>
     (\<forall>b k w. opens (snd (sqStep Q b k w)) = opens w) \<and> (\<forall>b w. opens (snd (sqFinish Q b w)) = opens w) \<and>
     (\<forall>d w. opens (sqCloseDB Q d w) = opens w - {#Inl d#}) \<and> (\<forall>c w. opens (sqCloseConn Q c w) = opens w - {#Inr c#}) \<and>
     (\<forall>r r' w b w1 w2 w3. sqBackup Q r ''main'' r' ''main'' w = (Inr b, w1) \<longrightarrow> sqStep Q b 0 w1 = (Inr False, w2) \<longrightarrow>
        sqStep Q b (- 1) w2 = (Inr True, w3) \<longrightarrow> sqRemaining Q b w3 = 0 \<longrightarrow>
        pages (snd (sqFinish Q b w3)) r = pages (snd (sqFinish Q b w3)) r')"

lemma backupPages_opens:
  assumes "sqliteOk Q opens pages"
  shows "opens (snd (backupPages Q b w)) = opens w"
proof -
  have s: "opens w' = opens v" if "sqStep Q b k v = (r, w')" for k v r w'
    using assms that unfolding sqliteOk_def by (metis snd_conv)
  have f: "opens w' = opens v" if "sqFinish Q b v = (r, w')" for v r w'
    using assms that unfolding sqliteOk_def by (metis snd_conv)
  show ?thesis
    by (auto simp: backupPages_def Let_def dest!: s f split: prod.split sum.split bool.split option.split)
qed

lemma backupRaw_opens:
  assumes "sqliteOk Q opens pages"
  shows "opens (snd (backupRaw Q c c' w)) = opens w"
proof -
  have b: "opens w' = opens v" if "sqBackup Q r n r' n' v = (x, w')" for r n r' n' v x w'
    using assms that unfolding sqliteOk_def by (metis snd_conv)
  show ?thesis
    by (auto simp: backupRaw_def backupPages_opens [OF assms] dest!: b split: prod.split sum.split option.split)
qed

lemma backupRaw_copies:
  assumes ok: "sqliteOk Q opens pages" and run: "backupRaw Q dc sc w = (None, w')"
  shows "\<exists>d s. sqRaw Q dc = Some d \<and> sqRaw Q sc = Some s \<and> pages w' d = pages w' s"
proof -
  from run obtain d s b w1 where r: "sqRaw Q dc = Some d" "sqRaw Q sc = Some s"
      "sqBackup Q d ''main'' s ''main'' w = (Inr b, w1)" "backupPages Q b w1 = (None, w')"
    by (auto simp: backupRaw_def split: option.splits prod.splits sum.splits)
  from r(4) obtain w2 w3 where p: "sqStep Q b 0 w1 = (Inr False, w2)" "sqStep Q b (- 1) w2 = (Inr True, w3)"
      "finalError (sqPageCount Q b w2) (sqPageCount Q b w3) (sqRemaining Q b w3) = None" "sqFinish Q b w3 = (None, w')"
    by (auto simp: backupPages_def Let_def split: prod.splits sum.splits bool.splits option.splits)
  from p(3) have "sqRemaining Q b w3 = 0" by (simp add: finalError_def split: if_splits)
  with ok r(3) p(1,2) have "pages (snd (sqFinish Q b w3)) d = pages (snd (sqFinish Q b w3)) s"
    unfolding sqliteOk_def by blast
  with r(1,2) p(4) show ?thesis by simp
qed

text \<open>
  A backup closes everything it has opened, however it ends. When it succeeds, a connection to the new database saw the same
  pages as a connection to the source when the copy finished.
\<close>

theorem sql_backup_complete:
  assumes ok: "sqliteOk Q opens pages" and run: "SqlBackup Q srcDB dstDir dbFileName w = (e, w')"
  shows "opens w' = opens w \<and>
    (e = None \<longrightarrow> (\<exists>w1 w2 w3 w4 dst dc sc d s v.
      SqlDB Q (filepathJoin [dstDir, dbFileName @ ''?cache=shared'']) w = (Inr dst, w1) \<and>
      sqConn Q dst w2 = (Inr dc, w3) \<and> sqConn Q srcDB w3 = (Inr sc, w4) \<and>
      sqRaw Q dc = Some d \<and> sqRaw Q sc = Some s \<and> pages v d = pages v s \<and>
      w' = sqCloseDB Q dst (sqCloseConn Q dc (sqCloseConn Q sc v))))"
proof -
  have o: "opens v' = (case r of Inl _ \<Rightarrow> opens v | Inr d \<Rightarrow> add_mset (Inl d) (opens v))"
      if "SqlDB Q f v = (r, v')" for f v r v'
  proof -
    obtain x v1 where x: "sqOpen Q (''file:'' @ f) v = (x, v1)" by (rule prod.exhaust)
    note ok [unfolded sqliteOk_def, THEN conjunct1, rule_format, OF x]
    moreover have "opens (sqSetMaxOpenConns Q d 1 v1) = opens v1" for d using ok unfolding sqliteOk_def by metis
    ultimately show ?thesis using that x by (auto simp: SqlDB_def split: sum.splits)
  qed
  have c: "opens v' = (case r of Inl _ \<Rightarrow> opens v | Inr x \<Rightarrow> add_mset (Inr x) (opens v))"
      if "sqConn Q d v = (r, v')" for d v r v'
    by (rule ok [unfolded sqliteOk_def, THEN conjunct2, THEN conjunct1, rule_format, OF that])
  have p: "opens v' = opens v" if "sqPing Q d v = (r, v')" for d v r v'
    using ok that unfolding sqliteOk_def by (metis snd_conv)
  have cl: "opens (sqCloseDB Q d v) = opens v - {#Inl d#}" "opens (sqCloseConn Q x v) = opens v - {#Inr x#}" for d x v
    using ok unfolding sqliteOk_def by metis+
  have b: "opens v' = opens v" if "backupRaw Q dc sc v = (r, v')" for dc sc v r v'
    using backupRaw_opens [OF ok, of dc sc v] that by simp
  obtain r1 w1 where db: "SqlDB Q (filepathJoin [dstDir, dbFileName @ ''?cache=shared'']) w = (r1, w1)" by (rule prod.exhaust)
  show ?thesis
  proof (cases r1)
    case (Inl err)
    with run db o [OF db] show ?thesis by (auto simp: SqlBackup_def)
  next
    case (Inr dst)
    note run = run [unfolded SqlBackup_def, simplified db Inr prod.case sum.case apsnd_def map_prod_def]
    have "opens w' = opens w"
      using run o [OF db] Inr by (auto simp: cl dest!: p c b split: prod.splits option.splits sum.splits)
    moreover have "\<exists>w2 dc w3 sc w4 v. sqConn Q dst w2 = (Inr dc, w3) \<and> sqConn Q srcDB w3 = (Inr sc, w4) \<and>
        backupRaw Q dc sc w4 = (None, v) \<and> w' = sqCloseDB Q dst (sqCloseConn Q dc (sqCloseConn Q sc v))" if "e = None"
      using run that by (clarsimp split: prod.splits option.splits sum.splits) blast
    ultimately show ?thesis using backupRaw_copies [OF ok] db Inr by metis
  qed
qed

text \<open>A driver with two databases, of which the first is the backup: its pages are there once they are copied.\<close>

definition demoSqlite :: "(bool, bool, bool, unit, (bool + bool) multiset \<times> bool) sqliteEnv" where
  "demoSqlite =
     \<lparr>sqOpen = (\<lambda>f w. (Inr True, (add_mset (Inl True) (fst w), snd w))), sqSetMaxOpenConns = (\<lambda>d n w. w),
      sqPing = (\<lambda>d w. (None, w)), sqConn = (\<lambda>d w. (Inr d, (add_mset (Inr d) (fst w), snd w))),
      sqCloseConn = (\<lambda>c w. (fst w - {#Inr c#}, snd w)), sqCloseDB = (\<lambda>d w. (fst w - {#Inl d#}, snd w)),
      sqRaw = Some, sqBackup = (\<lambda>r n r' n' w. (Inr (), (fst w, False))),
      sqStep = (\<lambda>b k w. (Inr (k < 0), (fst w, k < 0))), sqPageCount = (\<lambda>b w. 3),
      sqRemaining = (\<lambda>b w. if snd w then 0 else 3), sqFinish = (\<lambda>b w. (None, w))\<rparr>"

theorem sql_backup_complete_witness:
  "SqlBackup demoSqlite False ''dir'' ''boost.db'' ({#}, False) = (None, ({#}, True))"
proof -
  have ok: "sqliteOk demoSqlite fst (\<lambda>w r. if r \<and> \<not> snd w then [] else [1::nat])"
    by (auto simp: sqliteOk_def demoSqlite_def)
  obtain e w' where run: "SqlBackup demoSqlite False ''dir'' ''boost.db'' ({#}, False) = (e, w')" by (rule prod.exhaust)
  moreover have "e = None \<and> snd w'"
    using run by (auto simp: SqlBackup_def SqlDB_def demoSqlite_def backupRaw_def backupPages_def initialError_def
      finalError_def Let_def)
  ultimately show ?thesis using sql_backup_complete [OF ok run] by (cases w') simp
qed

section \<open>The URL of a transfer\<close>

definition Libp2pScheme :: string where "Libp2pScheme = ''libp2p''"

record 'm TransportUrl =
  tuScheme :: string
  tuUrl :: string
  tuPeerID :: string
  tuMultiaddr :: "'m option"

text \<open>
  The libraries: \<open>url.Parse\<close> (scheme and host), \<open>peer.AddrInfoFromString\<close> (the peer ID and the addresses), the text of a peer
  ID, and \<open>maurl.ToURL\<close> (its host).
\<close>

record 'm urlEnv =
  ueParse :: "string \<Rightarrow> goerr + string \<times> string"
  ueAddrInfo :: "string \<Rightarrow> goerr + string \<times> 'm list"
  uePeerString :: "string \<Rightarrow> string"
  ueToURL :: "'m \<Rightarrow> goerr + string"

definition parseLibp2pUrl :: "'m urlEnv \<Rightarrow> string \<Rightarrow> goerr + 'm TransportUrl" where
  "parseLibp2pUrl U urlStr =
     (let prefix = Libp2pScheme @ ''://'' in
      if \<not> hasPrefix urlStr prefix then Inl (errorf (''libp2p URL '' @ urlStr @ '' must start with prefix '' @ prefix))
      else
        (case ueAddrInfo U (drop (length prefix) urlStr) of
           Inl err \<Rightarrow> Inl (errorf_w (''parsing address info from url '' @ urlStr @ '': '') err)
         | Inr (pid, addrs) \<Rightarrow>
             if length addrs \<noteq> 1 then Inl (errorf (''expected only one address in url '' @ urlStr))
             else Inr \<lparr>tuScheme = Libp2pScheme, tuUrl = Libp2pScheme @ ''://'' @ uePeerString U pid, tuPeerID = pid,
                       tuMultiaddr = Some (addrs ! 0)\<rparr>))"

definition ParseUrl :: "'m urlEnv \<Rightarrow> string \<Rightarrow> goerr + 'm TransportUrl" where
  "ParseUrl U urlStr =
     (case ueParse U urlStr of
        Inl err \<Rightarrow> Inl (errorf_w (''parsing url '' @ urlStr @ '': '') err)
      | Inr (scheme, host) \<Rightarrow>
          if scheme = [] then Inl (errorf (''parsing url '' @ urlStr @ '': could not parse scheme''))
          else if scheme = Libp2pScheme then parseLibp2pUrl U urlStr
          else Inr \<lparr>tuScheme = scheme, tuUrl = urlStr, tuPeerID = [], tuMultiaddr = None\<rparr>)"

record Transfer =
  tfType :: string
  tfClientID :: string
  tfParams :: string
  tfSize :: u64

text \<open>\<open>unmarshal\<close> reads the URL out of the JSON parameters.\<close>

definition Transfer_Host :: "(string \<Rightarrow> goerr + string) \<Rightarrow> 'm urlEnv \<Rightarrow> Transfer \<Rightarrow> goerr + string" where
  "Transfer_Host unmarshal U t =
     (if tfType t \<noteq> ''http'' \<and> tfType t \<noteq> ''libp2p'' then
        Inl (errorf (''cannot parse params for unrecognized transfer type '' @ tfType t))
      else
        (case unmarshal (tfParams t) of
           Inl err \<Rightarrow> Inl (errorf_w (''failed to de-serialize transport params bytes '' @ tfParams t @ '': '') err)
         | Inr u0 \<Rightarrow>
             (case ParseUrl U u0 of
                Inl err \<Rightarrow> Inl (errorf_w (''cannot parse url '' @ u0 @ '': '') err)
              | Inr u \<Rightarrow>
                  if tuScheme u = Libp2pScheme then
                    (case tuMultiaddr u of
                       None \<Rightarrow> Inl (errorf ''no multiaddr'')
                     | Some m \<Rightarrow> (case ueToURL U m of Inl err \<Rightarrow> Inl err | Inr host \<Rightarrow> Inr host))
                  else
                    (case ueParse U (tuUrl u) of
                       Inl err \<Rightarrow> Inl (errorf_w (''cannot parse url '' @ tuUrl u @ '' from '' @ u0 @ '': '') err)
                     | Inr (scheme, host) \<Rightarrow> Inr host))))"

text \<open>
  The host of a transfer: for \<open>http\<close> and \<open>libp2p\<close> transfers, that of the URL, or of the one address of a libp2p URL. The branch
  without an address and the second parse never fail.
\<close>

lemma parseLibp2pUrl_Inr:
  "parseLibp2pUrl U u = Inr tu \<longleftrightarrow>
    hasPrefix u ''libp2p://'' \<and> (\<exists>pid m. ueAddrInfo U (drop 9 u) = Inr (pid, [m]) \<and>
      tu = \<lparr>tuScheme = Libp2pScheme, tuUrl = ''libp2p://'' @ uePeerString U pid, tuPeerID = pid, tuMultiaddr = Some m\<rparr>)"
proof -
  have one: "length xs = Suc 0 \<longleftrightarrow> (\<exists>x. xs = [x])" for xs :: "'m list" by (cases xs) auto
  show ?thesis
    by (auto simp: parseLibp2pUrl_def Let_def Libp2pScheme_def one numeral_eq_Suc split: sum.splits prod.splits)
qed

lemma ParseUrl_Inr:
  "ParseUrl U u = Inr tu \<longleftrightarrow>
    (\<exists>scheme h. ueParse U u = Inr (scheme, h) \<and> scheme \<noteq> [] \<and>
      (if scheme = Libp2pScheme then parseLibp2pUrl U u = Inr tu
       else tu = \<lparr>tuScheme = scheme, tuUrl = u, tuPeerID = [], tuMultiaddr = None\<rparr>))"
  by (auto simp: ParseUrl_def split: sum.splits prod.splits)

lemma Transfer_Host_Inr:
  "Transfer_Host unmarshal U t = Inr host \<longleftrightarrow>
    (tfType t = ''http'' \<or> tfType t = ''libp2p'') \<and>
    (\<exists>u tu. unmarshal (tfParams t) = Inr u \<and> ParseUrl U u = Inr tu \<and>
      (if tuScheme tu = Libp2pScheme then (\<exists>m. tuMultiaddr tu = Some m \<and> ueToURL U m = Inr host)
       else (\<exists>scheme. ueParse U u = Inr (scheme, host))))"
proof -
  have "tuUrl tu = u" if "ParseUrl U u = Inr tu" "tuScheme tu \<noteq> Libp2pScheme" for u tu
    using that by (auto simp: ParseUrl_Inr parseLibp2pUrl_Inr split: if_splits)
  then show ?thesis
    by (auto simp: Transfer_Host_def split: sum.splits option.splits prod.splits if_splits)
qed

section \<open>util.go\<close>

text \<open>The node API: the head's tipset key, the miner's window proof type, the network version, and the seal proof types.\<close>

record ('k, 'p, 'v) sectorEnv =
  szHead :: "goerr + string"
  szTipSetKey :: "string \<Rightarrow> goerr + 'k"
  szWindowPoSt :: "address \<Rightarrow> 'k \<Rightarrow> goerr + 'p"
  szNetworkVersion :: "'k \<Rightarrow> goerr + 'v"
  szPreferredSealProof :: "'v \<Rightarrow> 'p \<Rightarrow> bool \<Rightarrow> goerr + 'p"
  szSectorSize :: "'p \<Rightarrow> goerr + u64"

definition GetSectorSize :: "('k, 'p, 'v) sectorEnv \<Rightarrow> address \<Rightarrow> goerr + u64 \<times> 'v" where
  "GetSectorSize Z maddr =
     (case szHead Z of Inl err \<Rightarrow> Inl err | Inr key \<Rightarrow>
      (case szTipSetKey Z key of Inl err \<Rightarrow> Inl err | Inr tsk \<Rightarrow>
       (case szWindowPoSt Z maddr tsk of Inl err \<Rightarrow> Inl err | Inr wp \<Rightarrow>
        (case szNetworkVersion Z tsk of Inl err \<Rightarrow> Inl err | Inr ver \<Rightarrow>
         (case szPreferredSealProof Z ver wp False of Inl err \<Rightarrow> Inl err | Inr spt \<Rightarrow>
          (case szSectorSize Z spt of Inl err \<Rightarrow> Inl err | Inr sectorSize \<Rightarrow> Inr (sectorSize, ver)))))))"

text \<open>The flag \<open>actor\<close> (\<open>None\<close> when it is not set), or the address that the miner reports; the connection to it is closed.\<close>

definition GetActorAddress ::
  "(string \<Rightarrow> goerr + address) \<Rightarrow> ('w \<Rightarrow> (goerr + 'm) \<times> 'w) \<Rightarrow> ('m \<Rightarrow> goerr + address) \<Rightarrow> ('m \<Rightarrow> 'w \<Rightarrow> 'w) \<Rightarrow>
    string option \<Rightarrow> 'w \<Rightarrow> (goerr + address) \<times> 'w" where
  "GetActorAddress newFromString getMinerAPI actorAddress closer actor w =
     (case actor of
        Some a \<Rightarrow> (newFromString a, w)
      | None \<Rightarrow>
          (case getMinerAPI w of
             (Inl err, w1) \<Rightarrow> (Inl err, w1)
           | (Inr m, w1) \<Rightarrow>
               ((case actorAddress m of
                   Inl err \<Rightarrow> Inl (errorf_w ''getting actor address: '' err)
                 | Inr maddr \<Rightarrow> Inr maddr), closer m w1)))"

section \<open>shutdown.go\<close>

record 'w ShutdownHandler =
  shComponent :: string
  shStopFunc :: "'w \<Rightarrow> goerr option \<times> 'w"

datatype shutdownEvent = Sigterm | Sigint | Triggered

fun shutdownLoop :: "'w ShutdownHandler list \<Rightarrow> 'w \<Rightarrow> (string \<times> goerr option) list \<times> 'w" where
  "shutdownLoop [] w = ([], w)"
| "shutdownLoop (h # handlers) w =
     (case shStopFunc h w of (e, w1) \<Rightarrow> apfst (\<lambda>log. (shComponent h, e) # log) (shutdownLoop handlers w1))"

text \<open>
  The goroutine waits for the first signal or trigger (\<open>None\<close> while there is none). The result is whether the
  returned channel is closed, and what was logged of the handlers.
\<close>

definition MonitorShutdown :: "shutdownEvent option \<Rightarrow> 'w ShutdownHandler list \<Rightarrow> 'w \<Rightarrow> bool \<times> (string \<times> goerr option) list \<times> 'w" where
  "MonitorShutdown ev handlers w =
     (case ev of None \<Rightarrow> (False, [], w) | Some _ \<Rightarrow> (True, shutdownLoop handlers w))"

text \<open>Every handler runs once and in order, also after one that fails, and then the channel is closed.\<close>

lemma shutdownLoop_all:
  "map fst (fst (shutdownLoop hs w)) = map shComponent hs"
  "snd (shutdownLoop hs w) = fold (\<lambda>h w. snd (shStopFunc h w)) hs w"
  by (induction hs arbitrary: w) (auto split: prod.split)

lemma MonitorShutdown_all:
  "MonitorShutdown ev handlers w = (closed, log, w') \<Longrightarrow>
    closed = (ev \<noteq> None) \<and> (if closed then map fst log = map shComponent handlers \<and>
      w' = fold (\<lambda>h w. snd (shStopFunc h w)) handlers w else log = [] \<and> w' = w)"
  using shutdownLoop_all [of handlers w] by (auto simp: MonitorShutdown_def split: option.splits)

end
