(* ===== verification/Commands.thy ===== *)
theory Commands
  imports ResealFiles NodeUtil
begin

text \<open>
  The commands of \<open>src/cmd\<close> around the models of the other theories: creating car files (\<open>create.go\<close>) and the
  setup of \<open>gen-c1\<close> and \<open>reseal\<close> (\<open>gen.go\<close>, \<open>reseal.go\<close>). The txcar library, the node, the sealer and the database
  connection are parameters; a flag that was not given is \<open>None\<close> or the empty text.
\<close>

section \<open>create.go\<close>

text \<open>A car file has its path, piece CID, piece size and size.\<close>

record carPiece =
  cpPieceCID :: string
  cpPieceSize :: u64
  cpCarSize :: u64

record 'w carEnv =
  ceNewKey :: "'w \<Rightarrow> string \<times> 'w"
  ceParseKey :: "string \<Rightarrow> goerr + string"
  ceCreateCar :: "string \<Rightarrow> u64 \<Rightarrow> 'w \<Rightarrow> (goerr + string \<times> carPiece) \<times> 'w"
  ceCreateUnsealed :: "carPiece \<Rightarrow> string \<Rightarrow> 'w \<Rightarrow> (goerr + string) \<times> 'w"
  ceRemove :: "string \<Rightarrow> 'w \<Rightarrow> goerr option \<times> 'w"

definition carLine :: "string \<Rightarrow> carPiece \<Rightarrow> string" where
  "carLine key p = key @ [CHR 0x09] @ cpPieceCID p @ [CHR 0x09] @ show_u64 (cpPieceSize p) @ [CHR 0x09] @ show_u64 (cpCarSize p)"

text \<open>The results are the error, the lines printed and the state.\<close>

definition CreateCar ::
  "'w carEnv \<Rightarrow> u64 \<Rightarrow> bool \<Rightarrow> string option \<Rightarrow> 'w \<Rightarrow> goerr option \<times> string list \<times> 'w" where
  "CreateCar C version unsealed keyFlag w =
     (case (case keyFlag of
              None \<Rightarrow> apfst Inr (ceNewKey C w)
            | Some keyStr \<Rightarrow>
                ((case ceParseKey C keyStr of Inl err \<Rightarrow> Inl (errorf ''key is not uuid'') | Inr key \<Rightarrow> Inr key), w)) of
        (Inl err, w1) \<Rightarrow> (Some err, [], w1)
      | (Inr key, w1) \<Rightarrow>
          (case ceCreateCar C key version w1 of
             (Inl err, w2) \<Rightarrow> (Some err, [], w2)
           | (Inr (carFile, p), w2) \<Rightarrow>
               let printed = [''carFile:'' @ carFile, carLine key p] in
               if unsealed then
                 (case ceCreateUnsealed C p carFile w2 of
                    (Inl err, w3) \<Rightarrow> (Some err, printed, w3)
                  | (Inr unsealedFile, w3) \<Rightarrow> (None, printed @ [''unsealedFile:'' @ unsealedFile], w3))
               else (None, printed, w2)))"

fun batchLoopCar :: "'w carEnv \<Rightarrow> u64 \<Rightarrow> nat \<Rightarrow> 'w \<Rightarrow> goerr option \<times> string list \<times> 'w" where
  "batchLoopCar C version 0 w = (None, [], w)"
| "batchLoopCar C version (Suc n) w =
     (case ceNewKey C w of
        (key, w0) \<Rightarrow>
          (case ceCreateCar C key version w0 of
             (Inl err, w1) \<Rightarrow> (Some err, [], w1)
           | (Inr (destFile, p), w1) \<Rightarrow>
               (case ceRemove C destFile w1 of
                  (Some err, w2) \<Rightarrow> (Some err, [], w2)
                | (None, w2) \<Rightarrow> apsnd (apfst (\<lambda>ls. carLine key p # ls)) (batchLoopCar C version n w2))))"

text \<open>\<open>int(count)\<close> of a count from \<open>2 ^ 63\<close> on is negative, and nothing is created.\<close>

definition BatchCreateCar :: "'w carEnv \<Rightarrow> u64 \<Rightarrow> u64 \<Rightarrow> 'w \<Rightarrow> goerr option \<times> string list \<times> 'w" where
  "BatchCreateCar C version n w = batchLoopCar C version (nat (sint n)) w"

text \<open>
  What the car library and the file system promise: \<open>files\<close> are the files; a car file is new, and removing takes away that file only.
\<close>

definition carFiles :: "'w carEnv \<Rightarrow> ('w \<Rightarrow> string set) \<Rightarrow> bool" where
  "carFiles C files \<longleftrightarrow>
     (\<forall>w. files (snd (ceNewKey C w)) = files w) \<and>
     (\<forall>k v w f p w'. ceCreateCar C k v w = (Inr (f, p), w') \<longrightarrow> f \<notin> files w \<and> files w' = insert f (files w)) \<and>
     (\<forall>k v w err w'. ceCreateCar C k v w = (Inl err, w') \<longrightarrow> files w' = files w) \<and>
     (\<forall>f w e w'. ceRemove C f w = (e, w') \<longrightarrow> files w' = (if e = None then files w - {f} else files w))"

lemma batchLoopCar_files:
  assumes "carFiles C files" and "batchLoopCar C version n w = (e, ls, w')"
  shows "length ls \<le> n \<and> (e = None \<longleftrightarrow> length ls = n) \<and> (e = None \<longrightarrow> files w' = files w) \<and>
    (\<exists>f. files w' \<subseteq> insert f (files w)) \<and> files w \<subseteq> files w'"
  using assms(2)
proof (induction n arbitrary: w e ls)
  case (Suc n)
  note ok = assms(1) [unfolded carFiles_def]
  obtain key w0 where k: "ceNewKey C w = (key, w0)" by (rule prod.exhaust)
  with ok have f0: "files w0 = files w" by (metis snd_conv)
  obtain r w1 where c: "ceCreateCar C key version w0 = (r, w1)" by (rule prod.exhaust)
  show ?case
  proof (cases r)
    case (Inl err)
    with ok c f0 have "files w1 = files w" by metis
    with Suc.prems k c Inl show ?thesis by auto
  next
    case (Inr fp)
    obtain f p where fp: "fp = (f, p)" by (rule prod.exhaust)
    with ok c f0 Inr have f1: "f \<notin> files w" "files w1 = insert f (files w)" by metis+
    obtain e2 w2 where rm: "ceRemove C f w1 = (e2, w2)" by (rule prod.exhaust)
    with ok have f2: "files w2 = (if e2 = None then files w1 - {f} else files w1)" by blast
    show ?thesis
    proof (cases e2)
      case None
      obtain ls' where b: "batchLoopCar C version n w2 = (e, ls', w')" "ls = carLine key p # ls'"
        using Suc.prems k c Inr fp rm None by (cases "batchLoopCar C version n w2") auto
      from f1 f2 None have "files w2 = files w" by auto
      with Suc.IH [OF b(1)] b(2) show ?thesis by auto
    next
      case (Some err)
      with Suc.prems k c Inr fp rm f1 f2 show ?thesis by auto
    qed
  qed
qed auto

text \<open>
  A batch prints a line for each car file it made and leaves none of them behind: the files are those of before, but for the one whose
  removal failed; the batch succeeds exactly when it has printed as many lines as it was asked for.
\<close>

theorem batch_leaves_no_car:
  assumes "carFiles C files" and "BatchCreateCar C version n w = (e, ls, w')"
  shows "(e = None \<longleftrightarrow> length ls = nat (sint n)) \<and> (e = None \<longrightarrow> files w' = files w) \<and>
    (\<exists>f. files w' \<subseteq> insert f (files w)) \<and> files w \<subseteq> files w'"
  using batchLoopCar_files [OF assms(1) assms(2) [unfolded BatchCreateCar_def]] by blast

section \<open>The setup of gen-c1 and reseal\<close>

text \<open>
  The full node with its closer, the actor address and sector size (\<open>NodeUtil\<close>), the sealer over a directory, the
  connection to the database, the ID of an address, and the seal proof of a sector size.
\<close>

record 's setupEnv =
  suFullNode :: "'s \<Rightarrow> goerr option \<times> 's"
  suCloser :: "'s \<Rightarrow> 's"
  suActorAddress :: "'s \<Rightarrow> (goerr + address) \<times> 's"
  suSectorSize :: "address \<Rightarrow> goerr + u64 \<times> nat"
  suNewSealer :: "string \<Rightarrow> goerr option"
  suNewDB :: "string list \<Rightarrow> string \<Rightarrow> string \<Rightarrow> string \<Rightarrow> string \<Rightarrow> string \<Rightarrow> 's \<Rightarrow> goerr option \<times> 's"
  suIDFromAddress :: "address \<Rightarrow> goerr + u64"
  suSealProof :: "u64 \<Rightarrow> nat \<Rightarrow> goerr + int"

record dbFlags =
  dbHost :: string
  dbUser :: string
  dbPwd :: string

definition connectDB :: "'s setupEnv \<Rightarrow> dbFlags \<Rightarrow> 's \<Rightarrow> goerr option \<times> 's" where
  "connectDB S fl = suNewDB S [dbHost fl] (dbUser fl) (dbPwd fl) ''yugabyte'' ''5433'' []"

definition GenC1Command :: "'s setupEnv \<Rightarrow> 's rsEnv \<Rightarrow> (u64 \<Rightarrow> u64) \<Rightarrow> dbFlags \<Rightarrow> string \<Rightarrow> u64 \<Rightarrow> 's \<Rightarrow> goerr option \<times> 's" where
  "GenC1Command S E padded fl sdir sid s =
     (case suFullNode S s of
        (Some err, s1) \<Rightarrow> (Some err, s1)
      | (None, s1) \<Rightarrow>
          apsnd (suCloser S)
            (case suActorAddress S s1 of
               (Inl err, s2) \<Rightarrow> (Some err, s2)
             | (Inr maddr, s2) \<Rightarrow>
                 (case suSectorSize S maddr of
                    Inl err \<Rightarrow> (Some err, s2)
                  | Inr (sectorSize, nv) \<Rightarrow>
                      (case suNewSealer S sdir of
                         Some err \<Rightarrow> (Some err, s2)
                       | None \<Rightarrow>
                           (case connectDB S fl s2 of
                              (Some err, s3) \<Rightarrow> (Some err, s3)
                            | (None, s3) \<Rightarrow>
                                (case suIDFromAddress S maddr of
                                   Inl err \<Rightarrow> (Some err, s3)
                                 | Inr actor \<Rightarrow>
                                     (case suSealProof S sectorSize nv of
                                        Inl err \<Rightarrow> (Some err, s3)
                                      | Inr spt \<Rightarrow> (GenC1 E s3 padded sectorSize sid actor spt, s3))))))))"

text \<open>The setup of \<open>reseal\<close> with the node connected, which gives what its goroutines start with: the directory, the actor, the proof and the sectors.\<close>

definition resealOpen ::
  "'s setupEnv \<Rightarrow> 's rsEnv \<Rightarrow> dbFlags \<Rightarrow> string \<Rightarrow> string \<Rightarrow> string \<Rightarrow> (goerr + string) \<Rightarrow> 's \<Rightarrow>
    (string \<times> u64 \<times> int \<times> SectorSealInfo list) outcome \<times> 's" where
  "resealOpen S E fl sdirFlag home storageDir sidFile s =
     (case suActorAddress S s of
        (Inl err, s1) \<Rightarrow> (Fail err, s1)
      | (Inr maddr, s1) \<Rightarrow>
          (case suSectorSize S maddr of
             Inl err \<Rightarrow> (Fail err, s1)
           | Inr (sectorSize, nv) \<Rightarrow>
               (case resealDir sdirFlag home of
                  Inl err \<Rightarrow> (Fail err, s1)
                | Inr sdir \<Rightarrow>
                    (case prepareDirs E [sdir, storageDir] s1 of
                       (Some err, s2) \<Rightarrow> (Fail err, s2)
                     | (None, s2) \<Rightarrow>
                         (case connectDB S fl s2 of
                            (Some err, s3) \<Rightarrow> (Fail err, s3)
                          | (None, s3) \<Rightarrow>
                              (case suNewSealer S sdir of
                                 Some err \<Rightarrow> (Fail err, s3)
                               | None \<Rightarrow>
                                   (case suIDFromAddress S maddr of
                                      Inl err \<Rightarrow> (Fail err, s3)
                                    | Inr actor \<Rightarrow>
                                        (case suSealProof S sectorSize nv of
                                           Inl err \<Rightarrow> (Fail err, s3)
                                         | Inr spt \<Rightarrow>
                                             (case ReadSectorSealInfos (rsUuidParse E) sidFile of
                                                Ret (infos, None) \<Rightarrow> (Ret (sdir, actor, spt, infos), s3)
                                              | Ret (infos, Some err) \<Rightarrow> (Fail err, s3)
                                              | Fail err \<Rightarrow> (Fail err, s3)
                                              | Panic \<Rightarrow> (Panic, s3))))))))))"

text \<open>The whole setup: the connection to the full node is closed when a later step fails.\<close>

definition resealSetup ::
  "'s setupEnv \<Rightarrow> 's rsEnv \<Rightarrow> dbFlags \<Rightarrow> string \<Rightarrow> string \<Rightarrow> string \<Rightarrow> (goerr + string) \<Rightarrow> 's \<Rightarrow>
    (string \<times> u64 \<times> int \<times> SectorSealInfo list) outcome \<times> 's" where
  "resealSetup S E fl sdirFlag home storageDir sidFile s =
     (case suFullNode S s of
        (Some err, s1) \<Rightarrow> (Fail err, s1)
      | (None, s1) \<Rightarrow>
          (case resealOpen S E fl sdirFlag home storageDir sidFile s1 of
             (Ret x, s2) \<Rightarrow> (Ret x, s2)
           | (Fail err, s2) \<Rightarrow> (Fail err, suCloser S s2)
           | (Panic, s2) \<Rightarrow> (Panic, suCloser S s2)))"

definition RsReady :: "'s rsEnv \<Rightarrow> string \<Rightarrow> 's \<Rightarrow> bool" where
  "RsReady E path s \<longleftrightarrow> path \<noteq> [] \<longrightarrow> (\<forall>t\<in>set (rsPathTypes E). rsStat E s (filepathJoin [path, t]) = None)"

text \<open>The file system: a directory that was made is there, and making one leaves the others.\<close>

definition rsDirs :: "'s rsEnv \<Rightarrow> bool" where
  "rsDirs E \<longleftrightarrow> (\<forall>s p s'. rsMkdirAll E s p = (None, s') \<longrightarrow>
     rsStat E s' p = None \<and> (\<forall>q. rsStat E s q = None \<longrightarrow> rsStat E s' q = None))"

lemma prepareTypes_ready:
  assumes "rsDirs E" and "prepareTypes E path ts s = (None, s')"
  shows "(\<forall>t\<in>set ts. rsStat E s' (filepathJoin [path, t]) = None) \<and> (\<forall>q. rsStat E s q = None \<longrightarrow> rsStat E s' q = None)"
  using assms(2)
proof (induction ts arbitrary: s)
  case (Cons t ts)
  then show ?case using assms(1) unfolding rsDirs_def
    by (auto split: option.splits prod.splits)
qed simp

lemma prepareDirs_ready:
  assumes "rsDirs E" and "prepareDirs E paths s = (None, s')"
  shows "(\<forall>path\<in>set paths. RsReady E path s') \<and> (\<forall>q. rsStat E s q = None \<longrightarrow> rsStat E s' q = None)"
  using assms(2)
proof (induction paths arbitrary: s)
  case (Cons path paths)
  then show ?case using prepareTypes_ready [OF assms(1)]
    by (fastforce simp: RsReady_def split: if_splits option.splits prod.splits)
qed simp

text \<open>
  After the setup of \<open>reseal\<close> the directories of all path types exist in the seal directory and in the storage directory, if one is
  given, and the sectors are those of the file.
\<close>

lemma reseal_setup_ready:
  assumes dirs: "rsDirs E" and db: "\<And>v q e v'. connectDB S fl v = (e, v') \<Longrightarrow> rsStat E v' q = rsStat E v q"
    and run: "resealSetup S E fl sdirFlag home storageDir sidFile s = (Ret (sdir, actor, spt, infos), s')"
  shows "sdir = (if sdirFlag = [] then filepathJoin [home, ''redo''] else sdirFlag) \<and>
    RsReady E sdir s' \<and> RsReady E storageDir s' \<and> ReadSectorSealInfos (rsUuidParse E) sidFile = Ret (infos, None)"
proof -
  from run obtain s1 s2 where "prepareDirs E [sdir, storageDir] s1 = (None, s2)" "connectDB S fl s2 = (None, s')"
    "resealDir sdirFlag home = Inr sdir" "ReadSectorSealInfos (rsUuidParse E) sidFile = Ret (infos, None)"
    by (auto simp: resealSetup_def resealOpen_def simp del: prepareDirs.simps split: prod.splits sum.splits option.splits outcome.splits)
  with prepareDirs_ready [OF dirs this(1)] db [OF this(2)] show ?thesis
    by (auto simp: RsReady_def resealDir_def split: if_splits)
qed

section \<open>A concrete batch\<close>

definition demoCar :: "(nat \<times> string set) carEnv" where
  "demoCar =
     \<lparr>ceNewKey = (\<lambda>w. (replicate (fst w) CHR ''k'', (fst w + 1, snd w))), ceParseKey = Inr,
      ceCreateCar = (\<lambda>k v w. if k @ ''.car'' \<in> snd w then (Inl (errorf ''exists''), w)
        else (Inr (k @ ''.car'', \<lparr>cpPieceCID = ''p'', cpPieceSize = 2, cpCarSize = 1\<rparr>), (fst w, insert (k @ ''.car'') (snd w)))),
      ceCreateUnsealed = (\<lambda>p f w. (Inr f, w)), ceRemove = (\<lambda>f w. (None, (fst w, snd w - {f})))\<rparr>"

theorem batch_leaves_no_car_witness:
  "snd (snd (snd (BatchCreateCar demoCar 1 2 (0, {''x''})))) = {''x''}"
proof -
  have ok: "carFiles demoCar snd" by (auto simp: carFiles_def demoCar_def)
  obtain e ls w' where run: "BatchCreateCar demoCar 1 2 (0, {''x''}) = (e, ls, w')" by (rule prod_cases3)
  have "nat (sint (2 :: u64)) = 2" by simp
  then have "e = None"
    using run by (auto simp: BatchCreateCar_def demoCar_def numeral_2_eq_2 split: if_splits)
  with batch_leaves_no_car [OF ok run] run show ?thesis by simp
qed

end
