(* ===== verification/SectorRun.thy ===== *)
theory SectorRun
  imports SectorDb
begin

text \<open>
  \<open>SectorStateMgr.Run\<close> of \<open>lib/boost/sectorstatemgr/sectorstatemgr.go\<close>: a check at once, then one at each tick until the
  context ends. A tick carries what the node and the storage API answer at that time, the time, and the order in
  which the update map is walked.
\<close>

record 'd ssmTick =
  tkEnv :: "'d ssmEnv"
  tkNow :: time
  tkOrder :: "SectorID list"

definition ssmCheck ::
  "'d sqlDb \<Rightarrow> (sqlVal list \<Rightarrow> goerr + sectorRow) \<Rightarrow> bool \<Rightarrow> address \<Rightarrow> 'd ssmTick \<Rightarrow> 'd \<Rightarrow>
    (goerr + SectorStateUpdates) \<times> 'd" where
  "ssmCheck D scan redeclare maddr k d =
     checkForUpdates (ssmOn D scan (tkNow k) (tkEnv k)) redeclare maddr (tkNow k) (tkOrder k) d"

text \<open>The loop over the ticks: an error is logged only. The result is what was published.\<close>

fun ssmLoop ::
  "'d sqlDb \<Rightarrow> (sqlVal list \<Rightarrow> goerr + sectorRow) \<Rightarrow> bool \<Rightarrow> address \<Rightarrow> 'd ssmTick list \<Rightarrow> 'd \<Rightarrow>
    SectorStateUpdates list \<times> 'd" where
  "ssmLoop D scan redeclare maddr [] d = ([], d)"
| "ssmLoop D scan redeclare maddr (k # ks) d =
     (case ssmCheck D scan redeclare maddr k d of
        (Inl err, d') \<Rightarrow> ssmLoop D scan redeclare maddr ks d'
      | (Inr ssu, d') \<Rightarrow> apfst (\<lambda>pubs. ssu # pubs) (ssmLoop D scan redeclare maddr ks d'))"

text \<open>\<open>time.NewTicker\<close> panics for a duration that is not positive, after the first check.\<close>

definition ssmRun ::
  "'d sqlDb \<Rightarrow> (sqlVal list \<Rightarrow> goerr + sectorRow) \<Rightarrow> bool \<Rightarrow> address \<Rightarrow> int \<Rightarrow> 'd ssmTick \<Rightarrow> 'd ssmTick list \<Rightarrow> 'd \<Rightarrow>
    SectorStateUpdates list outcome \<times> 'd" where
  "ssmRun D scan redeclare maddr duration k0 ticks d =
     (case ssmLoop D scan redeclare maddr [k0] d of
        (pubs0, d1) \<Rightarrow>
          if duration \<le> 0 then (Panic, d1)
          else (case ssmLoop D scan redeclare maddr ticks d1 of (pubs, d2) \<Rightarrow> (Ret (pubs0 @ pubs), d2)))"

lemma ssmLoop_append:
  "snd (ssmLoop D scan redeclare maddr (ks @ ks') d) =
    snd (ssmLoop D scan redeclare maddr ks' (snd (ssmLoop D scan redeclare maddr ks d)))"
  by (induction ks arbitrary: d) (auto split: prod.split sum.split)

lemma applyUpdates_rows:
  assumes "sdb_ok E dbview" and "applyUpdates E updates sids d = (e, d')" and "dbview d sid \<noteq> None"
  shows "dbview d' sid \<noteq> None"
  using assms(2,3)
proof (induction sids arbitrary: d)
  case (Cons s sids)
  show ?case
  proof (cases "updates s")
    case None
    with Cons show ?thesis by simp
  next
    case (Some st)
    obtain e1 d1 where u: "sdbUpdate E d s st = (e1, d1)" by (rule prod.exhaust)
    with assms(1) have "dbview d1 = (if e1 = None then (dbview d)(s \<mapsto> st) else dbview d)"
      unfolding sdb_ok_def by blast
    with Cons.prems(2) have "dbview d1 sid \<noteq> None" by auto
    with Cons Some u show ?thesis by (auto split: option.splits)
  qed
qed simp

lemma ssmCheck_rows:
  assumes "ssTable D scan view" and "view d sid \<noteq> None"
  shows "view (snd (ssmCheck D scan redeclare maddr k d)) sid \<noteq> None"
  using applyUpdates_rows [OF ssmOn_ok [OF assms(1)]] assms(2)
  by (auto simp: ssmCheck_def checkForUpdates_def split: sum.split prod.split option.split)

lemma ssmLoop_rows:
  assumes "ssTable D scan view" and "view d sid \<noteq> None"
  shows "view (snd (ssmLoop D scan redeclare maddr ks d)) sid \<noteq> None"
  using assms(2)
proof (induction ks arbitrary: d)
  case (Cons k ks)
  from ssmCheck_rows [OF assms(1) Cons.prems, of redeclare maddr k]
  have "view (snd (ssmCheck D scan redeclare maddr k d)) sid \<noteq> None" .
  with Cons.IH show ?case by (auto split: prod.split sum.split)
qed simp

text \<open>
  C4: The sector state manager over its SQL table, from its start through any number of ticks of which all but the last may fail,
  in part or whole: when the check of the last tick succeeds, the table has one row per sector and agrees with
  the storage list of that tick. A sector with an unsealed or sealed copy has that state, one with another copy
  only has a row, every other row is \<open>Removed\<close>, and no sector that ever had a row has lost it.
\<close>

theorem sector_run_agrees:
  assumes t: "ssTable D scan view"
    and run: "ssmRun D scan redeclare maddr duration k0 (ticks @ [k]) d = (Ret pubs, d')"
    and last: "fst (ssmCheck D scan redeclare maddr k (snd (ssmLoop D scan redeclare maddr (k0 # ticks) d))) = Inr ssu"
    and order: "\<forall>sid. Updates ssu sid \<noteq> None \<longrightarrow> sid \<in> set (tkOrder k)"
    and l: "SDB_List D scan d' = Inr rows"
  shows "\<exists>locs. storageList (tkEnv k) redeclare = Inr locs \<and> distinct (map srSectorID rows) \<and>
    (\<forall>sid. (case bestCopy (concat locs) sid of
        None \<Rightarrow> (\<forall>row\<in>set rows. srSectorID row = sid \<longrightarrow> srSealState row = stateText SealStateRemoved)
      | Some st \<Rightarrow> (\<exists>row\<in>set rows. srSectorID row = sid \<and> (st \<noteq> SealStateCache \<longrightarrow> srSealState row = stateText st)))) \<and>
    (\<forall>sid. view d sid \<noteq> None \<longrightarrow> (\<exists>row\<in>set rows. srSectorID row = sid))"
proof -
  let ?d1 = "snd (ssmLoop D scan redeclare maddr (k0 # ticks) d)"
  have "d' = snd (ssmLoop D scan redeclare maddr ((k0 # ticks) @ [k]) d)"
  proof -
    have "d' = snd (ssmLoop D scan redeclare maddr (ticks @ [k]) (snd (ssmLoop D scan redeclare maddr [k0] d)))"
      using run by (auto simp: ssmRun_def simp del: ssmLoop.simps split: prod.splits if_splits)
    also have "\<dots> = snd (ssmLoop D scan redeclare maddr ([k0] @ ticks @ [k]) d)" by (rule ssmLoop_append [symmetric])
    finally show ?thesis by (simp only: append_Cons append_Nil)
  qed
  then have d': "d' = snd (ssmLoop D scan redeclare maddr [k] ?d1)" by (simp only: ssmLoop_append)
  with last have c: "ssmCheck D scan redeclare maddr k ?d1 = (Inr ssu, d')"
    by (auto split: prod.splits sum.splits)
  let ?E = "ssmOn D scan (tkNow k) (tkEnv k)"
  have "storageList ?E redeclare = storageList (tkEnv k) redeclare" by (simp add: ssmOn_def)
  with check_for_updates_agrees_aux [OF ssmOn_ok [OF t] c [unfolded ssmCheck_def] order] obtain locs where
    locs: "storageList (tkEnv k) redeclare = Inr locs"
      "\<And>sid. view d' sid = nextState (view ?d1 sid) (bestCopy (concat locs) sid)" by auto
  note rows = SDB_List_rows [OF t l]
  have keep: "view d' sid \<noteq> None" if "view d sid \<noteq> None" for sid
    using ssmLoop_rows [OF t that, of redeclare maddr "k0 # ticks @ [k]"] d'
      ssmLoop_append [of D scan redeclare maddr "k0 # ticks" "[k]" d] by simp
  have row: "(\<exists>row\<in>set rows. srSectorID row = sid) \<longleftrightarrow> view d' sid \<noteq> None" for sid
    using rows by (metis option.distinct(1) option.exhaust)
  have "case bestCopy (concat locs) sid of
      None \<Rightarrow> (\<forall>row\<in>set rows. srSectorID row = sid \<longrightarrow> srSealState row = stateText SealStateRemoved)
    | Some st \<Rightarrow> (\<exists>row\<in>set rows. srSectorID row = sid \<and> (st \<noteq> SealStateCache \<longrightarrow> srSealState row = stateText st))" for sid
  proof (cases "bestCopy (concat locs) sid")
    case None
    have "srSealState r = stateText SealStateRemoved" if "r \<in> set rows" "srSectorID r = sid" for r
    proof -
      from rows that obtain st where st: "srSealState r = stateText st" "view d' sid = Some st" by blast
      with locs(2) [of sid] None show ?thesis by (auto simp: nextState_def split: option.splits)
    qed
    with None show ?thesis by simp
  next
    case (Some st)
    have v: "view d' sid \<noteq> None" "st \<noteq> SealStateCache \<Longrightarrow> view d' sid = Some st"
      using locs(2) [of sid] Some by (auto simp: nextState_def split: option.splits SealState.splits)
    with row [of sid] rows Some show ?thesis by auto
  qed
  with locs(1) rows keep row show ?thesis by blast
qed

text \<open>A first check that fails, then one that finds a new sector and misses the old one.\<close>

definition demoTick :: "(SectorID \<times> SealState) list ssmTick" where
  "demoTick = \<lparr>tkEnv = demoSsm, tkNow = 9, tkOrder = [newSector, oldSector]\<rparr>"

definition demoTick0 :: "(SectorID \<times> SealState) list ssmTick" where
  "demoTick0 = demoTick\<lparr>tkEnv := demoSsm\<lparr>storageList := (\<lambda>_. Inl (errorf ''lotus is down''))\<rparr>\<rparr>"

theorem sector_run_agrees_witness:
  "\<exists>d' rows. snd (ssmRun sectorMemDb sectorScan False ''m'' 3600 demoTick0 [demoTick] [(oldSector, SealStateSealed)]) = d' \<and>
    SDB_List sectorMemDb sectorScan d' = Inr rows \<and>
    (\<exists>row\<in>set rows. srSectorID row = oldSector \<and> srSealState row = stateText SealStateRemoved)"
proof -
  let ?d = "[(oldSector, SealStateSealed)]"
  have first: "ssmLoop sectorMemDb sectorScan False ''m'' [demoTick0] ?d = ([], ?d)"
    by (simp add: ssmCheck_def checkForUpdates_def refreshState_def ssmOn_def demoTick0_def demoTick_def)
  obtain d' where c: "ssmCheck sectorMemDb sectorScan False ''m'' demoTick ?d = (Inr demoSsu, d')"
    using demo_table_check by (auto simp: ssmCheck_def demoTick_def)
  obtain pubs where run: "ssmRun sectorMemDb sectorScan False ''m'' 3600 demoTick0 ([] @ [demoTick]) ?d = (Ret pubs, d')"
    using first c by (simp add: ssmRun_def)
  obtain rows where rows: "SDB_List sectorMemDb sectorScan d' = Inr rows" using sectorMemDb_list by blast
  have last: "fst (ssmCheck sectorMemDb sectorScan False ''m'' demoTick
      (snd (ssmLoop sectorMemDb sectorScan False ''m'' (demoTick0 # []) ?d))) = Inr demoSsu"
    by (simp only: first snd_conv c fst_conv)
  have ord: "\<forall>sid. Updates demoSsu sid \<noteq> None \<longrightarrow> sid \<in> set (tkOrder demoTick)"
    using demo_order by (simp add: demoTick_def)
  from sector_run_agrees [OF sectorMemDb_table run last ord rows] obtain locs where
    "storageList demoSsm False = Inr locs" "case bestCopy (concat locs) oldSector of
        None \<Rightarrow> (\<forall>row\<in>set rows. srSectorID row = oldSector \<longrightarrow> srSealState row = stateText SealStateRemoved)
      | Some st \<Rightarrow> (\<exists>row\<in>set rows. srSectorID row = oldSector \<and> (st \<noteq> SealStateCache \<longrightarrow> srSealState row = stateText st))"
    "\<exists>row\<in>set rows. srSectorID row = oldSector"
    by (auto simp: demoTick_def)
  moreover from this(1) have "bestCopy (concat locs) oldSector = None"
    by (auto simp: demoSsm_def bestCopy_def oldSector_def)
  ultimately show ?thesis using run rows by auto
qed

end
