(* ===== verification/Spec2Isabelle.thy ===== *)
theory Spec2Isabelle
  imports LdbMore LdbService PubSub CarBlockstore PieceDirProps IndexThrottle ReaderCache YbDoctorProps
    ResealFiles DirectDealsProps ConfigMigrateProps SectorAccess Harmony
    LdbTypes LidClient Accessors YbSetup SectorDb
    NodeOptions IndexJob BoostConfig PieceDirCalls NodeModules NodeUtil Commands SectorRun
begin

text \<open>
  Verification of \<open>txcartool\<close>: the tool that creates txcar files, indexes them in a local index directory and reseals their
  sectors. All paths below are under \<open>src/\<close>.

  \<^bold>\<open>The program.\<close> The command line (\<open>cmd\<close>) has four kinds of commands. \<open>create\<close> and \<open>batch\<close> make car files; \<open>gen-c1\<close> and
  \<open>reseal\<close> run the sealing stages over the rows of a database (\<open>lib/harmonydb\<close>); \<open>index\<close> builds a node (\<open>node\<close>) that
  runs one job over the piece directory. The piece directory (\<open>lib/boost/piecedirectory\<close>) answers which deals and blocks a
  piece has: it asks the index service for the places of blocks and reads the bytes through the accessor of several miners
  (\<open>lib/boost/cmd/lib\<close>, \<open>lib/boost/markets/sectoraccessor\<close>). The index service (\<open>lib/boostd-data\<close>) is reached over
  JSON-RPC (\<open>client\<close>) and has two implementations, LevelDB (\<open>ldb\<close>) and YugabyteDB (\<open>yugabyte\<close>). The piece doctor
  compares what the index says of a piece with the sector states, which the sector state manager
  (\<open>lib/boost/sectorstatemgr\<close>) keeps in a SQL table (\<open>lib/boost/db\<close>), and flags the pieces that cannot be read.
  Configuration (\<open>lib/boost/node/config\<close>) is migrated before the node reads it.

  \<^bold>\<open>Conventions.\<close> \<open>Prelude\<close> and \<open>GoStd\<close> hold what all theories share. A Go error is a text and the sentinels that \<open>errors.Is\<close>
  finds in it; a result is \<open>goerr + 'a\<close> (\<open>Inl\<close> the error), \<open>goerr option\<close>, or \<open>'a outcome\<close> where the code can panic. An
  operation that changes state takes the state and returns it. \<open>uint64\<close> is a \<open>64 word\<close>; \<open>int\<close> values that stay small
  are \<open>int\<close> or \<open>nat\<close>. Where Go iterates over a map, the order is an argument and the theorems hold for every order.
  Goroutines are threads with program counters; a step is one access to shared state, a schedule is any sequence of
  steps, and invariants are proved by induction over the reachable states. Code outside the repository is a record of functions
  that the definitions take as their first argument, and what it promises is a named predicate (\<open>world_ok\<close>, \<open>yb_ok\<close>,
  \<open>ddTable\<close>, \<open>ssTable\<close> and the like), with a concrete instance that meets it for the witnesses.

  \<^bold>\<open>The index service on LevelDB.\<close>
  \<^item> \<open>Model\<close>: the records of \<open>boostd-data/model\<close> and \<open>svc/types\<close>. \<open>Varint\<close>: \<open>encoding/binary\<close>, with its round trip. \<open>World\<close>: the
    datastore and the string forms of identifiers.
  \<^item> \<open>LdbKeys\<close>, \<open>LdbSpec\<close>: the keys of the store and the abstract index \<open>lid\<close> that a datastore state stands for (cursor,
    pieces, records, multihash lists, flags). \<open>LdbDb\<close>, \<open>LdbRemove\<close>, \<open>LdbScan\<close>: the methods of \<open>ldb/db.go\<close>, each with
    the lemma that says what it does to \<open>lid\<close>. \<open>LdbStore\<close>, \<open>LdbRefine\<close>: the methods of \<open>ldb/service.go\<close> and their refinement.
  \<^item> \<open>LdbInvariant\<close>, \<open>LdbProps\<close>, \<open>LdbMore\<close>, \<open>LdbTypes\<close>, \<open>LdbDoctor\<close>: the consistency of reachable states, adding, finding and
    removing an index, the types of the stored documents, the doctor's scan and the flags. \<open>Demo\<close> is the concrete world.
  \<^item> \<open>Service\<close>, \<open>LdbService\<close>, \<open>LidClient\<close>: the locale \<open>lid_service\<close> is the contract of the service that the doctor uses, the
    LevelDB store interprets it, and the locale \<open>rpc_service\<close> shows that it survives a transport that keeps the text of errors.
    \<open>PieceDirCalls\<close>: the calls of the piece directory that go through to the client.

  \<^bold>\<open>The index service on YugabyteDB.\<close> \<open>YbDb\<close> and \<open>YbDemo\<close>: the databases as a semantics of statements. \<open>YbStore\<close>,
  \<open>YbProps\<close>, \<open>YbIndex\<close>: \<open>yugabyte/service.go\<close>, its batches and the schedules of its goroutines. \<open>YbDoctor\<close>,
  \<open>YbDoctorProps\<close>: \<open>yugabyte/piecedoctor.go\<close>. \<open>CassMigrate\<close>, \<open>YbSetup\<close>: starting the store and the migrations.

  \<^bold>\<open>The piece directory.\<close> \<open>PieceDirectory\<close>, \<open>PieceDirProps\<close>: readers, parsing, deals and the blockstore calls. \<open>MultiReader\<close>,
  \<open>CarBlockstore\<close>: the reader that makes the offsets of a CARv2 piece valid. \<open>IndexThrottle\<close>: the throttled index
  operations. \<open>ReaderCache\<close>: the life time of shared readers. \<open>Accessors\<close>, \<open>SectorAccess\<close>: the miners' accessors and the
  cache of unsealed states (the locale \<open>piece_reader\<close> is what the blockstore needs of them). \<open>Doctor\<close>: the piece doctor.

  \<^bold>\<open>Sector states, deals, configuration and node.\<close> \<open>SectorState\<close>, \<open>SectorDb\<close>, \<open>SectorRun\<close>, \<open>PubSub\<close>: the sector state manager,
  its table, its run and its publisher. \<open>FieldDef\<close>, \<open>DealsDb\<close>, \<open>DirectDeals\<close>, \<open>DirectDealsProps\<close>: deals in SQL. \<open>Harmony\<close>:
  transactions of \<open>lib/harmonydb\<close>. \<open>ConfigFile\<close>, \<open>ConfigProps\<close>, \<open>ConfigMigrate\<close>, \<open>ConfigMigrateProps\<close>: rewriting
  and migrating the configuration file on a file system with links. \<open>BoostConfig\<close>: the configuration, its default, and
  what the node takes from it. \<open>NodeOptions\<close>, \<open>IndexJob\<close>: \<open>node/options.go\<close>, \<open>node/builder.go\<close>, the hooks of
  \<open>node/modules/piecedirectory.go\<close> and \<open>svc.go\<close>, and the job of the index node. \<open>NodeModules\<close>, \<open>NodeUtil\<close>: the API
  secret, signatures, databases, transfer URLs, sector sizes and shutdown.

  \<^bold>\<open>Commands.\<close> \<open>Reseal\<close>, \<open>ResealRun\<close>, \<open>ResealProps\<close>, \<open>ResealSafe\<close>, \<open>ResealFiles\<close>: the stages of \<open>cmd/reseal.go\<close>, its
  goroutines and throttles, and the files. \<open>Commands\<close>: creating car files and the setup of \<open>gen-c1\<close> and \<open>reseal\<close>.

  \<^bold>\<open>What is shown.\<close> On LevelDB, that every reachable state is well formed and that lookups, listings, counts and flags agree with
  the abstract index, also through the client and the doctor; on YugabyteDB, that a successful \<open>AddIndex\<close> is found under every
  schedule and that the last deal takes the piece with it. Of the concurrent parts (the throttle, the reader cache,
  the cache of unsealed states, the publisher, resealing): no panic, no slot or reader lost, and that runs end. Of the
  formats (the sector file, configuration, deal fields): round trips. Of the node: what its options build, that the
  configuration is migrated first, what its job reads, and what a failed start leaves behind.

  \<^bold>\<open>Bounds.\<close> Loops recurse on lists or on a number with a measure. Only the retries of a transaction have fuel: they are \<open>None\<close> when it runs
  out, and \<open>transaction_retries\<close> shows that one turn more than there are serialization failures is enough. A path is followed
  through at most 40 links, as Linux does. Times are nanoseconds in \<open>int\<close>. Termination of threads is a bound on the
  length of runs without new calls, and that a state without a step has no pending thread.

  \<^bold>\<open>Simplifications.\<close> Error texts leave out interpolated values in places. Progress values are rationals. \<open>trimSpace\<close> knows
  the ASCII spaces. A stage of resealing is one step, and shared variables are sequentially consistent. A block is read
  over the first readable copy, as the shared reader does when it is fresh. The datastore of the LevelDB theorems has no
  I/O errors; the SQL and CQL databases may fail at any statement. A path is a list of components in the migration.

  \<^bold>\<open>Not modelled.\<close> The declaration of commands and flags (\<open>cmd/main.go\<close>), the generated documentation table
  (\<open>config/doc_gen.go\<close>, a parameter), metrics and tracing, logging, interfaces of remote APIs (\<open>lib/boost/api\<close>,
  \<open>sealingpipeline\<close>), type declarations that nothing here uses (\<open>transport/types\<close>, \<open>deal_state.go\<close>), constructors
  that wrap one value, reflection (\<open>From\<close>, \<open>as\<close>, \<open>StructScan\<close>), the running of constructors by the dependency
  injection library, and the randomised timer of the doctor.
\<close>

end
